(* ===== verification/Prelude.thy ===== *)
theory Prelude
  imports Main "HOL-Library.Word" "HOL-Library.AList" "HOL-Library.Char_ord" "HOL-Library.Sublist"
begin

text \<open>
  What every theory of the development shares: the result type of the operations that can
  throw or that run on fuel, with its bind and its weakest precondition; the decimal printer
  behind \<open>std::to_string\<close>; the collections of facts that carry the component proofs.
\<close>

section \<open>Collections\<close>

text \<open>
  \<open>wp\<close>: rules that turn a goal about a monadic operation into goals about its parts.
  \<open>cursor_facts\<close>: how far an operation moves its cursor.
  \<open>ext_intros\<close>: an operation only adds diagnostics.
\<close>

named_theorems wp
named_theorems cursor_facts
named_theorems ext_intros

section \<open>Results\<close>

text \<open>
  C++ exceptions the compiler lets escape: \<open>std::stoull\<close> throws the first two, the typed IR
  builder and dumpers the third, the driver the fourth. \<open>NullPointer\<close> stands for following a null \<open>unique_ptr\<close> or reading
  past the end of a vector, which C++ leaves undefined. \<open>OutOfFuel\<close> is not a behaviour of the code: it marks a run
  of a fuelled definition that was cut short, and the theorems on fuel show that it comes out of
  nothing but the lowering of circular constants, where the code recurses without end.
\<close>

datatype cpp_exception =
    InvalidArgument string
  | OutOfRange string
  | LogicError string
  | RuntimeError string
  | NullPointer

datatype 'a result = Ok 'a | Throw cpp_exception | OutOfFuel

fun bindR :: "'a result \<Rightarrow> ('a \<Rightarrow> 'b result) \<Rightarrow> 'b result" where
  "bindR (Ok x) f = f x"
| "bindR (Throw e) f = Throw e"
| "bindR OutOfFuel f = OutOfFuel"

text \<open>The run ends, and if it ends normally its result satisfies the postcondition.\<close>

fun wpR :: "'a result \<Rightarrow> ('a \<Rightarrow> bool) \<Rightarrow> bool" where
  "wpR (Ok x) Q = Q x"
| "wpR (Throw e) Q = True"
| "wpR OutOfFuel Q = False"

lemma wpR_bind [wp]: "wpR m (\<lambda>x. wpR (f x) Q) \<Longrightarrow> wpR (bindR m f) Q"
  by (cases m) simp_all

lemma wpR_bindI: "wpR m P \<Longrightarrow> (\<And>x. P x \<Longrightarrow> wpR (f x) Q) \<Longrightarrow> wpR (bindR m f) Q"
  by (cases m) simp_all

lemma wpR_mono: "wpR m P \<Longrightarrow> (\<And>x. P x \<Longrightarrow> Q x) \<Longrightarrow> wpR m Q"
  by (cases m) simp_all

lemma wpR_if: "(b \<Longrightarrow> wpR m Q) \<Longrightarrow> (\<not> b \<Longrightarrow> wpR n Q) \<Longrightarrow> wpR (if b then m else n) Q"
  by simp

lemma wpR_let: "wpR (f v) Q \<Longrightarrow> wpR (Let v f) Q"
  by simp

lemma wpR_bind_Ok: "wpR (f x) Q \<Longrightarrow> wpR (bindR (Ok x) f) Q"
  by simp

lemma wpR_conj: "wpR m P \<Longrightarrow> wpR m Q \<Longrightarrow> wpR m (\<lambda>x. P x \<and> Q x)"
  by (cases m) simp_all

lemma wpR_OkD: "wpR m P \<Longrightarrow> m = Ok x \<Longrightarrow> P x"
  by simp

lemma wpR_not_OutOfFuel: "wpR m P \<Longrightarrow> m \<noteq> OutOfFuel"
  by auto

lemma bindR_eq_Ok: "bindR m f = Ok y \<longleftrightarrow> (\<exists>x. m = Ok x \<and> f x = Ok y)"
  by (cases m) auto

lemma bindR_OkE:
  assumes "bindR m f = Ok y"
  obtains x where "m = Ok x" "f x = Ok y"
  using assms by (auto simp: bindR_eq_Ok)

lemma bindR_assoc: "bindR (bindR m f) g = bindR m (\<lambda>x. bindR (f x) g)"
  by (cases m) simp_all

text \<open>A run that ended gives the same result with more fuel: the step of every such proof.\<close>

definition fuel_le :: "'a result \<Rightarrow> 'a result \<Rightarrow> bool" where
  "fuel_le m m' \<longleftrightarrow> m = OutOfFuel \<or> m' = m"

lemma fuel_le_refl [simp, intro]: "fuel_le m m"
  by (simp add: fuel_le_def)

lemma fuel_le_OutOfFuel [simp, intro]: "fuel_le OutOfFuel m"
  by (simp add: fuel_le_def)

lemma fuel_le_bindR [intro]:
  assumes "fuel_le m m'" and "\<And>x. fuel_le (f x) (g x)"
  shows "fuel_le (bindR m f) (bindR m' g)"
  using assms by (cases m) (auto simp: fuel_le_def)

lemma fuel_le_trans: "fuel_le a b \<Longrightarrow> fuel_le b c \<Longrightarrow> fuel_le a c"
  by (auto simp: fuel_le_def)

section \<open>Decimal numbers\<close>

text \<open>\<open>std::to_string\<close> on an unsigned integer.\<close>

definition digit_char :: "nat \<Rightarrow> char" where
  "digit_char d = char_of (48 + d)"

fun to_string :: "nat \<Rightarrow> string" where
  "to_string n = (if n < 10 then [digit_char n] else to_string (n div 10) @ [digit_char (n mod 10)])"

declare to_string.simps [simp del]

lemma to_string_nonempty [simp]: "to_string n \<noteq> []"
  by (subst to_string.simps) simp

section \<open>Lists\<close>

lemma nth_drop_Cons: "i < length xs \<Longrightarrow> drop i xs = xs ! i # drop (Suc i) xs"
  by (simp add: Cons_nth_drop_Suc)

lemma take_drop_Suc:
  "i < length xs \<Longrightarrow> i \<le> j \<Longrightarrow> take (Suc j - i) (drop i xs) = xs ! i # take (j - i) (drop (Suc i) xs)"
  by (simp add: nth_drop_Cons Suc_diff_le)

lemma drop_split: "i \<le> j \<Longrightarrow> take (j - i) (drop i xs) @ drop j xs = drop i xs"
  by (metis append_take_drop_id drop_drop le_add_diff_inverse2)

lemma take_drop_append:
  "i \<le> j \<Longrightarrow> j \<le> k \<Longrightarrow> take (j - i) (drop i xs) @ take (k - j) (drop j xs) = take (k - i) (drop i xs)"
  by (smt (verit, ccfv_threshold) Nat.add_diff_assoc2 add.commute drop_drop le_add_diff_inverse2 take_add)

end
