(* ===== verification/Source.thy ===== *)
theory Source
  imports Prelude
begin

text \<open>
  \<open>include/nexc/frontend/source.h\<close> and \<open>src/frontend/source.cpp\<close>: byte spans, the source
  file with its index of line starts, the bytes of a span and the line and column of an offset.
  A \<open>char\<close> is a byte, offsets are \<open>nat\<close> (a \<open>std::size_t\<close> offset into a buffer that exists
  never wraps).
\<close>

section \<open>Data\<close>

record SourceSpan =
  sp_start :: nat
  sp_end :: nat

abbreviation mk_span :: "nat \<Rightarrow> nat \<Rightarrow> SourceSpan" where
  "mk_span s e \<equiv> \<lparr>sp_start = s, sp_end = e\<rparr>"

record LineColumn =
  lc_line :: nat
  lc_column :: nat

record SourceFile =
  sf_path :: string
  sf_text :: string
  sf_lineStarts :: "nat list"

abbreviation sf_size :: "SourceFile \<Rightarrow> nat" where
  "sf_size src \<equiv> length (sf_text src)"

abbreviation newline :: char where
  "newline \<equiv> CHR 0x0A"

section \<open>Operations\<close>

text \<open>The constructor's loop: one entry per line, the first at offset 0.\<close>

definition lineStarts_of :: "string \<Rightarrow> nat list" where
  "lineStarts_of bytes = 0 # map Suc (filter (\<lambda>i. bytes ! i = newline) [0..<length bytes])"

definition SourceFile_new :: "string \<Rightarrow> string \<Rightarrow> SourceFile" where
  "SourceFile_new path bytes =
     \<lparr>sf_path = path, sf_text = bytes, sf_lineStarts = lineStarts_of bytes\<rparr>"

definition slice :: "SourceFile \<Rightarrow> SourceSpan \<Rightarrow> string" where
  "slice src span =
     (if sp_start span > sf_size src \<or> sp_end span < sp_start span then []
      else let clampedEnd = min (sp_end span) (sf_size src)
           in take (clampedEnd - sp_start span) (drop (sp_start span) (sf_text src)))"

text \<open>\<open>std::upper_bound\<close> on a sorted range: how many elements are not greater than the value.\<close>

definition upper_bound :: "nat list \<Rightarrow> nat \<Rightarrow> nat" where
  "upper_bound xs v = length (takeWhile (\<lambda>x. \<not> v < x) xs)"

definition lineColumn :: "SourceFile \<Rightarrow> nat \<Rightarrow> LineColumn" where
  "lineColumn src offset =
     (let clampedOffset = min offset (sf_size src);
          it = upper_bound (sf_lineStarts src) clampedOffset;
          lineIndex = (if it = 0 then 0 else it - 1)
      in \<lparr>lc_line = lineIndex + 1,
          lc_column = clampedOffset - sf_lineStarts src ! lineIndex + 1\<rparr>)"

section \<open>Order on positions\<close>

text \<open>
  Positions are ordered by line, then by column, as a reader of a diagnostic compares them.
  With it, "later in the file" on offsets is "later" on the rendered positions.
\<close>

instantiation LineColumn_ext :: (linorder) linorder
begin

definition less_eq_LineColumn_ext :: "'a LineColumn_scheme \<Rightarrow> 'a LineColumn_scheme \<Rightarrow> bool" where
  "less_eq_LineColumn_ext a b \<longleftrightarrow>
     lc_line a < lc_line b \<or>
     lc_line a = lc_line b \<and> (lc_column a < lc_column b \<or>
       lc_column a = lc_column b \<and> LineColumn.more a \<le> LineColumn.more b)"

definition less_LineColumn_ext :: "'a LineColumn_scheme \<Rightarrow> 'a LineColumn_scheme \<Rightarrow> bool" where
  "less_LineColumn_ext a b \<longleftrightarrow> a \<le> b \<and> \<not> b \<le> a"

instance
  by standard
    (auto simp: less_eq_LineColumn_ext_def less_LineColumn_ext_def
      intro: LineColumn.equality order_antisym)

end

lemma LineColumn_less_iff:
  "(a :: LineColumn) < b \<longleftrightarrow>
     lc_line a < lc_line b \<or> lc_line a = lc_line b \<and> lc_column a < lc_column b"
  by (auto simp: less_LineColumn_ext_def less_eq_LineColumn_ext_def)

section \<open>Spans and slices\<close>

definition valid_span :: "SourceFile \<Rightarrow> SourceSpan \<Rightarrow> bool" where
  "valid_span src span \<longleftrightarrow> sp_start span \<le> sp_end span \<and> sp_end span \<le> sf_size src"

lemma slice_valid:
  "valid_span src span \<Longrightarrow>
     slice src span = take (sp_end span - sp_start span) (drop (sp_start span) (sf_text src))"
  by (auto simp: slice_def valid_span_def)

lemma length_slice_valid:
  "valid_span src span \<Longrightarrow> length (slice src span) = sp_end span - sp_start span"
  by (auto simp: slice_valid valid_span_def)

lemma slice_append:
  assumes "a \<le> b" "b \<le> c" "c \<le> sf_size src"
  shows "slice src (mk_span a b) @ slice src (mk_span b c) = slice src (mk_span a c)"
  using assms by (simp add: slice_valid valid_span_def take_drop_append)

lemma slice_whole: "slice src (mk_span 0 (sf_size src)) = sf_text src"
  by (simp add: slice_def)

section \<open>Lines\<close>

lemma lineStarts_of_Nil [simp]: "lineStarts_of [] = [0]"
  by (simp add: lineStarts_of_def)

lemma lineStarts_of_snoc:
  "lineStarts_of (bytes @ [c]) = lineStarts_of bytes @ (if c = newline then [Suc (length bytes)] else [])"
proof -
  have "filter (\<lambda>i. (bytes @ [c]) ! i = newline) [0..<length bytes] =
      filter (\<lambda>i. bytes ! i = newline) [0..<length bytes]"
    by (rule filter_cong) (simp_all add: nth_append)
  then show ?thesis by (simp add: lineStarts_of_def)
qed

lemma lineStarts_of_ne [simp]: "lineStarts_of bytes \<noteq> []"
  by (simp add: lineStarts_of_def)

lemma lineStarts_of_le: "x \<in> set (lineStarts_of bytes) \<Longrightarrow> x \<le> length bytes"
  by (auto simp: lineStarts_of_def)

lemma takeWhile_lineStarts:
  "takeWhile (\<lambda>x. x \<le> off) (lineStarts_of bytes) = lineStarts_of (take off bytes)"
proof (induction bytes rule: rev_induct)
  case Nil
  show ?case by simp
next
  case (snoc c bytes)
  show ?case
  proof (cases "off \<le> length bytes")
    case True
    have "takeWhile (\<lambda>x. x \<le> off) (lineStarts_of (bytes @ [c])) =
        takeWhile (\<lambda>x. x \<le> off) (lineStarts_of bytes)"
      using True by (auto simp: lineStarts_of_snoc takeWhile_tail)
    with snoc True show ?thesis by simp
  next
    case False
    then have "takeWhile (\<lambda>x. x \<le> off) (lineStarts_of (bytes @ [c])) = lineStarts_of (bytes @ [c])"
      by (auto simp: takeWhile_eq_all_conv dest: lineStarts_of_le)
    with False show ?thesis by simp
  qed
qed

lemma sorted_lineStarts: "sorted_wrt (<) (lineStarts_of bytes)"
proof (induction bytes rule: rev_induct)
  case (snoc c bytes)
  then show ?case
    by (auto simp: lineStarts_of_snoc sorted_wrt_append less_Suc_eq_le dest: lineStarts_of_le)
qed simp

lemma length_lineStarts: "length (lineStarts_of bytes) = Suc (count_list bytes newline)"
  by (induction bytes rule: rev_induct) (simp_all add: lineStarts_of_snoc)

lemma last_lineStarts:
  "length bytes - last (lineStarts_of bytes) = length (takeWhile (\<lambda>c. c \<noteq> newline) (rev bytes))"
proof (induction bytes rule: rev_induct)
  case (snoc c bytes)
  have "last (lineStarts_of bytes) \<le> length bytes"
    by (rule lineStarts_of_le) simp
  with snoc show ?case by (simp add: lineStarts_of_snoc Suc_diff_le)
qed simp

text \<open>The reference: count the newlines before the offset, and the bytes since the last one.\<close>

definition position_of :: "string \<Rightarrow> LineColumn" where
  "position_of before =
     \<lparr>lc_line = Suc (count_list before newline),
      lc_column = Suc (length (takeWhile (\<lambda>c. c \<noteq> newline) (rev before)))\<rparr>"

lemma lineColumn_position_of:
  "lineColumn (SourceFile_new path bytes) off = position_of (take off bytes)"
proof -
  let ?pre = "take (min off (length bytes)) bytes"
  have pre_eq: "?pre = take off bytes" by (simp add: min_def)
  have len_eq: "length ?pre = min off (length bytes)" by simp
  have ub_eq: "upper_bound (lineStarts_of bytes) (min off (length bytes)) = length (lineStarts_of ?pre)"
  by (simp only: upper_bound_def not_less takeWhile_lineStarts)
  have nth_eq: "lineStarts_of bytes ! (length (lineStarts_of ?pre) - 1) = last (lineStarts_of ?pre)"
  proof -
    have "last (lineStarts_of ?pre) = lineStarts_of ?pre ! (length (lineStarts_of ?pre) - 1)"
      by (rule last_conv_nth) simp
    also have "\<dots> = lineStarts_of bytes ! (length (lineStarts_of ?pre) - 1)"
      unfolding takeWhile_lineStarts[symmetric]
      by (rule takeWhile_nth) (simp only: takeWhile_lineStarts, simp)
    finally show ?thesis by simp
  qed
  show ?thesis
    using last_lineStarts[of ?pre] nth_eq ub_eq
    unfolding lineColumn_def position_of_def SourceFile_new_def pre_eq[symmetric]
    by (simp add: Let_def length_lineStarts len_eq)
qed

lemma position_of_snoc:
  "position_of before < position_of (before @ [c])"
  by (auto simp: position_of_def LineColumn_less_iff)

lemma position_of_take_mono:
  assumes "i < j" "j \<le> length bytes"
  shows "position_of (take i bytes) < position_of (take j bytes)"
  using assms
proof (induction j)
  case (Suc j)
  then have "position_of (take j bytes) < position_of (take (Suc j) bytes)"
    using position_of_snoc[of "take j bytes" "bytes ! j"] by (simp add: take_Suc_conv_app_nth)
  with Suc show ?case by (cases "i = j") auto
qed simp

section \<open>Properties\<close>

text \<open>C22: the line and column that \<open>lineColumn\<close> finds by binary search in the index of line
  starts are the ones a reader would count: one more than the newlines before the offset, and one
  more than the bytes since the last of them; an offset past the end is taken as the end.\<close>

theorem lineColumn_counts:
  "lineColumn (SourceFile_new path bytes) off =
     \<lparr>lc_line = Suc (count_list (take off bytes) newline),
      lc_column = Suc (length (takeWhile (\<lambda>c. c \<noteq> newline) (rev (take off bytes))))\<rparr>"
  by (simp only: lineColumn_position_of position_of_def)

text \<open>C23: positions are rendered in order: a later offset of the file gets a later line, or the
  same line and a later column. Two offsets of the file are never rendered alike.\<close>

theorem lineColumn_strict_mono:
  assumes "i < j" "j \<le> length bytes"
  shows "lineColumn (SourceFile_new path bytes) i < lineColumn (SourceFile_new path bytes) j"
  using position_of_take_mono[OF assms] by (simp only: lineColumn_position_of)

lemma lineColumn_strict_mono_witness:
  "lineColumn (SourceFile_new ''p'' [CHR ''a'', newline, CHR ''b'']) 1 <
   lineColumn (SourceFile_new ''p'' [CHR ''a'', newline, CHR ''b'']) 3"
  by (rule lineColumn_strict_mono) simp_all

end
