(* ===== verification/Tokens.thy ===== *)
theory Tokens
  imports Source
begin

text \<open>
  \<open>include/nexc/frontend/token.h\<close> and \<open>src/frontend/token.cpp\<close>: the token kinds, tokens
  (a kind and a span), the classification of identifier spellings and the token dump.
\<close>

section \<open>Data\<close>

datatype TokenKind =
    EndOfFile | Identifier | IntegerLiteral | FloatLiteral | StringLiteral
  | KwBool | KwBreak | KwConst | KwContinue | KwElse | KwFalse | KwFor | KwFn | KwIf
  | KwLet | KwMut | KwReturn | KwTrue | KwVoid | KwWhile
  | Plus | Minus | Star | Slash | Percent | Bang | Tilde
  | Equal | EqualEqual | BangEqual | Less | LessEqual | LessLess
  | Greater | GreaterEqual | GreaterGreater
  | Amp | AmpAmp | Pipe | PipePipe | Caret | Arrow
  | LeftParen | RightParen | LeftBracket | RightBracket | LeftBrace | RightBrace
  | Comma | Semicolon | Colon

record Token =
  tok_kind :: TokenKind
  tok_span :: SourceSpan

abbreviation mk_token :: "TokenKind \<Rightarrow> SourceSpan \<Rightarrow> Token" where
  "mk_token k sp \<equiv> \<lparr>tok_kind = k, tok_span = sp\<rparr>"

section \<open>Operations\<close>

fun tokenKindName :: "TokenKind \<Rightarrow> string" where
  "tokenKindName EndOfFile = ''EndOfFile''"
| "tokenKindName Identifier = ''Identifier''"
| "tokenKindName IntegerLiteral = ''IntegerLiteral''"
| "tokenKindName FloatLiteral = ''FloatLiteral''"
| "tokenKindName StringLiteral = ''StringLiteral''"
| "tokenKindName KwBool = ''KwBool''"
| "tokenKindName KwBreak = ''KwBreak''"
| "tokenKindName KwConst = ''KwConst''"
| "tokenKindName KwContinue = ''KwContinue''"
| "tokenKindName KwElse = ''KwElse''"
| "tokenKindName KwFalse = ''KwFalse''"
| "tokenKindName KwFor = ''KwFor''"
| "tokenKindName KwFn = ''KwFn''"
| "tokenKindName KwIf = ''KwIf''"
| "tokenKindName KwLet = ''KwLet''"
| "tokenKindName KwMut = ''KwMut''"
| "tokenKindName KwReturn = ''KwReturn''"
| "tokenKindName KwTrue = ''KwTrue''"
| "tokenKindName KwVoid = ''KwVoid''"
| "tokenKindName KwWhile = ''KwWhile''"
| "tokenKindName Plus = ''Plus''"
| "tokenKindName Minus = ''Minus''"
| "tokenKindName Star = ''Star''"
| "tokenKindName Slash = ''Slash''"
| "tokenKindName Percent = ''Percent''"
| "tokenKindName Bang = ''Bang''"
| "tokenKindName Tilde = ''Tilde''"
| "tokenKindName Equal = ''Equal''"
| "tokenKindName EqualEqual = ''EqualEqual''"
| "tokenKindName BangEqual = ''BangEqual''"
| "tokenKindName Less = ''Less''"
| "tokenKindName LessEqual = ''LessEqual''"
| "tokenKindName LessLess = ''LessLess''"
| "tokenKindName Greater = ''Greater''"
| "tokenKindName GreaterEqual = ''GreaterEqual''"
| "tokenKindName GreaterGreater = ''GreaterGreater''"
| "tokenKindName Amp = ''Amp''"
| "tokenKindName AmpAmp = ''AmpAmp''"
| "tokenKindName Pipe = ''Pipe''"
| "tokenKindName PipePipe = ''PipePipe''"
| "tokenKindName Caret = ''Caret''"
| "tokenKindName Arrow = ''Arrow''"
| "tokenKindName LeftParen = ''LeftParen''"
| "tokenKindName RightParen = ''RightParen''"
| "tokenKindName LeftBracket = ''LeftBracket''"
| "tokenKindName RightBracket = ''RightBracket''"
| "tokenKindName LeftBrace = ''LeftBrace''"
| "tokenKindName RightBrace = ''RightBrace''"
| "tokenKindName Comma = ''Comma''"
| "tokenKindName Semicolon = ''Semicolon''"
| "tokenKindName Colon = ''Colon''"

definition keywordKind :: "string \<Rightarrow> TokenKind" where
  "keywordKind spelling =
     (if spelling = ''bool'' then KwBool
      else if spelling = ''break'' then KwBreak
      else if spelling = ''const'' then KwConst
      else if spelling = ''continue'' then KwContinue
      else if spelling = ''else'' then KwElse
      else if spelling = ''false'' then KwFalse
      else if spelling = ''for'' then KwFor
      else if spelling = ''fn'' then KwFn
      else if spelling = ''if'' then KwIf
      else if spelling = ''let'' then KwLet
      else if spelling = ''mut'' then KwMut
      else if spelling = ''return'' then KwReturn
      else if spelling = ''true'' then KwTrue
      else if spelling = ''void'' then KwVoid
      else if spelling = ''while'' then KwWhile
      else Identifier)"

text \<open>The text \<open>dumpToken\<close> appends to its stream.\<close>

definition dumpToken :: "SourceFile \<Rightarrow> Token \<Rightarrow> string" where
  "dumpToken src token =
     tokenKindName (tok_kind token) @ '' ['' @ to_string (sp_start (tok_span token)) @ '', '' @
     to_string (sp_end (tok_span token)) @ '')'' @
     (if tok_kind token = Identifier \<or> tok_kind token = IntegerLiteral \<or>
         tok_kind token = FloatLiteral \<or> tok_kind token = StringLiteral
      then '' `'' @ slice src (tok_span token) @ ''`'' else []) @ [newline]"

section \<open>Lemmas\<close>

definition reserved_words :: "(string \<times> TokenKind) list" where
  "reserved_words =
     [(''bool'', KwBool), (''break'', KwBreak), (''const'', KwConst), (''continue'', KwContinue),
      (''else'', KwElse), (''false'', KwFalse), (''for'', KwFor), (''fn'', KwFn), (''if'', KwIf),
      (''let'', KwLet), (''mut'', KwMut), (''return'', KwReturn), (''true'', KwTrue),
      (''void'', KwVoid), (''while'', KwWhile)]"

lemma keywordKind_map_of:
  "keywordKind spelling = (case map_of reserved_words spelling of Some k \<Rightarrow> k | None \<Rightarrow> Identifier)"
  by (simp add: keywordKind_def reserved_words_def)

lemma keywordKind_range: "keywordKind spelling \<in> insert Identifier (snd ` set reserved_words)"
  by (simp add: keywordKind_def reserved_words_def)

lemma keywordKind_not [simp]:
  "keywordKind s \<noteq> EndOfFile" "keywordKind s \<noteq> IntegerLiteral" "keywordKind s \<noteq> FloatLiteral"
  "keywordKind s \<noteq> StringLiteral"
  by (simp_all add: keywordKind_def)

lemma tokenKindName_nonempty: "tokenKindName k \<noteq> []"
  by (cases k) simp_all

end
