(* ===== verification/Ast.thy ===== *)
theory Ast
  imports Tokens
begin

text \<open>
  \<open>include/nexc/frontend/ast.h\<close> and the type spellings of \<open>src/frontend/ast.cpp\<close>: the syntax
  tree. Each class derived from \<open>Expr\<close>, \<open>Stmt\<close> or \<open>Item\<close> is a constructor whose first field
  is the base class's span. A \<open>unique_ptr\<close> that the parser may leave null is an \<open>option\<close>;
  the bodies of \<open>if\<close>, \<open>while\<close> and \<open>for\<close> are such pointers, since \<open>parseStmt\<close> returns null
  after a syntax error.
\<close>

section \<open>Types\<close>

datatype BuiltinTypeKind =
    I8 | I16 | I32 | I64 | U8 | U16 | U32 | U64 | F32 | F64 | Bool | Str | Void | Invalid

record TypeSyntax =
  ts_kind :: BuiltinTypeKind
  ts_arrayDimensions :: "64 word list"
  ts_pointerDepth :: nat
  ts_span :: SourceSpan

definition hasExplicitTypeSyntax :: "TypeSyntax \<Rightarrow> bool" where
  "hasExplicitTypeSyntax syntax \<longleftrightarrow>
     ts_kind syntax \<noteq> Invalid \<or> ts_arrayDimensions syntax \<noteq> [] \<or> ts_pointerDepth syntax \<noteq> 0"

record ParameterSyntax =
  pr_name :: string
  pr_nameSpan :: SourceSpan
  pr_type :: TypeSyntax
  pr_span :: SourceSpan

section \<open>Expressions, statements, items\<close>

datatype Expr =
    IntegerLiteralExpr SourceSpan string
  | FloatLiteralExpr SourceSpan string
  | BoolLiteralExpr SourceSpan bool
  | StringLiteralExpr SourceSpan string
  | NameExpr SourceSpan string
  | CallExpr SourceSpan Expr "Expr list"
  | UnaryExpr SourceSpan TokenKind Expr
  | BinaryExpr SourceSpan Expr TokenKind Expr
  | ParenExpr SourceSpan Expr
  | ArrayLiteralExpr SourceSpan "Expr list"
  | IndexExpr SourceSpan Expr Expr

fun expr_span :: "Expr \<Rightarrow> SourceSpan" where
  "expr_span (IntegerLiteralExpr sp raw) = sp"
| "expr_span (FloatLiteralExpr sp raw) = sp"
| "expr_span (BoolLiteralExpr sp v) = sp"
| "expr_span (StringLiteralExpr sp raw) = sp"
| "expr_span (NameExpr sp name) = sp"
| "expr_span (CallExpr sp callee arguments) = sp"
| "expr_span (UnaryExpr sp op operand) = sp"
| "expr_span (BinaryExpr sp left op right) = sp"
| "expr_span (ParenExpr sp inner) = sp"
| "expr_span (ArrayLiteralExpr sp elements) = sp"
| "expr_span (IndexExpr sp base index) = sp"

text \<open>
  Fields in the order of the classes. \<open>CallStmt\<close> owns a \<open>CallExpr\<close>: its span, callee and
  arguments follow the statement's span.
\<close>

datatype Stmt =
    BlockStmt SourceSpan "Stmt list"
  | LetStmt SourceSpan bool string SourceSpan TypeSyntax "Expr option"
  | AssignStmt SourceSpan Expr Expr
  | ReturnStmt SourceSpan "Expr option"
  | IfStmt SourceSpan Expr "Stmt option" "Stmt option"
  | WhileStmt SourceSpan Expr "Stmt option"
  | ForStmt SourceSpan "Stmt option" "Expr option" "Stmt option" "Stmt option"
  | CallStmt SourceSpan SourceSpan Expr "Expr list"
  | BreakStmt SourceSpan
  | ContinueStmt SourceSpan

fun stmt_span :: "Stmt \<Rightarrow> SourceSpan" where
  "stmt_span (BlockStmt sp statements) = sp"
| "stmt_span (LetStmt sp isMutable name nameSpan type init) = sp"
| "stmt_span (AssignStmt sp target v) = sp"
| "stmt_span (ReturnStmt sp v) = sp"
| "stmt_span (IfStmt sp condition thenBranch elseBranch) = sp"
| "stmt_span (WhileStmt sp condition body) = sp"
| "stmt_span (ForStmt sp init condition step body) = sp"
| "stmt_span (CallStmt sp callSpan callee arguments) = sp"
| "stmt_span (BreakStmt sp) = sp"
| "stmt_span (ContinueStmt sp) = sp"

text \<open>The body of a function is a block: its span and its statements.\<close>

datatype Item =
    FunctionDecl SourceSpan string SourceSpan "ParameterSyntax list" TypeSyntax SourceSpan "Stmt list"
  | ConstDecl SourceSpan string SourceSpan TypeSyntax Expr

fun item_span :: "Item \<Rightarrow> SourceSpan" where
  "item_span (FunctionDecl sp name nameSpan parameters returnType bodySpan body) = sp"
| "item_span (ConstDecl sp name nameSpan type init) = sp"

type_synonym TranslationUnit = "Item list"

section \<open>Type spellings\<close>

fun builtinTypeName :: "BuiltinTypeKind \<Rightarrow> string" where
  "builtinTypeName I8 = ''i8''"
| "builtinTypeName I16 = ''i16''"
| "builtinTypeName I32 = ''i32''"
| "builtinTypeName I64 = ''i64''"
| "builtinTypeName U8 = ''u8''"
| "builtinTypeName U16 = ''u16''"
| "builtinTypeName U32 = ''u32''"
| "builtinTypeName U64 = ''u64''"
| "builtinTypeName F32 = ''f32''"
| "builtinTypeName F64 = ''f64''"
| "builtinTypeName Bool = ''bool''"
| "builtinTypeName Str = ''str''"
| "builtinTypeName Void = ''void''"
| "builtinTypeName Invalid = ''<invalid>''"

text \<open>The loop from the innermost dimension outwards, shared by every printer of types.\<close>

definition wrapDimensions :: "string \<Rightarrow> 64 word list \<Rightarrow> string" where
  "wrapDimensions t dims =
     foldl (\<lambda>acc d. ''['' @ acc @ ''; '' @ to_string (unat d) @ '']'') t (rev dims)"

definition formatTypeSyntax :: "TypeSyntax \<Rightarrow> string" where
  "formatTypeSyntax syntax =
     replicate (ts_pointerDepth syntax) (CHR ''*'') @
     wrapDimensions (builtinTypeName (ts_kind syntax)) (ts_arrayDimensions syntax)"

section \<open>Trees without null children\<close>

text \<open>What the later phases rely on: every body is there.\<close>

fun stmt_complete :: "Stmt \<Rightarrow> bool" where
  "stmt_complete (BlockStmt sp statements) \<longleftrightarrow> list_all stmt_complete statements"
| "stmt_complete (IfStmt sp condition thenBranch elseBranch) \<longleftrightarrow>
     (case thenBranch of None \<Rightarrow> False | Some s \<Rightarrow> stmt_complete s) \<and>
     (case elseBranch of None \<Rightarrow> True | Some s \<Rightarrow> stmt_complete s)"
| "stmt_complete (WhileStmt sp condition body) \<longleftrightarrow>
     (case body of None \<Rightarrow> False | Some s \<Rightarrow> stmt_complete s)"
| "stmt_complete (ForStmt sp init condition step body) \<longleftrightarrow>
     (case init of None \<Rightarrow> True | Some s \<Rightarrow> stmt_complete s) \<and>
     (case step of None \<Rightarrow> True | Some s \<Rightarrow> stmt_complete s) \<and>
     (case body of None \<Rightarrow> False | Some s \<Rightarrow> stmt_complete s)"
| "stmt_complete _ \<longleftrightarrow> True"

fun item_complete :: "Item \<Rightarrow> bool" where
  "item_complete (FunctionDecl sp name nameSpan parameters returnType bodySpan body) \<longleftrightarrow>
     list_all stmt_complete body"
| "item_complete (ConstDecl sp name nameSpan type init) \<longleftrightarrow> True"

end
