(* ===== verification/Diagnostics.thy ===== *)
theory Diagnostics
  imports Source
begin

text \<open>
  \<open>include/nexc/frontend/diagnostic.h\<close> and \<open>src/frontend/diagnostic.cpp\<close>: the bag that every
  phase reports to, and the rendering of a bag with a caret line. The locale
  \<open>diagnostic_client\<close> is the contract between the bag and a phase that holds one.
\<close>

section \<open>Data\<close>

datatype DiagnosticSeverity = Error | Warning | Note

record Diagnostic =
  d_severity :: DiagnosticSeverity
  d_message :: string
  d_span :: SourceSpan

record DiagnosticBag =
  hasErrors :: bool
  bag_diagnostics :: "Diagnostic list"

definition DiagnosticBag_new :: DiagnosticBag where
  "DiagnosticBag_new = \<lparr>hasErrors = False, bag_diagnostics = []\<rparr>"

section \<open>The bag\<close>

definition bag_add :: "DiagnosticSeverity \<Rightarrow> SourceSpan \<Rightarrow> string \<Rightarrow> DiagnosticBag \<Rightarrow> DiagnosticBag" where
  "bag_add severity span message bag =
     (let bag1 = (if severity = Error then bag\<lparr>hasErrors := True\<rparr> else bag)
      in bag1\<lparr>bag_diagnostics := bag_diagnostics bag1 @
           [\<lparr>d_severity = severity, d_message = message, d_span = span\<rparr>]\<rparr>)"

definition bag_error :: "SourceSpan \<Rightarrow> string \<Rightarrow> DiagnosticBag \<Rightarrow> DiagnosticBag" where
  "bag_error span message bag = bag_add Error span message bag"

definition bag_warning :: "SourceSpan \<Rightarrow> string \<Rightarrow> DiagnosticBag \<Rightarrow> DiagnosticBag" where
  "bag_warning span message bag = bag_add Warning span message bag"

definition bag_note :: "SourceSpan \<Rightarrow> string \<Rightarrow> DiagnosticBag \<Rightarrow> DiagnosticBag" where
  "bag_note span message bag = bag_add Note span message bag"

section \<open>Rendering\<close>

fun severityName :: "DiagnosticSeverity \<Rightarrow> string" where
  "severityName Error = ''error''"
| "severityName Warning = ''warning''"
| "severityName Note = ''note''"

text \<open>
  \<open>std::string_view::rfind\<close> from a position: the last newline at or before it.
  \<open>find\<close>: the first newline at or after it.
\<close>

definition rfind_newline :: "string \<Rightarrow> nat \<Rightarrow> nat option" where
  "rfind_newline bytes pos =
     (let hits = filter (\<lambda>i. bytes ! i = newline) [0..<min (Suc pos) (length bytes)]
      in if hits = [] then None else Some (last hits))"

definition find_newline :: "string \<Rightarrow> nat \<Rightarrow> nat option" where
  "find_newline bytes pos =
     (let hits = filter (\<lambda>i. bytes ! i = newline) [pos..<length bytes]
      in if hits = [] then None else Some (hd hits))"

definition lineStart :: "string \<Rightarrow> nat \<Rightarrow> nat" where
  "lineStart bytes offset =
     (let clamped = min offset (length bytes)
      in case rfind_newline bytes clamped of None \<Rightarrow> 0 | Some nl \<Rightarrow> nl + 1)"

definition lineEnd :: "string \<Rightarrow> nat \<Rightarrow> nat" where
  "lineEnd bytes offset =
     (let clamped = min offset (length bytes)
      in case find_newline bytes clamped of None \<Rightarrow> length bytes | Some nl \<Rightarrow> nl)"

text \<open>
  \<open>printSourceLine\<close>: the source line and the caret line under it. \<open>caretColumn\<close> is an
  unsigned subtraction and indexes the line, so a span that starts on a newline byte (whose
  "line" begins after it) would run off the line: the model returns \<open>None\<close> there.
\<close>

definition printSourceLine :: "SourceFile \<Rightarrow> SourceSpan \<Rightarrow> string option" where
  "printSourceLine src span =
     (let bytes = sf_text src;
          start = min (sp_start span) (length bytes);
          lineStartOffset = lineStart bytes start;
          lineEndOffset = lineEnd bytes start
      in if start < lineStartOffset then None
         else
           let line = take (lineEndOffset - lineStartOffset) (drop lineStartOffset bytes);
               caretColumn = start - lineStartOffset;
               rawEnd = min (sp_end span) lineEndOffset;
               underlineWidth = max 1 (if rawEnd > start then rawEnd - start else 1)
           in Some (''  | '' @ line @ [newline] @ ''  | '' @
                map (\<lambda>i. if line ! i = CHR 0x09 then CHR 0x09 else CHR '' '') [0..<caretColumn] @
                ''^'' @ replicate (underlineWidth - 1) (CHR ''~'') @ [newline]))"

fun printDiagnostics_list :: "SourceFile \<Rightarrow> Diagnostic list \<Rightarrow> string option" where
  "printDiagnostics_list src [] = Some []"
| "printDiagnostics_list src (d # ds) =
     (let location = lineColumn src (sp_start (d_span d))
      in case printSourceLine src (d_span d) of
           None \<Rightarrow> None
         | Some lines \<Rightarrow>
             map_option (\<lambda>rest.
               sf_path src @ '':'' @ to_string (lc_line location) @ '':'' @
               to_string (lc_column location) @ '': '' @ severityName (d_severity d) @ '': '' @
               d_message d @ [newline] @ lines @ rest) (printDiagnostics_list src ds))"

definition printDiagnostics :: "SourceFile \<Rightarrow> DiagnosticBag \<Rightarrow> string option" where
  "printDiagnostics src bag = printDiagnostics_list src (bag_diagnostics bag)"

section \<open>Bags grow\<close>

text \<open>
  \<open>bag_ext b b'\<close>: \<open>b'\<close> is \<open>b\<close> after some reports. The cached error flag is right when
  it says whether an error is among the diagnostics.
\<close>

definition bag_ok :: "DiagnosticBag \<Rightarrow> bool" where
  "bag_ok b \<longleftrightarrow> (hasErrors b \<longleftrightarrow> Error \<in> d_severity ` set (bag_diagnostics b))"

definition bag_ext :: "DiagnosticBag \<Rightarrow> DiagnosticBag \<Rightarrow> bool" where
  "bag_ext b b' \<longleftrightarrow>
     (\<exists>ds. bag_diagnostics b' = bag_diagnostics b @ ds \<and>
           (hasErrors b' \<longleftrightarrow> hasErrors b \<or> Error \<in> d_severity ` set ds))"

lemma bag_ext_refl [simp, intro]: "bag_ext b b"
  by (simp add: bag_ext_def)

lemma bag_ext_trans: "bag_ext a b \<Longrightarrow> bag_ext b c \<Longrightarrow> bag_ext a c"
  by (fastforce simp: bag_ext_def)

lemma bag_ext_add [simp, intro]: "bag_ext b (bag_add sev sp m b)"
  by (auto simp: bag_ext_def bag_add_def Let_def)

lemma bag_ext_error [simp, intro]: "bag_ext b (bag_error sp m b)"
  by (simp add: bag_error_def)

lemma bag_ext_note [simp, intro]: "bag_ext b (bag_note sp m b)"
  by (simp add: bag_note_def)

lemma hasErrors_error [simp]: "hasErrors (bag_error sp m b)"
  by (simp add: bag_error_def bag_add_def Let_def)

lemma hasErrors_note [simp]: "hasErrors (bag_note sp m b) = hasErrors b"
  by (simp add: bag_note_def bag_add_def Let_def)

lemma bag_ext_hasErrors: "bag_ext b b' \<Longrightarrow> hasErrors b \<Longrightarrow> hasErrors b'"
  by (auto simp: bag_ext_def)

lemma bag_ext_prefix: "bag_ext b b' \<Longrightarrow> prefix (bag_diagnostics b) (bag_diagnostics b')"
  by (auto simp: bag_ext_def)

lemma bag_ext_ok: "bag_ext b b' \<Longrightarrow> bag_ok b \<Longrightarrow> bag_ok b'"
  by (auto simp: bag_ext_def bag_ok_def)

lemma bag_ok_new: "bag_ok DiagnosticBag_new"
  by (simp add: bag_ok_def DiagnosticBag_new_def)

lemma bag_ext_new_iff: "bag_ext DiagnosticBag_new b \<longleftrightarrow> bag_ok b"
  by (auto simp: bag_ext_def bag_ok_def DiagnosticBag_new_def)

section \<open>The contract with the phases\<close>

text \<open>
  A phase keeps the bag in its own state. The laws are those of a field: what was put is read
  back, and putting what was read changes nothing. Reporting through such a field only ever
  extends the bag, and that carries over any sequence of operations that do.
\<close>

locale diagnostic_client =
  fixes get_bag :: "'s \<Rightarrow> DiagnosticBag"
    and put_bag :: "DiagnosticBag \<Rightarrow> 's \<Rightarrow> 's"
  assumes get_put [simp]: "get_bag (put_bag b s) = b"
    and put_get [simp]: "put_bag (get_bag s) s = s"
    and put_put [simp]: "put_bag b (put_bag b' s) = put_bag b s"
begin

lemma report_ext: "bag_ext (get_bag s) (get_bag (put_bag (bag_error sp m (get_bag s)) s))"
  by simp

lemma report_hasErrors: "hasErrors (get_bag (put_bag (bag_error sp m (get_bag s)) s))"
  by simp

lemma note_hasErrors:
  "hasErrors (get_bag (put_bag (bag_note sp m (get_bag s)) s)) = hasErrors (get_bag s)"
  by simp

lemma report_new: "put_bag (bag_error sp m (get_bag s)) s \<noteq> s"
proof
  assume "put_bag (bag_error sp m (get_bag s)) s = s"
  then have "bag_error sp m (get_bag s) = get_bag s" by (metis get_put)
  then have "bag_diagnostics (bag_error sp m (get_bag s)) = bag_diagnostics (get_bag s)" by simp
  then show False by (simp add: bag_error_def bag_add_def Let_def)
qed

end

end
