(* ===== verification/Lexer.thy ===== *)
theory Lexer
  imports Tokens Diagnostics
begin

text \<open>
  \<open>include/nexc/frontend/lexer.h\<close> and \<open>src/frontend/lexer.cpp\<close>: the lexer as a cursor and a
  diagnostic bag over one source file. Every member function of \<open>Lexer\<close> is one definition; the
  \<open>while\<close> loops that only advance the cursor share \<open>Lexer_advanceWhile\<close>.
\<close>

section \<open>Character classes\<close>

text \<open>
  Comparisons of bytes. The C++ ones are on \<open>char\<close>, signed or not; a byte above 127 fails
  every range test either way.
\<close>

definition isAsciiAlpha :: "char \<Rightarrow> bool" where
  "isAsciiAlpha c \<longleftrightarrow>
     (CHR ''a'' \<le> c \<and> c \<le> CHR ''z'') \<or> (CHR ''A'' \<le> c \<and> c \<le> CHR ''Z'')"

definition isIdentifierStart :: "char \<Rightarrow> bool" where
  "isIdentifierStart c \<longleftrightarrow> isAsciiAlpha c \<or> c = CHR ''_''"

definition isIdentifierContinue :: "char \<Rightarrow> bool" where
  "isIdentifierContinue c \<longleftrightarrow> isIdentifierStart c \<or> (CHR ''0'' \<le> c \<and> c \<le> CHR ''9'')"

definition isHexDigit :: "char \<Rightarrow> bool" where
  "isHexDigit c \<longleftrightarrow> (CHR ''0'' \<le> c \<and> c \<le> CHR ''9'') \<or>
     (CHR ''a'' \<le> c \<and> c \<le> CHR ''f'') \<or> (CHR ''A'' \<le> c \<and> c \<le> CHR ''F'')"

definition isDecimalDigit :: "char \<Rightarrow> bool" where
  "isDecimalDigit c \<longleftrightarrow> CHR ''0'' \<le> c \<and> c \<le> CHR ''9''"

definition isNonAscii :: "char \<Rightarrow> bool" where
  "isNonAscii c \<longleftrightarrow> (of_char c :: nat) \<ge> 0x80"

abbreviation dquote :: char where
  "dquote \<equiv> CHR 0x22"

abbreviation backslash :: char where
  "backslash \<equiv> CHR 0x5C"

section \<open>State and cursor\<close>

record lexer =
  lx_current :: nat
  lx_bag :: DiagnosticBag

definition Lexer_new :: "DiagnosticBag \<Rightarrow> lexer" where
  "Lexer_new bag = \<lparr>lx_current = 0, lx_bag = bag\<rparr>"

definition Lexer_error :: "SourceSpan \<Rightarrow> string \<Rightarrow> lexer \<Rightarrow> lexer" where
  "Lexer_error span message lx = lx\<lparr>lx_bag := bag_error span message (lx_bag lx)\<rparr>"

definition Lexer_isAtEnd :: "SourceFile \<Rightarrow> lexer \<Rightarrow> bool" where
  "Lexer_isAtEnd src lx \<longleftrightarrow> lx_current lx \<ge> sf_size src"

definition Lexer_peek :: "SourceFile \<Rightarrow> lexer \<Rightarrow> nat \<Rightarrow> char" where
  "Lexer_peek src lx offset =
     (let index = lx_current lx + offset
      in if index \<ge> sf_size src then CHR 0x00 else sf_text src ! index)"

text \<open>\<open>advance\<close> is only called before the end of the text; its callers check.\<close>

definition Lexer_advance :: "SourceFile \<Rightarrow> lexer \<Rightarrow> char \<times> lexer" where
  "Lexer_advance src lx = (sf_text src ! lx_current lx, lx\<lparr>lx_current := lx_current lx + 1\<rparr>)"

definition Lexer_skip :: "SourceFile \<Rightarrow> lexer \<Rightarrow> lexer" where
  "Lexer_skip src lx = snd (Lexer_advance src lx)"

definition Lexer_match :: "SourceFile \<Rightarrow> char \<Rightarrow> lexer \<Rightarrow> bool \<times> lexer" where
  "Lexer_match src expected lx =
     (if Lexer_isAtEnd src lx \<or> Lexer_peek src lx 0 \<noteq> expected then (False, lx)
      else (True, lx\<lparr>lx_current := lx_current lx + 1\<rparr>))"

text \<open>\<open>while (!isAtEnd() && P) advance();\<close> where \<open>P\<close> looks at the cursor.\<close>

function Lexer_advanceWhile :: "SourceFile \<Rightarrow> (lexer \<Rightarrow> bool) \<Rightarrow> lexer \<Rightarrow> lexer" where
  "Lexer_advanceWhile src P lx =
     (if \<not> Lexer_isAtEnd src lx \<and> P lx then Lexer_advanceWhile src P (Lexer_skip src lx) else lx)"
  by pat_completeness auto
termination
  by (relation "measure (\<lambda>(src, P, lx). sf_size src - lx_current lx)")
    (auto simp: Lexer_isAtEnd_def Lexer_skip_def Lexer_advance_def)

declare Lexer_advanceWhile.simps [simp del]

section \<open>Trivia\<close>

definition Lexer_skipLineComment :: "SourceFile \<Rightarrow> lexer \<Rightarrow> lexer" where
  "Lexer_skipLineComment src lx =
     Lexer_advanceWhile src (\<lambda>l. Lexer_peek src l 0 \<noteq> newline) lx"

text \<open>The comment's text, up to its first \<open>*/\<close> or the end of the file.\<close>

definition Lexer_skipBlockText :: "SourceFile \<Rightarrow> lexer \<Rightarrow> lexer" where
  "Lexer_skipBlockText src lx =
     Lexer_advanceWhile src
       (\<lambda>l. \<not> (Lexer_peek src l 0 = CHR ''*'' \<and> Lexer_peek src l 1 = CHR ''/'')) lx"

lemma lx_current_skip [simp]: "lx_current (Lexer_skip src lx) = Suc (lx_current lx)"
  by (simp add: Lexer_skip_def Lexer_advance_def)

lemma lx_bag_skip [simp]: "lx_bag (Lexer_skip src lx) = lx_bag lx"
  by (simp add: Lexer_skip_def Lexer_advance_def)

lemma lx_current_advanceWhile:
  "lx_current lx \<le> lx_current (Lexer_advanceWhile src P lx)"
proof (induction src P lx rule: Lexer_advanceWhile.induct)
  case (1 src P lx)
  then show ?case by (subst Lexer_advanceWhile.simps) force
qed

function skipWhitespaceAndComments :: "SourceFile \<Rightarrow> lexer \<Rightarrow> lexer" where
  "skipWhitespaceAndComments src lx =
     (if Lexer_isAtEnd src lx then lx
      else
        let c = Lexer_peek src lx 0
        in if c = CHR '' '' \<or> c = CHR 0x09 \<or> c = newline \<or> c = CHR 0x0D then
             skipWhitespaceAndComments src (Lexer_skip src lx)
           else if c = CHR ''/'' \<and> Lexer_peek src lx 1 = CHR ''/'' then
             skipWhitespaceAndComments src (Lexer_skipLineComment src lx)
           else if c = CHR ''/'' \<and> Lexer_peek src lx 1 = CHR ''*'' then
             let lx1 = Lexer_skipBlockText src (Lexer_skip src (Lexer_skip src lx))
             in if Lexer_isAtEnd src lx1 then
                  Lexer_error (mk_span (lx_current lx) (lx_current lx1))
                    ''unterminated block comment'' lx1
                else skipWhitespaceAndComments src (Lexer_skip src (Lexer_skip src lx1))
           else lx)"
  by pat_completeness auto
termination
proof (relation "measure (\<lambda>(src, lx). sf_size src - lx_current lx)", goal_cases)
  case (3 src lx x)
  have "Lexer_peek src lx 0 \<noteq> newline" using 3 by auto
  then have "Lexer_skipLineComment src lx = Lexer_skipLineComment src (Lexer_skip src lx)"
    unfolding Lexer_skipLineComment_def
    by (subst Lexer_advanceWhile.simps) (use 3 in simp)
  then have "lx_current lx < lx_current (Lexer_skipLineComment src lx)"
    using lx_current_advanceWhile[of "Lexer_skip src lx" src]
    by (simp add: Lexer_skipLineComment_def Suc_le_lessD)
  with 3 show ?case by (auto simp: Lexer_isAtEnd_def)
next
  case (4 src lx x xa)
  have "Suc (Suc (lx_current lx)) \<le> lx_current xa"
    using lx_current_advanceWhile[of "Lexer_skip src (Lexer_skip src lx)" src] 4
    by (simp add: Lexer_skipBlockText_def)
  with 4 show ?case by (auto simp: Lexer_isAtEnd_def)
qed (auto simp: Lexer_isAtEnd_def)

declare skipWhitespaceAndComments.simps [simp del]

section \<open>Tokens\<close>

definition Lexer_single :: "TokenKind \<Rightarrow> nat \<Rightarrow> lexer \<Rightarrow> Token" where
  "Lexer_single kind start lx = mk_token kind (mk_span start (lx_current lx))"

definition lexIdentifierOrKeyword :: "SourceFile \<Rightarrow> lexer \<Rightarrow> Token \<times> lexer" where
  "lexIdentifierOrKeyword src lx =
     (let start = lx_current lx - 1;
          lx1 = Lexer_advanceWhile src (\<lambda>l. isIdentifierContinue (Lexer_peek src l 0)) lx;
          span = mk_span start (lx_current lx1)
      in (mk_token (keywordKind (slice src span)) span, lx1))"

definition Lexer_digits :: "SourceFile \<Rightarrow> lexer \<Rightarrow> lexer" where
  "Lexer_digits src lx = Lexer_advanceWhile src (\<lambda>l. isDecimalDigit (Lexer_peek src l 0)) lx"

text \<open>The \<open>0x\<close> branch of \<open>lexIntegerLiteral\<close>.\<close>

definition lexHexLiteral :: "SourceFile \<Rightarrow> nat \<Rightarrow> lexer \<Rightarrow> Token \<times> lexer" where
  "lexHexLiteral src start lx =
     (let lx1 = Lexer_skip src lx;
          firstHexDigit = lx_current lx1;
          lx2 = Lexer_advanceWhile src (\<lambda>l. isHexDigit (Lexer_peek src l 0)) lx1;
          lx3 = (if lx_current lx2 = firstHexDigit
                 then Lexer_error (mk_span start (lx_current lx2))
                        (''expected at least one hexadecimal digit after '' @ [CHR 0x27] @ ''0x'' @ [CHR 0x27]) lx2
                 else lx2)
      in (mk_token IntegerLiteral (mk_span start (lx_current lx3)), lx3))"

definition lexFraction :: "SourceFile \<Rightarrow> lexer \<Rightarrow> bool \<times> lexer" where
  "lexFraction src lx =
     (if Lexer_peek src lx 0 = CHR ''.'' \<and> isDecimalDigit (Lexer_peek src lx 1)
      then (True, Lexer_digits src (Lexer_skip src lx)) else (False, lx))"

definition lexExponent :: "SourceFile \<Rightarrow> nat \<Rightarrow> lexer \<Rightarrow> bool \<times> lexer" where
  "lexExponent src start lx =
     (if Lexer_peek src lx 0 = CHR ''e'' \<or> Lexer_peek src lx 0 = CHR ''E'' then
        let lx1 = Lexer_skip src lx;
            lx2 = (if Lexer_peek src lx1 0 = CHR ''+'' \<or> Lexer_peek src lx1 0 = CHR ''-''
                   then Lexer_skip src lx1 else lx1);
            firstExponentDigit = lx_current lx2;
            lx3 = Lexer_digits src lx2
        in (True, if lx_current lx3 = firstExponentDigit
                  then Lexer_error (mk_span start (lx_current lx3))
                         ''expected at least one exponent digit in float literal'' lx3
                  else lx3)
      else (False, lx))"

definition lexIntegerLiteral :: "SourceFile \<Rightarrow> lexer \<Rightarrow> Token \<times> lexer" where
  "lexIntegerLiteral src lx =
     (let start = lx_current lx - 1
      in if sf_text src ! start = CHR ''0'' \<and>
            (Lexer_peek src lx 0 = CHR ''x'' \<or> Lexer_peek src lx 0 = CHR ''X'')
         then lexHexLiteral src start lx
         else
           let lx1 = Lexer_digits src lx;
               (isFloat1, lx2) = lexFraction src lx1;
               (isFloat2, lx3) = lexExponent src start lx2
           in (mk_token (if isFloat1 \<or> isFloat2 then FloatLiteral else IntegerLiteral)
                 (mk_span start (lx_current lx3)), lx3))"

definition isEscape :: "char \<Rightarrow> bool" where
  "isEscape c \<longleftrightarrow>
     c = dquote \<or> c = backslash \<or> c = CHR ''n'' \<or> c = CHR ''t'' \<or> c = CHR ''r''"

definition Lexer_unterminated :: "nat \<Rightarrow> lexer \<Rightarrow> Token \<times> lexer" where
  "Lexer_unterminated start lx =
     (mk_token StringLiteral (mk_span start (lx_current lx)),
      Lexer_error (mk_span start (lx_current lx)) ''unterminated string literal'' lx)"

text \<open>The byte after a backslash: consumed whatever it is, and checked.\<close>

definition lexEscape :: "SourceFile \<Rightarrow> lexer \<Rightarrow> lexer" where
  "lexEscape src lx =
     (let (escaped, lx1) = Lexer_advance src lx
      in if \<not> isEscape escaped
         then Lexer_error (mk_span (lx_current lx1 - 2) (lx_current lx1))
                ''unsupported string escape sequence'' lx1
         else lx1)"

function lexStringLiteral :: "SourceFile \<Rightarrow> nat \<Rightarrow> lexer \<Rightarrow> Token \<times> lexer" where
  "lexStringLiteral src start lx =
     (if Lexer_isAtEnd src lx then Lexer_unterminated start lx
      else
        let (c, lx1) = Lexer_advance src lx
        in if c = dquote then
             (mk_token StringLiteral (mk_span start (lx_current lx1)), lx1)
           else if c = newline \<or> c = CHR 0x0D then Lexer_unterminated start lx1
           else if c = backslash then
             if Lexer_isAtEnd src lx1 then Lexer_unterminated start lx1
             else lexStringLiteral src start (lexEscape src lx1)
           else lexStringLiteral src start lx1)"
  by pat_completeness auto
termination
  by (relation "measure (\<lambda>(src, start, lx). sf_size src - lx_current lx)")
    (auto simp: Lexer_isAtEnd_def Lexer_advance_def Lexer_error_def lexEscape_def)

declare lexStringLiteral.simps [simp del]

text \<open>A token of one character, or of two when the second one follows.\<close>

definition Lexer_oneOrTwo ::
    "SourceFile \<Rightarrow> nat \<Rightarrow> char \<Rightarrow> TokenKind \<Rightarrow> TokenKind \<Rightarrow> lexer \<Rightarrow> Token \<times> lexer" where
  "Lexer_oneOrTwo src start second two one lx =
     (let (b, lx1) = Lexer_match src second lx
      in (Lexer_single (if b then two else one) start lx1, lx1))"

text \<open>The branches of \<open><\<close> and \<open>>\<close>: followed by \<open>=\<close>, by itself, or alone.\<close>

definition Lexer_equalOrTwo ::
    "SourceFile \<Rightarrow> nat \<Rightarrow> TokenKind \<Rightarrow> char \<Rightarrow> TokenKind \<Rightarrow> TokenKind \<Rightarrow> lexer \<Rightarrow> Token \<times> lexer" where
  "Lexer_equalOrTwo src start eq second two one lx =
     (let (b, lx1) = Lexer_match src (CHR ''='') lx
      in if b then (Lexer_single eq start lx1, lx1)
         else Lexer_oneOrTwo src start second two one lx1)"

definition lexToken :: "SourceFile \<Rightarrow> lexer \<Rightarrow> Token \<times> lexer" where
  "lexToken src lx =
     (let start = lx_current lx;
          (c, lx1) = Lexer_advance src lx
      in if isIdentifierStart c then lexIdentifierOrKeyword src lx1
         else if isDecimalDigit c then lexIntegerLiteral src lx1
         else if c = dquote then lexStringLiteral src start lx1
         else if c = CHR ''+'' then (Lexer_single Plus start lx1, lx1)
         else if c = CHR ''-'' then Lexer_oneOrTwo src start (CHR ''>'') Arrow Minus lx1
         else if c = CHR ''*'' then (Lexer_single Star start lx1, lx1)
         else if c = CHR ''/'' then (Lexer_single Slash start lx1, lx1)
         else if c = CHR ''%'' then (Lexer_single Percent start lx1, lx1)
         else if c = CHR ''!'' then Lexer_oneOrTwo src start (CHR ''='') BangEqual Bang lx1
         else if c = CHR ''~'' then (Lexer_single Tilde start lx1, lx1)
         else if c = CHR ''='' then Lexer_oneOrTwo src start (CHR ''='') EqualEqual Equal lx1
         else if c = CHR ''<'' then Lexer_equalOrTwo src start LessEqual (CHR ''<'') LessLess Less lx1
         else if c = CHR ''>'' then Lexer_equalOrTwo src start GreaterEqual (CHR ''>'') GreaterGreater Greater lx1
         else if c = CHR ''&'' then Lexer_oneOrTwo src start (CHR ''&'') AmpAmp Amp lx1
         else if c = CHR ''|'' then Lexer_oneOrTwo src start (CHR ''|'') PipePipe Pipe lx1
         else if c = CHR ''^'' then (Lexer_single Caret start lx1, lx1)
         else if c = CHR ''('' then (Lexer_single LeftParen start lx1, lx1)
         else if c = CHR '')'' then (Lexer_single RightParen start lx1, lx1)
         else if c = CHR ''['' then (Lexer_single LeftBracket start lx1, lx1)
         else if c = CHR '']'' then (Lexer_single RightBracket start lx1, lx1)
         else if c = CHR ''{'' then (Lexer_single LeftBrace start lx1, lx1)
         else if c = CHR ''}'' then (Lexer_single RightBrace start lx1, lx1)
         else if c = CHR '','' then (Lexer_single Comma start lx1, lx1)
         else if c = CHR '';'' then (Lexer_single Semicolon start lx1, lx1)
         else if c = CHR '':'' then (Lexer_single Colon start lx1, lx1)
         else
           (mk_token EndOfFile (mk_span start (lx_current lx1)),
            Lexer_error (mk_span start (lx_current lx1))
              (if isNonAscii c then ''unsupported non-ASCII character in nex syntax''
               else ''unsupported character'') lx1))"

section \<open>Every operation moves forward and only adds diagnostics\<close>

definition lx_step :: "SourceFile \<Rightarrow> lexer \<Rightarrow> lexer \<Rightarrow> bool" where
  "lx_step src lx lx' \<longleftrightarrow>
     lx_current lx \<le> lx_current lx' \<and>
     (lx_current lx \<le> sf_size src \<longrightarrow> lx_current lx' \<le> sf_size src) \<and>
     bag_ext (lx_bag lx) (lx_bag lx')"

lemma lx_step_refl [simp, intro]: "lx_step src lx lx"
  by (simp add: lx_step_def)

lemma lx_step_trans: "lx_step src a b \<Longrightarrow> lx_step src b c \<Longrightarrow> lx_step src a c"
  unfolding lx_step_def by (blast intro: le_trans bag_ext_trans)

lemma lx_step_error [simp, intro]: "lx_step src lx (Lexer_error sp m lx)"
  by (simp add: lx_step_def Lexer_error_def)

lemma lx_step_error_trans [intro]: "lx_step src lx lx1 \<Longrightarrow> lx_step src lx (Lexer_error sp m lx1)"
  by (blast intro: lx_step_trans)

lemma lx_current_error [simp]: "lx_current (Lexer_error sp m lx) = lx_current lx"
  by (simp add: Lexer_error_def)

lemma hasErrors_Lexer_error [simp]: "hasErrors (lx_bag (Lexer_error sp m lx))"
  by (simp add: Lexer_error_def)

lemma Lexer_isAtEnd_error [simp]: "Lexer_isAtEnd src (Lexer_error sp m lx) = Lexer_isAtEnd src lx"
  by (simp add: Lexer_isAtEnd_def)

lemma lx_step_skip: "\<not> Lexer_isAtEnd src lx \<Longrightarrow> lx_step src lx (Lexer_skip src lx)"
  by (simp add: lx_step_def Lexer_isAtEnd_def)

lemma Lexer_advance_eq: "Lexer_advance src lx = (sf_text src ! lx_current lx, Lexer_skip src lx)"
  by (simp add: Lexer_advance_def Lexer_skip_def)

text \<open>A byte other than the sentinel was really read from the text.\<close>

lemma Lexer_peek_in: "Lexer_peek src lx k \<noteq> CHR 0x00 \<Longrightarrow> lx_current lx + k < sf_size src"
  by (auto simp: Lexer_peek_def Let_def split: if_splits)

lemma Lexer_peek_notAtEnd: "Lexer_peek src lx 0 \<noteq> CHR 0x00 \<Longrightarrow> \<not> Lexer_isAtEnd src lx"
  using Lexer_peek_in[of src lx 0] by (simp add: Lexer_isAtEnd_def)

lemma Lexer_peek_notAtEnd1: "Lexer_peek src lx 1 \<noteq> CHR 0x00 \<Longrightarrow> \<not> Lexer_isAtEnd src (Lexer_skip src lx)"
  using Lexer_peek_in[of src lx 1] by (simp add: Lexer_isAtEnd_def)

lemma lx_step_peek: "Lexer_peek src lx 0 \<noteq> CHR 0x00 \<Longrightarrow> lx_step src lx (Lexer_skip src lx)"
  by (simp add: lx_step_skip Lexer_peek_notAtEnd)

lemma lx_step_peek1:
  "Lexer_peek src lx 1 \<noteq> CHR 0x00 \<Longrightarrow> lx_step src lx (Lexer_skip src (Lexer_skip src lx))"
  using Lexer_peek_in[of src lx 1] by (simp add: lx_step_def)

lemma Lexer_peek0: "\<not> Lexer_isAtEnd src lx \<Longrightarrow> Lexer_peek src lx 0 = sf_text src ! lx_current lx"
  by (simp add: Lexer_peek_def Lexer_isAtEnd_def)

lemma lx_step_advanceWhile: "lx_step src lx (Lexer_advanceWhile src P lx)"
proof (induction src P lx rule: Lexer_advanceWhile.induct)
  case (1 src P lx)
  then show ?case
    by (subst Lexer_advanceWhile.simps) (auto intro: lx_step_trans lx_step_skip)
qed

lemma lx_bag_advanceWhile [simp]: "lx_bag (Lexer_advanceWhile src P lx) = lx_bag lx"
proof (induction src P lx rule: Lexer_advanceWhile.induct)
  case (1 src P lx)
  then show ?case by (subst Lexer_advanceWhile.simps) auto
qed

text \<open>What the loop leaves behind: the bytes it passed satisfy the test, the next one fails it.\<close>

lemma advanceWhile_stop:
  "\<not> Lexer_isAtEnd src (Lexer_advanceWhile src P lx) \<Longrightarrow> \<not> P (Lexer_advanceWhile src P lx)"
proof (induction src P lx rule: Lexer_advanceWhile.induct)
  case (1 src P lx)
  then show ?case
    by (cases "\<not> Lexer_isAtEnd src lx \<and> P lx") (auto simp: Lexer_advanceWhile.simps[of src P lx])
qed

lemma advanceWhile_passed:
  "i < lx_current (Lexer_advanceWhile src (\<lambda>l. Q (Lexer_peek src l 0)) lx) \<Longrightarrow> lx_current lx \<le> i \<Longrightarrow>
    Q (sf_text src ! i)"
proof (induction src "\<lambda>l. Q (Lexer_peek src l 0)" lx rule: Lexer_advanceWhile.induct)
  case (1 src lx)
  then show ?case
    by (cases "\<not> Lexer_isAtEnd src lx \<and> Q (Lexer_peek src lx 0)"; cases "i = lx_current lx")
      (auto simp: Lexer_advanceWhile.simps[of src _ lx] Lexer_peek0)
qed

lemma lx_step_skipLineComment: "lx_step src lx (Lexer_skipLineComment src lx)"
  by (simp add: Lexer_skipLineComment_def lx_step_advanceWhile)

lemma lx_step_skipBlockText: "lx_step src lx (Lexer_skipBlockText src lx)"
  by (simp add: Lexer_skipBlockText_def lx_step_advanceWhile)

lemma lx_step_digits: "lx_step src lx (Lexer_digits src lx)"
  by (simp add: Lexer_digits_def lx_step_advanceWhile)

text \<open>The branches of the trivia loop as equations.\<close>

definition isSpace :: "char \<Rightarrow> bool" where
  "isSpace c \<longleftrightarrow> c = CHR '' '' \<or> c = CHR 0x09 \<or> c = newline \<or> c = CHR 0x0D"

definition Lexer_blockEnd :: "SourceFile \<Rightarrow> lexer \<Rightarrow> lexer" where
  "Lexer_blockEnd src lx = Lexer_skipBlockText src (Lexer_skip src (Lexer_skip src lx))"

lemma skipWhitespace_cases:
  obtains (stop) "skipWhitespaceAndComments src lx = lx"
      "Lexer_isAtEnd src lx \<or> \<not> isSpace (Lexer_peek src lx 0)"
  | (space) "\<not> Lexer_isAtEnd src lx" "isSpace (Lexer_peek src lx 0)"
      "skipWhitespaceAndComments src lx = skipWhitespaceAndComments src (Lexer_skip src lx)"
  | (line) "\<not> Lexer_isAtEnd src lx" "Lexer_peek src lx 0 = CHR ''/''" "Lexer_peek src lx 1 = CHR ''/''"
      "skipWhitespaceAndComments src lx =
         skipWhitespaceAndComments src (Lexer_skipLineComment src lx)"
  | (unterminated) "\<not> Lexer_isAtEnd src lx" "Lexer_peek src lx 0 = CHR ''/''"
      "Lexer_peek src lx 1 = CHR ''*''" "Lexer_isAtEnd src (Lexer_blockEnd src lx)"
      "skipWhitespaceAndComments src lx =
         Lexer_error (mk_span (lx_current lx) (lx_current (Lexer_blockEnd src lx)))
           ''unterminated block comment'' (Lexer_blockEnd src lx)"
  | (block) "\<not> Lexer_isAtEnd src lx" "Lexer_peek src lx 0 = CHR ''/''"
      "Lexer_peek src lx 1 = CHR ''*''" "\<not> Lexer_isAtEnd src (Lexer_blockEnd src lx)"
      "skipWhitespaceAndComments src lx =
         skipWhitespaceAndComments src (Lexer_skip src (Lexer_skip src (Lexer_blockEnd src lx)))"
  using skipWhitespaceAndComments.simps[of src lx]
  unfolding isSpace_def Lexer_blockEnd_def Let_def by (smt (verit, best))

lemma blockEnd_close:
  assumes "\<not> Lexer_isAtEnd src (Lexer_blockEnd src lx)"
  shows "Lexer_peek src (Lexer_blockEnd src lx) 0 = CHR ''*''"
    "Lexer_peek src (Lexer_blockEnd src lx) 1 = CHR ''/''"
  using assms advanceWhile_stop[of src] unfolding Lexer_blockEnd_def Lexer_skipBlockText_def by blast+

lemma lx_current_skipLineComment:
  assumes "\<not> Lexer_isAtEnd src lx" "Lexer_peek src lx 0 \<noteq> newline"
  shows "lx_current lx < lx_current (Lexer_skipLineComment src lx)"
  using lx_current_advanceWhile[of "Lexer_skip src lx" src] assms
  unfolding Lexer_skipLineComment_def
  by (subst Lexer_advanceWhile.simps) (simp add: Suc_le_lessD)

lemma lx_step_blockEnd:
  "Lexer_peek src lx 1 \<noteq> CHR 0x00 \<Longrightarrow> lx_step src lx (Lexer_blockEnd src lx)"
  unfolding Lexer_blockEnd_def by (rule lx_step_trans[OF lx_step_peek1 lx_step_skipBlockText])

text \<open>Induction along the loop: one case per way an iteration can go.\<close>

lemma skipWhitespace_induct [case_names stop space line unterminated block]:
  assumes stop: "\<And>lx. skipWhitespaceAndComments src lx = lx \<Longrightarrow> Q lx"
    and space: "\<And>lx. \<lbrakk>\<not> Lexer_isAtEnd src lx; isSpace (Lexer_peek src lx 0);
      skipWhitespaceAndComments src lx = skipWhitespaceAndComments src (Lexer_skip src lx);
      Q (Lexer_skip src lx)\<rbrakk> \<Longrightarrow> Q lx"
    and line: "\<And>lx. \<lbrakk>\<not> Lexer_isAtEnd src lx; Lexer_peek src lx 0 = CHR ''/'';
      Lexer_peek src lx 1 = CHR ''/'';
      skipWhitespaceAndComments src lx = skipWhitespaceAndComments src (Lexer_skipLineComment src lx);
      Q (Lexer_skipLineComment src lx)\<rbrakk> \<Longrightarrow> Q lx"
    and unterminated: "\<And>lx. \<lbrakk>\<not> Lexer_isAtEnd src lx; Lexer_peek src lx 0 = CHR ''/'';
      Lexer_peek src lx 1 = CHR ''*''; Lexer_isAtEnd src (Lexer_blockEnd src lx);
      skipWhitespaceAndComments src lx =
         Lexer_error (mk_span (lx_current lx) (lx_current (Lexer_blockEnd src lx)))
           ''unterminated block comment'' (Lexer_blockEnd src lx)\<rbrakk> \<Longrightarrow> Q lx"
    and block: "\<And>lx. \<lbrakk>\<not> Lexer_isAtEnd src lx; Lexer_peek src lx 0 = CHR ''/'';
      Lexer_peek src lx 1 = CHR ''*''; \<not> Lexer_isAtEnd src (Lexer_blockEnd src lx);
      skipWhitespaceAndComments src lx =
         skipWhitespaceAndComments src (Lexer_skip src (Lexer_skip src (Lexer_blockEnd src lx)));
      Q (Lexer_skip src (Lexer_skip src (Lexer_blockEnd src lx)))\<rbrakk> \<Longrightarrow> Q lx"
  shows "Q lx"
proof (induction "sf_size src - lx_current lx" arbitrary: lx rule: less_induct)
  case less
  show ?case
  proof (cases src lx rule: skipWhitespace_cases)
    case space
    then show ?thesis using less assms(2) by (simp add: Lexer_isAtEnd_def)
  next
    case line
    then show ?thesis
      using less assms(3) lx_current_skipLineComment[of src lx] by (simp add: Lexer_isAtEnd_def)
  next
    case block
    have "lx_current lx \<le> lx_current (Lexer_blockEnd src lx)"
      using lx_step_blockEnd[of src lx] block by (simp add: lx_step_def)
    then show ?thesis using block less assms(5) by (simp add: Lexer_isAtEnd_def)
  qed (use assms in auto)
qed

lemma lx_step_skipWhitespaceAndComments: "lx_step src lx (skipWhitespaceAndComments src lx)"
proof (induction lx rule: skipWhitespace_induct[where src = src])
  case (block lx)
  have "lx_step src (Lexer_blockEnd src lx) (Lexer_skip src (Lexer_skip src (Lexer_blockEnd src lx)))"
    using blockEnd_close(2)[OF block(4)] by (intro lx_step_peek1) simp
  moreover have "lx_step src lx (Lexer_blockEnd src lx)"
    using block(3) by (intro lx_step_blockEnd) simp
  ultimately show ?case using block by (auto intro: lx_step_trans)
next
  case (unterminated lx)
  have "lx_step src lx (Lexer_blockEnd src lx)"
    using unterminated(3) by (intro lx_step_blockEnd) simp
  then show ?case using unterminated(5) by auto
next
  case (line lx)
  then show ?case by (auto intro: lx_step_trans[OF lx_step_skipLineComment])
next
  case (space lx)
  then show ?case by (auto intro: lx_step_trans[OF lx_step_skip])
qed simp

text \<open>
  What a token routine promises, given that the cursor is one past the token's first byte:
  the span runs from that byte to the new cursor.
\<close>

definition token_ok :: "SourceFile \<Rightarrow> nat \<Rightarrow> lexer \<Rightarrow> Token \<times> lexer \<Rightarrow> bool" where
  "token_ok src start lx r \<longleftrightarrow>
     lx_step src lx (snd r) \<and> tok_span (fst r) = mk_span start (lx_current (snd r))"

lemma token_ok_identifier:
  "token_ok src (lx_current lx - 1) lx (lexIdentifierOrKeyword src lx)"
  by (simp add: token_ok_def lexIdentifierOrKeyword_def Let_def lx_step_advanceWhile)

lemma token_ok_hex:
  assumes "\<not> Lexer_isAtEnd src lx"
  shows "token_ok src start lx (lexHexLiteral src start lx)"
proof -
  have "lx_step src lx (Lexer_advanceWhile src P (Lexer_skip src lx))" for P
    using assms by (blast intro: lx_step_trans lx_step_skip lx_step_advanceWhile)
  then show ?thesis
    by (auto simp: token_ok_def lexHexLiteral_def Let_def)
qed

lemma isDecimalDigit_null [simp]: "\<not> isDecimalDigit (CHR 0x00)"
  by (simp add: isDecimalDigit_def)

lemma lx_step_fraction: "lx_step src lx (snd (lexFraction src lx))"
  by (auto simp: lexFraction_def intro: lx_step_trans[OF lx_step_peek lx_step_digits])

lemma lx_step_exponent: "lx_step src lx (snd (lexExponent src start lx))"
proof (cases "Lexer_peek src lx 0 = CHR ''e'' \<or> Lexer_peek src lx 0 = CHR ''E''")
  case True
  let ?lx1 = "Lexer_skip src lx"
  let ?lx2 = "if Lexer_peek src ?lx1 0 = CHR ''+'' \<or> Lexer_peek src ?lx1 0 = CHR ''-''
              then Lexer_skip src ?lx1 else ?lx1"
  have "lx_step src lx ?lx1" using True by (auto intro: lx_step_peek)
  moreover have "lx_step src ?lx1 ?lx2" by (auto intro: lx_step_peek)
  ultimately have "lx_step src lx (Lexer_digits src ?lx2)"
    by (blast intro: lx_step_trans lx_step_digits)
  with True show ?thesis by (auto simp: lexExponent_def Let_def)
qed (simp add: lexExponent_def)

lemma token_ok_integer:
  "token_ok src (lx_current lx - 1) lx (lexIntegerLiteral src lx)"
proof -
  have "token_ok src start lx (lexHexLiteral src start lx)"
    if "Lexer_peek src lx 0 = CHR ''x'' \<or> Lexer_peek src lx 0 = CHR ''X''" for start
    using that by (auto intro!: token_ok_hex Lexer_peek_notAtEnd)
  moreover have "lx_step src lx
      (snd (lexExponent src start (snd (lexFraction src (Lexer_digits src lx)))))" for start
    by (blast intro: lx_step_trans lx_step_digits lx_step_fraction lx_step_exponent)
  ultimately show ?thesis
    by (auto simp: lexIntegerLiteral_def Let_def token_ok_def case_prod_unfold)
qed

lemma token_ok_unterminated: "token_ok src start lx (Lexer_unterminated start lx)"
  by (auto simp: token_ok_def Lexer_unterminated_def)

lemma token_ok_trans:
  "lx_step src lx lx' \<Longrightarrow> token_ok src start lx' r \<Longrightarrow> token_ok src start lx r"
  by (auto simp: token_ok_def intro: lx_step_trans)

lemma lx_step_escape: "\<not> Lexer_isAtEnd src lx \<Longrightarrow> lx_step src lx (lexEscape src lx)"
  by (auto simp: lexEscape_def Lexer_advance_eq intro!: lx_step_error_trans lx_step_skip)

lemma lx_current_escape [simp]: "lx_current (lexEscape src lx) = Suc (lx_current lx)"
  by (simp add: lexEscape_def Lexer_advance_eq)

text \<open>The branches of the string loop, and induction along it.\<close>

lemma lexString_cases:
  obtains (at_end) "Lexer_isAtEnd src lx" "lexStringLiteral src start lx = Lexer_unterminated start lx"
  | (quote) "\<not> Lexer_isAtEnd src lx" "sf_text src ! lx_current lx = dquote"
      "lexStringLiteral src start lx =
         (mk_token StringLiteral (mk_span start (Suc (lx_current lx))), Lexer_skip src lx)"
  | (line_end) "\<not> Lexer_isAtEnd src lx"
      "lexStringLiteral src start lx = Lexer_unterminated start (Lexer_skip src lx)"
  | (escape) "\<not> Lexer_isAtEnd src lx" "sf_text src ! lx_current lx = backslash"
      "\<not> Lexer_isAtEnd src (Lexer_skip src lx)"
      "lexStringLiteral src start lx = lexStringLiteral src start (lexEscape src (Lexer_skip src lx))"
  | (plain) "\<not> Lexer_isAtEnd src lx" "sf_text src ! lx_current lx \<noteq> dquote"
      "sf_text src ! lx_current lx \<noteq> backslash"
      "sf_text src ! lx_current lx \<noteq> newline" "sf_text src ! lx_current lx \<noteq> CHR 0x0D"
      "lexStringLiteral src start lx = lexStringLiteral src start (Lexer_skip src lx)"
  using lexStringLiteral.simps[of src start lx]
  by (cases "Lexer_isAtEnd src lx") (auto simp: Lexer_advance_eq split: if_splits)

lemma lexString_induct [case_names at_end quote line_end escape plain]:
  assumes "\<And>lx. \<lbrakk>Lexer_isAtEnd src lx;
      lexStringLiteral src start lx = Lexer_unterminated start lx\<rbrakk> \<Longrightarrow> Q lx"
    and "\<And>lx. \<lbrakk>\<not> Lexer_isAtEnd src lx; sf_text src ! lx_current lx = dquote;
      lexStringLiteral src start lx =
         (mk_token StringLiteral (mk_span start (Suc (lx_current lx))), Lexer_skip src lx)\<rbrakk> \<Longrightarrow> Q lx"
    and "\<And>lx. \<lbrakk>\<not> Lexer_isAtEnd src lx;
      lexStringLiteral src start lx = Lexer_unterminated start (Lexer_skip src lx)\<rbrakk> \<Longrightarrow> Q lx"
    and "\<And>lx. \<lbrakk>\<not> Lexer_isAtEnd src lx; sf_text src ! lx_current lx = backslash;
      \<not> Lexer_isAtEnd src (Lexer_skip src lx);
      lexStringLiteral src start lx = lexStringLiteral src start (lexEscape src (Lexer_skip src lx));
      Q (lexEscape src (Lexer_skip src lx))\<rbrakk> \<Longrightarrow> Q lx"
    and "\<And>lx. \<lbrakk>\<not> Lexer_isAtEnd src lx; sf_text src ! lx_current lx \<noteq> dquote;
      sf_text src ! lx_current lx \<noteq> backslash;
      sf_text src ! lx_current lx \<noteq> newline; sf_text src ! lx_current lx \<noteq> CHR 0x0D;
      lexStringLiteral src start lx = lexStringLiteral src start (Lexer_skip src lx);
      Q (Lexer_skip src lx)\<rbrakk> \<Longrightarrow> Q lx"
  shows "Q lx"
proof (induction "sf_size src - lx_current lx" arbitrary: lx rule: less_induct)
  case less
  show ?case
    by (cases rule: lexString_cases[where src = src and lx = lx and start = start]) (use assms less in \<open>auto simp: Lexer_isAtEnd_def\<close>)
qed

lemma token_ok_string: "token_ok src start lx (lexStringLiteral src start lx)"
proof (induction lx rule: lexString_induct[where src = src and start = start])
  case (quote lx)
  then show ?case by (simp add: token_ok_def lx_step_skip)
next
  case (line_end lx)
  then show ?case by (auto intro: token_ok_trans[OF lx_step_skip token_ok_unterminated])
next
  case (escape lx)
  then show ?case
    by (auto intro: token_ok_trans[OF lx_step_trans[OF lx_step_skip lx_step_escape]])
next
  case (plain lx)
  then show ?case by (auto intro: token_ok_trans[OF lx_step_skip])
qed (simp add: token_ok_unterminated)

lemma token_ok_oneOrTwo: "token_ok src start lx (Lexer_oneOrTwo src start c two one lx)"
  by (auto simp: token_ok_def Lexer_oneOrTwo_def Lexer_match_def Lexer_single_def lx_step_def
      Lexer_isAtEnd_def)

lemma token_ok_single: "token_ok src start lx (Lexer_single k start lx, lx)"
  by (simp add: token_ok_def Lexer_single_def)

lemma lx_step_match: "lx_step src lx (snd (Lexer_match src c lx))"
  by (auto simp: Lexer_match_def lx_step_def Lexer_isAtEnd_def)

lemma token_ok_equalOrTwo: "token_ok src start lx (Lexer_equalOrTwo src start eq c two one lx)"
  unfolding Lexer_equalOrTwo_def Let_def case_prod_unfold
  by (rule token_ok_trans[OF lx_step_match[where c = "CHR ''=''"]])
    (simp add: token_ok_single token_ok_oneOrTwo)

lemma token_ok_bad:
  "token_ok src start lx (mk_token k (mk_span start (lx_current lx)), Lexer_error sp m lx)"
  by (auto simp: token_ok_def)

lemma token_ok_if:
  "(b \<Longrightarrow> token_ok src start lx r) \<Longrightarrow> (\<not> b \<Longrightarrow> token_ok src start lx r') \<Longrightarrow>
    token_ok src start lx (if b then r else r')"
  by simp

lemma token_ok_lexToken:
  "token_ok src (lx_current lx) (Lexer_skip src lx) (lexToken src lx)"
  unfolding lexToken_def Lexer_advance_eq Let_def case_prod_conv
  by (intro token_ok_if token_ok_string token_ok_single token_ok_oneOrTwo token_ok_equalOrTwo
      token_ok_bad token_ok_identifier[of src "Lexer_skip src lx", simplified]
      token_ok_integer[of src "Lexer_skip src lx", simplified])

lemma lexToken_progress:
  assumes "\<not> Lexer_isAtEnd src lx" "lexToken src lx = (t, lx')"
  shows "lx_current lx < lx_current lx'" "lx_current lx' \<le> sf_size src"
    "bag_ext (lx_bag lx) (lx_bag lx')" "tok_span t = mk_span (lx_current lx) (lx_current lx')"
  using token_ok_lexToken[of src lx] assms
  unfolding token_ok_def lx_step_def Lexer_isAtEnd_def by simp_all

section \<open>The token stream\<close>

function Lexer_loop :: "SourceFile \<Rightarrow> lexer \<Rightarrow> Token list \<times> lexer" where
  "Lexer_loop src lx =
     (let lx1 = skipWhitespaceAndComments src lx
      in if Lexer_isAtEnd src lx1 then
           ([mk_token EndOfFile (mk_span (lx_current lx1) (lx_current lx1))], lx1)
         else
           let (t, lx2) = lexToken src lx1;
               (ts, lx3) = Lexer_loop src lx2
           in (t # ts, lx3))"
  by pat_completeness auto
termination
proof (relation "measure (\<lambda>(src, lx). sf_size src - lx_current lx)", goal_cases)
  case (2 src lx x xa t lx2)
  then have "lx_current x < lx_current lx2" "lx_current lx2 \<le> sf_size src"
    by (metis lexToken_progress)+
  moreover have "lx_current lx \<le> lx_current x"
    using lx_step_skipWhitespaceAndComments[of src lx] 2 by (simp add: lx_step_def)
  ultimately show ?case by simp
qed simp

declare Lexer_loop.simps [simp del]

definition tokenize :: "SourceFile \<Rightarrow> DiagnosticBag \<Rightarrow> Token list \<times> DiagnosticBag" where
  "tokenize src bag =
     (let (ts, lx) = Lexer_loop src (Lexer_new bag) in (ts, lx_bag lx))"

interpretation lexer_bag: diagnostic_client lx_bag "\<lambda>b lx. lx\<lparr>lx_bag := b\<rparr>"
  by unfold_locales simp_all

end
