(* ===== verification/Numbers.thy ===== *)
theory Numbers
  imports Prelude
begin

text \<open>
  The integer conversions of the C++ library that the compiler calls, after their documented
  behaviour: \<open>std::from_chars\<close> on an unsigned type (digits only, no sign, no prefix, the error
  as a value) and \<open>std::stoull\<close> with base 0 (white space, a sign, a prefix that picks the base,
  exceptions). Both share the digit scanner.
\<close>

section \<open>Digits\<close>

definition code :: "char \<Rightarrow> nat" where
  "code c = of_char c"

definition digit_val :: "nat \<Rightarrow> char \<Rightarrow> nat option" where
  "digit_val base c =
     (let d = (if CHR ''0'' \<le> c \<and> c \<le> CHR ''9'' then code c - code (CHR ''0'')
               else if CHR ''a'' \<le> c \<and> c \<le> CHR ''z'' then code c - code (CHR ''a'') + 10
               else if CHR ''A'' \<le> c \<and> c \<le> CHR ''Z'' then code c - code (CHR ''A'') + 10
               else base)
      in if d < base then Some d else None)"

definition is_digit :: "nat \<Rightarrow> char \<Rightarrow> bool" where
  "is_digit base c \<longleftrightarrow> digit_val base c \<noteq> None"

definition digits_value :: "nat \<Rightarrow> string \<Rightarrow> nat" where
  "digits_value base s = foldl (\<lambda>v c. v * base + the (digit_val base c)) 0 s"

section \<open>\<open>std::from_chars\<close>\<close>

text \<open>The value and the number of characters read, or the \<open>std::errc\<close>.\<close>

datatype from_chars_result = FC_ok nat nat | FC_invalid_argument | FC_result_out_of_range

definition from_chars :: "nat \<Rightarrow> nat \<Rightarrow> string \<Rightarrow> from_chars_result" where
  "from_chars base bound s =
     (let ds = takeWhile (is_digit base) s
      in if ds = [] then FC_invalid_argument
         else if digits_value base ds \<ge> bound then FC_result_out_of_range
         else FC_ok (digits_value base ds) (length ds))"

section \<open>\<open>std::stoull\<close>\<close>

definition c_isspace :: "char \<Rightarrow> bool" where
  "c_isspace c \<longleftrightarrow> c = CHR '' '' \<or> (CHR 0x09 \<le> c \<and> c \<le> CHR 0x0D)"

text \<open>
  \<open>strtoull\<close> with base 0: the base and the digits after the prefix. A \<open>0x\<close> that no
  hexadecimal digit follows is the digit \<open>0\<close>; any other leading zero means octal.
\<close>

definition detect_base :: "string \<Rightarrow> nat \<times> nat" where
  "detect_base s =
     (case s of
        c # x # h # _ \<Rightarrow>
          if c = CHR ''0'' \<and> (x = CHR ''x'' \<or> x = CHR ''X'') \<and> is_digit 16 h then (16, 2)
          else if c = CHR ''0'' then (8, 0) else (10, 0)
      | c # _ \<Rightarrow> if c = CHR ''0'' then (8, 0) else (10, 0)
      | [] \<Rightarrow> (10, 0))"

definition stoull0 :: "string \<Rightarrow> (64 word \<times> nat) result" where
  "stoull0 s =
     (let blanks = length (takeWhile c_isspace s);
          s1 = drop blanks s;
          negative = (s1 \<noteq> [] \<and> hd s1 = CHR ''-'');
          signs = (if s1 \<noteq> [] \<and> (hd s1 = CHR ''-'' \<or> hd s1 = CHR ''+'') then 1 else 0);
          s2 = drop signs s1;
          (base, skip) = detect_base s2;
          ds = takeWhile (is_digit base) (drop skip s2);
          v = digits_value base ds
      in if ds = [] then Throw (InvalidArgument ''stoull'')
         else if v \<ge> 2 ^ 64 then Throw (OutOfRange ''stoull'')
         else Ok (if negative then - of_nat v else of_nat v, blanks + signs + skip + length ds))"

section \<open>Facts\<close>

lemma digit_val_less: "digit_val base c = Some d \<Longrightarrow> d < base"
  by (auto simp: digit_val_def Let_def split: if_splits)

lemma digits_value_Nil [simp]: "digits_value base [] = 0"
  by (simp add: digits_value_def)

lemma digits_value_snoc:
  "digits_value base (s @ [c]) = digits_value base s * base + the (digit_val base c)"
  by (simp add: digits_value_def)

lemma digits_value_less:
  "list_all (is_digit base) s \<Longrightarrow> digits_value base s < base ^ length s"
proof (induction s rule: rev_induct)
  case (snoc c s)
  then obtain d where d: "digit_val base c = Some d" by (auto simp: is_digit_def)
  have "digits_value base s + 1 \<le> base ^ length s" using snoc by (simp add: Suc_le_eq)
  then have "(digits_value base s + 1) * base \<le> base ^ length s * base" by (rule mult_le_mono1)
  then show ?case using digit_val_less[OF d] d by (simp add: digits_value_snoc algebra_simps)
qed simp

lemma takeWhile_is_digit: "list_all (is_digit base) (takeWhile (is_digit base) s)"
  by (auto simp: list_all_iff dest: set_takeWhileD)

lemma from_chars_ok_iff:
  "from_chars base bound s = FC_ok v n \<longleftrightarrow>
     n = length (takeWhile (is_digit base) s) \<and> n \<noteq> 0 \<and>
     v = digits_value base (takeWhile (is_digit base) s) \<and> v < bound"
  by (auto simp: from_chars_def Let_def)

lemma stoull0_never_out_of_fuel [simp]: "stoull0 s \<noteq> OutOfFuel"
  by (simp add: stoull0_def Let_def case_prod_unfold)

lemma stoull0_consumed: "stoull0 s = Ok (v, n) \<Longrightarrow> 0 < n \<and> n \<le> length s"
proof -
  assume a: "stoull0 s = Ok (v, n)"
  define b where "b = length (takeWhile c_isspace s)"
  define sg where "sg = (if drop b s \<noteq> [] \<and> (hd (drop b s) = CHR ''-'' \<or> hd (drop b s) = CHR ''+'') then 1 else 0 :: nat)"
  define k where "k = detect_base (drop sg (drop b s))"
  define ds where "ds = takeWhile (is_digit (fst k)) (drop (snd k) (drop sg (drop b s)))"
  have n: "n = b + sg + snd k + length ds" and ne: "ds \<noteq> []"
    using a unfolding stoull0_def Let_def case_prod_unfold
      b_def[symmetric] sg_def[symmetric] k_def[symmetric] ds_def[symmetric]
    by (auto split: if_splits)
  have "length ds \<le> length s - b - sg - snd k"
    unfolding ds_def using length_takeWhile_le[of "is_digit (fst k)" "drop (snd k) (drop sg (drop b s))"]
    by (simp add: ac_simps)
  with n ne show "0 < n \<and> n \<le> length s"
    by (cases ds) auto
qed

end
