(* ===== verification/Parser.thy ===== *)
theory Parser
  imports Ast Lexer Numbers
begin

text \<open>
  \<open>include/nexc/frontend/parser.h\<close> and \<open>src/frontend/parser.cpp\<close>: recursive descent over the
  token vector. The parser's own state is its cursor and the bag; source and tokens are read
  only. The mutually recursive routines run on fuel: \<open>Parser_fuel\<close>, linear in the number of
  tokens, is always enough (theory \<open>ParserProps\<close>). \<open>std::stoull\<close> in \<open>parseType\<close> can throw, so
  the routines that parse types return a \<open>result\<close> whose \<open>Throw\<close> is the escaping exception.
  A \<open>while\<close> loop is a definition of its own, named after its routine.
\<close>

section \<open>State and cursor\<close>

record ParserInput =
  pi_source :: SourceFile
  pi_tokens :: "Token list"

record parser =
  ps_current :: nat
  ps_bag :: DiagnosticBag

definition Parser_new :: "DiagnosticBag \<Rightarrow> parser" where
  "Parser_new bag = \<lparr>ps_current = 0, ps_bag = bag\<rparr>"

definition Parser_error :: "SourceSpan \<Rightarrow> string \<Rightarrow> parser \<Rightarrow> parser" where
  "Parser_error span message ps = ps\<lparr>ps_bag := bag_error span message (ps_bag ps)\<rparr>"

definition Parser_peek :: "ParserInput \<Rightarrow> parser \<Rightarrow> nat \<Rightarrow> Token" where
  "Parser_peek inp ps offset =
     (let index = ps_current ps + offset
      in if index \<ge> length (pi_tokens inp) then last (pi_tokens inp) else pi_tokens inp ! index)"

definition Parser_previous :: "ParserInput \<Rightarrow> parser \<Rightarrow> Token" where
  "Parser_previous inp ps = pi_tokens inp ! (ps_current ps - 1)"

definition Parser_isAtEnd :: "ParserInput \<Rightarrow> parser \<Rightarrow> bool" where
  "Parser_isAtEnd inp ps \<longleftrightarrow> tok_kind (Parser_peek inp ps 0) = EndOfFile"

definition Parser_check :: "ParserInput \<Rightarrow> TokenKind \<Rightarrow> parser \<Rightarrow> bool" where
  "Parser_check inp kind ps \<longleftrightarrow> \<not> Parser_isAtEnd inp ps \<and> tok_kind (Parser_peek inp ps 0) = kind"

definition Parser_advance :: "ParserInput \<Rightarrow> parser \<Rightarrow> Token \<times> parser" where
  "Parser_advance inp ps =
     (let ps1 = (if \<not> Parser_isAtEnd inp ps then ps\<lparr>ps_current := ps_current ps + 1\<rparr> else ps)
      in (Parser_previous inp ps1, ps1))"

definition Parser_match :: "ParserInput \<Rightarrow> TokenKind \<Rightarrow> parser \<Rightarrow> bool \<times> parser" where
  "Parser_match inp kind ps =
     (if \<not> Parser_check inp kind ps then (False, ps) else (True, snd (Parser_advance inp ps)))"

definition Parser_expect ::
    "ParserInput \<Rightarrow> TokenKind \<Rightarrow> string \<Rightarrow> parser \<Rightarrow> Token \<times> parser" where
  "Parser_expect inp kind message ps =
     (if Parser_check inp kind ps then Parser_advance inp ps
      else (mk_token kind (tok_span (Parser_peek inp ps 0)),
            Parser_error (tok_span (Parser_peek inp ps 0)) message ps))"

definition tokenText :: "ParserInput \<Rightarrow> Token \<Rightarrow> string" where
  "tokenText inp token = slice (pi_source inp) (tok_span token)"

definition span_to :: "Token \<Rightarrow> Token \<Rightarrow> SourceSpan" where
  "span_to a b = mk_span (sp_start (tok_span a)) (sp_end (tok_span b))"

section \<open>Tables\<close>

fun binaryPrecedence :: "TokenKind \<Rightarrow> nat" where
  "binaryPrecedence PipePipe = 1"
| "binaryPrecedence AmpAmp = 2"
| "binaryPrecedence Pipe = 3"
| "binaryPrecedence Caret = 4"
| "binaryPrecedence Amp = 5"
| "binaryPrecedence EqualEqual = 6"
| "binaryPrecedence BangEqual = 6"
| "binaryPrecedence Less = 7"
| "binaryPrecedence LessEqual = 7"
| "binaryPrecedence Greater = 7"
| "binaryPrecedence GreaterEqual = 7"
| "binaryPrecedence LessLess = 8"
| "binaryPrecedence GreaterGreater = 8"
| "binaryPrecedence Plus = 9"
| "binaryPrecedence Minus = 9"
| "binaryPrecedence Star = 10"
| "binaryPrecedence Slash = 10"
| "binaryPrecedence Percent = 10"
| "binaryPrecedence _ = 0"

definition builtinTypeOfText :: "string \<Rightarrow> BuiltinTypeKind" where
  "builtinTypeOfText s =
     (if s = ''i8'' then I8 else if s = ''i16'' then I16 else if s = ''i32'' then I32
      else if s = ''i64'' then I64 else if s = ''u8'' then U8 else if s = ''u16'' then U16
      else if s = ''u32'' then U32 else if s = ''u64'' then U64 else if s = ''f32'' then F32
      else if s = ''f64'' then F64 else if s = ''str'' then Str else Invalid)"

definition builtinTypeKind :: "ParserInput \<Rightarrow> Token \<Rightarrow> BuiltinTypeKind" where
  "builtinTypeKind inp token =
     (if tok_kind token = KwBool then Bool
      else if tok_kind token = KwVoid then Void
      else if tok_kind token \<noteq> Identifier then Invalid
      else builtinTypeOfText (tokenText inp token))"

section \<open>Expressions\<close>

definition isPrefixOperator :: "ParserInput \<Rightarrow> parser \<Rightarrow> bool" where
  "isPrefixOperator inp ps \<longleftrightarrow>
     Parser_check inp Minus ps \<or> Parser_check inp Bang ps \<or> Parser_check inp Tilde ps \<or>
     Parser_check inp Amp ps \<or> Parser_check inp Star ps"

text \<open>The leaves of \<open>parsePrimaryExpr\<close>, and its last resort: an error and a placeholder name.\<close>

definition parseLeaf :: "ParserInput \<Rightarrow> parser \<Rightarrow> (Expr \<times> parser) option" where
  "parseLeaf inp ps =
     (let t = Parser_peek inp ps 0; ps1 = snd (Parser_advance inp ps)
      in if Parser_check inp IntegerLiteral ps then
           Some (IntegerLiteralExpr (tok_span t) (tokenText inp t), ps1)
         else if Parser_check inp FloatLiteral ps then
           Some (FloatLiteralExpr (tok_span t) (tokenText inp t), ps1)
         else if Parser_check inp StringLiteral ps then
           Some (StringLiteralExpr (tok_span t) (tokenText inp t), ps1)
         else if Parser_check inp KwTrue ps then Some (BoolLiteralExpr (tok_span t) True, ps1)
         else if Parser_check inp KwFalse ps then Some (BoolLiteralExpr (tok_span t) False, ps1)
         else if Parser_check inp Identifier ps then
           Some (NameExpr (tok_span t) (tokenText inp t), ps1)
         else None)"

definition parseErrorExpr :: "ParserInput \<Rightarrow> parser \<Rightarrow> Expr \<times> parser" where
  "parseErrorExpr inp ps =
     (let ps1 = Parser_error (tok_span (Parser_peek inp ps 0)) ''expected expression'' ps;
          (token, ps2) = Parser_advance inp ps1
      in (NameExpr (tok_span token) ''<error>'', ps2))"

text \<open>
  Every recursive call happens after a token was consumed. A routine takes what it calls
  recursively as arguments \<open>rec\<close> and \<open>recs\<close>; \<open>runExpr\<close> and \<open>runExprs\<close> tie the knot: with
  fuel \<open>n\<close> the routines may nest \<open>n\<close> deep, so the number of tokens is fuel enough.
\<close>

datatype expr_task = Task_expr nat | Task_exprLoop nat Expr | Task_unary | Task_postfixLoop Expr
datatype list_task = Task_elements | Task_arguments

type_synonym expr_rec = "expr_task \<Rightarrow> parser \<Rightarrow> (Expr \<times> parser) result"
type_synonym list_rec = "list_task \<Rightarrow> parser \<Rightarrow> (Expr list \<times> parser) result"

definition parsePrimaryExpr ::
    "ParserInput \<Rightarrow> expr_rec \<Rightarrow> list_rec \<Rightarrow> parser \<Rightarrow> (Expr \<times> parser) result" where
  "parsePrimaryExpr inp rec recs ps =
     (case parseLeaf inp ps of
        Some r \<Rightarrow> Ok r
      | None \<Rightarrow>
          if Parser_check inp LeftBracket ps then
            let (lb, ps1) = Parser_advance inp ps
            in bindR (if Parser_check inp RightBracket ps1 then Ok ([], ps1)
                      else recs Task_elements ps1) (\<lambda>(elements, ps2).
                 let (rb, ps3) =
                       Parser_expect inp RightBracket ''expected `]` to close array literal'' ps2
                 in Ok (ArrayLiteralExpr (span_to lb rb) elements, ps3))
          else if Parser_check inp LeftParen ps then
            let (leftParen, ps1) = Parser_advance inp ps
            in bindR (rec (Task_expr 1) ps1) (\<lambda>(inner, ps2).
                 let (rightParen, ps3) =
                       Parser_expect inp RightParen ''expected `)` after parenthesized expression'' ps2
                 in Ok (ParenExpr (span_to leftParen rightParen) inner, ps3))
          else Ok (parseErrorExpr inp ps))"

definition parseArgumentList ::
    "ParserInput \<Rightarrow> expr_rec \<Rightarrow> list_rec \<Rightarrow> parser \<Rightarrow> (Expr list \<times> parser) result" where
  "parseArgumentList inp rec recs ps =
     (if Parser_check inp RightParen ps then Ok ([], ps) else recs Task_arguments ps)"

definition parsePostfixLoop ::
    "ParserInput \<Rightarrow> expr_rec \<Rightarrow> list_rec \<Rightarrow> Expr \<Rightarrow> parser \<Rightarrow> (Expr \<times> parser) result" where
  "parsePostfixLoop inp rec recs expr ps =
     (if Parser_check inp LeftParen ps then
        bindR (parseArgumentList inp rec recs (snd (Parser_advance inp ps))) (\<lambda>(arguments, ps2).
          let (rightParen, ps3) =
                Parser_expect inp RightParen ''expected `)` after argument list'' ps2
          in rec (Task_postfixLoop
               (CallExpr (mk_span (sp_start (expr_span expr)) (sp_end (tok_span rightParen)))
                  expr arguments)) ps3)
      else if Parser_check inp LeftBracket ps then
        bindR (rec (Task_expr 1) (snd (Parser_advance inp ps))) (\<lambda>(index, ps2).
          let (rb, ps3) =
                Parser_expect inp RightBracket ''expected `]` after index expression'' ps2
          in rec (Task_postfixLoop
               (IndexExpr (mk_span (sp_start (expr_span expr)) (sp_end (tok_span rb))) expr index)) ps3)
      else Ok (expr, ps))"

definition parsePostfixExpr ::
    "ParserInput \<Rightarrow> expr_rec \<Rightarrow> list_rec \<Rightarrow> parser \<Rightarrow> (Expr \<times> parser) result" where
  "parsePostfixExpr inp rec recs ps =
     bindR (parsePrimaryExpr inp rec recs ps) (\<lambda>(expr, ps1). parsePostfixLoop inp rec recs expr ps1)"

definition parseUnaryExpr ::
    "ParserInput \<Rightarrow> expr_rec \<Rightarrow> list_rec \<Rightarrow> parser \<Rightarrow> (Expr \<times> parser) result" where
  "parseUnaryExpr inp rec recs ps =
     (if isPrefixOperator inp ps then
        let (op, ps1) = Parser_advance inp ps
        in bindR (rec Task_unary ps1) (\<lambda>(operand, ps2).
             Ok (UnaryExpr (mk_span (sp_start (tok_span op)) (sp_end (expr_span operand)))
                   (tok_kind op) operand, ps2))
      else parsePostfixExpr inp rec recs ps)"

definition parseExprLoop ::
    "ParserInput \<Rightarrow> expr_rec \<Rightarrow> nat \<Rightarrow> Expr \<Rightarrow> parser \<Rightarrow> (Expr \<times> parser) result" where
  "parseExprLoop inp rec minPrecedence left ps =
     (let precedence = binaryPrecedence (tok_kind (Parser_peek inp ps 0))
      in if precedence < minPrecedence then Ok (left, ps)
         else
           let (op, ps1) = Parser_advance inp ps
           in bindR (rec (Task_expr (precedence + 1)) ps1) (\<lambda>(right, ps2).
                rec (Task_exprLoop minPrecedence
                  (BinaryExpr (mk_span (sp_start (expr_span left)) (sp_end (expr_span right)))
                     left (tok_kind op) right)) ps2))"

definition parseExpr ::
    "ParserInput \<Rightarrow> expr_rec \<Rightarrow> list_rec \<Rightarrow> nat \<Rightarrow> parser \<Rightarrow> (Expr \<times> parser) result" where
  "parseExpr inp rec recs minPrecedence ps =
     bindR (parseUnaryExpr inp rec recs ps) (\<lambda>(left, ps1). parseExprLoop inp rec minPrecedence left ps1)"

text \<open>The loop of the array literal, and the one of \<open>parseArgumentList\<close>.\<close>

definition parseArrayElements ::
    "ParserInput \<Rightarrow> expr_rec \<Rightarrow> list_rec \<Rightarrow> parser \<Rightarrow> (Expr list \<times> parser) result" where
  "parseArrayElements inp rec recs ps =
     bindR (parseExpr inp rec recs 1 ps) (\<lambda>(element, ps1).
       if \<not> Parser_check inp Comma ps1 then Ok ([element], ps1)
       else
         let ps2 = snd (Parser_advance inp ps1)
         in if Parser_check inp RightBracket ps2 then
              Ok ([element], Parser_error (tok_span (Parser_peek inp ps2 0))
                    ''trailing commas are not allowed in array literals'' ps2)
            else bindR (recs Task_elements ps2) (\<lambda>(elements, ps3). Ok (element # elements, ps3)))"

definition parseArgumentLoop ::
    "ParserInput \<Rightarrow> expr_rec \<Rightarrow> list_rec \<Rightarrow> parser \<Rightarrow> (Expr list \<times> parser) result" where
  "parseArgumentLoop inp rec recs ps =
     (if Parser_isAtEnd inp ps then Ok ([], ps)
      else bindR (parseExpr inp rec recs 1 ps) (\<lambda>(argument, ps1).
        if \<not> Parser_check inp Comma ps1 then Ok ([argument], ps1)
        else
          let ps2 = snd (Parser_advance inp ps1)
          in if Parser_check inp RightParen ps2 then
               Ok ([argument], Parser_error (tok_span (Parser_peek inp ps2 0))
                     ''trailing commas are not allowed in call arguments'' ps2)
             else bindR (recs Task_arguments ps2) (\<lambda>(arguments, ps3).
                    Ok (argument # arguments, ps3))))"

fun runExpr :: "ParserInput \<Rightarrow> nat \<Rightarrow> expr_rec"
  and runExprs :: "ParserInput \<Rightarrow> nat \<Rightarrow> list_rec"
where
  "runExpr inp 0 task ps = OutOfFuel"
| "runExpr inp (Suc n) task ps =
     (case task of
        Task_expr minPrecedence \<Rightarrow> parseExpr inp (runExpr inp n) (runExprs inp n) minPrecedence ps
      | Task_exprLoop minPrecedence left \<Rightarrow> parseExprLoop inp (runExpr inp n) minPrecedence left ps
      | Task_unary \<Rightarrow> parseUnaryExpr inp (runExpr inp n) (runExprs inp n) ps
      | Task_postfixLoop expr \<Rightarrow> parsePostfixLoop inp (runExpr inp n) (runExprs inp n) expr ps)"
| "runExprs inp 0 task ps = OutOfFuel"
| "runExprs inp (Suc n) task ps =
     (case task of
        Task_elements \<Rightarrow> parseArrayElements inp (runExpr inp n) (runExprs inp n) ps
      | Task_arguments \<Rightarrow> parseArgumentLoop inp (runExpr inp n) (runExprs inp n) ps)"

definition Parser_fuel :: "ParserInput \<Rightarrow> nat" where
  "Parser_fuel inp = length (pi_tokens inp)"

definition Parser_parseExpr :: "ParserInput \<Rightarrow> parser \<Rightarrow> (Expr \<times> parser) result" where
  "Parser_parseExpr inp ps = parseExpr inp (runExpr inp (Parser_fuel inp)) (runExprs inp (Parser_fuel inp)) 1 ps"

definition Parser_parseUnaryExpr :: "ParserInput \<Rightarrow> parser \<Rightarrow> (Expr \<times> parser) result" where
  "Parser_parseUnaryExpr inp ps = parseUnaryExpr inp (runExpr inp (Parser_fuel inp)) (runExprs inp (Parser_fuel inp)) ps"

section \<open>Types\<close>

text \<open>What \<open>parseType\<close> does after the element type of \<open>[T; N]\<close>: the length, and two checks.\<close>

definition parseArrayType ::
    "ParserInput \<Rightarrow> Token \<Rightarrow> TypeSyntax \<Rightarrow> parser \<Rightarrow> (TypeSyntax \<times> parser) result" where
  "parseArrayType inp lb inner ps =
     (let ps1 = snd (Parser_expect inp Semicolon ''expected `;` in `[T; N]`'' ps);
          (lenTok, ps2) = Parser_expect inp IntegerLiteral ''expected compile-time array length'' ps1;
          ps3 = snd (Parser_expect inp RightBracket ''expected `]` after array length'' ps2);
          lenText = tokenText inp lenTok
      in bindR (stoull0 lenText) (\<lambda>(lenVal, consumed).
           let ps4 = (if consumed \<noteq> length lenText \<or> lenVal = 0
                      then Parser_error (tok_span lenTok)
                             ''array length must be a positive integer literal'' ps3 else ps3);
               ps5 = (if ts_kind inner = Invalid \<or> ts_kind inner = Void \<or> ts_kind inner = Str
                      then Parser_error (ts_span inner)
                             ''array element type cannot be `void`, `str`, or invalid'' ps4 else ps4)
           in Ok (\<lparr>ts_kind = ts_kind inner,
                   ts_arrayDimensions = lenVal # ts_arrayDimensions inner,
                   ts_pointerDepth = ts_pointerDepth inner,
                   ts_span = span_to lb (Parser_previous inp ps5)\<rparr>, ps5)))"

definition parseScalarType :: "ParserInput \<Rightarrow> parser \<Rightarrow> TypeSyntax \<times> parser" where
  "parseScalarType inp ps =
     (let (token, ps1) = Parser_advance inp ps;
          kind = builtinTypeKind inp token;
          ps2 = (if kind = Invalid then Parser_error (tok_span token) ''expected scalar type'' ps1
                 else ps1)
      in (\<lparr>ts_kind = kind, ts_arrayDimensions = [], ts_pointerDepth = 0,
           ts_span = tok_span token\<rparr>, ps2))"

fun parseType :: "ParserInput \<Rightarrow> nat \<Rightarrow> parser \<Rightarrow> (TypeSyntax \<times> parser) result" where
  "parseType inp 0 ps = OutOfFuel"
| "parseType inp (Suc n) ps =
     (if Parser_check inp Star ps then
        let (star, ps1) = Parser_advance inp ps
        in bindR (parseType inp n ps1) (\<lambda>(inner, ps2).
             Ok (inner\<lparr>ts_pointerDepth := ts_pointerDepth inner + 1,
                       ts_span := mk_span (sp_start (tok_span star)) (sp_end (ts_span inner))\<rparr>, ps2))
      else if Parser_check inp LeftBracket ps then
        let (lb, ps1) = Parser_advance inp ps
        in bindR (parseType inp n ps1) (\<lambda>(inner, ps2). parseArrayType inp lb inner ps2)
      else Ok (parseScalarType inp ps))"

definition Parser_parseType :: "ParserInput \<Rightarrow> parser \<Rightarrow> (TypeSyntax \<times> parser) result" where
  "Parser_parseType inp ps = parseType inp (Parser_fuel inp) ps"

section \<open>Statements without nested statements\<close>

definition parseLetStmt :: "ParserInput \<Rightarrow> parser \<Rightarrow> (Stmt \<times> parser) result" where
  "parseLetStmt inp ps =
     (let (keyword, ps1) = Parser_expect inp KwLet ''expected `let`'' ps;
          (isMutable, ps2) = Parser_match inp KwMut ps1;
          (name, ps3) = Parser_expect inp Identifier ''expected local name'' ps2;
          noType = \<lparr>ts_kind = Invalid, ts_arrayDimensions = [], ts_pointerDepth = 0,
                    ts_span = tok_span name\<rparr>;
          (typed, ps4) = Parser_match inp Colon ps3
      in bindR (if typed then Parser_parseType inp ps4 else Ok (noType, ps4)) (\<lambda>(type, ps5).
         let (assigned, ps6) = Parser_match inp Equal ps5
         in bindR (if assigned then bindR (Parser_parseExpr inp ps6) (\<lambda>(e, ps7). Ok (Some e, ps7))
                   else Ok (None,
                     if \<not> isMutable
                     then Parser_error (tok_span (Parser_peek inp ps6 0))
                            ''`let` requires an initializer expression after `=`; use `let mut` to declare mutable storage without an initializer''
                            ps6
                     else ps6)) (\<lambda>(init, ps8).
            let (semicolon, ps9) = Parser_expect inp Semicolon ''expected `;` after local declaration'' ps8
            in Ok (LetStmt (span_to keyword semicolon) isMutable (tokenText inp name) (tok_span name)
                     type init, ps9))))"

definition parseReturnStmt :: "ParserInput \<Rightarrow> parser \<Rightarrow> (Stmt \<times> parser) result" where
  "parseReturnStmt inp ps =
     (let (keyword, ps1) = Parser_expect inp KwReturn ''expected `return`'' ps
      in if Parser_check inp Semicolon ps1 then
           let (semicolon, ps2) = Parser_advance inp ps1
           in Ok (ReturnStmt (span_to keyword semicolon) None, ps2)
         else bindR (Parser_parseExpr inp ps1) (\<lambda>(v, ps2).
           let (semicolon, ps3) = Parser_expect inp Semicolon ''expected `;` after return statement'' ps2
           in Ok (ReturnStmt (span_to keyword semicolon) (Some v), ps3)))"

definition parseBreakStmt :: "ParserInput \<Rightarrow> parser \<Rightarrow> Stmt \<times> parser" where
  "parseBreakStmt inp ps =
     (let (keyword, ps1) = Parser_expect inp KwBreak ''expected `break`'' ps;
          (semicolon, ps2) = Parser_expect inp Semicolon ''expected `;` after `break`'' ps1
      in (BreakStmt (span_to keyword semicolon), ps2))"

definition parseContinueStmt :: "ParserInput \<Rightarrow> parser \<Rightarrow> Stmt \<times> parser" where
  "parseContinueStmt inp ps =
     (let (keyword, ps1) = Parser_expect inp KwContinue ''expected `continue`'' ps;
          (semicolon, ps2) = Parser_expect inp Semicolon ''expected `;` after `continue`'' ps1
      in (ContinueStmt (span_to keyword semicolon), ps2))"

text \<open>The three \<open>dynamic_cast\<close>s on an assignment target, and the one to \<open>CallExpr\<close>.\<close>

fun isPlace :: "Expr \<Rightarrow> bool" where
  "isPlace (NameExpr sp name) = True"
| "isPlace (IndexExpr sp base index) = True"
| "isPlace (UnaryExpr sp op operand) = (op = Star)"
| "isPlace _ = False"

fun asCall :: "Expr \<Rightarrow> (SourceSpan \<times> Expr \<times> Expr list) option" where
  "asCall (CallExpr sp callee arguments) = Some (sp, callee, arguments)"
| "asCall _ = None"

definition parseAssignmentOrCallStmt :: "ParserInput \<Rightarrow> parser \<Rightarrow> (Stmt option \<times> parser) result" where
  "parseAssignmentOrCallStmt inp ps =
     (let stmtStart = sp_start (tok_span (Parser_peek inp ps 0))
      in bindR (Parser_parseUnaryExpr inp ps) (\<lambda>(lhs, ps1).
         if Parser_check inp Equal ps1 then
           let ps2 = snd (Parser_advance inp ps1)
           in if \<not> isPlace lhs then
                bindR (Parser_parseExpr inp
                    (Parser_error (expr_span lhs)
                       ''assignment target must be a local name, indexed place, or dereferenced pointer'' ps2))
                  (\<lambda>(_, ps3).
                    Ok (None, snd (Parser_expect inp Semicolon ''expected `;` after assignment'' ps3)))
              else bindR (Parser_parseExpr inp ps2) (\<lambda>(rhs, ps3).
                let (semicolon, ps4) = Parser_expect inp Semicolon ''expected `;` after assignment'' ps3
                in Ok (Some (AssignStmt (mk_span stmtStart (sp_end (tok_span semicolon))) lhs rhs), ps4))
         else
           let (semicolon, ps2) = Parser_expect inp Semicolon ''expected `;` after expression statement'' ps1
           in case asCall lhs of
                None \<Rightarrow> Ok (None, Parser_error (expr_span lhs)
                          ''only call expressions may be used as expression statements'' ps2)
              | Some (callSpan, callee, arguments) \<Rightarrow>
                  Ok (Some (CallStmt (mk_span stmtStart (sp_end (tok_span semicolon)))
                        callSpan callee arguments), ps2)))"

text \<open>After an error in the step clause: the closing parenthesis, consumed or reported.\<close>

definition closeForStep :: "ParserInput \<Rightarrow> parser \<Rightarrow> parser" where
  "closeForStep inp ps =
     (if \<not> Parser_check inp RightParen ps
      then snd (Parser_expect inp RightParen ''expected `)` after for step'' ps)
      else snd (Parser_advance inp ps))"

definition parseForStepClause :: "ParserInput \<Rightarrow> parser \<Rightarrow> (Stmt option \<times> parser) result" where
  "parseForStepClause inp ps =
     (if Parser_check inp RightParen ps then Ok (None, ps)
      else
        let stmtStart = sp_start (tok_span (Parser_peek inp ps 0))
        in bindR (Parser_parseUnaryExpr inp ps) (\<lambda>(lhs, ps1).
           if Parser_check inp Equal ps1 then
             let ps2 = snd (Parser_advance inp ps1)
             in if \<not> isPlace lhs then
                  bindR (Parser_parseExpr inp
                      (Parser_error (expr_span lhs)
                         ''for step assignment target must be a local name or indexed/dereferenced place'' ps2))
                    (\<lambda>(_, ps3). Ok (None, closeForStep inp ps3))
                else bindR (Parser_parseExpr inp ps2) (\<lambda>(rhs, ps3).
                  let (closing, ps4) = Parser_expect inp RightParen ''expected `)` after for step'' ps3
                  in Ok (Some (AssignStmt (mk_span stmtStart (sp_end (tok_span closing))) lhs rhs), ps4))
           else case asCall lhs of
                  None \<Rightarrow> Ok (None, closeForStep inp (Parser_error (expr_span lhs)
                            ''for step must be an assignment or a void call expression'' ps1))
                | Some (callSpan, callee, arguments) \<Rightarrow>
                    let (closing, ps2) = Parser_expect inp RightParen ''expected `)` after for step'' ps1
                    in Ok (Some (CallStmt (mk_span stmtStart (sp_end (tok_span closing)))
                          callSpan callee arguments), ps2)))"

section \<open>Nested statements\<close>

text \<open>As for expressions: \<open>rec\<close> is \<open>parseStmt\<close>, \<open>recs\<close> is the loop of \<open>parseBlockStmt\<close>.\<close>

type_synonym stmt_rec = "parser \<Rightarrow> (Stmt option \<times> parser) result"
type_synonym block_rec = "parser \<Rightarrow> (Stmt list \<times> parser) result"

definition parseBlockStmt ::
    "ParserInput \<Rightarrow> block_rec \<Rightarrow> parser \<Rightarrow> ((SourceSpan \<times> Stmt list) \<times> parser) result" where
  "parseBlockStmt inp recs ps =
     (let (leftBrace, ps1) = Parser_expect inp LeftBrace ''expected `{`'' ps
      in bindR (recs ps1) (\<lambda>(statements, ps2).
           let (rightBrace, ps3) = Parser_expect inp RightBrace ''expected `}`'' ps2
           in Ok ((span_to leftBrace rightBrace, statements), ps3)))"

definition stmt_end :: "Stmt option \<Rightarrow> nat \<Rightarrow> nat" where
  "stmt_end s fallback = (case s of None \<Rightarrow> fallback | Some s \<Rightarrow> sp_end (stmt_span s))"

definition parseIfStmt ::
    "ParserInput \<Rightarrow> stmt_rec \<Rightarrow> parser \<Rightarrow> (Stmt \<times> parser) result" where
  "parseIfStmt inp rec ps =
     (let (keyword, ps1) = Parser_expect inp KwIf ''expected `if`'' ps;
          ps2 = snd (Parser_expect inp LeftParen ''expected `(` after `if`'' ps1)
      in bindR (Parser_parseExpr inp ps2) (\<lambda>(condition, ps3).
         let ps4 = snd (Parser_expect inp RightParen ''expected `)` after if condition'' ps3)
         in bindR (rec ps4) (\<lambda>(thenBranch, ps5).
            let (hasElse, ps6) = Parser_match inp KwElse ps5
            in bindR (if hasElse then rec ps6 else Ok (None, ps6)) (\<lambda>(elseBranch, ps7).
               Ok (IfStmt (mk_span (sp_start (tok_span keyword))
                             (stmt_end elseBranch (stmt_end thenBranch (sp_end (tok_span keyword)))))
                     condition thenBranch elseBranch, ps7)))))"

definition parseWhileStmt ::
    "ParserInput \<Rightarrow> stmt_rec \<Rightarrow> parser \<Rightarrow> (Stmt \<times> parser) result" where
  "parseWhileStmt inp rec ps =
     (let (keyword, ps1) = Parser_expect inp KwWhile ''expected `while`'' ps;
          ps2 = snd (Parser_expect inp LeftParen ''expected `(` after `while`'' ps1)
      in bindR (Parser_parseExpr inp ps2) (\<lambda>(condition, ps3).
         let ps4 = snd (Parser_expect inp RightParen ''expected `)` after while condition'' ps3)
         in bindR (rec ps4) (\<lambda>(body, ps5).
            Ok (WhileStmt (mk_span (sp_start (tok_span keyword)) (stmt_end body (sp_end (tok_span keyword))))
                  condition body, ps5))))"

text \<open>\<open>while (!isAtEnd() && !check(Semicolon)) advance();\<close> and the semicolon itself.\<close>

fun skipToSemicolon :: "ParserInput \<Rightarrow> nat \<Rightarrow> parser \<Rightarrow> parser result" where
  "skipToSemicolon inp 0 ps = OutOfFuel"
| "skipToSemicolon inp (Suc n) ps =
     (if \<not> Parser_isAtEnd inp ps \<and> \<not> Parser_check inp Semicolon ps
      then skipToSemicolon inp n (snd (Parser_advance inp ps))
      else Ok (snd (Parser_match inp Semicolon ps)))"

definition parseForInit :: "ParserInput \<Rightarrow> parser \<Rightarrow> (Stmt option \<times> parser) result" where
  "parseForInit inp ps =
     (if Parser_check inp Semicolon ps then Ok (None, snd (Parser_advance inp ps))
      else if Parser_check inp KwLet ps then
        bindR (parseLetStmt inp ps) (\<lambda>(s, ps1). Ok (Some s, ps1))
      else bindR (parseAssignmentOrCallStmt inp ps) (\<lambda>(init, ps1).
        case init of
          None \<Rightarrow> bindR (skipToSemicolon inp (Parser_fuel inp) ps1) (\<lambda>ps2. Ok (None, ps2))
        | Some s \<Rightarrow> Ok (Some s, ps1)))"

definition parseForCondition :: "ParserInput \<Rightarrow> parser \<Rightarrow> (Expr option \<times> parser) result" where
  "parseForCondition inp ps =
     (if Parser_check inp Semicolon ps then Ok (None, snd (Parser_advance inp ps))
      else bindR (Parser_parseExpr inp ps) (\<lambda>(condition, ps1).
        Ok (Some condition, snd (Parser_expect inp Semicolon ''expected `;` after for condition'' ps1))))"

definition parseForStmt ::
    "ParserInput \<Rightarrow> stmt_rec \<Rightarrow> parser \<Rightarrow> (Stmt \<times> parser) result" where
  "parseForStmt inp rec ps =
     (let (keyword, ps1) = Parser_expect inp KwFor ''expected `for`'' ps;
          ps2 = snd (Parser_expect inp LeftParen ''expected `(` after `for`'' ps1)
      in bindR (parseForInit inp ps2) (\<lambda>(init, ps3).
         bindR (parseForCondition inp ps3) (\<lambda>(condition, ps4).
         bindR (parseForStepClause inp ps4) (\<lambda>(step, ps5).
         let ps6 = (if step = None
                    then snd (Parser_expect inp RightParen ''expected `)` after for clauses'' ps5) else ps5)
         in bindR (rec ps6) (\<lambda>(body, ps7).
            Ok (ForStmt (mk_span (sp_start (tok_span keyword)) (stmt_end body (sp_end (tok_span keyword))))
                  init condition step body, ps7))))))"

definition startsExpressionStmt :: "ParserInput \<Rightarrow> parser \<Rightarrow> bool" where
  "startsExpressionStmt inp ps \<longleftrightarrow>
     Parser_check inp Identifier ps \<or> Parser_check inp IntegerLiteral ps \<or>
     Parser_check inp FloatLiteral ps \<or> Parser_check inp StringLiteral ps \<or>
     Parser_check inp KwTrue ps \<or> Parser_check inp KwFalse ps \<or> Parser_check inp LeftParen ps \<or>
     Parser_check inp LeftBracket ps \<or> Parser_check inp Minus ps \<or> Parser_check inp Tilde ps \<or>
     Parser_check inp Bang ps \<or> Parser_check inp Star ps"

definition parseStmt ::
    "ParserInput \<Rightarrow> stmt_rec \<Rightarrow> block_rec \<Rightarrow> parser \<Rightarrow> (Stmt option \<times> parser) result" where
  "parseStmt inp rec recs ps =
     (if Parser_check inp LeftBrace ps then
        bindR (parseBlockStmt inp recs ps) (\<lambda>((sp, statements), ps1). Ok (Some (BlockStmt sp statements), ps1))
      else if Parser_check inp KwLet ps then
        bindR (parseLetStmt inp ps) (\<lambda>(s, ps1). Ok (Some s, ps1))
      else if Parser_check inp KwReturn ps then
        bindR (parseReturnStmt inp ps) (\<lambda>(s, ps1). Ok (Some s, ps1))
      else if Parser_check inp KwBreak ps then
        Ok (map_prod Some id (parseBreakStmt inp ps))
      else if Parser_check inp KwContinue ps then
        Ok (map_prod Some id (parseContinueStmt inp ps))
      else if Parser_check inp KwIf ps then
        bindR (parseIfStmt inp rec ps) (\<lambda>(s, ps1). Ok (Some s, ps1))
      else if Parser_check inp KwWhile ps then
        bindR (parseWhileStmt inp rec ps) (\<lambda>(s, ps1). Ok (Some s, ps1))
      else if Parser_check inp KwFor ps then
        bindR (parseForStmt inp rec ps) (\<lambda>(s, ps1). Ok (Some s, ps1))
      else if Parser_check inp KwConst ps then
        Ok (None, Parser_error (tok_span (Parser_peek inp ps 0))
              ''inner `const` declarations are not supported yet'' ps)
      else if startsExpressionStmt inp ps then parseAssignmentOrCallStmt inp ps
      else Ok (None, Parser_error (tok_span (Parser_peek inp ps 0)) ''expected statement'' ps))"

text \<open>The loop of \<open>parseBlockStmt\<close>.\<close>

definition parseBlockLoop ::
    "ParserInput \<Rightarrow> stmt_rec \<Rightarrow> block_rec \<Rightarrow> parser \<Rightarrow> (Stmt list \<times> parser) result" where
  "parseBlockLoop inp rec recs ps =
     (if Parser_isAtEnd inp ps \<or> Parser_check inp RightBrace ps then Ok ([], ps)
      else bindR (parseStmt inp rec recs ps) (\<lambda>(stmt, ps1).
        case stmt of
          Some s \<Rightarrow> bindR (recs ps1) (\<lambda>(rest, ps2). Ok (s # rest, ps2))
        | None \<Rightarrow>
            recs (if \<not> Parser_check inp RightBrace ps1 then snd (Parser_advance inp ps1) else ps1)))"

fun runStmt :: "ParserInput \<Rightarrow> nat \<Rightarrow> stmt_rec"
  and runBlock :: "ParserInput \<Rightarrow> nat \<Rightarrow> block_rec"
where
  "runStmt inp 0 ps = OutOfFuel"
| "runStmt inp (Suc n) ps = parseStmt inp (runStmt inp n) (runBlock inp n) ps"
| "runBlock inp 0 ps = OutOfFuel"
| "runBlock inp (Suc n) ps = parseBlockLoop inp (runStmt inp n) (runBlock inp n) ps"

definition Parser_parseBlockStmt ::
    "ParserInput \<Rightarrow> parser \<Rightarrow> ((SourceSpan \<times> Stmt list) \<times> parser) result" where
  "Parser_parseBlockStmt inp ps = parseBlockStmt inp (runBlock inp (Parser_fuel inp)) ps"

section \<open>Items\<close>

definition parseParameter :: "ParserInput \<Rightarrow> parser \<Rightarrow> (ParameterSyntax \<times> parser) result" where
  "parseParameter inp ps =
     (let (name, ps1) = Parser_expect inp Identifier ''expected parameter name'' ps;
          ps2 = snd (Parser_expect inp Colon ''expected `:` after parameter name'' ps1)
      in bindR (Parser_parseType inp ps2) (\<lambda>(type, ps3).
           Ok (\<lparr>pr_name = tokenText inp name, pr_nameSpan = tok_span name, pr_type = type,
                pr_span = mk_span (sp_start (tok_span name)) (sp_end (ts_span type))\<rparr>, ps3)))"

fun parseParameterLoop :: "ParserInput \<Rightarrow> nat \<Rightarrow> parser \<Rightarrow> (ParameterSyntax list \<times> parser) result" where
  "parseParameterLoop inp 0 ps = OutOfFuel"
| "parseParameterLoop inp (Suc n) ps =
     (if Parser_isAtEnd inp ps then Ok ([], ps)
      else bindR (parseParameter inp ps) (\<lambda>(parameter, ps1).
        if \<not> Parser_check inp Comma ps1 then Ok ([parameter], ps1)
        else
          let ps2 = snd (Parser_advance inp ps1)
          in if Parser_check inp RightParen ps2 then
               Ok ([parameter], Parser_error (tok_span (Parser_peek inp ps2 0))
                     ''trailing commas are not allowed in parameter lists'' ps2)
             else bindR (parseParameterLoop inp n ps2) (\<lambda>(parameters, ps3).
                    Ok (parameter # parameters, ps3))))"

definition parseParameterList ::
    "ParserInput \<Rightarrow> parser \<Rightarrow> (ParameterSyntax list \<times> parser) result" where
  "parseParameterList inp ps =
     (if Parser_check inp RightParen ps then Ok ([], ps)
      else parseParameterLoop inp (Parser_fuel inp) ps)"

definition parseFunctionDecl :: "ParserInput \<Rightarrow> parser \<Rightarrow> (Item \<times> parser) result" where
  "parseFunctionDecl inp ps =
     (let (keyword, ps1) = Parser_expect inp KwFn ''expected `fn`'' ps;
          (name, ps2) = Parser_expect inp Identifier ''expected function name'' ps1;
          ps3 = snd (Parser_expect inp LeftParen ''expected `(` after function name'' ps2)
      in bindR (parseParameterList inp ps3) (\<lambda>(parameters, ps4).
         let ps5 = snd (Parser_expect inp RightParen ''expected `)` after parameter list'' ps4);
             ps6 = snd (Parser_expect inp Arrow ''expected `->` before function return type'' ps5)
         in bindR (Parser_parseType inp ps6) (\<lambda>(returnType, ps7).
            bindR (Parser_parseBlockStmt inp ps7) (\<lambda>((bodySpan, body), ps8).
              Ok (FunctionDecl (mk_span (sp_start (tok_span keyword)) (sp_end bodySpan))
                    (tokenText inp name) (tok_span name) parameters returnType bodySpan body, ps8)))))"

definition parseConstDecl :: "ParserInput \<Rightarrow> parser \<Rightarrow> (Item \<times> parser) result" where
  "parseConstDecl inp ps =
     (let (keyword, ps1) = Parser_expect inp KwConst ''expected `const`'' ps;
          (name, ps2) = Parser_expect inp Identifier ''expected constant name'' ps1;
          ps3 = snd (Parser_expect inp Colon ''expected `:` after constant name'' ps2)
      in bindR (Parser_parseType inp ps3) (\<lambda>(type, ps4).
         let ps5 = snd (Parser_expect inp Equal ''expected `=` in constant declaration'' ps4)
         in bindR (Parser_parseExpr inp ps5) (\<lambda>(init, ps6).
            let (semicolon, ps7) = Parser_expect inp Semicolon ''expected `;` after constant declaration'' ps6
            in Ok (ConstDecl (span_to keyword semicolon) (tokenText inp name) (tok_span name) type init,
                   ps7))))"

definition parseItem :: "ParserInput \<Rightarrow> parser \<Rightarrow> (Item option \<times> parser) result" where
  "parseItem inp ps =
     (if Parser_check inp KwFn ps then bindR (parseFunctionDecl inp ps) (\<lambda>(i, ps1). Ok (Some i, ps1))
      else if Parser_check inp KwConst ps then bindR (parseConstDecl inp ps) (\<lambda>(i, ps1). Ok (Some i, ps1))
      else Ok (None, Parser_error (tok_span (Parser_peek inp ps 0))
                 ''expected top-level declaration (`fn` or `const`)'' ps))"

fun parseItems :: "ParserInput \<Rightarrow> nat \<Rightarrow> parser \<Rightarrow> (Item list \<times> parser) result" where
  "parseItems inp 0 ps = OutOfFuel"
| "parseItems inp (Suc n) ps =
     (if Parser_isAtEnd inp ps then Ok ([], ps)
      else bindR (parseItem inp ps) (\<lambda>(item, ps1).
        case item of
          Some i \<Rightarrow> bindR (parseItems inp n ps1) (\<lambda>(rest, ps2). Ok (i # rest, ps2))
        | None \<Rightarrow> parseItems inp n (snd (Parser_advance inp ps1))))"

definition parseTranslationUnit ::
    "SourceFile \<Rightarrow> Token list \<Rightarrow> DiagnosticBag \<Rightarrow> (TranslationUnit \<times> DiagnosticBag) result" where
  "parseTranslationUnit src tokens bag =
     (let inp = \<lparr>pi_source = src, pi_tokens = tokens\<rparr>
      in bindR (parseItems inp (Parser_fuel inp) (Parser_new bag)) (\<lambda>(unit, ps). Ok (unit, ps_bag ps)))"

interpretation parser_bag: diagnostic_client ps_bag "\<lambda>b ps. ps\<lparr>ps_bag := b\<rparr>"
  by unfold_locales simp_all

end
