(* ===== verification/LexerProps.thy ===== *)
theory LexerProps
  imports Lexer
begin

text \<open>
  What the lexer computes, against a specification written over strings: \<open>trivia\<close> is what may
  stand between tokens, \<open>lexeme k s\<close> says that \<open>s\<close> spells a token of kind \<open>k\<close>. A file that
  lexes without an error is a sequence of trivia and lexemes, nothing lost and nothing invented.
\<close>

section \<open>Specification\<close>

inductive trivia :: "string \<Rightarrow> bool" where
  trivia_nil: "trivia []"
| trivia_space: "isSpace c \<Longrightarrow> trivia s \<Longrightarrow> trivia (c # s)"
| trivia_line: "newline \<notin> set body \<Longrightarrow> trivia s \<Longrightarrow> s = [] \<or> hd s = newline \<Longrightarrow>
    trivia (''//'' @ body @ s)"
| trivia_block:
    "(\<And>i. Suc i < length body \<Longrightarrow> \<not> (body ! i = CHR ''*'' \<and> body ! Suc i = CHR ''/'')) \<Longrightarrow>
     trivia s \<Longrightarrow> trivia (''/*'' @ body @ ''*/'' @ s)"

inductive string_body :: "string \<Rightarrow> bool" where
  body_nil: "string_body []"
| body_char: "c \<noteq> dquote \<Longrightarrow> c \<noteq> backslash \<Longrightarrow> c \<noteq> newline \<Longrightarrow> c \<noteq> CHR 0x0D \<Longrightarrow>
    string_body s \<Longrightarrow> string_body (c # s)"
| body_escape: "isEscape e \<Longrightarrow> string_body s \<Longrightarrow> string_body (backslash # e # s)"

definition digits :: "string \<Rightarrow> bool" where
  "digits s \<longleftrightarrow> s \<noteq> [] \<and> list_all isDecimalDigit s"

definition int_lexeme :: "string \<Rightarrow> bool" where
  "int_lexeme s \<longleftrightarrow> digits s \<or>
     (\<exists>x h. s = CHR ''0'' # x # h \<and> (x = CHR ''x'' \<or> x = CHR ''X'') \<and> h \<noteq> [] \<and> list_all isHexDigit h)"

definition fraction_part :: "string \<Rightarrow> bool" where
  "fraction_part f \<longleftrightarrow> (\<exists>g. f = CHR ''.'' # g \<and> digits g)"

definition exponent_part :: "string \<Rightarrow> bool" where
  "exponent_part e \<longleftrightarrow>
     (\<exists>c sg g. e = c # sg @ g \<and> (c = CHR ''e'' \<or> c = CHR ''E'') \<and>
        (sg = [] \<or> sg = ''+'' \<or> sg = ''-'') \<and> digits g)"

definition float_lexeme :: "string \<Rightarrow> bool" where
  "float_lexeme s \<longleftrightarrow>
     (\<exists>d f e. s = d @ f @ e \<and> digits d \<and> (f = [] \<or> fraction_part f) \<and> (e = [] \<or> exponent_part e) \<and>
        (f \<noteq> [] \<or> e \<noteq> []))"

definition word_lexeme :: "string \<Rightarrow> bool" where
  "word_lexeme s \<longleftrightarrow>
     (\<exists>c r. s = c # r \<and> isIdentifierStart c \<and> list_all isIdentifierContinue r)"

definition string_lexeme :: "string \<Rightarrow> bool" where
  "string_lexeme s \<longleftrightarrow> (\<exists>b. s = dquote # b @ [dquote] \<and> string_body b)"

fun fixed_spelling :: "TokenKind \<Rightarrow> string" where
  "fixed_spelling Plus = ''+''" | "fixed_spelling Minus = ''-''" | "fixed_spelling Star = ''*''"
| "fixed_spelling Slash = ''/''" | "fixed_spelling Percent = ''%''" | "fixed_spelling Bang = ''!''"
| "fixed_spelling Tilde = ''~''" | "fixed_spelling Equal = ''=''"
| "fixed_spelling EqualEqual = ''==''" | "fixed_spelling BangEqual = ''!=''"
| "fixed_spelling Less = ''<''" | "fixed_spelling LessEqual = ''<=''"
| "fixed_spelling LessLess = ''<<''" | "fixed_spelling Greater = ''>''"
| "fixed_spelling GreaterEqual = ''>=''" | "fixed_spelling GreaterGreater = ''>>''"
| "fixed_spelling Amp = ''&''" | "fixed_spelling AmpAmp = ''&&''" | "fixed_spelling Pipe = ''|''"
| "fixed_spelling PipePipe = ''||''" | "fixed_spelling Caret = ''^''" | "fixed_spelling Arrow = ''->''"
| "fixed_spelling LeftParen = ''(''" | "fixed_spelling RightParen = '')''"
| "fixed_spelling LeftBracket = ''[''" | "fixed_spelling RightBracket = '']''"
| "fixed_spelling LeftBrace = ''{''" | "fixed_spelling RightBrace = ''}''"
| "fixed_spelling Comma = '',''" | "fixed_spelling Semicolon = '';''" | "fixed_spelling Colon = '':''"
| "fixed_spelling _ = []"

definition lexeme :: "TokenKind \<Rightarrow> string \<Rightarrow> bool" where
  "lexeme k s \<longleftrightarrow>
     (if k = IntegerLiteral then int_lexeme s
      else if k = FloatLiteral then float_lexeme s
      else if k = StringLiteral then string_lexeme s
      else if k = Identifier \<or> k \<in> snd ` set reserved_words then word_lexeme s \<and> keywordKind s = k
      else s = fixed_spelling k)"

section \<open>Slices the loops pass over\<close>

lemma list_all_slice:
  assumes "\<And>i. a \<le> i \<Longrightarrow> i < b \<Longrightarrow> Q (sf_text src ! i)" "a \<le> b" "b \<le> sf_size src"
  shows "list_all Q (slice src (mk_span a b))"
  using assms by (auto simp: list_all_length slice_valid valid_span_def)

lemma slice_Cons:
  assumes "a < b" "b \<le> sf_size src"
  shows "slice src (mk_span a b) = sf_text src ! a # slice src (mk_span (Suc a) b)"
  using assms by (simp add: slice_valid valid_span_def nth_drop_Cons) 
    (metis Suc_diff_Suc take_Suc_Cons)

lemma slice_empty [simp]: "slice src (mk_span a a) = []"
  by (simp add: slice_def)

lemma slice_one: "a < sf_size src \<Longrightarrow> slice src (mk_span a (Suc a)) = [sf_text src ! a]"
  by (simp add: slice_Cons)

lemma slice_append3:
  assumes "a \<le> b" "b \<le> c" "c \<le> d" "d \<le> sf_size src"
  shows "slice src (mk_span a d) =
    slice src (mk_span a b) @ slice src (mk_span b c) @ slice src (mk_span c d)"
  using assms slice_append[of a b d src] slice_append[of b c d src] by simp

lemma list_all_advanceWhile:
  fixes src lx Q
  defines "lx' \<equiv> Lexer_advanceWhile src (\<lambda>l. Q (Lexer_peek src l 0)) lx"
  assumes "lx_current lx \<le> sf_size src"
  shows "list_all Q (slice src (mk_span (lx_current lx) (lx_current lx')))"
proof (rule list_all_slice)
  show "lx_current lx \<le> lx_current lx'" "lx_current lx' \<le> sf_size src"
    using lx_step_advanceWhile[of src lx] assms by (auto simp: lx_step_def)
  show "Q (sf_text src ! i)" if "lx_current lx \<le> i" "i < lx_current lx'" for i
    using that advanceWhile_passed[of i src Q lx] unfolding lx'_def by simp
qed

lemma advanceWhile_passed_at:
  "i < lx_current (Lexer_advanceWhile src P lx) \<Longrightarrow> lx_current lx \<le> i \<Longrightarrow> P (lx\<lparr>lx_current := i\<rparr>)"
proof (induction src P lx rule: Lexer_advanceWhile.induct)
  case (1 src P lx)
  have skip_at: "(Lexer_skip src lx)\<lparr>lx_current := j\<rparr> = lx\<lparr>lx_current := j\<rparr>" for j
    by (simp add: Lexer_skip_def Lexer_advance_def)
  show ?case
    using 1 by (cases "\<not> Lexer_isAtEnd src lx \<and> P lx"; cases "i = lx_current lx")
      (auto simp: Lexer_advanceWhile.simps[of src P lx] skip_at)
qed

section \<open>Trivia\<close>

lemma trivia_skip:
  "\<lbrakk>\<not> hasErrors (lx_bag (skipWhitespaceAndComments src lx)); lx_current lx \<le> sf_size src\<rbrakk> \<Longrightarrow>
    trivia (slice src (mk_span (lx_current lx) (lx_current (skipWhitespaceAndComments src lx))))"
proof (induction lx rule: skipWhitespace_induct[where src = src])
  case (stop lx)
  then show ?case by (simp add: trivia_nil)
next
  case (space lx)
  let ?e = "lx_current (skipWhitespaceAndComments src (Lexer_skip src lx))"
  have "Suc (lx_current lx) \<le> ?e" "?e \<le> sf_size src"
    using lx_step_skipWhitespaceAndComments[of src "Lexer_skip src lx"] space(1)
    by (auto simp: lx_step_def Lexer_isAtEnd_def)
  then show ?case
    using space by (simp add: slice_Cons Lexer_peek0 trivia_space Lexer_isAtEnd_def)
next
  case (line lx)
  let ?m = "Lexer_skipLineComment src lx"
  let ?e = "lx_current (skipWhitespaceAndComments src ?m)"
  have c0: "sf_text src ! lx_current lx = CHR ''/''"
    using line by (simp add: Lexer_peek0)
  have c1: "sf_text src ! Suc (lx_current lx) = CHR ''/''" and two: "Suc (lx_current lx) < sf_size src"
    using line(3) Lexer_peek_in[of src lx 1] by (auto simp: Lexer_peek_def split: if_splits)
  have m: "Suc (Suc (lx_current lx)) \<le> lx_current ?m"
  proof -
    have "Lexer_skipLineComment src lx =
        Lexer_skipLineComment src (Lexer_skip src (Lexer_skip src lx))"
      unfolding Lexer_skipLineComment_def using line(1,2) c1 two
      by (simp add: Lexer_advanceWhile.simps[of src _ lx] Lexer_isAtEnd_def Lexer_peek_def
          Lexer_advanceWhile.simps[of src _ "Lexer_skip src lx"])
    then show ?thesis
      using lx_current_advanceWhile[of "Lexer_skip src (Lexer_skip src lx)" src]
      by (simp add: Lexer_skipLineComment_def)
  qed
  have me: "lx_current ?m \<le> ?e" "?e \<le> sf_size src" "lx_current ?m \<le> sf_size src"
    using lx_step_skipWhitespaceAndComments[of src ?m] lx_step_skipLineComment[of src lx] line
    by (auto simp: lx_step_def)
  let ?body = "slice src (mk_span (Suc (Suc (lx_current lx))) (lx_current ?m))"
  let ?rest = "slice src (mk_span (lx_current ?m) ?e)"
  have "slice src (mk_span (lx_current lx) ?e) = ''//'' @ ?body @ ?rest"
    using m me two c0 c1 by (simp add: slice_Cons[of "lx_current lx"] slice_Cons[of "Suc (lx_current lx)"] slice_append)
  moreover have "newline \<notin> set ?body"
  proof -
    have "list_all (\<lambda>c. c \<noteq> newline) ?body"
      using m me advanceWhile_passed[of _ src "\<lambda>c. c \<noteq> newline" lx]
      by (intro list_all_slice) (auto simp: Lexer_skipLineComment_def)
    then show ?thesis by (auto simp: list_all_iff)
  qed
  moreover have "?rest = [] \<or> hd ?rest = newline"
  proof (cases "lx_current ?m = ?e")
    case False
    then have "lx_current ?m < ?e" using me by simp
    moreover have "\<not> Lexer_isAtEnd src ?m"
      using calculation me by (simp add: Lexer_isAtEnd_def)
    then have "Lexer_peek src ?m 0 = newline"
      using advanceWhile_stop[of src "\<lambda>l. Lexer_peek src l 0 \<noteq> newline" lx]
      unfolding Lexer_skipLineComment_def by simp
    with \<open>\<not> Lexer_isAtEnd src ?m\<close> have "sf_text src ! lx_current ?m = newline"
      by (simp add: Lexer_peek0)
    ultimately show ?thesis using me by (simp add: slice_Cons)
  qed simp
  moreover have "trivia ?rest" using line me by simp
  ultimately show ?case using trivia_line line(4) by metis
next
  case (unterminated lx)
  then show ?case by simp
next
  case (block lx)
  let ?m = "Lexer_blockEnd src lx"
  let ?n = "Lexer_skip src (Lexer_skip src ?m)"
  let ?e = "lx_current (skipWhitespaceAndComments src ?n)"
  have c0: "sf_text src ! lx_current lx = CHR ''/''"
    using block by (simp add: Lexer_peek0)
  have c1: "sf_text src ! Suc (lx_current lx) = CHR ''*''" and two: "Suc (lx_current lx) < sf_size src"
    using block(3) Lexer_peek_in[of src lx 1] by (auto simp: Lexer_peek_def split: if_splits)
  note cl = blockEnd_close[OF block(4)]
  have d0: "sf_text src ! lx_current ?m = CHR ''*''" and d1: "sf_text src ! Suc (lx_current ?m) = CHR ''/''"
    and two': "Suc (lx_current ?m) < sf_size src"
    using cl Lexer_peek_in[of src ?m 1] by (auto simp: Lexer_peek_def split: if_splits)
  have m: "Suc (Suc (lx_current lx)) \<le> lx_current ?m"
    using lx_step_skipBlockText[of src "Lexer_skip src (Lexer_skip src lx)"]
    by (simp add: Lexer_blockEnd_def lx_step_def)
  have me: "Suc (Suc (lx_current ?m)) \<le> ?e" "?e \<le> sf_size src"
    using lx_step_skipWhitespaceAndComments[of src ?n] two' by (auto simp: lx_step_def)
  let ?body = "slice src (mk_span (Suc (Suc (lx_current lx))) (lx_current ?m))"
  let ?rest = "slice src (mk_span (lx_current ?n) ?e)"
  have "slice src (mk_span (lx_current ?m) ?e) = ''*/'' @ ?rest"
    using me two' d0 d1 by (simp add: slice_Cons[of "lx_current ?m"] slice_Cons[of "Suc (lx_current ?m)"])
  then have "slice src (mk_span (lx_current lx) ?e) = ''/*'' @ ?body @ ''*/'' @ ?rest"
    using m me two c0 c1
      slice_append[of "Suc (Suc (lx_current lx))" "lx_current ?m" ?e src]
    by (simp add: slice_Cons[of "lx_current lx"] slice_Cons[of "Suc (lx_current lx)"])
  moreover have "\<not> (?body ! i = CHR ''*'' \<and> ?body ! Suc i = CHR ''/'')" if "Suc i < length ?body" for i
  proof -
    let ?j = "Suc (Suc (lx_current lx)) + i"
    have len: "length ?body = lx_current ?m - Suc (Suc (lx_current lx))"
      using m two' by (simp add: length_slice_valid valid_span_def)
    then have j: "?j < lx_current ?m" "Suc ?j < sf_size src" using that two' by auto
    have "\<not> (sf_text src ! ?j = CHR ''*'' \<and> sf_text src ! Suc ?j = CHR ''/'')"
      using advanceWhile_passed_at[of ?j src _ "Lexer_skip src (Lexer_skip src lx)"] j
      unfolding Lexer_blockEnd_def Lexer_skipBlockText_def
      by (fastforce simp: Lexer_peek_def)
    then show ?thesis
      using that m two' len by (simp add: slice_valid valid_span_def)
  qed
  moreover have "trivia ?rest" using block two' by simp
  ultimately show ?case using trivia_block[of ?body ?rest] block(5) by metis
qed

section \<open>Lexemes\<close>

lemma Lexer_peek_text:
  "Lexer_peek src lx k = c \<Longrightarrow> c \<noteq> CHR 0x00 \<Longrightarrow>
    sf_text src ! (lx_current lx + k) = c \<and> lx_current lx + k < sf_size src"
  by (auto simp: Lexer_peek_def Let_def split: if_splits)

lemma lexeme_word:
  "word_lexeme s \<Longrightarrow> lexeme (keywordKind s) s"
  using keywordKind_range[of s] by (simp add: lexeme_def)

lemma lexeme_identifier:
  assumes "isIdentifierStart (sf_text src ! p)" "p < sf_size src" "lx_current lx = Suc p"
    "lexIdentifierOrKeyword src lx = (t, lx')"
  shows "lexeme (tok_kind t) (slice src (tok_span t))"
    "lx_current lx' < sf_size src \<Longrightarrow> \<not> isIdentifierContinue (sf_text src ! lx_current lx')"
proof -
  let ?e = "Lexer_advanceWhile src (\<lambda>l. isIdentifierContinue (Lexer_peek src l 0)) lx"
  have e: "Suc p \<le> lx_current ?e" "lx_current ?e \<le> sf_size src"
    using lx_step_advanceWhile[of src lx "\<lambda>l. isIdentifierContinue (Lexer_peek src l 0)"] assms
    by (auto simp: lx_step_def)
  have t: "t = mk_token (keywordKind (slice src (mk_span p (lx_current ?e)))) (mk_span p (lx_current ?e))"
    and lx': "lx' = ?e"
    using assms(3,4) by (auto simp: lexIdentifierOrKeyword_def Let_def)
  have "word_lexeme (slice src (mk_span p (lx_current ?e)))"
    using assms e list_all_advanceWhile[of lx src isIdentifierContinue]
    by (simp add: word_lexeme_def slice_Cons[of p])
  then show "lexeme (tok_kind t) (slice src (tok_span t))"
    using t by (simp add: lexeme_word)
  show "\<not> isIdentifierContinue (sf_text src ! lx_current lx')" if "lx_current lx' < sf_size src"
  proof -
    have "\<not> Lexer_isAtEnd src ?e" using that lx' by (simp add: Lexer_isAtEnd_def)
    then show ?thesis
      using advanceWhile_stop[of src "\<lambda>l. isIdentifierContinue (Lexer_peek src l 0)" lx] lx'
      by (simp add: Lexer_peek0)
  qed
qed

lemma lexeme_hex:
  assumes "sf_text src ! p = CHR ''0''" "p < sf_size src" "lx_current lx = Suc p"
    "Lexer_peek src lx 0 = CHR ''x'' \<or> Lexer_peek src lx 0 = CHR ''X''"
    "lexHexLiteral src p lx = (t, lx')" "\<not> hasErrors (lx_bag lx')"
  shows "lexeme (tok_kind t) (slice src (tok_span t))"
proof -
  let ?e = "Lexer_advanceWhile src (\<lambda>l. isHexDigit (Lexer_peek src l 0)) (Lexer_skip src lx)"
  have x: "sf_text src ! Suc p = CHR ''x'' \<or> sf_text src ! Suc p = CHR ''X''" "Suc p < sf_size src"
    using assms(3,4) Lexer_peek_text[of src lx 0] by auto
  have e: "Suc (Suc p) \<le> lx_current ?e" "lx_current ?e \<le> sf_size src"
    using lx_step_advanceWhile[of src "Lexer_skip src lx" "\<lambda>l. isHexDigit (Lexer_peek src l 0)"] assms x
    by (auto simp: lx_step_def)
  have ne: "lx_current ?e \<noteq> Suc (Suc p)"
    using assms(3,5,6) by (auto simp: lexHexLiteral_def Let_def)
  then have t: "t = mk_token IntegerLiteral (mk_span p (lx_current ?e))"
    using assms(3,5) by (auto simp: lexHexLiteral_def Let_def split: if_splits)
  let ?h = "slice src (mk_span (Suc (Suc p)) (lx_current ?e))"
  have "slice src (mk_span p (lx_current ?e)) = CHR ''0'' # sf_text src ! Suc p # ?h"
    using assms x e by (simp add: slice_Cons[of p] slice_Cons[of "Suc p"])
  moreover have "?h \<noteq> []"
  proof -
    have "length ?h = lx_current ?e - Suc (Suc p)"
      using e by (simp add: length_slice_valid valid_span_def)
    then show ?thesis using e ne by auto
  qed
  moreover have "list_all isHexDigit ?h"
    using list_all_advanceWhile[of "Lexer_skip src lx" src isHexDigit] assms x by simp
  ultimately have "int_lexeme (slice src (mk_span p (lx_current ?e)))"
    using x unfolding int_lexeme_def by blast
  then show ?thesis using t by (simp add: lexeme_def)
qed

text \<open>The digit loop, the fraction and the exponent, as slices of the text.\<close>

lemma digits_slice:
  assumes "lx_current lx \<le> sf_size src"
  shows "list_all isDecimalDigit (slice src (mk_span (lx_current lx) (lx_current (Lexer_digits src lx))))"
    "lx_current lx \<le> lx_current (Lexer_digits src lx)"
    "lx_current (Lexer_digits src lx) \<le> sf_size src"
  using list_all_advanceWhile[of lx src isDecimalDigit] lx_step_digits[of src lx] assms
  by (auto simp: Lexer_digits_def lx_step_def)

lemma slice_nonempty: "a < b \<Longrightarrow> b \<le> sf_size src \<Longrightarrow> slice src (mk_span a b) \<noteq> []"
  by (simp add: slice_Cons)

lemma digits_advance:
  assumes "lx_current lx < sf_size src" "isDecimalDigit (sf_text src ! lx_current lx)"
  shows "lx_current lx < lx_current (Lexer_digits src lx)"
proof -
  have "Lexer_digits src lx = Lexer_digits src (Lexer_skip src lx)"
    unfolding Lexer_digits_def using assms
    by (subst Lexer_advanceWhile.simps) (simp add: Lexer_isAtEnd_def Lexer_peek_def)
  then show ?thesis
    using digits_slice(2)[of "Lexer_skip src lx" src] assms by simp
qed

lemma fraction_slice:
  assumes "lx_current lx \<le> sf_size src" "lexFraction src lx = (b, lx')"
  defines "f \<equiv> slice src (mk_span (lx_current lx) (lx_current lx'))"
  shows "lx_current lx \<le> lx_current lx' \<and> lx_current lx' \<le> sf_size src \<and>
    (if b then fraction_part f else f = [])"
proof (cases b)
  case False
  then have "lx' = lx" using assms(2) by (auto simp: lexFraction_def split: if_splits)
  with False assms show ?thesis by simp
next
  case True
  then have p: "Lexer_peek src lx 0 = CHR ''.''" "isDecimalDigit (Lexer_peek src lx 1)"
    and lx': "lx' = Lexer_digits src (Lexer_skip src lx)"
    using assms(2) by (auto simp: lexFraction_def split: if_splits)
  have "Lexer_peek src lx 1 \<noteq> CHR 0x00" using p(2) by auto
  then have d: "isDecimalDigit (sf_text src ! Suc (lx_current lx))" "Suc (lx_current lx) < sf_size src"
    using p(2) Lexer_peek_text[of src lx 1 "Lexer_peek src lx 1"] by auto
  have lt: "Suc (lx_current lx) < lx_current lx'" "lx_current lx' \<le> sf_size src"
    using digits_advance[of "Lexer_skip src lx" src] digits_slice(3)[of "Lexer_skip src lx" src] d lx' by auto
  have "f = CHR ''.'' # slice src (mk_span (Suc (lx_current lx)) (lx_current lx'))"
    using p(1) lt d Lexer_peek_text[of src lx 0] unfolding f_def by (simp add: slice_Cons[of "lx_current lx"])
  moreover have "digits (slice src (mk_span (Suc (lx_current lx)) (lx_current lx')))"
    using digits_slice(1)[of "Lexer_skip src lx" src] lt d lx'
    by (simp add: digits_def slice_nonempty)
  ultimately show ?thesis using True lt by (simp add: fraction_part_def)
qed

lemma exponent_slice:
  assumes "lx_current lx \<le> sf_size src" "lexExponent src start lx = (b, lx')" "\<not> hasErrors (lx_bag lx')"
  defines "e \<equiv> slice src (mk_span (lx_current lx) (lx_current lx'))"
  shows "lx_current lx \<le> lx_current lx' \<and> lx_current lx' \<le> sf_size src \<and>
    (if b then exponent_part e else e = [])"
proof (cases b)
  case False
  then have "lx' = lx" using assms(2) by (auto simp: lexExponent_def Let_def split: if_splits)
  with False assms show ?thesis by simp
next
  case True
  let ?lx1 = "Lexer_skip src lx"
  let ?signed = "Lexer_peek src ?lx1 0 = CHR ''+'' \<or> Lexer_peek src ?lx1 0 = CHR ''-''"
  define lx2 where "lx2 = (if ?signed then Lexer_skip src ?lx1 else ?lx1)"
  have p: "Lexer_peek src lx 0 = CHR ''e'' \<or> Lexer_peek src lx 0 = CHR ''E''"
    and ne: "lx_current (Lexer_digits src lx2) \<noteq> lx_current lx2" and lx': "lx' = Lexer_digits src lx2"
    using True assms(2,3) unfolding lexExponent_def Let_def lx2_def[symmetric]
    by (auto split: if_splits)
  have c: "sf_text src ! lx_current lx = CHR ''e'' \<or> sf_text src ! lx_current lx = CHR ''E''"
    "lx_current lx < sf_size src"
    using p Lexer_peek_text[of src lx 0] by auto
  define sg where "sg = slice src (mk_span (Suc (lx_current lx)) (lx_current lx2))"
  have sg: "sg = [] \<or> sg = ''+'' \<or> sg = ''-''" "Suc (lx_current lx) \<le> lx_current lx2" "lx_current lx2 \<le> sf_size src"
    using Lexer_peek_text[of src ?lx1 0] c unfolding sg_def lx2_def by (auto simp: slice_one)
  have lt: "lx_current lx2 < lx_current lx'" "lx_current lx' \<le> sf_size src"
    using digits_slice(2,3)[of lx2 src] ne lx' sg by auto
  have "e = sf_text src ! lx_current lx # sg @ slice src (mk_span (lx_current lx2) (lx_current lx'))"
    using lt sg c unfolding e_def sg_def by (simp add: slice_Cons[of "lx_current lx"] slice_append)
  moreover have "digits (slice src (mk_span (lx_current lx2) (lx_current lx')))"
    using digits_slice(1)[of lx2 src] lt sg lx' by (simp add: digits_def slice_nonempty)
  ultimately show ?thesis
    using True c sg lt unfolding exponent_part_def by auto
qed

lemma lexeme_number:
  assumes "isDecimalDigit (sf_text src ! p)" "p < sf_size src" "lx_current lx = Suc p"
    "lexIntegerLiteral src lx = (t, lx')" "\<not> hasErrors (lx_bag lx')"
  shows "lexeme (tok_kind t) (slice src (tok_span t))"
proof (cases "sf_text src ! p = CHR ''0'' \<and> (Lexer_peek src lx 0 = CHR ''x'' \<or> Lexer_peek src lx 0 = CHR ''X'')")
  case True
  then show ?thesis using assms lexeme_hex[of src p lx t lx'] by (simp add: lexIntegerLiteral_def)
next
  case False
  define lx1 where "lx1 = Lexer_digits src lx"
  obtain b1 lx2 where f: "lexFraction src lx1 = (b1, lx2)" by fastforce
  obtain b2 lx3 where e: "lexExponent src p lx2 = (b2, lx3)" by fastforce
  have t: "t = mk_token (if b1 \<or> b2 then FloatLiteral else IntegerLiteral) (mk_span p (lx_current lx3))"
    and lx': "lx' = lx3"
    using False assms(3,4) f e by (auto simp: lexIntegerLiteral_def lx1_def Let_def)
  note ds = digits_slice[of lx src, folded lx1_def]
  have fs: "lx_current lx1 \<le> lx_current lx2 \<and> lx_current lx2 \<le> sf_size src \<and>
      (if b1 then fraction_part (slice src (mk_span (lx_current lx1) (lx_current lx2)))
       else slice src (mk_span (lx_current lx1) (lx_current lx2)) = [])"
    using fraction_slice[OF _ f] ds assms by simp
  have es: "lx_current lx2 \<le> lx_current lx3 \<and> lx_current lx3 \<le> sf_size src \<and>
      (if b2 then exponent_part (slice src (mk_span (lx_current lx2) (lx_current lx3)))
       else slice src (mk_span (lx_current lx2) (lx_current lx3)) = [])"
    using exponent_slice[OF _ e] fs assms lx' by simp
  let ?d = "slice src (mk_span p (lx_current lx1))"
  have d: "digits ?d"
    using ds assms by (simp add: digits_def slice_Cons[of p])
  have whole: "slice src (mk_span p (lx_current lx3)) =
      ?d @ slice src (mk_span (lx_current lx1) (lx_current lx2)) @ slice src (mk_span (lx_current lx2) (lx_current lx3))"
    using ds fs es assms by (intro slice_append3) auto
  show ?thesis
  proof (cases "b1 \<or> b2")
    case True
    have "fraction_part f \<Longrightarrow> f \<noteq> []" "exponent_part f \<Longrightarrow> f \<noteq> []" for f
      by (auto simp: fraction_part_def exponent_part_def)
    then have "float_lexeme (slice src (mk_span p (lx_current lx3)))"
      unfolding float_lexeme_def whole using True d fs es by (metis (full_types))
    with True t show ?thesis by (simp add: lexeme_def)
  next
    case False
    with fs es whole d t show ?thesis by (simp add: lexeme_def int_lexeme_def)
  qed
qed

end
