(* ===== verification/LexerStream.thy ===== *)
theory LexerStream
  imports LexerProps
begin

text \<open>
  The token stream as a whole: every token of an error-free run spells a lexeme of its kind,
  the bytes between two tokens are trivia, and the stream is the file, cut up and classified.
  The properties of the lexer stand at the end.
\<close>

section \<open>String literals and operators\<close>

lemma lexeme_string_body:
  "\<lbrakk>\<not> hasErrors (lx_bag (snd (lexStringLiteral src start lx))); lx_current lx \<le> sf_size src\<rbrakk> \<Longrightarrow>
    tok_kind (fst (lexStringLiteral src start lx)) = StringLiteral \<and>
    (\<exists>b. string_body b \<and>
      slice src (mk_span (lx_current lx) (lx_current (snd (lexStringLiteral src start lx)))) =
        b @ [dquote])"
proof (induction lx rule: lexString_induct[where src = src and start = start])
  case (at_end lx)
  then show ?case by (simp add: Lexer_unterminated_def)
next
  case (quote lx)
  then have "slice src (mk_span (lx_current lx) (Suc (lx_current lx))) = [] @ [dquote]"
    by (simp add: slice_one Lexer_isAtEnd_def)
  with quote show ?case by (auto intro: body_nil)
next
  case (line_end lx)
  then show ?case by (simp add: Lexer_unterminated_def)
next
  case (escape lx)
  let ?l = "lexEscape src (Lexer_skip src lx)"
  let ?r = "lexStringLiteral src start ?l"
  have stepped: "lx_step src ?l (snd ?r)"
    using token_ok_string[of src start ?l] by (simp add: token_ok_def)
  have two: "Suc (lx_current lx) < sf_size src" using escape(3) by (simp add: Lexer_isAtEnd_def)
  have clean: "\<not> hasErrors (lx_bag ?l)"
    using stepped escape by (auto simp: lx_step_def dest: bag_ext_hasErrors)
  then have e: "isEscape (sf_text src ! Suc (lx_current lx))"
    by (auto simp: lexEscape_def Lexer_advance_eq split: if_splits)
  obtain b where b: "string_body b"
    "slice src (mk_span (Suc (Suc (lx_current lx))) (lx_current (snd ?r))) = b @ [dquote]"
    using escape two by auto
  have "slice src (mk_span (lx_current lx) (lx_current (snd ?r))) =
      (backslash # sf_text src ! Suc (lx_current lx) # b) @ [dquote]"
    using stepped two b escape(2)
    by (simp add: lx_step_def slice_Cons[of "lx_current lx"] slice_Cons[of "Suc (lx_current lx)"])
  with b e escape two show ?case by (metis body_escape lx_current_escape lx_current_skip Suc_leI)
next
  case (plain lx)
  let ?r = "lexStringLiteral src start (Lexer_skip src lx)"
  have one: "lx_current lx < sf_size src" using plain(1) by (simp add: Lexer_isAtEnd_def)
  have stepped: "lx_step src (Lexer_skip src lx) (snd ?r)"
    using token_ok_string[of src start "Lexer_skip src lx"] by (simp add: token_ok_def)
  obtain b where b: "string_body b"
    "slice src (mk_span (Suc (lx_current lx)) (lx_current (snd ?r))) = b @ [dquote]"
    using plain one by auto
  have "slice src (mk_span (lx_current lx) (lx_current (snd ?r))) =
      (sf_text src ! lx_current lx # b) @ [dquote]"
    using stepped one b by (simp add: lx_step_def slice_Cons[of "lx_current lx"])
  with b plain one show ?case by (metis body_char lx_current_skip Suc_leI)
qed

definition lexeme_of :: "SourceFile \<Rightarrow> Token \<times> lexer \<Rightarrow> bool" where
  "lexeme_of src r \<longleftrightarrow>
     (\<not> hasErrors (lx_bag (snd r)) \<longrightarrow> lexeme (tok_kind (fst r)) (slice src (tok_span (fst r))))"

lemma fixed_lexeme:
  assumes "fixed_spelling k \<noteq> []"
  shows "lexeme k (fixed_spelling k)"
  using assms by (cases k) (simp_all add: lexeme_def reserved_words_def)

lemma lexeme_of_single:
  assumes "fixed_spelling k = [sf_text src ! p]" "p < sf_size src" "lx_current lx = Suc p"
  shows "lexeme_of src (Lexer_single k p lx, lx)"
  using assms fixed_lexeme[of k] by (simp add: lexeme_of_def Lexer_single_def slice_one)

lemma match_cases:
  obtains (hit) "fst (Lexer_match src c lx)" "lx_current lx < sf_size src"
      "sf_text src ! lx_current lx = c"
      "lx_current (snd (Lexer_match src c lx)) = Suc (lx_current lx)"
  | (miss) "\<not> fst (Lexer_match src c lx)" "snd (Lexer_match src c lx) = lx"
  by (cases "fst (Lexer_match src c lx)")
    (auto simp: Lexer_match_def Lexer_isAtEnd_def Lexer_peek_def split: if_splits)

lemma slice_two:
  "Suc p < sf_size src \<Longrightarrow>
    slice src (mk_span p (Suc (Suc p))) = [sf_text src ! p, sf_text src ! Suc p]"
  by (simp add: slice_Cons[of p] slice_one)

lemma lexeme_of_two:
  assumes "fixed_spelling k = [sf_text src ! p, sf_text src ! Suc p]" "Suc p < sf_size src"
    "lx_current lx = Suc (Suc p)"
  shows "lexeme_of src (Lexer_single k p lx, lx)"
  using assms fixed_lexeme[of k] by (simp add: lexeme_of_def Lexer_single_def slice_two)

lemma lexeme_of_oneOrTwo:
  assumes "fixed_spelling one = [sf_text src ! p]" "fixed_spelling two = [sf_text src ! p, c]"
    "p < sf_size src" "lx_current lx = Suc p"
  shows "lexeme_of src (Lexer_oneOrTwo src p c two one lx)"
proof (cases rule: match_cases[of src c lx])
  case hit
  then show ?thesis using assms lexeme_of_two[of two src p]
    by (simp add: Lexer_oneOrTwo_def case_prod_unfold Let_def)
next
  case miss
  then show ?thesis using assms lexeme_of_single[of one src p]
    by (simp add: Lexer_oneOrTwo_def case_prod_unfold Let_def)
qed

lemma lexeme_of_equalOrTwo:
  assumes "fixed_spelling one = [sf_text src ! p]" "fixed_spelling two = [sf_text src ! p, c]"
    "fixed_spelling eq = [sf_text src ! p, CHR ''='']" "p < sf_size src" "lx_current lx = Suc p"
  shows "lexeme_of src (Lexer_equalOrTwo src p eq c two one lx)"
proof (cases rule: match_cases[of src "CHR ''=''" lx])
  case hit
  then show ?thesis using assms lexeme_of_two[of eq src p]
    by (simp add: Lexer_equalOrTwo_def case_prod_unfold Let_def)
next
  case miss
  then show ?thesis using assms lexeme_of_oneOrTwo[of one src p two c lx]
    by (simp add: Lexer_equalOrTwo_def case_prod_unfold Let_def)
qed

lemma lexeme_of_if:
  "(b \<Longrightarrow> lexeme_of src r) \<Longrightarrow> (\<not> b \<Longrightarrow> lexeme_of src r') \<Longrightarrow> lexeme_of src (if b then r else r')"
  by simp

lemma lexeme_of_bad: "lexeme_of src (t, Lexer_error sp m lx)"
  by (simp add: lexeme_of_def)

lemma lexeme_of_word:
  assumes "isIdentifierStart (sf_text src ! p)" "p < sf_size src" "lx_current lx = Suc p"
  shows "lexeme_of src (lexIdentifierOrKeyword src lx)"
  using lexeme_identifier(1)[OF assms] by (simp add: lexeme_of_def) (metis prod.collapse)

lemma lexeme_of_number:
  assumes "isDecimalDigit (sf_text src ! p)" "p < sf_size src" "lx_current lx = Suc p"
  shows "lexeme_of src (lexIntegerLiteral src lx)"
  using lexeme_number[OF assms] by (simp add: lexeme_of_def) (metis prod.collapse)

lemma lexeme_of_string:
  assumes "sf_text src ! p = dquote" "p < sf_size src" "lx_current lx = Suc p"
  shows "lexeme_of src (lexStringLiteral src p lx)"
  unfolding lexeme_of_def
proof
  let ?r = "lexStringLiteral src p lx"
  assume clean: "\<not> hasErrors (lx_bag (snd ?r))"
  obtain b where b: "string_body b" "tok_kind (fst ?r) = StringLiteral"
    "slice src (mk_span (Suc p) (lx_current (snd ?r))) = b @ [dquote]"
    using lexeme_string_body[OF clean] assms by auto
  have "tok_span (fst ?r) = mk_span p (lx_current (snd ?r))" "Suc p \<le> lx_current (snd ?r)"
    "lx_current (snd ?r) \<le> sf_size src"
    using token_ok_string[of src p lx] assms by (auto simp: token_ok_def lx_step_def)
  then show "lexeme (tok_kind (fst ?r)) (slice src (tok_span (fst ?r)))"
    using b assms by (simp add: lexeme_def string_lexeme_def slice_Cons[of p])
qed

lemma lexeme_lexToken:
  assumes "\<not> Lexer_isAtEnd src lx"
  shows "lexeme_of src (lexToken src lx)"
proof -
  have p: "lx_current lx < sf_size src" using assms by (simp add: Lexer_isAtEnd_def)
  show ?thesis
    unfolding lexToken_def Lexer_advance_eq Let_def case_prod_conv
    by (intro lexeme_of_if lexeme_of_word[of src "lx_current lx"]
        lexeme_of_number[of src "lx_current lx"] lexeme_of_string[of src "lx_current lx"]
        lexeme_of_single lexeme_of_oneOrTwo lexeme_of_equalOrTwo lexeme_of_bad)
      (use p in simp_all)
qed

section \<open>Identifiers are maximal\<close>

definition word_kind :: "TokenKind \<Rightarrow> bool" where
  "word_kind k \<longleftrightarrow> k = Identifier \<or> k \<in> snd ` set reserved_words"

definition maximal_of :: "SourceFile \<Rightarrow> Token \<times> lexer \<Rightarrow> bool" where
  "maximal_of src r \<longleftrightarrow>
     (word_kind (tok_kind (fst r)) \<longrightarrow> lx_current (snd r) < sf_size src \<longrightarrow>
       \<not> isIdentifierContinue (sf_text src ! lx_current (snd r)))"

lemma maximal_of_other: "\<not> word_kind (tok_kind (fst r)) \<Longrightarrow> maximal_of src r"
  by (simp add: maximal_of_def)

lemma maximal_of_if:
  "maximal_of src r \<Longrightarrow> maximal_of src r' \<Longrightarrow> maximal_of src (if b then r else r')"
  by simp

lemma maximal_of_word: "maximal_of src (lexIdentifierOrKeyword src lx)"
proof -
  let ?e = "Lexer_advanceWhile src (\<lambda>l. isIdentifierContinue (Lexer_peek src l 0)) lx"
  have "\<not> isIdentifierContinue (sf_text src ! lx_current ?e)" if "lx_current ?e < sf_size src"
    using advanceWhile_stop[of src "\<lambda>l. isIdentifierContinue (Lexer_peek src l 0)" lx] that
    by (simp add: Lexer_isAtEnd_def Lexer_peek_def)
  then show ?thesis by (simp add: maximal_of_def lexIdentifierOrKeyword_def Let_def)
qed

lemma string_kind: "tok_kind (fst (lexStringLiteral src start lx)) = StringLiteral"
  by (induction lx rule: lexString_induct[where src = src and start = start])
    (simp_all add: Lexer_unterminated_def)

lemma integer_kind: "tok_kind (fst (lexIntegerLiteral src lx)) \<in> {IntegerLiteral, FloatLiteral}"
  by (simp add: lexIntegerLiteral_def lexHexLiteral_def Let_def case_prod_unfold)

lemma word_kind_not [simp]:
  "\<not> word_kind IntegerLiteral" "\<not> word_kind FloatLiteral" "\<not> word_kind StringLiteral"
  "\<not> word_kind EndOfFile"
  by (simp_all add: word_kind_def reserved_words_def)

lemma word_kind_fixed [simp]: "fixed_spelling k \<noteq> [] \<Longrightarrow> \<not> word_kind k"
  by (auto simp: word_kind_def reserved_words_def)

lemma oneOrTwo_kind: "tok_kind (fst (Lexer_oneOrTwo src start c two one lx)) \<in> {two, one}"
  by (simp add: Lexer_oneOrTwo_def Lexer_single_def case_prod_unfold Let_def)

lemma equalOrTwo_kind:
  "tok_kind (fst (Lexer_equalOrTwo src start eq c two one lx)) \<in> {eq, two, one}"
  using oneOrTwo_kind[of src start c two one]
  by (auto simp: Lexer_equalOrTwo_def Lexer_single_def case_prod_unfold Let_def)

lemma maximal_of_integer: "maximal_of src (lexIntegerLiteral src lx)"
  using integer_kind[of src lx] by (intro maximal_of_other) auto

lemma maximal_of_string: "maximal_of src (lexStringLiteral src start lx)"
  by (intro maximal_of_other) (simp add: string_kind)

lemma maximal_of_single:
  "fixed_spelling k \<noteq> [] \<Longrightarrow> maximal_of src (Lexer_single k start lx, lx)"
  by (intro maximal_of_other) (simp add: Lexer_single_def)

lemma maximal_of_oneOrTwo:
  assumes "fixed_spelling one \<noteq> []" "fixed_spelling two \<noteq> []"
  shows "maximal_of src (Lexer_oneOrTwo src start c two one lx)"
  using oneOrTwo_kind[of src start c two one lx] assms by (intro maximal_of_other) auto

lemma maximal_of_equalOrTwo:
  assumes "fixed_spelling one \<noteq> []" "fixed_spelling two \<noteq> []" "fixed_spelling eq \<noteq> []"
  shows "maximal_of src (Lexer_equalOrTwo src start eq c two one lx)"
  using equalOrTwo_kind[of src start eq c two one lx] assms by (intro maximal_of_other) auto

lemma maximal_lexToken: "maximal_of src (lexToken src lx)"
  unfolding lexToken_def Lexer_advance_eq Let_def case_prod_conv
  by (intro maximal_of_if maximal_of_word maximal_of_integer maximal_of_string
      maximal_of_single maximal_of_oneOrTwo maximal_of_equalOrTwo)
    (simp_all add: maximal_of_other)

section \<open>The loop\<close>

text \<open>Induction along the token loop: the end of the file, or one more token.\<close>

lemma Lexer_loop_induct [consumes 1, case_names eof token]:
  assumes start: "lx_current lx \<le> sf_size src"
    and eof: "\<And>lx. \<lbrakk>lx_current lx \<le> sf_size src;
      Lexer_isAtEnd src (skipWhitespaceAndComments src lx);
      lx_current (skipWhitespaceAndComments src lx) = sf_size src;
      Lexer_loop src lx = ([mk_token EndOfFile (mk_span (sf_size src) (sf_size src))],
        skipWhitespaceAndComments src lx)\<rbrakk> \<Longrightarrow> Q lx"
    and token: "\<And>lx lx1 t lx2. \<lbrakk>lx_current lx \<le> sf_size src; lx1 = skipWhitespaceAndComments src lx;
      \<not> Lexer_isAtEnd src lx1; lexToken src lx1 = (t, lx2); lx_step src lx lx1; lx_step src lx1 lx2;
      lx_current lx1 < lx_current lx2; lx_current lx2 \<le> sf_size src;
      tok_span t = mk_span (lx_current lx1) (lx_current lx2);
      Lexer_loop src lx = (t # fst (Lexer_loop src lx2), snd (Lexer_loop src lx2)); Q lx2\<rbrakk> \<Longrightarrow> Q lx"
  shows "Q lx"
  using start
proof (induction "sf_size src - lx_current lx" arbitrary: lx rule: less_induct)
  case less
  let ?lx1 = "skipWhitespaceAndComments src lx"
  have s1: "lx_step src lx ?lx1" by (rule lx_step_skipWhitespaceAndComments)
  show ?case
  proof (cases "Lexer_isAtEnd src ?lx1")
    case True
    with s1 less.prems have "lx_current ?lx1 = sf_size src"
      by (auto simp: lx_step_def Lexer_isAtEnd_def)
    with True less.prems eof[of lx] show ?thesis by (simp add: Lexer_loop.simps[of src lx] Let_def)
  next
    case False
    obtain t lx2 where t: "lexToken src ?lx1 = (t, lx2)" by fastforce
    note pr = lexToken_progress[OF False t]
    have s2: "lx_step src ?lx1 lx2" using pr by (simp add: lx_step_def)
    have "sf_size src - lx_current lx2 < sf_size src - lx_current lx"
      using pr(1,2) s1 by (auto simp: lx_step_def)
    then have "Q lx2" using less.hyps[of lx2] pr(2) by simp
    then show ?thesis
      using token[OF less.prems refl False t s1 s2] pr False t
      by (simp add: Lexer_loop.simps[of src lx] Let_def case_prod_unfold)
  qed
qed

text \<open>
  The shape of a token stream that starts at byte \<open>p\<close>: non-empty tokens that follow each
  other without overlap, then the end-of-file token at the size of the file.
\<close>

fun stream_from :: "SourceFile \<Rightarrow> nat \<Rightarrow> Token list \<Rightarrow> bool" where
  "stream_from src p [] \<longleftrightarrow> False"
| "stream_from src p [t] \<longleftrightarrow>
     p \<le> sf_size src \<and> t = mk_token EndOfFile (mk_span (sf_size src) (sf_size src))"
| "stream_from src p (t # t' # ts) \<longleftrightarrow>
     p \<le> sp_start (tok_span t) \<and> sp_start (tok_span t) < sp_end (tok_span t) \<and>
     sp_end (tok_span t) \<le> sf_size src \<and> stream_from src (sp_end (tok_span t)) (t' # ts)"

lemma stream_from_Cons:
  "ts \<noteq> [] \<Longrightarrow> stream_from src p (t # ts) \<longleftrightarrow>
     p \<le> sp_start (tok_span t) \<and> sp_start (tok_span t) < sp_end (tok_span t) \<and>
     sp_end (tok_span t) \<le> sf_size src \<and> stream_from src (sp_end (tok_span t)) ts"
  by (cases ts) simp_all

text \<open>The bytes before each token.\<close>

fun gaps :: "SourceFile \<Rightarrow> nat \<Rightarrow> Token list \<Rightarrow> string list" where
  "gaps src p [] = []"
| "gaps src p (t # ts) = slice src (mk_span p (sp_start (tok_span t))) # gaps src (sp_end (tok_span t)) ts"

definition spelling :: "SourceFile \<Rightarrow> Token \<Rightarrow> string" where
  "spelling src t = slice src (tok_span t)"

definition rebuild :: "SourceFile \<Rightarrow> nat \<Rightarrow> Token list \<Rightarrow> string" where
  "rebuild src p ts = concat (map2 (@) (gaps src p ts) (map (spelling src) ts))"

lemma rebuild_Cons:
  "rebuild src p (t # ts) =
     slice src (mk_span p (sp_start (tok_span t))) @ spelling src t @
     rebuild src (sp_end (tok_span t)) ts"
  by (simp add: rebuild_def)

lemma rebuild_Nil [simp]: "rebuild src p [] = []"
  by (simp add: rebuild_def)

lemma stream_from_le: "stream_from src p ts \<Longrightarrow> p \<le> sf_size src"
  by (induction src p ts rule: stream_from.induct) auto

lemma rebuild_stream:
  "stream_from src p ts \<Longrightarrow> rebuild src p ts = slice src (mk_span p (sf_size src))"
proof (induction src p ts rule: stream_from.induct)
  case (2 src p t)
  then show ?case by (simp add: rebuild_Cons spelling_def)
next
  case (3 src p t t' ts)
  have "spelling src t = slice src (mk_span (sp_start (tok_span t)) (sp_end (tok_span t)))"
    by (cases "tok_span t") (simp add: spelling_def)
  moreover have "rebuild src (sp_end (tok_span t)) (t' # ts) =
      slice src (mk_span (sp_end (tok_span t)) (sf_size src))"
    using 3 by simp
  ultimately show ?case
    using 3 slice_append3[of p "sp_start (tok_span t)" "sp_end (tok_span t)" "sf_size src" src]
    by (simp add: rebuild_Cons[of src p] del: stream_from.simps(2))
qed simp

lemma stream_from_last:
  "stream_from src p ts \<Longrightarrow>
    ts \<noteq> [] \<and> last ts = mk_token EndOfFile (mk_span (sf_size src) (sf_size src))"
  by (induction src p ts rule: stream_from.induct) auto

lemma Lexer_loop_nonempty: "lx_current lx \<le> sf_size src \<Longrightarrow> fst (Lexer_loop src lx) \<noteq> []"
  by (induction lx rule: Lexer_loop_induct[where src = src]) simp_all

lemma stream_from_loop:
  "lx_current lx \<le> sf_size src \<Longrightarrow> stream_from src (lx_current lx) (fst (Lexer_loop src lx))"
proof (induction lx rule: Lexer_loop_induct[where src = src])
  case (token lx lx1 t lx2)
  then show ?case
    using Lexer_loop_nonempty[of lx2 src] by (simp add: stream_from_Cons lx_step_def)
qed simp

lemma lx_step_loop: "lx_current lx \<le> sf_size src \<Longrightarrow> lx_step src lx (snd (Lexer_loop src lx))"
proof (induction lx rule: Lexer_loop_induct[where src = src])
  case (eof lx)
  then show ?case by (simp add: lx_step_skipWhitespaceAndComments)
next
  case (token lx lx1 t lx2)
  then show ?case by (auto intro: lx_step_trans)
qed

lemma maximal_loop:
  "\<lbrakk>lx_current lx \<le> sf_size src; t \<in> set (fst (Lexer_loop src lx)); word_kind (tok_kind t);
    sp_end (tok_span t) < sf_size src\<rbrakk> \<Longrightarrow>
    \<not> isIdentifierContinue (sf_text src ! sp_end (tok_span t))"
proof (induction lx rule: Lexer_loop_induct[where src = src])
  case (token lx lx1 t1 lx2)
  then show ?case using maximal_lexToken[of src lx1] by (auto simp: maximal_of_def)
qed simp

text \<open>An error-free run: trivia between the tokens, each token a lexeme of its kind.\<close>

lemma loop_lexemes:
  "\<lbrakk>lx_current lx \<le> sf_size src; \<not> hasErrors (lx_bag (snd (Lexer_loop src lx)))\<rbrakk> \<Longrightarrow>
    list_all trivia (gaps src (lx_current lx) (fst (Lexer_loop src lx))) \<and>
    (\<forall>t \<in> set (butlast (fst (Lexer_loop src lx))).
       tok_kind t \<noteq> EndOfFile \<and> lexeme (tok_kind t) (spelling src t))"
proof (induction lx rule: Lexer_loop_induct[where src = src])
  case (eof lx)
  then show ?case using trivia_skip[of src lx] by simp
next
  case (token lx lx1 t lx2)
  let ?r = "Lexer_loop src lx2"
  have "lx_step src lx2 (snd ?r)" using token by (intro lx_step_loop)
  then have clean: "\<not> hasErrors (lx_bag lx2)" "\<not> hasErrors (lx_bag lx1)"
    using token by (auto simp: lx_step_def dest: bag_ext_hasErrors)
  have lex: "lexeme (tok_kind t) (spelling src t)"
    using lexeme_lexToken[OF token(3)] token(4) clean by (simp add: lexeme_of_def spelling_def)
  moreover have "tok_kind t \<noteq> EndOfFile"
  proof
    assume "tok_kind t = EndOfFile"
    then have "spelling src t = []" using lex by (simp add: lexeme_def reserved_words_def)
    then show False using token slice_nonempty[of "lx_current lx1" "lx_current lx2" src]
      by (simp add: spelling_def)
  qed
  moreover have "trivia (slice src (mk_span (lx_current lx) (lx_current lx1)))"
    using trivia_skip[of src lx] token clean by simp
  ultimately show ?case
    using token Lexer_loop_nonempty[of lx2 src] by simp
qed

end
