(* ===== verification/ParserProps.thy ===== *)
theory ParserProps
  imports Parser LexerStream
begin

text \<open>
  The parser over any token source that ends in its end-of-file token: every routine returns
  within its fuel, moves the cursor forward and never past that token, only adds diagnostics,
  and, as long as no error was reported, builds a tree that spells exactly the tokens it
  consumed, grouped as the precedence table says. The source's contract is a locale; the lexer
  provides it.
\<close>

section \<open>What a routine consumed\<close>

text \<open>The part of a token that a tree keeps: its kind, and its text where the text matters.\<close>

definition tokenKey :: "ParserInput \<Rightarrow> Token \<Rightarrow> TokenKind \<times> string" where
  "tokenKey inp t =
     (tok_kind t,
      if tok_kind t \<in> {Identifier, IntegerLiteral, FloatLiteral, StringLiteral}
      then tokenText inp t else [])"

abbreviation tk :: "TokenKind \<Rightarrow> TokenKind \<times> string" where
  "tk k \<equiv> (k, [])"

definition consumed :: "ParserInput \<Rightarrow> parser \<Rightarrow> parser \<Rightarrow> (TokenKind \<times> string) list" where
  "consumed inp ps ps' =
     map (tokenKey inp) (take (ps_current ps' - ps_current ps) (drop (ps_current ps) (pi_tokens inp)))"

definition ran :: "ParserInput \<Rightarrow> parser \<Rightarrow> (TokenKind \<times> string) list \<Rightarrow> parser \<Rightarrow> bool" where
  "ran inp ps w ps' \<longleftrightarrow>
     ps_current ps \<le> ps_current ps' \<and> ps_current ps' < length (pi_tokens inp) \<and>
     bag_ext (ps_bag ps) (ps_bag ps') \<and>
     (\<not> hasErrors (ps_bag ps') \<longrightarrow> consumed inp ps ps' = w)"

definition remaining :: "ParserInput \<Rightarrow> parser \<Rightarrow> nat" where
  "remaining inp ps = length (pi_tokens inp) - ps_current ps"

definition in_range :: "ParserInput \<Rightarrow> parser \<Rightarrow> bool" where
  "in_range inp ps \<longleftrightarrow> ps_current ps < length (pi_tokens inp)"

lemma consumed_refl [simp]: "consumed inp ps ps = []"
  by (simp add: consumed_def)

lemma consumed_append:
  assumes "ps_current a \<le> ps_current b" "ps_current b \<le> ps_current c"
  shows "consumed inp a b @ consumed inp b c = consumed inp a c"
  using take_drop_append[OF assms, of "pi_tokens inp"] by (simp add: consumed_def flip: map_append)

lemma ran_refl: "in_range inp ps \<Longrightarrow> ran inp ps [] ps"
  by (simp add: ran_def in_range_def)

lemma ran_trans:
  assumes "ran inp a v b" "ran inp b w c"
  shows "ran inp a (v @ w) c"
proof -
  have "hasErrors (ps_bag b) \<Longrightarrow> hasErrors (ps_bag c)"
    using assms by (auto simp: ran_def dest: bag_ext_hasErrors)
  then show ?thesis
    using assms consumed_append[of a b c inp] bag_ext_trans[of "ps_bag a" "ps_bag b" "ps_bag c"]
    by (auto simp: ran_def)
qed

lemma ran_error: "ran inp a v b \<Longrightarrow> ran inp a w (Parser_error sp m b)"
  by (auto simp: ran_def Parser_error_def intro: bag_ext_trans[OF _ bag_ext_error])

lemma ran_any: "ran inp a v b \<Longrightarrow> hasErrors (ps_bag b) \<Longrightarrow> ran inp a w b"
  by (simp add: ran_def)

lemma ran_in_range: "ran inp a v b \<Longrightarrow> in_range inp b"
  by (simp add: ran_def in_range_def)

lemma ran_remaining: "ran inp a v b \<Longrightarrow> remaining inp b \<le> remaining inp a"
  by (auto simp: ran_def remaining_def)

lemma ran_current: "ran inp a v b \<Longrightarrow> ps_current a \<le> ps_current b"
  by (simp add: ran_def)

lemma Parser_error_simps [simp]:
  "ps_current (Parser_error sp m ps) = ps_current ps" "hasErrors (ps_bag (Parser_error sp m ps))"
  "Parser_peek inp (Parser_error sp m ps) k = Parser_peek inp ps k"
  "Parser_isAtEnd inp (Parser_error sp m ps) = Parser_isAtEnd inp ps"
  "in_range inp (Parser_error sp m ps) = in_range inp ps"
  "remaining inp (Parser_error sp m ps) = remaining inp ps"
  by (simp_all add: Parser_error_def Parser_peek_def Parser_isAtEnd_def in_range_def remaining_def)

section \<open>The token source\<close>

locale token_source =
  fixes inp :: ParserInput
  assumes tokens_nonempty: "pi_tokens inp \<noteq> []"
    and tokens_end: "tok_kind (last (pi_tokens inp)) = EndOfFile"
begin

lemma current_Suc:
  assumes "in_range inp ps" "\<not> Parser_isAtEnd inp ps"
  shows "Suc (ps_current ps) < length (pi_tokens inp)"
proof (rule ccontr)
  assume "\<not> ?thesis"
  then have "ps_current ps = length (pi_tokens inp) - 1" using assms by (simp add: in_range_def)
  then show False
    using assms tokens_end tokens_nonempty
    by (simp add: in_range_def Parser_isAtEnd_def Parser_peek_def last_conv_nth Let_def split: if_splits)
qed

lemma advance_more:
  assumes "in_range inp ps" "\<not> Parser_isAtEnd inp ps"
  shows "Parser_advance inp ps = (Parser_peek inp ps 0, ps\<lparr>ps_current := Suc (ps_current ps)\<rparr>)"
  using assms current_Suc[OF assms]
  by (simp add: Parser_advance_def Parser_previous_def Parser_peek_def in_range_def)

lemma advance_ran:
  assumes "in_range inp ps" "\<not> Parser_isAtEnd inp ps"
  shows "ran inp ps [tokenKey inp (Parser_peek inp ps 0)] (snd (Parser_advance inp ps))"
    "ps_current (snd (Parser_advance inp ps)) = Suc (ps_current ps)"
  using current_Suc[OF assms] advance_more[OF assms]
  by (simp_all add: ran_def consumed_def nth_drop_Cons Parser_peek_def)

lemma advance_ran_any: "in_range inp ps \<Longrightarrow> \<exists>w. ran inp ps w (snd (Parser_advance inp ps))"
  using advance_ran[of ps] ran_refl[of inp ps]
  by (cases "Parser_isAtEnd inp ps") (auto simp: Parser_advance_def)

lemma check_ran:
  assumes "in_range inp ps" "Parser_check inp k ps"
  shows "ran inp ps [tokenKey inp (Parser_peek inp ps 0)] (snd (Parser_advance inp ps))"
    "fst (Parser_advance inp ps) = Parser_peek inp ps 0" "tok_kind (Parser_peek inp ps 0) = k"
    "ps_current (snd (Parser_advance inp ps)) = Suc (ps_current ps)"
    "remaining inp (snd (Parser_advance inp ps)) < remaining inp ps"
    "in_range inp (snd (Parser_advance inp ps))"
  using assms advance_ran[of ps] advance_more[of ps] current_Suc[of ps]
  by (auto simp: Parser_check_def remaining_def in_range_def)

lemma expect_ran:
  assumes "in_range inp ps"
  shows "ran inp ps [tokenKey inp (fst (Parser_expect inp k m ps))] (snd (Parser_expect inp k m ps))"
    "tok_kind (fst (Parser_expect inp k m ps)) = k"
  using check_ran[OF assms, of k] ran_error[OF ran_refl[OF assms]]
  by (auto simp: Parser_expect_def)

text \<open>A consumed keyword or punctuation mark leaves no text in its key.\<close>

lemma tokenKey_fixed:
  "tok_kind t = k \<Longrightarrow> k \<notin> {Identifier, IntegerLiteral, FloatLiteral, StringLiteral} \<Longrightarrow>
    tokenKey inp t = tk k"
  by (simp add: tokenKey_def)

lemma expect_fixed:
  assumes "in_range inp ps" "k \<notin> {Identifier, IntegerLiteral, FloatLiteral, StringLiteral}"
  shows "ran inp ps [tk k] (snd (Parser_expect inp k m ps))"
  using expect_ran[OF assms(1), of k m] tokenKey_fixed[OF expect_ran(2)[OF assms(1), of k m] assms(2)]
  by simp

lemma check_fixed:
  assumes "in_range inp ps" "Parser_check inp k ps"
    "k \<notin> {Identifier, IntegerLiteral, FloatLiteral, StringLiteral}"
  shows "ran inp ps [tk k] (snd (Parser_advance inp ps))"
  using check_ran[OF assms(1,2)] tokenKey_fixed[of _ k] assms(3) by simp

lemma Parser_match_cases:
  assumes "in_range inp ps"
  obtains (hit) "Parser_match inp k ps = (True, snd (Parser_advance inp ps))" "Parser_check inp k ps"
  | (miss) "Parser_match inp k ps = (False, ps)" "\<not> Parser_check inp k ps"
  by (cases "Parser_check inp k ps") (auto simp: Parser_match_def)

end

section \<open>Trees and what they spell\<close>

fun commas :: "(TokenKind \<times> string) list list \<Rightarrow> (TokenKind \<times> string) list" where
  "commas [] = []"
| "commas [w] = w"
| "commas (w # ws) = w @ tk Comma # commas ws"

fun expr_keys :: "Expr \<Rightarrow> (TokenKind \<times> string) list" where
  "expr_keys (IntegerLiteralExpr sp raw) = [(IntegerLiteral, raw)]"
| "expr_keys (FloatLiteralExpr sp raw) = [(FloatLiteral, raw)]"
| "expr_keys (BoolLiteralExpr sp v) = [tk (if v then KwTrue else KwFalse)]"
| "expr_keys (StringLiteralExpr sp raw) = [(StringLiteral, raw)]"
| "expr_keys (NameExpr sp name) = [(Identifier, name)]"
| "expr_keys (CallExpr sp callee arguments) =
     expr_keys callee @ tk LeftParen # commas (map expr_keys arguments) @ [tk RightParen]"
| "expr_keys (UnaryExpr sp op operand) = tk op # expr_keys operand"
| "expr_keys (BinaryExpr sp left op right) = expr_keys left @ tk op # expr_keys right"
| "expr_keys (ParenExpr sp inner) = tk LeftParen # expr_keys inner @ [tk RightParen]"
| "expr_keys (ArrayLiteralExpr sp elements) =
     tk LeftBracket # commas (map expr_keys elements) @ [tk RightBracket]"
| "expr_keys (IndexExpr sp base index) =
     expr_keys base @ tk LeftBracket # expr_keys index @ [tk RightBracket]"

text \<open>
  How tightly the top of a tree binds: 1 to 10 for a binary operator, 11 for a prefix operator,
  12 for the rest. \<open>grouped\<close> says that every operand binds as tightly as its place demands:
  binary operators associate to the left, prefix operators bind tighter, postfix forms tightest.
\<close>

fun level :: "Expr \<Rightarrow> nat" where
  "level (BinaryExpr sp left op right) = binaryPrecedence op"
| "level (UnaryExpr sp op operand) = 11"
| "level _ = 12"

fun grouped :: "Expr \<Rightarrow> bool" where
  "grouped (CallExpr sp callee arguments) \<longleftrightarrow>
     grouped callee \<and> level callee = 12 \<and> list_all grouped arguments"
| "grouped (UnaryExpr sp op operand) \<longleftrightarrow>
     op \<in> {Minus, Bang, Tilde, Amp, Star} \<and> grouped operand \<and> level operand \<ge> 11"
| "grouped (BinaryExpr sp left op right) \<longleftrightarrow>
     binaryPrecedence op \<ge> 1 \<and> grouped left \<and> grouped right \<and>
     level left \<ge> binaryPrecedence op \<and> level right > binaryPrecedence op"
| "grouped (ParenExpr sp inner) \<longleftrightarrow> grouped inner"
| "grouped (ArrayLiteralExpr sp elements) \<longleftrightarrow> list_all grouped elements"
| "grouped (IndexExpr sp base index) \<longleftrightarrow> grouped base \<and> level base = 12 \<and> grouped index"
| "grouped _ \<longleftrightarrow> True"

lemma binaryPrecedence_le: "binaryPrecedence k \<le> 10"
  by (cases k) simp_all

lemma binaryPrecedence_operator:
  "binaryPrecedence k \<ge> 1 \<Longrightarrow>
    k \<notin> {Identifier, IntegerLiteral, FloatLiteral, StringLiteral, EndOfFile}"
  by auto

lemma commas_Cons: "commas (w # ws) = w @ (if ws = [] then [] else tk Comma # commas ws)"
  by (cases ws) simp_all

section \<open>Expressions\<close>

text \<open>The contract of each kind of recursive call: what it may assume, what it promises.\<close>

fun task_pre :: "ParserInput \<Rightarrow> expr_task \<Rightarrow> parser \<Rightarrow> bool" where
  "task_pre inp (Task_expr m) ps \<longleftrightarrow> 1 \<le> m \<and> m \<le> 11"
| "task_pre inp (Task_exprLoop m left) ps \<longleftrightarrow>
     1 \<le> m \<and> m \<le> 11 \<and> grouped left \<and> m \<le> level left \<and>
     binaryPrecedence (tok_kind (Parser_peek inp ps 0)) \<le> level left"
| "task_pre inp Task_unary ps \<longleftrightarrow> True"
| "task_pre inp (Task_postfixLoop expr) ps \<longleftrightarrow> grouped expr \<and> level expr = 12"

fun task_prefix :: "expr_task \<Rightarrow> (TokenKind \<times> string) list" where
  "task_prefix (Task_exprLoop m left) = expr_keys left"
| "task_prefix (Task_postfixLoop expr) = expr_keys expr"
| "task_prefix _ = []"

fun task_level :: "ParserInput \<Rightarrow> expr_task \<Rightarrow> Expr \<Rightarrow> parser \<Rightarrow> bool" where
  "task_level inp (Task_expr m) e ps' \<longleftrightarrow>
     m \<le> level e \<and> binaryPrecedence (tok_kind (Parser_peek inp ps' 0)) < m"
| "task_level inp (Task_exprLoop m left) e ps' \<longleftrightarrow>
     m \<le> level e \<and> binaryPrecedence (tok_kind (Parser_peek inp ps' 0)) < m"
| "task_level inp Task_unary e ps' \<longleftrightarrow> 11 \<le> level e"
| "task_level inp (Task_postfixLoop expr) e ps' \<longleftrightarrow> level e = 12"

definition progress :: "ParserInput \<Rightarrow> parser \<Rightarrow> parser \<Rightarrow> bool" where
  "progress inp ps ps' \<longleftrightarrow> Parser_isAtEnd inp ps \<or> ps_current ps < ps_current ps'"

definition task_post ::
    "ParserInput \<Rightarrow> expr_task \<Rightarrow> parser \<Rightarrow> Expr \<times> parser \<Rightarrow> bool" where
  "task_post inp task ps r \<longleftrightarrow>
     (case r of (e, ps') \<Rightarrow>
        (\<exists>w. expr_keys e = task_prefix task @ w \<and> ran inp ps w ps') \<and> grouped e \<and>
        task_level inp task e ps' \<and>
        (task_prefix task = [] \<longrightarrow> progress inp ps ps'))"

definition primary_post :: "ParserInput \<Rightarrow> parser \<Rightarrow> Expr \<times> parser \<Rightarrow> bool" where
  "primary_post inp ps r \<longleftrightarrow>
     (case r of (e, ps') \<Rightarrow>
        ran inp ps (expr_keys e) ps' \<and> grouped e \<and> level e = 12 \<and> progress inp ps ps')"

definition expr_post :: "ParserInput \<Rightarrow> parser \<Rightarrow> Expr \<times> parser \<Rightarrow> bool" where
  "expr_post inp ps r \<longleftrightarrow>
     (case r of (e, ps') \<Rightarrow> ran inp ps (expr_keys e) ps' \<and> grouped e \<and> progress inp ps ps')"

definition rec_ok :: "ParserInput \<Rightarrow> nat \<Rightarrow> expr_rec \<Rightarrow> bool" where
  "rec_ok inp n rec \<longleftrightarrow>
     (\<forall>task ps. in_range inp ps \<longrightarrow> remaining inp ps \<le> n \<longrightarrow> task_pre inp task ps \<longrightarrow>
        wpR (rec task ps) (task_post inp task ps))"

definition list_post :: "ParserInput \<Rightarrow> parser \<Rightarrow> Expr list \<times> parser \<Rightarrow> bool" where
  "list_post inp ps r \<longleftrightarrow>
     (case r of (es, ps') \<Rightarrow>
        (\<exists>w. ran inp ps w ps' \<and> (w = commas (map expr_keys es) \<or> Parser_isAtEnd inp ps')) \<and>
        list_all grouped es)"

text \<open>The loops only stop without an item at the end of the tokens.\<close>

definition items_post :: "ParserInput \<Rightarrow> parser \<Rightarrow> Expr list \<times> parser \<Rightarrow> bool" where
  "items_post inp ps r \<longleftrightarrow> list_post inp ps r \<and> (fst r = [] \<longrightarrow> Parser_isAtEnd inp (snd r))"

definition recs_ok :: "ParserInput \<Rightarrow> nat \<Rightarrow> list_rec \<Rightarrow> bool" where
  "recs_ok inp n recs \<longleftrightarrow>
     (\<forall>task ps. in_range inp ps \<longrightarrow> remaining inp ps \<le> n \<longrightarrow> wpR (recs task ps) (items_post inp ps))"

lemma rec_okD:
  "rec_ok inp n rec \<Longrightarrow> in_range inp ps \<Longrightarrow> remaining inp ps \<le> n \<Longrightarrow> task_pre inp task ps \<Longrightarrow>
    wpR (rec task ps) (task_post inp task ps)"
  by (simp add: rec_ok_def)

lemma recs_okD2:
  "recs_ok inp n recs \<Longrightarrow> in_range inp ps \<Longrightarrow> remaining inp ps \<le> n \<Longrightarrow>
    wpR (recs task ps) (items_post inp ps)"
  by (simp add: recs_ok_def)

lemma recs_okD:
  "recs_ok inp n recs \<Longrightarrow> in_range inp ps \<Longrightarrow> remaining inp ps \<le> n \<Longrightarrow>
    wpR (recs task ps) (list_post inp ps)"
  by (rule wpR_mono[OF recs_okD2]) (auto simp: items_post_def)

lemma expr_keys_nonempty: "expr_keys e \<noteq> []"
  by (cases e) simp_all

context token_source
begin

text \<open>A required token after a run: consumed, or an error; at the end always an error.\<close>

lemma expect_step:
  assumes "ran inp a v b" "k \<notin> {Identifier, IntegerLiteral, FloatLiteral, StringLiteral}"
  shows "ran inp a (v @ [tk k]) (snd (Parser_expect inp k m b))"
  by (rule ran_trans[OF assms(1) expect_fixed[OF ran_in_range[OF assms(1)] assms(2)]])

lemma expect_at_end:
  assumes "ran inp a v b" "Parser_isAtEnd inp b"
  shows "ran inp a w (snd (Parser_expect inp k m b))"
  using ran_error[OF assms(1)] assms(2) by (simp add: Parser_expect_def Parser_check_def)

lemma expect_list:
  assumes "ran inp a v b" "v = w \<or> Parser_isAtEnd inp b"
    "k \<notin> {Identifier, IntegerLiteral, FloatLiteral, StringLiteral}"
  shows "ran inp a (w @ [tk k]) (snd (Parser_expect inp k m b))"
  using expect_step[OF assms(1,3)] expect_at_end[OF assms(1)] assms(2) by auto

lemma check_progress:
  assumes "in_range inp a" "Parser_check inp k a" "ran inp (snd (Parser_advance inp a)) w b"
  shows "progress inp a b"
  using check_ran(4)[OF assms(1,2)] ran_current[OF assms(3)] by (simp add: progress_def)

lemma parseLeaf_post:
  assumes "in_range inp ps" "parseLeaf inp ps = Some (e, ps')"
  shows "ran inp ps (expr_keys e) ps' \<and> grouped e \<and> level e = 12 \<and> progress inp ps ps'"
proof -
  have ps': "ps' = snd (Parser_advance inp ps)"
    using assms(2) by (auto simp: parseLeaf_def Let_def split: if_splits)
  have leaf: "grouped e \<and> level e = 12"
    using assms(2) by (auto simp: parseLeaf_def Let_def split: if_splits)
  have "\<exists>k. Parser_check inp k ps \<and> tokenKey inp (Parser_peek inp ps 0) = hd (expr_keys e) \<and> tl (expr_keys e) = []"
    using assms(2) by (auto simp: parseLeaf_def Let_def tokenKey_def Parser_check_def split: if_splits)
  then obtain k where k: "Parser_check inp k ps" "expr_keys e = [tokenKey inp (Parser_peek inp ps 0)]"
    using expr_keys_nonempty[of e] by (metis list.collapse)
  show ?thesis
    using check_ran(1,4)[OF assms(1) k(1)] k(2) leaf ps' by (simp add: progress_def)
qed

lemma parseErrorExpr_post:
  assumes "in_range inp ps"
  shows "\<exists>sp n. fst (parseErrorExpr inp ps) = NameExpr sp n"
    "ran inp ps w (snd (parseErrorExpr inp ps))" "progress inp ps (snd (parseErrorExpr inp ps))"
proof -
  let ?ps1 = "Parser_error (tok_span (Parser_peek inp ps 0)) ''expected expression'' ps"
  have in1: "in_range inp ?ps1" using assms by simp
  obtain v where v: "ran inp ?ps1 v (snd (Parser_advance inp ?ps1))" using advance_ran_any[OF in1] by blast
  have "hasErrors (ps_bag (snd (Parser_advance inp ?ps1)))"
    using v by (auto simp: ran_def dest: bag_ext_hasErrors)
  then show "ran inp ps w (snd (parseErrorExpr inp ps))"
    using ran_any[OF ran_trans[OF ran_error[OF ran_refl[OF assms]] v]]
    by (simp add: parseErrorExpr_def case_prod_unfold Let_def)
  show "progress inp ps (snd (parseErrorExpr inp ps))"
    using advance_ran(2)[OF in1]
    by (cases "Parser_isAtEnd inp ps") (simp_all add: parseErrorExpr_def case_prod_unfold progress_def Let_def)
qed (simp add: parseErrorExpr_def case_prod_unfold Let_def)

lemma parsePrimaryExpr_post:
  assumes rec: "rec_ok inp n rec" and recs: "recs_ok inp n recs"
    and ps: "in_range inp ps" "remaining inp ps \<le> Suc n"
  shows "wpR (parsePrimaryExpr inp rec recs ps) (primary_post inp ps)"
proof (cases "parseLeaf inp ps")
  case (Some r)
  then show ?thesis
    using parseLeaf_post[OF ps(1)] by (cases r) (simp add: parsePrimaryExpr_def primary_post_def)
next
  case None
  consider (array) "Parser_check inp LeftBracket ps"
    | (paren) "\<not> Parser_check inp LeftBracket ps" "Parser_check inp LeftParen ps"
    | (other) "\<not> Parser_check inp LeftBracket ps" "\<not> Parser_check inp LeftParen ps" by blast
  then show ?thesis
  proof cases
    case array
    let ?ps1 = "snd (Parser_advance inp ps)"
    note adv = check_ran(4-6)[OF ps(1) array]
    have first: "ran inp ps [tk LeftBracket] ?ps1" using check_fixed[OF ps(1) array] by simp
    have elements: "wpR (if Parser_check inp RightBracket ?ps1 then Ok ([], ?ps1)
        else recs Task_elements ?ps1) (list_post inp ?ps1)"
      using recs_okD[OF recs adv(3)] adv(2) ps(2) ran_refl[OF adv(3)]
      by (auto simp: list_post_def)
    have step: "ran inp ps (expr_keys (ArrayLiteralExpr sp es)) (snd (Parser_expect inp RightBracket m ps2))
        \<and> progress inp ps (snd (Parser_expect inp RightBracket m ps2)) \<and> list_all grouped es"
      if r: "list_post inp ?ps1 (es, ps2)" for es ps2 sp m
    proof -
      obtain w where w: "ran inp ?ps1 w ps2" "w = commas (map expr_keys es) \<or> Parser_isAtEnd inp ps2"
        using r by (auto simp: list_post_def)
      have e: "ran inp ?ps1 (commas (map expr_keys es) @ [tk RightBracket])
          (snd (Parser_expect inp RightBracket m ps2))"
        using expect_list[OF w] by simp
      show ?thesis
        using ran_trans[OF first e] check_progress[OF ps(1) array e] r by (simp add: list_post_def)
    qed
    show ?thesis
      unfolding parsePrimaryExpr_def None option.case if_P[OF array] Let_def case_prod_unfold
      by (rule wpR_bindI[OF elements])
        (use step in \<open>auto simp: primary_post_def\<close>)
  next
    case paren
    let ?ps1 = "snd (Parser_advance inp ps)"
    note adv = check_ran(4-6)[OF ps(1) paren(2)]
    have first: "ran inp ps [tk LeftParen] ?ps1" using check_fixed[OF ps(1) paren(2)] by simp
    have inner: "wpR (rec (Task_expr 1) ?ps1) (task_post inp (Task_expr 1) ?ps1)"
      using rec_okD[OF rec adv(3)] adv(2) ps(2) by simp
    have step: "ran inp ps (expr_keys (ParenExpr sp e)) (snd (Parser_expect inp RightParen m ps2))
        \<and> progress inp ps (snd (Parser_expect inp RightParen m ps2)) \<and> grouped e"
      if r: "task_post inp (Task_expr 1) ?ps1 (e, ps2)" for e ps2 sp m
    proof -
      have w: "ran inp ?ps1 (expr_keys e) ps2" "grouped e" using r by (auto simp: task_post_def)
      have e: "ran inp ?ps1 (expr_keys e @ [tk RightParen]) (snd (Parser_expect inp RightParen m ps2))"
        using expect_step[OF w(1)] by simp
      show ?thesis using ran_trans[OF first e] check_progress[OF ps(1) paren(2) e] w by simp
    qed
    show ?thesis
      unfolding parsePrimaryExpr_def None option.case if_not_P[OF paren(1)] if_P[OF paren(2)] Let_def case_prod_unfold
      by (rule wpR_bindI[OF inner]) (use step in \<open>auto simp: primary_post_def\<close>)
  next
    case other
    obtain e ps' where r: "parseErrorExpr inp ps = (e, ps')" by fastforce
    then show ?thesis
      using None other parseErrorExpr_post[OF ps(1)] r
      by (auto simp: parsePrimaryExpr_def primary_post_def)
  qed
qed

lemma parseArgumentList_post:
  assumes "recs_ok inp n recs" "in_range inp ps" "remaining inp ps \<le> n"
  shows "wpR (parseArgumentList inp rec recs ps) (list_post inp ps)"
  using recs_okD[OF assms] ran_refl[OF assms(2)] by (auto simp: parseArgumentList_def list_post_def)

text \<open>One round of the postfix loop: the rest of the run starts from a longer tree.\<close>

lemma postfix_round:
  assumes rec: "rec_ok inp n rec" and first: "ran inp ps w ps1" and less: "remaining inp ps1 \<le> n"
    and e: "grouped e" "level e = 12" and keys: "expr_keys e = expr_keys expr @ w"
  shows "wpR (rec (Task_postfixLoop e) ps1) (task_post inp (Task_postfixLoop expr) ps)"
proof -
  have "wpR (rec (Task_postfixLoop e) ps1) (task_post inp (Task_postfixLoop e) ps1)"
    using rec_okD[OF rec ran_in_range[OF first] less] e by simp
  then show ?thesis
    by (rule wpR_mono) (use keys ran_trans[OF first] expr_keys_nonempty in \<open>fastforce simp: task_post_def\<close>)
qed

lemma parsePostfixLoop_post:
  assumes rec: "rec_ok inp n rec" and recs: "recs_ok inp n recs"
    and ps: "in_range inp ps" "remaining inp ps \<le> Suc n" and expr: "grouped expr" "level expr = 12"
  shows "wpR (parsePostfixLoop inp rec recs expr ps) (task_post inp (Task_postfixLoop expr) ps)"
proof -
  consider (call) "Parser_check inp LeftParen ps"
    | (index) "\<not> Parser_check inp LeftParen ps" "Parser_check inp LeftBracket ps"
    | (stop) "\<not> Parser_check inp LeftParen ps" "\<not> Parser_check inp LeftBracket ps" by blast
  then show ?thesis
  proof cases
    case call
    let ?ps1 = "snd (Parser_advance inp ps)"
    note adv = check_ran(5,6)[OF ps(1) call]
    have first: "ran inp ps [tk LeftParen] ?ps1" using check_fixed[OF ps(1) call] by simp
    have arguments: "wpR (parseArgumentList inp rec recs ?ps1) (list_post inp ?ps1)"
      using parseArgumentList_post[OF recs adv(2)] adv(1) ps(2) by simp
    have step: "wpR (rec (Task_postfixLoop (CallExpr sp expr es)) (snd (Parser_expect inp RightParen m ps2)))
        (task_post inp (Task_postfixLoop expr) ps)"
      if r: "list_post inp ?ps1 (es, ps2)" for es ps2 sp m
    proof -
      obtain w where w: "ran inp ?ps1 w ps2" "w = commas (map expr_keys es) \<or> Parser_isAtEnd inp ps2"
        using r by (auto simp: list_post_def)
      have e: "ran inp ?ps1 (commas (map expr_keys es) @ [tk RightParen])
          (snd (Parser_expect inp RightParen m ps2))"
        using expect_list[OF w] by simp
      show ?thesis
        using postfix_round[OF rec ran_trans[OF first e]] ran_remaining[OF e] adv(1) ps(2) expr r
        by (simp add: list_post_def)
    qed
    show ?thesis
      unfolding parsePostfixLoop_def if_P[OF call] Let_def case_prod_unfold
      by (rule wpR_bindI[OF arguments]) (use step in auto)
  next
    case index
    let ?ps1 = "snd (Parser_advance inp ps)"
    note adv = check_ran(5,6)[OF ps(1) index(2)]
    have first: "ran inp ps [tk LeftBracket] ?ps1" using check_fixed[OF ps(1) index(2)] by simp
    have idx: "wpR (rec (Task_expr 1) ?ps1) (task_post inp (Task_expr 1) ?ps1)"
      using rec_okD[OF rec adv(2)] adv(1) ps(2) by simp
    have step: "wpR (rec (Task_postfixLoop (IndexExpr sp expr e)) (snd (Parser_expect inp RightBracket m ps2)))
        (task_post inp (Task_postfixLoop expr) ps)"
      if r: "task_post inp (Task_expr 1) ?ps1 (e, ps2)" for e ps2 sp m
    proof -
      have w: "ran inp ?ps1 (expr_keys e) ps2" "grouped e" using r by (auto simp: task_post_def)
      have e: "ran inp ?ps1 (expr_keys e @ [tk RightBracket]) (snd (Parser_expect inp RightBracket m ps2))"
        using expect_step[OF w(1)] by simp
      show ?thesis
        using postfix_round[OF rec ran_trans[OF first e]] ran_remaining[OF e] adv(1) ps(2) expr w
        by simp
    qed
    show ?thesis
      unfolding parsePostfixLoop_def if_not_P[OF index(1)] if_P[OF index(2)] Let_def case_prod_unfold
      by (rule wpR_bindI[OF idx]) (use step in auto)
  next
    case stop
    then show ?thesis
      using ran_refl[OF ps(1)] expr expr_keys_nonempty by (simp add: parsePostfixLoop_def task_post_def)
  qed
qed

lemma progress_trans: "progress inp a b \<Longrightarrow> ran inp b w c \<Longrightarrow> progress inp a c"
  by (auto simp: progress_def dest: ran_current)

lemma parsePostfixExpr_post:
  assumes rec: "rec_ok inp n rec" and recs: "recs_ok inp n recs"
    and ps: "in_range inp ps" "remaining inp ps \<le> Suc n"
  shows "wpR (parsePostfixExpr inp rec recs ps) (primary_post inp ps)"
proof -
  have step: "wpR (parsePostfixLoop inp rec recs e ps1) (primary_post inp ps)"
    if r: "primary_post inp ps (e, ps1)" for e ps1
  proof -
    have w: "ran inp ps (expr_keys e) ps1" "grouped e" "level e = 12" "progress inp ps ps1"
      using r by (auto simp: primary_post_def)
    have "remaining inp ps1 \<le> Suc n" using ran_remaining[OF w(1)] ps(2) by simp
    from parsePostfixLoop_post[OF rec recs ran_in_range[OF w(1)] this w(2,3)]
    show ?thesis
      by (rule wpR_mono)
        (use w(4) ran_trans[OF w(1)] progress_trans in \<open>fastforce simp: task_post_def primary_post_def\<close>)
  qed
  show ?thesis
    unfolding parsePostfixExpr_def case_prod_unfold
    by (rule wpR_bindI[OF parsePrimaryExpr_post[OF rec recs ps]]) (use step in auto)
qed

lemma prefix_operator:
  assumes "in_range inp ps" "isPrefixOperator inp ps"
  shows "tok_kind (Parser_peek inp ps 0) \<in> {Minus, Bang, Tilde, Amp, Star}"
    "Parser_check inp (tok_kind (Parser_peek inp ps 0)) ps"
  using assms by (auto simp: isPrefixOperator_def Parser_check_def)

lemma parseUnaryExpr_post:
  assumes rec: "rec_ok inp n rec" and recs: "recs_ok inp n recs"
    and ps: "in_range inp ps" "remaining inp ps \<le> Suc n"
  shows "wpR (parseUnaryExpr inp rec recs ps) (task_post inp Task_unary ps)"
proof (cases "isPrefixOperator inp ps")
  case True
  let ?ps1 = "snd (Parser_advance inp ps)"
  let ?op = "tok_kind (Parser_peek inp ps 0)"
  note op = prefix_operator[OF ps(1) True]
  note adv = check_ran(2,5,6)[OF ps(1) op(2)]
  have first: "ran inp ps [tk ?op] ?ps1" using check_fixed[OF ps(1) op(2)] op(1) by auto
  have operand: "wpR (rec Task_unary ?ps1) (task_post inp Task_unary ?ps1)"
    using rec_okD[OF rec adv(3)] adv(2) ps(2) by simp
  have step: "task_post inp Task_unary ps (UnaryExpr sp (tok_kind (fst (Parser_advance inp ps))) e, ps2)"
    if r: "task_post inp Task_unary ?ps1 (e, ps2)" for sp e ps2
  proof -
    have w: "ran inp ?ps1 (expr_keys e) ps2" "grouped e" "11 \<le> level e"
      using r by (auto simp: task_post_def)
    show ?thesis
      using ran_trans[OF first w(1)] check_progress[OF ps(1) op(2) w(1)] w op(1) adv(1)
      by (auto simp: task_post_def)
  qed
  show ?thesis
    unfolding parseUnaryExpr_def if_P[OF True] Let_def case_prod_unfold
    by (rule wpR_bindI[OF operand]) (use step in auto)
next
  case False
  then show ?thesis
    using parsePostfixExpr_post[OF rec recs ps]
    by (auto simp: parseUnaryExpr_def primary_post_def task_post_def elim!: wpR_mono)
qed

lemma parseExprLoop_post:
  assumes rec: "rec_ok inp n rec"
    and ps: "in_range inp ps" "remaining inp ps \<le> Suc n"
    and left: "task_pre inp (Task_exprLoop m left) ps"
  shows "wpR (parseExprLoop inp rec m left ps) (task_post inp (Task_exprLoop m left) ps)"
proof (cases "binaryPrecedence (tok_kind (Parser_peek inp ps 0)) < m")
  case True
  then show ?thesis
    using ran_refl[OF ps(1)] left expr_keys_nonempty by (auto simp: parseExprLoop_def task_post_def)
next
  case False
  let ?op = "tok_kind (Parser_peek inp ps 0)"
  let ?p = "binaryPrecedence ?op"
  let ?ps1 = "snd (Parser_advance inp ps)"
  have p: "1 \<le> ?p" "?p \<le> 10" "m \<le> ?p" using False left binaryPrecedence_le by auto
  have check: "Parser_check inp ?op ps"
    using binaryPrecedence_operator[OF p(1)] by (simp add: Parser_check_def Parser_isAtEnd_def)
  note adv = check_ran(2,5,6)[OF ps(1) check]
  have first: "ran inp ps [tk ?op] ?ps1"
    using check_fixed[OF ps(1) check] binaryPrecedence_operator[OF p(1)] by simp
  have right: "wpR (rec (Task_expr (?p + 1)) ?ps1) (task_post inp (Task_expr (?p + 1)) ?ps1)"
    using rec_okD[OF rec adv(3)] adv(2) ps(2) p by simp
  have step: "wpR (rec (Task_exprLoop m (BinaryExpr sp left (tok_kind (fst (Parser_advance inp ps))) e)) ps2)
      (task_post inp (Task_exprLoop m left) ps)"
    if r: "task_post inp (Task_expr (?p + 1)) ?ps1 (e, ps2)" for sp e ps2
  proof -
    have w: "ran inp ?ps1 (expr_keys e) ps2" "grouped e" "?p < level e"
      "binaryPrecedence (tok_kind (Parser_peek inp ps2 0)) \<le> ?p"
      using r by (auto simp: task_post_def)
    let ?b = "BinaryExpr sp left ?op e"
    have "task_pre inp (Task_exprLoop m ?b) ps2" using w p left by simp
    moreover have "remaining inp ps2 \<le> n" using ran_remaining[OF w(1)] adv(2) ps(2) by simp
    ultimately have "wpR (rec (Task_exprLoop m ?b) ps2) (task_post inp (Task_exprLoop m ?b) ps2)"
      using rec_okD[OF rec ran_in_range[OF w(1)]] by blast
    then show ?thesis
      unfolding adv(1)
      by (rule wpR_mono)
        (use ran_trans[OF ran_trans[OF first w(1)]] expr_keys_nonempty in \<open>fastforce simp: task_post_def\<close>)
  qed
  show ?thesis
    unfolding parseExprLoop_def Let_def if_not_P[OF False] case_prod_unfold
    by (rule wpR_bindI[OF right]) (use step in auto)
qed

lemma parseExpr_post:
  assumes rec: "rec_ok inp n rec" and recs: "recs_ok inp n recs"
    and ps: "in_range inp ps" "remaining inp ps \<le> Suc n" and m: "1 \<le> m" "m \<le> 11"
  shows "wpR (parseExpr inp rec recs m ps) (task_post inp (Task_expr m) ps)"
proof -
  have step: "wpR (parseExprLoop inp rec m e ps1) (task_post inp (Task_expr m) ps)"
    if r: "task_post inp Task_unary ps (e, ps1)" for e ps1
  proof -
    have w: "ran inp ps (expr_keys e) ps1" "grouped e" "11 \<le> level e" "progress inp ps ps1"
      using r by (auto simp: task_post_def)
    have "binaryPrecedence (tok_kind (Parser_peek inp ps1 0)) \<le> level e"
      using w(3) binaryPrecedence_le[of "tok_kind (Parser_peek inp ps1 0)"] by linarith
    then have pre_ok: "task_pre inp (Task_exprLoop m e) ps1" using w m by simp
    have "remaining inp ps1 \<le> Suc n" using ran_remaining[OF w(1)] ps(2) by simp
    from parseExprLoop_post[OF rec ran_in_range[OF w(1)] this pre_ok]
    show ?thesis
      by (rule wpR_mono)
        (use w(4) ran_trans[OF w(1)] progress_trans in \<open>fastforce simp: task_post_def\<close>)
  qed
  show ?thesis
    unfolding parseExpr_def case_prod_unfold
    by (rule wpR_bindI[OF parseUnaryExpr_post[OF rec recs ps]]) (use step in auto)
qed

lemma list_post_one:
  assumes "task_post inp (Task_expr 1) ps (e, ps1)"
  shows "list_post inp ps ([e], ps1)"
  using assms by (auto simp: task_post_def list_post_def)

lemma list_post_trailing:
  assumes "task_post inp (Task_expr 1) ps (e, ps1)" "Parser_check inp Comma ps1"
  shows "list_post inp ps ([e], Parser_error sp m (snd (Parser_advance inp ps1)))"
proof -
  have w: "ran inp ps (expr_keys e) ps1" "grouped e" using assms by (auto simp: task_post_def)
  have "ran inp ps (expr_keys e @ [tk Comma]) (snd (Parser_advance inp ps1))"
    using ran_trans[OF w(1) check_fixed[OF ran_in_range[OF w(1)] assms(2)]] by simp
  from ran_error[OF this] show ?thesis using w by (auto simp: list_post_def)
qed

lemma list_post_more:
  assumes e: "task_post inp (Task_expr 1) ps (e, ps1)" and c: "Parser_check inp Comma ps1"
    and es: "list_post inp (snd (Parser_advance inp ps1)) (es, ps3)" and ne: "es = [] \<Longrightarrow> Parser_isAtEnd inp ps3"
  shows "list_post inp ps (e # es, ps3)"
proof -
  have w: "ran inp ps (expr_keys e) ps1" "grouped e" using e by (auto simp: task_post_def)
  obtain v where v: "ran inp (snd (Parser_advance inp ps1)) v ps3"
    "v = commas (map expr_keys es) \<or> Parser_isAtEnd inp ps3" "list_all grouped es"
    using es by (auto simp: list_post_def)
  have "ran inp ps ((expr_keys e @ [tk Comma]) @ v) ps3"
    using ran_trans[OF ran_trans[OF w(1) check_fixed[OF ran_in_range[OF w(1)] c]] v(1)] by simp
  then show ?thesis using v w ne by (auto simp: list_post_def commas_Cons intro!: exI)
qed

text \<open>
  A comma-separated list: \<open>more\<close> is the loop's next round, \<open>closing\<close> the token that must not
  follow a comma.
\<close>

lemma list_loop_post:
  assumes rec: "rec_ok inp n rec" and recs: "recs_ok inp n recs"
    and ps: "in_range inp ps" "remaining inp ps \<le> Suc n"
  shows "wpR (bindR (parseExpr inp rec recs 1 ps) (\<lambda>(e, ps1).
      if \<not> Parser_check inp Comma ps1 then Ok ([e], ps1)
      else if Parser_check inp closing (snd (Parser_advance inp ps1)) then
        Ok ([e], Parser_error (sp ps1) m (snd (Parser_advance inp ps1)))
      else bindR (recs task (snd (Parser_advance inp ps1))) (\<lambda>(es, ps3). Ok (e # es, ps3))))
    (items_post inp ps)"
proof (rule wpR_bindI[OF parseExpr_post[OF rec recs ps]])
  fix r assume r: "task_post inp (Task_expr 1) ps r"
  obtain e ps1 where r_eq: "r = (e, ps1)" by fastforce
  have w: "ran inp ps (expr_keys e) ps1" using r r_eq by (auto simp: task_post_def)
  have more: "wpR (recs task (snd (Parser_advance inp ps1)))
      (\<lambda>(es, ps3). items_post inp ps (e # es, ps3))" if c: "Parser_check inp Comma ps1"
  proof -
    note adv = check_ran(5,6)[OF ran_in_range[OF w] c]
    have "remaining inp (snd (Parser_advance inp ps1)) \<le> n"
      using adv(1) ran_remaining[OF w] ps(2) by simp
    from recs_okD2[OF recs adv(2) this] show ?thesis
      by (rule wpR_mono)
        (use list_post_more[OF r[unfolded r_eq] c] in \<open>auto simp: items_post_def\<close>)
  qed
  show "wpR (case r of (e, ps1) \<Rightarrow>
      if \<not> Parser_check inp Comma ps1 then Ok ([e], ps1)
      else if Parser_check inp closing (snd (Parser_advance inp ps1)) then
        Ok ([e], Parser_error (sp ps1) m (snd (Parser_advance inp ps1)))
      else bindR (recs task (snd (Parser_advance inp ps1))) (\<lambda>(es, ps3). Ok (e # es, ps3)))
    (items_post inp ps)"
    using r list_post_one[of ps e ps1] list_post_trailing[of ps e ps1 "sp ps1" m] more
    by (auto simp: r_eq items_post_def case_prod_unfold intro!: wpR_bind)
qed simp_all

lemma parseArrayElements_post:
  assumes "rec_ok inp n rec" "recs_ok inp n recs" "in_range inp ps" "remaining inp ps \<le> Suc n"
  shows "wpR (parseArrayElements inp rec recs ps) (items_post inp ps)"
  unfolding parseArrayElements_def Let_def by (rule list_loop_post[OF assms])

lemma parseArgumentLoop_post:
  assumes "rec_ok inp n rec" "recs_ok inp n recs" "in_range inp ps" "remaining inp ps \<le> Suc n"
  shows "wpR (parseArgumentLoop inp rec recs ps) (items_post inp ps)"
proof (cases "Parser_isAtEnd inp ps")
  case True
  then show ?thesis
    using ran_refl[OF assms(3)] by (auto simp: parseArgumentLoop_def items_post_def list_post_def)
next
  case False
  show ?thesis
    unfolding parseArgumentLoop_def Let_def if_not_P[OF False] by (rule list_loop_post[OF assms])
qed

text \<open>The knot: with fuel for every token, each call keeps its contract.\<close>

lemma run_ok: "rec_ok inp n (runExpr inp n) \<and> recs_ok inp n (runExprs inp n)"
proof (induction n)
  case 0
  show ?case by (auto simp: rec_ok_def recs_ok_def in_range_def remaining_def)
next
  case (Suc n)
  note IH = conjunct1[OF Suc] conjunct2[OF Suc]
  have "wpR (runExpr inp (Suc n) task ps) (task_post inp task ps)"
    if "in_range inp ps" "remaining inp ps \<le> Suc n" "task_pre inp task ps" for task ps
    using that parseExpr_post[OF IH that(1,2)] parseExprLoop_post[OF IH(1) that(1,2)]
      parseUnaryExpr_post[OF IH that(1,2)] parsePostfixLoop_post[OF IH that(1,2)]
    by (cases task) auto
  moreover have "wpR (runExprs inp (Suc n) task ps) (items_post inp ps)"
    if "in_range inp ps" "remaining inp ps \<le> Suc n" for task ps
    using parseArrayElements_post[OF IH that] parseArgumentLoop_post[OF IH that]
    by (cases task) auto
  ultimately show ?case by (simp add: rec_ok_def recs_ok_def)
qed

lemma remaining_fuel: "remaining inp ps \<le> Suc (Parser_fuel inp)"
  by (simp add: remaining_def Parser_fuel_def)

lemma Parser_parseExpr_post:
  assumes "in_range inp ps"
  shows "wpR (Parser_parseExpr inp ps) (expr_post inp ps)"
  using parseExpr_post[OF conjunct1[OF run_ok] conjunct2[OF run_ok] assms remaining_fuel, of 1]
  by (auto simp: Parser_parseExpr_def expr_post_def task_post_def elim!: wpR_mono)

lemma Parser_parseUnaryExpr_post:
  assumes "in_range inp ps"
  shows "wpR (Parser_parseUnaryExpr inp ps) (expr_post inp ps)"
  using parseUnaryExpr_post[OF conjunct1[OF run_ok] conjunct2[OF run_ok] assms remaining_fuel]
  by (auto simp: Parser_parseUnaryExpr_def expr_post_def task_post_def elim!: wpR_mono)

end

section \<open>Types\<close>

text \<open>The grammar of types; a length is a literal that \<open>std::stoull\<close> reads whole, and not zero.\<close>

inductive type_spells :: "TypeSyntax \<Rightarrow> (TokenKind \<times> string) list \<Rightarrow> bool" where
  spells_bool: "ts_kind t = Bool \<Longrightarrow> ts_arrayDimensions t = [] \<Longrightarrow> ts_pointerDepth t = 0 \<Longrightarrow>
    type_spells t [tk KwBool]"
| spells_void: "ts_kind t = Void \<Longrightarrow> ts_arrayDimensions t = [] \<Longrightarrow> ts_pointerDepth t = 0 \<Longrightarrow>
    type_spells t [tk KwVoid]"
| spells_name: "builtinTypeOfText name = ts_kind t \<Longrightarrow> ts_kind t \<noteq> Invalid \<Longrightarrow>
    ts_arrayDimensions t = [] \<Longrightarrow> ts_pointerDepth t = 0 \<Longrightarrow> type_spells t [(Identifier, name)]"
| spells_pointer: "type_spells inner w \<Longrightarrow> ts_kind t = ts_kind inner \<Longrightarrow>
    ts_arrayDimensions t = ts_arrayDimensions inner \<Longrightarrow>
    ts_pointerDepth t = Suc (ts_pointerDepth inner) \<Longrightarrow> type_spells t (tk Star # w)"
| spells_array: "type_spells inner w \<Longrightarrow> ts_kind inner \<notin> {Invalid, Void, Str} \<Longrightarrow>
    stoull0 ds = Ok (n, length ds) \<Longrightarrow> n \<noteq> 0 \<Longrightarrow> ts_kind t = ts_kind inner \<Longrightarrow>
    ts_arrayDimensions t = n # ts_arrayDimensions inner \<Longrightarrow>
    ts_pointerDepth t = ts_pointerDepth inner \<Longrightarrow>
    type_spells t (tk LeftBracket # w @ [tk Semicolon, (IntegerLiteral, ds), tk RightBracket])"

text \<open>
  A result with the words it spells: \<open>spelled inp ps P ps'\<close> says that the run consumed some
  words, and that \<open>P\<close> holds of them unless an error was reported.
\<close>

definition spelled ::
    "ParserInput \<Rightarrow> parser \<Rightarrow> ((TokenKind \<times> string) list \<Rightarrow> bool) \<Rightarrow> parser \<Rightarrow> bool" where
  "spelled inp ps P ps' \<longleftrightarrow>
     (\<exists>w. ran inp ps w ps' \<and> (hasErrors (ps_bag ps') \<or> P w))"

lemma spelledE:
  assumes "spelled inp ps P ps'"
  obtains w where "ran inp ps w ps'" "hasErrors (ps_bag ps') \<or> P w"
  using assms by (auto simp: spelled_def)

lemma ran_hasErrors: "ran inp a w b \<Longrightarrow> hasErrors (ps_bag a) \<Longrightarrow> hasErrors (ps_bag b)"
  by (auto simp: ran_def dest: bag_ext_hasErrors)

lemma spelled_mono: "spelled inp a P b \<Longrightarrow> (\<And>w. P w \<Longrightarrow> Q w) \<Longrightarrow> spelled inp a Q b"
  by (auto simp: spelled_def)

lemma spelled_ran: "ran inp a w b \<Longrightarrow> spelled inp a (\<lambda>v. v = w) b"
  by (auto simp: spelled_def)

lemma spelled_trans:
  assumes "spelled inp a P b" "spelled inp b Q c"
  shows "spelled inp a (\<lambda>w. \<exists>u v. w = u @ v \<and> P u \<and> Q v) c"
proof -
  obtain u v where "ran inp a u b" "hasErrors (ps_bag b) \<or> P u"
    "ran inp b v c" "hasErrors (ps_bag c) \<or> Q v"
    using assms by (auto simp: spelled_def)
  then show ?thesis
    using ran_trans[of inp a u b v c] ran_hasErrors[of inp b v c] by (auto simp: spelled_def)
qed

lemma spelled_errors:
  "ran inp a w b \<Longrightarrow> hasErrors (ps_bag b) \<Longrightarrow> spelled inp a P b"
  by (auto simp: spelled_def)

lemma spelled_in_range: "spelled inp a P b \<Longrightarrow> in_range inp b"
  by (auto simp: spelled_def dest: ran_in_range)

lemma spelled_current: "spelled inp a P b \<Longrightarrow> ps_current a \<le> ps_current b"
  by (auto simp: spelled_def dest: ran_current)

lemma spelled_remaining: "spelled inp a P b \<Longrightarrow> remaining inp b \<le> remaining inp a"
  by (auto simp: spelled_def dest: ran_remaining)

lemma error_spelled: "in_range inp ps \<Longrightarrow> spelled inp ps P (Parser_error sp m ps)"
  using ran_error[OF ran_refl] by (auto intro: spelled_errors)

lemma spelled_error: "spelled inp a P b \<Longrightarrow> spelled inp a Q (Parser_error sp m b)"
  by (auto simp: spelled_def intro: ran_error)

lemma spelled_append:
  assumes "spelled inp a P b" "spelled inp b Q c" "\<And>u v. P u \<Longrightarrow> Q v \<Longrightarrow> R (u @ v)"
  shows "spelled inp a R c"
  using spelled_mono[OF spelled_trans[OF assms(1,2)]] assms(3) by auto

context token_source
begin

lemma expect_spelled:
  assumes "in_range inp ps" "k \<notin> {Identifier, IntegerLiteral, FloatLiteral, StringLiteral}"
  shows "spelled inp ps (\<lambda>w. w = [tk k]) (snd (Parser_expect inp k m ps))"
  by (rule spelled_ran[OF expect_fixed[OF assms]])

lemma expect_text:
  assumes "in_range inp ps" "k \<in> {Identifier, IntegerLiteral, FloatLiteral, StringLiteral}"
  shows "spelled inp ps (\<lambda>w. w = [(k, tokenText inp (fst (Parser_expect inp k m ps)))])
    (snd (Parser_expect inp k m ps))"
  using spelled_ran[OF expect_ran(1)[OF assms(1), of k m]] expect_ran(2)[OF assms(1), of k m] assms(2)
  by (simp add: tokenKey_def)

lemma check_spelled:
  assumes "in_range inp ps" "Parser_check inp k ps"
    "k \<notin> {Identifier, IntegerLiteral, FloatLiteral, StringLiteral}"
  shows "spelled inp ps (\<lambda>w. w = [tk k]) (snd (Parser_advance inp ps))"
  by (rule spelled_ran[OF check_fixed[OF assms]])

lemma parseArrayType_post:
  assumes ps: "in_range inp ps"
  shows "wpR (parseArrayType inp lb inner ps) (\<lambda>(t, ps').
    spelled inp ps (\<lambda>w. \<forall>v. type_spells inner v \<longrightarrow> type_spells t (tk LeftBracket # v @ w)) ps')"
proof -
  let ?e1 = "Parser_expect inp Semicolon ''expected `;` in `[T; N]`'' ps"
  let ?e2 = "Parser_expect inp IntegerLiteral ''expected compile-time array length'' (snd ?e1)"
  let ?e3 = "Parser_expect inp RightBracket ''expected `]` after array length'' (snd ?e2)"
  let ?digits = "tokenText inp (fst ?e2)"
  have s1: "spelled inp ps (\<lambda>w. w = [tk Semicolon]) (snd ?e1)" using expect_spelled[OF ps] by simp
  have s2: "spelled inp (snd ?e1) (\<lambda>w. w = [(IntegerLiteral, ?digits)]) (snd ?e2)"
    using expect_text[OF spelled_in_range[OF s1]] by simp
  have s3: "spelled inp (snd ?e2) (\<lambda>w. w = [tk RightBracket]) (snd ?e3)"
    using expect_spelled[OF spelled_in_range[OF s2]] by simp
  have s: "spelled inp ps (\<lambda>w. w = [tk Semicolon, (IntegerLiteral, ?digits), tk RightBracket]) (snd ?e3)"
    by (rule spelled_append[OF s1 spelled_append[OF s2 s3]]) auto
  show ?thesis
  proof (cases "stoull0 ?digits")
    case (Ok r)
    obtain n k where r: "r = (n, k)" by fastforce
    have "spelled inp ps (\<lambda>w. \<forall>v. type_spells inner v \<longrightarrow> type_spells t (tk LeftBracket # v @ w)) (snd ?e3)"
      if "k = length ?digits" "n \<noteq> 0" "ts_kind inner \<notin> {Invalid, Void, Str}"
        "ts_kind t = ts_kind inner" "ts_arrayDimensions t = n # ts_arrayDimensions inner"
        "ts_pointerDepth t = ts_pointerDepth inner" for t
      by (rule spelled_mono[OF s]) (use that Ok r in \<open>auto intro!: spells_array\<close>)
    then show ?thesis
      using Ok r s by (auto simp: parseArrayType_def Let_def case_prod_unfold intro: spelled_error)
  qed (simp_all add: parseArrayType_def Let_def case_prod_unfold)
qed

lemma builtinTypeKind_spells:
  assumes "builtinTypeKind inp t \<noteq> Invalid" "ts_kind ty = builtinTypeKind inp t"
    "ts_arrayDimensions ty = []" "ts_pointerDepth ty = 0"
  shows "type_spells ty [tokenKey inp t]"
  using assms
  by (auto simp: builtinTypeKind_def tokenKey_def split: if_splits
      intro: spells_bool spells_void spells_name)

text \<open>
  At the end of the file \<open>advance\<close> returns the token before it once more; \<open>parseType\<close> is only
  reached after a token that is no type name, or after an error.
\<close>

lemma previous_check:
  assumes "in_range inp ps" "Parser_check inp k ps"
  shows "tok_kind (Parser_previous inp (snd (Parser_advance inp ps))) = k"
  using advance_more[OF assms(1)] check_ran(2,3)[OF assms] assms
  by (auto simp: Parser_check_def Parser_advance_def Let_def)

lemma previous_expect:
  assumes "in_range inp ps"
  shows "hasErrors (ps_bag (snd (Parser_expect inp k m ps))) \<or>
    tok_kind (Parser_previous inp (snd (Parser_expect inp k m ps))) = k"
  using previous_check[OF assms] by (auto simp: Parser_expect_def)

end

definition type_post :: "ParserInput \<Rightarrow> parser \<Rightarrow> TypeSyntax \<times> parser \<Rightarrow> bool" where
  "type_post inp ps r \<longleftrightarrow> (case r of (t, ps') \<Rightarrow> spelled inp ps (type_spells t) ps')"

definition type_ready :: "ParserInput \<Rightarrow> parser \<Rightarrow> bool" where
  "type_ready inp ps \<longleftrightarrow>
     hasErrors (ps_bag ps) \<or> tok_kind (Parser_previous inp ps) \<notin> {Identifier, KwBool, KwVoid}"

context token_source
begin

lemma type_ready_expect:
  assumes "in_range inp ps" "k \<notin> {Identifier, KwBool, KwVoid}"
  shows "type_ready inp (snd (Parser_expect inp k m ps))"
  using previous_expect[OF assms(1), of k m] assms(2) by (auto simp: type_ready_def)

lemma type_ready_check:
  assumes "in_range inp ps" "Parser_check inp k ps" "k \<notin> {Identifier, KwBool, KwVoid}"
  shows "type_ready inp (snd (Parser_advance inp ps))"
  using previous_check[OF assms(1,2)] assms(3) by (simp add: type_ready_def)

lemma parseScalarType_post:
  assumes "in_range inp ps" "type_ready inp ps"
  shows "spelled inp ps (type_spells (fst (parseScalarType inp ps))) (snd (parseScalarType inp ps))"
proof (cases "Parser_isAtEnd inp ps")
  case True
  have adv: "Parser_advance inp ps = (Parser_previous inp ps, ps)" using True by (simp add: Parser_advance_def)
  show ?thesis
  proof (cases "builtinTypeKind inp (Parser_previous inp ps) = Invalid")
    case True
    then show ?thesis using adv error_spelled[OF assms(1)] by (simp add: parseScalarType_def)
  next
    case False
    then have "hasErrors (ps_bag ps)"
      using assms(2) by (auto simp: type_ready_def builtinTypeKind_def split: if_splits)
    then show ?thesis
      using False adv spelled_errors[OF ran_refl[OF assms(1)]] by (simp add: parseScalarType_def)
  qed
next
  case False
  note adv = advance_more[OF assms(1) False]
  have s: "spelled inp ps (\<lambda>w. w = [tokenKey inp (Parser_peek inp ps 0)]) (snd (Parser_advance inp ps))"
    by (rule spelled_ran[OF advance_ran(1)[OF assms(1) False]])
  have "spelled inp ps (type_spells ty) (snd (Parser_advance inp ps))"
    if "builtinTypeKind inp (Parser_peek inp ps 0) \<noteq> Invalid"
      "ts_kind ty = builtinTypeKind inp (Parser_peek inp ps 0)"
      "ts_arrayDimensions ty = []" "ts_pointerDepth ty = 0" for ty
    by (rule spelled_mono[OF s]) (simp add: builtinTypeKind_spells that)
  then show ?thesis
    using adv spelled_error[OF s] by (simp add: parseScalarType_def Let_def)
qed

lemma parseType_post:
  "\<lbrakk>in_range inp ps; remaining inp ps \<le> n; type_ready inp ps\<rbrakk> \<Longrightarrow>
    wpR (parseType inp n ps) (\<lambda>(t, ps'). spelled inp ps (type_spells t) ps')"
proof (induction n arbitrary: ps)
  case 0
  then show ?case by (simp add: in_range_def remaining_def)
next
  case (Suc n)
  consider (star) "Parser_check inp Star ps"
    | (array) "\<not> Parser_check inp Star ps" "Parser_check inp LeftBracket ps"
    | (scalar) "\<not> Parser_check inp Star ps" "\<not> Parser_check inp LeftBracket ps" by blast
  then show ?case
  proof cases
    case star
    let ?ps1 = "snd (Parser_advance inp ps)"
    note adv = check_ran(5,6)[OF Suc.prems(1) star]
    have first: "spelled inp ps (\<lambda>w. w = [tk Star]) ?ps1" using check_spelled[OF Suc.prems(1) star] by simp
    have inner: "wpR (parseType inp n ?ps1) (\<lambda>(t, ps'). spelled inp ?ps1 (type_spells t) ps')"
      using Suc.IH[OF adv(2)] adv(1) Suc.prems type_ready_check[OF Suc.prems(1) star] by simp
    have "spelled inp ps (type_spells (t\<lparr>ts_pointerDepth := ts_pointerDepth t + 1, ts_span := sp\<rparr>)) ps2"
      if "spelled inp ?ps1 (type_spells t) ps2" for t ps2 sp
      by (rule spelled_append[OF first that]) (auto intro: spells_pointer)
    then show ?thesis
      unfolding parseType.simps if_P[OF star] Let_def case_prod_unfold
      by (intro wpR_bindI[OF inner[unfolded case_prod_unfold]]) auto
  next
    case array
    let ?ps1 = "snd (Parser_advance inp ps)"
    note adv = check_ran(5,6)[OF Suc.prems(1) array(2)]
    have first: "spelled inp ps (\<lambda>w. w = [tk LeftBracket]) ?ps1"
      using check_spelled[OF Suc.prems(1) array(2)] by simp
    have inner: "wpR (parseType inp n ?ps1) (\<lambda>(t, ps'). spelled inp ?ps1 (type_spells t) ps')"
      using Suc.IH[OF adv(2)] adv(1) Suc.prems type_ready_check[OF Suc.prems(1) array(2)] by simp
    have step: "wpR (parseArrayType inp lb t ps2) (\<lambda>(t, ps'). spelled inp ps (type_spells t) ps')"
      if t: "spelled inp ?ps1 (type_spells t) ps2" for t ps2 lb
    proof (rule wpR_mono[OF parseArrayType_post[OF spelled_in_range[OF t]]])
      fix r assume "case r of (t', ps') \<Rightarrow>
        spelled inp ps2 (\<lambda>w. \<forall>v. type_spells t v \<longrightarrow> type_spells t' (tk LeftBracket # v @ w)) ps'"
      then show "case r of (t', ps') \<Rightarrow> spelled inp ps (type_spells t') ps'"
        using spelled_append[OF first spelled_append[OF t]]
        by (cases r) (auto intro: spelled_append[OF first spelled_append[OF t,
            where R = "\<lambda>w. type_spells (fst r) (tk LeftBracket # w)"]])
    qed
    show ?thesis
      unfolding parseType.simps if_not_P[OF array(1)] if_P[OF array(2)] Let_def
      by (subst case_prod_unfold) (rule wpR_bindI[OF inner], use step in auto)
  next
    case scalar
    then show ?thesis
      using parseScalarType_post[OF Suc.prems(1,3)] by (simp add: case_prod_unfold)
  qed
qed

lemma Parser_parseType_post:
  assumes "in_range inp ps" "type_ready inp ps"
  shows "wpR (Parser_parseType inp ps) (type_post inp ps)"
  using parseType_post[OF assms(1) _ assms(2), of "Parser_fuel inp"]
  by (simp add: Parser_parseType_def Parser_fuel_def remaining_def type_post_def[abs_def])

end

end
