(* ===== verification/ParserStmtProps.thy ===== *)
theory ParserStmtProps
  imports ParserProps
begin

text \<open>
  The parser's contract for statements, items and the whole file, on top of the one for
  expressions and types (theory \<open>ParserProps\<close>): the grammar of statements as a relation between
  trees and token keys, and for every routine that it returns within its fuel and spells what
  it consumed.
\<close>

section \<open>The grammar of simple statements\<close>

definition let_type :: "TypeSyntax \<Rightarrow> (TokenKind \<times> string) list \<Rightarrow> bool" where
  "let_type t w \<longleftrightarrow>
     (w = [] \<and> \<not> hasExplicitTypeSyntax t) \<or> (\<exists>v. w = tk Colon # v \<and> type_spells t v)"

definition let_init :: "bool \<Rightarrow> Expr option \<Rightarrow> (TokenKind \<times> string) list \<Rightarrow> bool" where
  "let_init isMutable init w \<longleftrightarrow>
     (init = None \<and> isMutable \<and> w = []) \<or>
     (\<exists>e. init = Some e \<and> grouped e \<and> w = tk Equal # expr_keys e)"

fun simple_spells :: "Stmt \<Rightarrow> (TokenKind \<times> string) list \<Rightarrow> bool" where
  "simple_spells (LetStmt sp isMutable name nameSpan type init) w \<longleftrightarrow>
     (\<exists>tw iw. w = tk KwLet # (if isMutable then [tk KwMut] else []) @ (Identifier, name) # tw @ iw @
                 [tk Semicolon] \<and> let_type type tw \<and> let_init isMutable init iw)"
| "simple_spells (AssignStmt sp target v) w \<longleftrightarrow>
     isPlace target \<and> grouped target \<and> grouped v \<and>
     w = expr_keys target @ tk Equal # expr_keys v @ [tk Semicolon]"
| "simple_spells (CallStmt sp callSpan callee arguments) w \<longleftrightarrow>
     grouped (CallExpr callSpan callee arguments) \<and>
     w = expr_keys (CallExpr callSpan callee arguments) @ [tk Semicolon]"
| "simple_spells (ReturnStmt sp v) w \<longleftrightarrow>
     (case v of None \<Rightarrow> w = [tk KwReturn, tk Semicolon]
      | Some e \<Rightarrow> grouped e \<and> w = tk KwReturn # expr_keys e @ [tk Semicolon])"
| "simple_spells (BreakStmt sp) w \<longleftrightarrow> w = [tk KwBreak, tk Semicolon]"
| "simple_spells (ContinueStmt sp) w \<longleftrightarrow> w = [tk KwContinue, tk Semicolon]"
| "simple_spells _ w \<longleftrightarrow> False"

fun expression_stmt :: "Stmt \<Rightarrow> bool" where
  "expression_stmt (AssignStmt sp target v) = True"
| "expression_stmt (CallStmt sp callSpan callee arguments) = True"
| "expression_stmt _ = False"

definition simple_post :: "ParserInput \<Rightarrow> parser \<Rightarrow> Stmt \<times> parser \<Rightarrow> bool" where
  "simple_post inp ps r \<longleftrightarrow>
     (case r of (s, ps') \<Rightarrow> spelled inp ps (simple_spells s) ps' \<and> ps_current ps < ps_current ps')"

fun is_let :: "Stmt \<Rightarrow> bool" where
  "is_let (LetStmt sp isMutable name nameSpan type init) = True"
| "is_let _ = False"

definition let_post :: "ParserInput \<Rightarrow> parser \<Rightarrow> Stmt \<times> parser \<Rightarrow> bool" where
  "let_post inp ps r \<longleftrightarrow> simple_post inp ps r \<and> is_let (fst r)"

definition option_post :: "ParserInput \<Rightarrow> parser \<Rightarrow> Stmt option \<times> parser \<Rightarrow> bool" where
  "option_post inp ps r \<longleftrightarrow>
     (case r of (so, ps') \<Rightarrow>
        spelled inp ps (\<lambda>w. \<exists>s. so = Some s \<and> simple_spells s w \<and> expression_stmt s) ps' \<and>
        progress inp ps ps')"

section \<open>Rules for a run\<close>

text \<open>
  \<open>reached inp a P s b\<close>: the run that started in \<open>a\<close> is now in \<open>b\<close>, has consumed words with
  \<open>P\<close> (unless an error was reported), and, when \<open>s\<close>, at least one. Each rule below takes
  the run through one step of a routine; the routine's proof is the sequence of its steps.
\<close>

definition reached ::
    "ParserInput \<Rightarrow> parser \<Rightarrow> ((TokenKind \<times> string) list \<Rightarrow> bool) \<Rightarrow> bool \<Rightarrow> parser \<Rightarrow> bool" where
  "reached inp a P s b \<longleftrightarrow> spelled inp a P b \<and> (s \<longrightarrow> ps_current a < ps_current b)"

definition plain :: "TokenKind \<Rightarrow> bool" where
  "plain k \<longleftrightarrow> k \<notin> {Identifier, IntegerLiteral, FloatLiteral, StringLiteral, KwBool, KwVoid}"

lemma plain_simps [simp]:
  "plain KwLet" "plain KwReturn" "plain KwBreak" "plain KwContinue" "plain KwIf" "plain KwElse"
  "plain KwWhile" "plain KwFor" "plain KwMut" "plain KwFn" "plain KwConst" "plain Semicolon"
  "plain Colon" "plain Comma" "plain Equal" "plain Arrow" "plain LeftParen" "plain RightParen"
  "plain LeftBrace" "plain RightBrace"
  by (simp_all add: plain_def)

abbreviation followed ::
    "((TokenKind \<times> string) list \<Rightarrow> bool) \<Rightarrow> (TokenKind \<times> string) list \<Rightarrow> (TokenKind \<times> string) list \<Rightarrow> bool" where
  "followed P v \<equiv> \<lambda>w. \<exists>u. w = u @ v \<and> P u"

lemma reached_mono: "reached inp a P s b \<Longrightarrow> (\<And>w. P w \<Longrightarrow> Q w) \<Longrightarrow> reached inp a Q s b"
  by (auto simp: reached_def intro: spelled_mono)

lemma reached_append:
  assumes "reached inp a P s b" "spelled inp b Q c" "\<And>u v. P u \<Longrightarrow> Q v \<Longrightarrow> R (u @ v)"
  shows "reached inp a R s c"
  using assms spelled_append[OF _ assms(2), of a P R] spelled_current[OF assms(2)]
  by (auto simp: reached_def)

lemma reached_followed:
  "reached inp a P s b \<Longrightarrow> spelled inp b (\<lambda>v. v = w) c \<Longrightarrow> reached inp a (followed P w) s c"
  using reached_append[of inp a P s b "\<lambda>v. v = w" c "followed P w"] by blast

lemma reached_error: "reached inp a P s b \<Longrightarrow> reached inp a Q s (Parser_error sp m b)"
  by (auto simp: reached_def intro: spelled_error)

lemma reached_in_range: "reached inp a P s b \<Longrightarrow> in_range inp b"
  by (auto simp: reached_def dest: spelled_in_range)

lemma reached_remaining: "reached inp a P s b \<Longrightarrow> remaining inp b \<le> remaining inp a"
  by (auto simp: reached_def dest: spelled_remaining)

lemma reached_strict: "reached inp a P True b \<Longrightarrow> remaining inp b < remaining inp a"
  using spelled_in_range[of inp a P b]
  by (auto simp: reached_def remaining_def in_range_def)

lemma reached_start: "in_range inp a \<Longrightarrow> reached inp a (\<lambda>w. w = []) False a"
  by (simp add: reached_def spelled_ran[OF ran_refl])

context token_source
begin

lemma step_expect:
  assumes "reached inp a P s b" "plain k"
    "\<And>t c. \<lbrakk>reached inp a (followed P [tk k]) s c; type_ready inp c\<rbrakk> \<Longrightarrow> wpR (f (t, c)) Q"
  shows "wpR (Let (Parser_expect inp k m b) f) Q"
proof -
  obtain t c where e: "Parser_expect inp k m b = (t, c)" by fastforce
  have "spelled inp b (\<lambda>v. v = [tk k]) c"
    using expect_spelled[OF reached_in_range[OF assms(1)], of k m] assms(2) e by (simp add: plain_def)
  moreover have "type_ready inp c"
    using type_ready_expect[OF reached_in_range[OF assms(1)], of k m] assms(2) e by (simp add: plain_def)
  ultimately show ?thesis using assms(3)[OF reached_followed[OF assms(1)]] e by simp
qed

lemma step_expect_snd:
  assumes "reached inp a P s b" "plain k"
    "\<And>c. \<lbrakk>reached inp a (followed P [tk k]) s c; type_ready inp c\<rbrakk> \<Longrightarrow> wpR (f c) Q"
  shows "wpR (Let (snd (Parser_expect inp k m b)) f) Q"
  using step_expect[OF assms(1,2), of "\<lambda>(t, c). f c" Q m] assms(3) by (simp add: Let_def case_prod_unfold)

lemma step_text:
  assumes "reached inp a P s b"
    "\<And>t c. reached inp a (followed P [(Identifier, tokenText inp t)]) s c \<Longrightarrow> wpR (f (t, c)) Q"
  shows "wpR (Let (Parser_expect inp Identifier m b) f) Q"
proof -
  obtain t c where e: "Parser_expect inp Identifier m b = (t, c)" by fastforce
  have "spelled inp b (\<lambda>v. v = [(Identifier, tokenText inp t)]) c"
    using expect_text[OF reached_in_range[OF assms(1)], of Identifier m] e by simp
  then show ?thesis using assms(2)[OF reached_followed[OF assms(1)]] e by simp
qed

text \<open>A keyword that was looked at before the routine was entered.\<close>

lemma step_keyword:
  assumes "in_range inp a" "Parser_check inp k a" "plain k"
    "\<And>t c. reached inp a (\<lambda>w. w = [tk k]) True c \<Longrightarrow> wpR (f (t, c)) Q"
  shows "wpR (Let (Parser_expect inp k m a) f) Q"
proof -
  have "Parser_expect inp k m a = Parser_advance inp a" using assms(2) by (simp add: Parser_expect_def)
  moreover have "reached inp a (\<lambda>w. w = [tk k]) True (snd (Parser_advance inp a))"
    using check_spelled[OF assms(1,2)] check_ran(4)[OF assms(1,2)] assms(3)
    by (simp add: reached_def plain_def)
  ultimately show ?thesis
    using assms(4)[of "snd (Parser_advance inp a)" "fst (Parser_advance inp a)"] by simp
qed

lemma reached_advance:
  assumes "reached inp a P s b" "Parser_check inp k b" "plain k"
  shows "reached inp a (followed P [tk k]) s (snd (Parser_advance inp b))"
    "type_ready inp (snd (Parser_advance inp b))"
  using reached_followed[OF assms(1) check_spelled[OF reached_in_range[OF assms(1)] assms(2)]]
    type_ready_check[OF reached_in_range[OF assms(1)] assms(2)] assms(3)
  by (simp_all add: plain_def)

lemma step_advance:
  assumes "Parser_check inp k b" "reached inp a P s b" "plain k"
    "\<And>t c. reached inp a (followed P [tk k]) s c \<Longrightarrow> wpR (f (t, c)) Q"
  shows "wpR (Let (Parser_advance inp b) f) Q"
  using assms(4)[OF reached_advance(1)[OF assms(2,1,3)], of "fst (Parser_advance inp b)"] by simp

lemma step_advance_snd:
  assumes "Parser_check inp k b" "reached inp a P s b" "plain k"
    "\<And>c. reached inp a (followed P [tk k]) s c \<Longrightarrow> wpR (f c) Q"
  shows "wpR (Let (snd (Parser_advance inp b)) f) Q"
  using assms(4)[OF reached_advance(1)[OF assms(2,1,3)]] by simp

lemma step_match:
  assumes "reached inp a P s b" "plain k"
    "\<And>c. \<lbrakk>reached inp a (followed P [tk k]) s c; type_ready inp c\<rbrakk> \<Longrightarrow> wpR (f (True, c)) Q"
    "\<lbrakk>reached inp a P s b; \<not> Parser_check inp k b\<rbrakk> \<Longrightarrow> wpR (f (False, b)) Q"
  shows "wpR (Let (Parser_match inp k b) f) Q"
  using reached_advance[OF assms(1) _ assms(2)] assms by (auto simp: Parser_match_def Let_def)

lemma step_expr:
  assumes "reached inp a P s b"
    "\<And>e c. reached inp a (\<lambda>w. \<exists>u. w = u @ expr_keys e \<and> P u \<and> grouped e) s c \<Longrightarrow> wpR (f (e, c)) Q"
  shows "wpR (bindR (Parser_parseExpr inp b) f) Q"
proof (rule wpR_bindI[OF Parser_parseExpr_post[OF reached_in_range[OF assms(1)]]])
  fix r assume r: "expr_post inp b r"
  obtain e c where "r = (e, c)" by fastforce
  with r show "wpR (f r) Q"
    using assms(2)[of e c] reached_append[OF assms(1) spelled_ran, of "expr_keys e" c]
    by (auto simp: expr_post_def)
qed

lemma step_unary:
  assumes "in_range inp a"
    "\<And>e c. reached inp a (\<lambda>w. w = expr_keys e \<and> grouped e) (\<not> Parser_isAtEnd inp a) c \<Longrightarrow>
      wpR (f (e, c)) Q"
  shows "wpR (bindR (Parser_parseUnaryExpr inp a) f) Q"
proof (rule wpR_bindI[OF Parser_parseUnaryExpr_post[OF assms(1)]])
  fix r assume r: "expr_post inp a r"
  obtain e c where "r = (e, c)" by fastforce
  with r show "wpR (f r) Q"
    using assms(2)[of e c]
    by (auto simp: expr_post_def reached_def progress_def spelled_def)
qed

lemma step_type:
  assumes "type_ready inp b" "reached inp a P s b"
    "\<And>t c. reached inp a (\<lambda>w. \<exists>u v. w = u @ v \<and> P u \<and> type_spells t v) s c \<Longrightarrow> wpR (f (t, c)) Q"
  shows "wpR (bindR (Parser_parseType inp b) f) Q"
proof (rule wpR_bindI[OF Parser_parseType_post[OF reached_in_range[OF assms(2)] assms(1)]])
  fix r assume r: "type_post inp b r"
  obtain t c where "r = (t, c)" by fastforce
  with r show "wpR (f r) Q"
    using assms(3)[of t c] reached_append[OF assms(2), of "type_spells t" c
        "\<lambda>w. \<exists>u v. w = u @ v \<and> P u \<and> type_spells t v"]
    by (auto simp: type_post_def)
qed

end

section \<open>Simple statements\<close>

lemma simple_postI:
  "reached inp ps P True c \<Longrightarrow> (\<And>w. P w \<Longrightarrow> simple_spells s w) \<Longrightarrow> wpR (Ok (s, c)) (simple_post inp ps)"
  by (auto simp: reached_def simple_post_def intro: spelled_mono)

lemma let_postI:
  "reached inp ps P True c \<Longrightarrow> is_let s \<and> (\<forall>w. P w \<longrightarrow> simple_spells s w) \<Longrightarrow>
    wpR (Ok (s, c)) (let_post inp ps)"
  using simple_postI[of inp ps P c s] by (simp add: let_post_def)

lemma option_postI:
  "reached inp ps P (\<not> Parser_isAtEnd inp ps) c \<Longrightarrow>
    (\<And>w. P w \<Longrightarrow> \<exists>s. so = Some s \<and> simple_spells s w \<and> expression_stmt s) \<Longrightarrow>
    wpR (Ok (so, c)) (option_post inp ps)"
  by (auto simp: reached_def option_post_def progress_def intro: spelled_mono)

lemma step_call:
  assumes "wpR m Q" "\<And>sp callee arguments. e = CallExpr sp callee arguments \<Longrightarrow> wpR (f sp callee arguments) Q"
  shows "wpR (case asCall e of None \<Rightarrow> m | Some (sp, callee, arguments) \<Rightarrow> f sp callee arguments) Q"
  using assms by (cases e) simp_all

lemma reached_False: "reached inp a P s b \<Longrightarrow> reached inp a (\<lambda>_. False) s (Parser_error sp m b)"
  by (rule reached_error)

context token_source
begin

lemma parseBreakStmt_post:
  assumes "in_range inp ps" "Parser_check inp KwBreak ps"
  shows "wpR (Ok (parseBreakStmt inp ps)) (simple_post inp ps)"
proof -
  have "wpR (let (keyword, ps1) = Parser_expect inp KwBreak ''expected `break`'' ps;
      (semicolon, ps2) = Parser_expect inp Semicolon ''expected `;` after `break`'' ps1
    in Ok (BreakStmt (span_to keyword semicolon), ps2)) (simple_post inp ps)"
    by (rule step_keyword[OF assms], simp, simp only: case_prod_conv, erule step_expect, simp,
        simp only: case_prod_conv, erule simple_postI, simp)
  then show ?thesis by (simp add: parseBreakStmt_def Let_def case_prod_unfold)
qed

lemma parseContinueStmt_post:
  assumes "in_range inp ps" "Parser_check inp KwContinue ps"
  shows "wpR (Ok (parseContinueStmt inp ps)) (simple_post inp ps)"
proof -
  have "wpR (let (keyword, ps1) = Parser_expect inp KwContinue ''expected `continue`'' ps;
      (semicolon, ps2) = Parser_expect inp Semicolon ''expected `;` after `continue`'' ps1
    in Ok (ContinueStmt (span_to keyword semicolon), ps2)) (simple_post inp ps)"
    by (rule step_keyword[OF assms], simp, simp only: case_prod_conv, erule step_expect, simp,
        simp only: case_prod_conv, erule simple_postI, simp)
  then show ?thesis by (simp add: parseContinueStmt_def Let_def case_prod_unfold)
qed

lemma parseReturnStmt_post:
  assumes "in_range inp ps" "Parser_check inp KwReturn ps"
  shows "wpR (parseReturnStmt inp ps) (simple_post inp ps)"
  unfolding parseReturnStmt_def
  by (rule step_keyword[OF assms], simp, simp only: case_prod_conv, rule wpR_if,
      erule (1) step_advance, simp, simp only: case_prod_conv, erule simple_postI, simp,
      erule step_expr, simp only: case_prod_conv, erule step_expect, simp, simp only: case_prod_conv,
      erule simple_postI, auto)

text \<open>The second half of \<open>parseLetStmt\<close>: the initializer and the semicolon.\<close>

lemma let_rest:
  assumes "reached inp ps (\<lambda>w. \<exists>tw. w = tk KwLet # (if isMutable then [tk KwMut] else []) @
      (Identifier, name) # tw \<and> let_type type tw) True ps5"
  shows "wpR (let (assigned, ps6) = Parser_match inp Equal ps5
         in bindR (if assigned then bindR (Parser_parseExpr inp ps6) (\<lambda>(e, ps7). Ok (Some e, ps7))
                   else Ok (None,
                     if \<not> isMutable then Parser_error (tok_span (Parser_peek inp ps6 0)) m ps6
                     else ps6)) (\<lambda>(init, ps8).
            let (semicolon, ps9) = Parser_expect inp Semicolon m' ps8
            in Ok (LetStmt (span_to keyword semicolon) isMutable name sp type init, ps9)))
    (let_post inp ps)"
  apply (rule step_match[OF assms], simp)
   apply (simp only: case_prod_conv if_True bindR_assoc, erule step_expr)
   apply (simp only: case_prod_conv bindR.simps, erule step_expect, simp)
   apply (simp only: case_prod_conv, erule let_postI)
   apply (fastforce simp: let_init_def)
  apply (simp only: case_prod_conv if_False, rule wpR_bind_Ok)
  apply (cases isMutable)
   apply (simp only: case_prod_conv not_True_eq_False if_False, erule step_expect, simp)
   apply (simp only: case_prod_conv, erule let_postI)
   apply (fastforce simp: let_init_def)
  apply (drule reached_False[where sp = "tok_span (Parser_peek inp ps5 0)" and m = m])
  apply (simp only: case_prod_conv not_False_eq_True if_True, erule step_expect, simp)
  apply (simp only: case_prod_conv, erule let_postI, simp)
  done

lemma parseLetStmt_post:
  assumes "in_range inp ps" "Parser_check inp KwLet ps"
  shows "wpR (parseLetStmt inp ps) (let_post inp ps)"
proof -
  let ?no = "\<lambda>name. \<lparr>ts_kind = Invalid, ts_arrayDimensions = [], ts_pointerDepth = 0, ts_span = tok_span name\<rparr>"
  have untyped: "let_type (?no name) []" for name by (simp add: let_type_def hasExplicitTypeSyntax_def)
  show ?thesis
    unfolding parseLetStmt_def
    apply (rule step_keyword[OF assms], simp)
    apply (simp only: case_prod_conv, erule step_match, simp)
     apply (simp only: case_prod_conv, erule step_text, simp only: case_prod_conv, rule wpR_let)
     apply (erule step_match, simp)
      apply (simp only: case_prod_conv if_True, erule step_type, assumption)
      apply (simp only: case_prod_conv, rule let_rest, erule reached_mono)
      apply (fastforce simp: let_type_def)
     apply (simp only: case_prod_conv if_False bindR.simps, rule let_rest, erule reached_mono)
     apply (use untyped in fastforce)
    apply (simp only: case_prod_conv, erule step_text, simp only: case_prod_conv, rule wpR_let)
    apply (erule step_match, simp)
     apply (simp only: case_prod_conv if_True, erule step_type, assumption)
     apply (simp only: case_prod_conv, rule let_rest, erule reached_mono)
     apply (fastforce simp: let_type_def)
    apply (simp only: case_prod_conv if_False bindR.simps, rule let_rest, erule reached_mono)
    apply (use untyped in fastforce)
    done
qed

lemma reached_expect:
  "reached inp a P s b \<Longrightarrow> plain k \<Longrightarrow> reached inp a (followed P [tk k]) s (snd (Parser_expect inp k m b))"
  using expect_spelled[OF reached_in_range, of a P s b k m] by (simp add: reached_followed plain_def)

lemma parseAssignmentOrCallStmt_post:
  assumes "in_range inp ps"
  shows "wpR (parseAssignmentOrCallStmt inp ps) (option_post inp ps)"
  unfolding parseAssignmentOrCallStmt_def
  apply (rule wpR_let, rule step_unary[OF assms], simp only: case_prod_conv, rule wpR_if)
   apply (erule (1) step_advance_snd, simp, rule wpR_if)
    apply (drule reached_False, erule step_expr, simp only: case_prod_conv)
    apply (rule option_postI, erule reached_expect, simp, simp)
   apply (erule step_expr, simp only: case_prod_conv, erule step_expect, simp)
   apply (simp only: case_prod_conv, erule option_postI, auto)[1]
  apply (erule step_expect, simp, simp only: case_prod_conv)
  apply (rule step_call)
   apply (drule reached_False, erule option_postI, simp)
  apply (erule option_postI, auto)
  done

end

section \<open>The clauses of \<open>for\<close>\<close>

fun step_spells :: "Stmt option \<Rightarrow> (TokenKind \<times> string) list \<Rightarrow> bool" where
  "step_spells (Some (AssignStmt sp target v)) w \<longleftrightarrow>
     isPlace target \<and> grouped target \<and> grouped v \<and>
     w = expr_keys target @ tk Equal # expr_keys v @ [tk RightParen]"
| "step_spells (Some (CallStmt sp callSpan callee arguments)) w \<longleftrightarrow>
     grouped (CallExpr callSpan callee arguments) \<and>
     w = expr_keys (CallExpr callSpan callee arguments) @ [tk RightParen]"
| "step_spells (Some _) w \<longleftrightarrow> False"
| "step_spells None w \<longleftrightarrow> w = [tk RightParen]"

text \<open>An empty step clause leaves the closing parenthesis to \<open>parseForStmt\<close>.\<close>

definition clause_spells :: "Stmt option \<Rightarrow> (TokenKind \<times> string) list \<Rightarrow> bool" where
  "clause_spells so w \<longleftrightarrow> (if so = None then w = [] else step_spells so w)"

definition init_spells :: "Stmt option \<Rightarrow> (TokenKind \<times> string) list \<Rightarrow> bool" where
  "init_spells so w \<longleftrightarrow>
     (case so of None \<Rightarrow> w = [tk Semicolon]
      | Some s \<Rightarrow> simple_spells s w \<and> (expression_stmt s \<or> is_let s))"

definition cond_spells :: "Expr option \<Rightarrow> (TokenKind \<times> string) list \<Rightarrow> bool" where
  "cond_spells c w \<longleftrightarrow>
     (case c of None \<Rightarrow> w = [tk Semicolon] | Some e \<Rightarrow> grouped e \<and> w = expr_keys e @ [tk Semicolon])"

definition clause_post :: "('x \<Rightarrow> (TokenKind \<times> string) list \<Rightarrow> bool) \<Rightarrow> ParserInput \<Rightarrow> parser \<Rightarrow> 'x \<times> parser \<Rightarrow> bool" where
  "clause_post P inp ps r \<longleftrightarrow> (case r of (x, ps') \<Rightarrow> spelled inp ps (P x) ps')"

lemma clause_postI:
  "reached inp ps P s c \<Longrightarrow> (\<And>w. P w \<Longrightarrow> R x w) \<Longrightarrow> wpR (Ok (x, c)) (clause_post R inp ps)"
  by (auto simp: reached_def clause_post_def intro: spelled_mono)

context token_source
begin

lemma reached_closeForStep:
  assumes "reached inp a (\<lambda>_. False) s b"
  shows "reached inp a (\<lambda>_. False) s (closeForStep inp b)"
  using reached_expect[OF assms, of RightParen] reached_advance(1)[OF assms, of RightParen]
  by (auto simp: closeForStep_def elim!: reached_mono)

lemma parseForStepClause_post:
  assumes "in_range inp ps"
  shows "wpR (parseForStepClause inp ps) (clause_post clause_spells inp ps)"
  unfolding parseForStepClause_def
  apply (rule wpR_if)
   apply (rule clause_postI[OF reached_start[OF assms]], simp add: clause_spells_def)
  apply (rule wpR_let, rule step_unary[OF assms], simp only: case_prod_conv, rule wpR_if)
   apply (erule (1) step_advance_snd, simp, rule wpR_if)
    apply (drule reached_False, erule step_expr, simp only: case_prod_conv)
    apply (rule clause_postI[OF reached_closeForStep], erule reached_mono, simp, simp)
   apply (erule step_expr, simp only: case_prod_conv, erule step_expect, simp)
   apply (simp only: case_prod_conv, erule clause_postI, auto simp: clause_spells_def)[1]
  apply (rule step_call)
   apply (drule reached_False, rule clause_postI, erule reached_closeForStep, simp)
  apply (erule step_expect, simp, simp only: case_prod_conv)
  apply (erule clause_postI, auto simp: clause_spells_def)
  done

lemma skipToSemicolon_post:
  "\<lbrakk>reached inp a (\<lambda>_. False) s ps; remaining inp ps \<le> n\<rbrakk> \<Longrightarrow>
    wpR (skipToSemicolon inp n ps) (\<lambda>ps'. reached inp a (\<lambda>_. False) s ps')"
proof (induction n arbitrary: ps)
  case 0
  then show ?case using reached_in_range[OF 0(1)] by (simp add: in_range_def remaining_def)
next
  case (Suc n)
  have ps: "in_range inp ps" by (rule reached_in_range[OF Suc.prems(1)])
  show ?case
  proof (cases "\<not> Parser_isAtEnd inp ps \<and> \<not> Parser_check inp Semicolon ps")
    case True
    then have c: "Parser_check inp (tok_kind (Parser_peek inp ps 0)) ps" by (simp add: Parser_check_def)
    have "spelled inp ps (\<lambda>v. v = [tokenKey inp (Parser_peek inp ps 0)]) (snd (Parser_advance inp ps))"
      by (rule spelled_ran[OF check_ran(1)[OF ps c]])
    then have "reached inp a (\<lambda>_. False) s (snd (Parser_advance inp ps))"
      using reached_followed[OF Suc.prems(1)] by (auto elim: reached_mono)
    then show ?thesis
      using Suc.IH check_ran(5)[OF ps c] Suc.prems(2) True by simp
  next
    case False
    have "reached inp a (\<lambda>_. False) s (snd (Parser_match inp Semicolon ps))"
      using reached_advance(1)[OF Suc.prems(1), of Semicolon] Suc.prems(1)
      by (auto simp: Parser_match_def elim: reached_mono)
    then show ?thesis by (simp only: skipToSemicolon.simps if_not_P[OF False] wpR.simps)
  qed
qed

lemma parseForInit_post:
  assumes "in_range inp ps"
  shows "wpR (parseForInit inp ps) (clause_post init_spells inp ps)"
proof -
  have assign: "wpR (case init of
        None \<Rightarrow> bindR (skipToSemicolon inp (Parser_fuel inp) ps1) (\<lambda>ps2. Ok (None, ps2))
      | Some s \<Rightarrow> Ok (Some s, ps1)) (clause_post init_spells inp ps)"
    if r: "option_post inp ps (init, ps1)" for init ps1
  proof (cases init)
    case None
    then have e: "reached inp ps (\<lambda>_. False) False ps1" using r by (auto simp: option_post_def reached_def)
    have fuel: "remaining inp ps1 \<le> Parser_fuel inp" by (simp add: remaining_def Parser_fuel_def)
    have "wpR (bindR (skipToSemicolon inp (Parser_fuel inp) ps1) (\<lambda>ps2. Ok (None, ps2)))
        (clause_post init_spells inp ps)"
      by (rule wpR_bindI[OF skipToSemicolon_post[OF e fuel]])
        (auto simp: clause_post_def reached_def elim: spelled_mono)
    then show ?thesis using None by simp
  next
    case (Some s)
    then show ?thesis using r
      by (auto simp: option_post_def clause_post_def init_spells_def elim: spelled_mono)
  qed
  show ?thesis
    unfolding parseForInit_def
    apply (rule wpR_if)
     apply (rule clause_postI, erule reached_advance(1)[OF reached_start[OF assms]], simp)
     apply (simp add: init_spells_def)
    apply (rule wpR_if)
     apply (rule wpR_bindI[OF parseLetStmt_post[OF assms]], assumption)
     apply (clarsimp simp: let_post_def simple_post_def clause_post_def)
     apply (erule spelled_mono, simp add: init_spells_def)
    apply (rule wpR_bindI[OF parseAssignmentOrCallStmt_post[OF assms]])
    apply (use assign in auto)
    done
qed

lemma parseForCondition_post:
  assumes "in_range inp ps"
  shows "wpR (parseForCondition inp ps) (clause_post cond_spells inp ps)"
  unfolding parseForCondition_def
  apply (rule wpR_if)
   apply (rule clause_postI, erule reached_advance(1)[OF reached_start[OF assms]], simp)
   apply (simp add: cond_spells_def)
  apply (rule step_expr[OF reached_start[OF assms]], simp only: case_prod_conv)
  apply (rule clause_postI, erule reached_expect, simp, auto simp: cond_spells_def)
  done

lemma step_clause:
  assumes "reached inp a P s b" "wpR m (clause_post R inp b)"
    "\<And>x c. reached inp a (\<lambda>w. \<exists>u v. w = u @ v \<and> P u \<and> R x v) s c \<Longrightarrow> wpR (f (x, c)) Q"
  shows "wpR (bindR m f) Q"
proof (rule wpR_bindI[OF assms(2)])
  fix r assume r: "clause_post R inp b r"
  obtain x c where "r = (x, c)" by fastforce
  with r show "wpR (f r) Q"
    using assms(3)[of x c] reached_append[OF assms(1), of "R x" c "\<lambda>w. \<exists>u v. w = u @ v \<and> P u \<and> R x v"]
    by (auto simp: clause_post_def)
qed

lemma step_init:
  assumes "reached inp a P s b"
    "\<And>x c. reached inp a (\<lambda>w. \<exists>u v. w = u @ v \<and> P u \<and> init_spells x v) s c \<Longrightarrow> wpR (f (x, c)) Q"
  shows "wpR (bindR (parseForInit inp b) f) Q"
  by (rule step_clause[OF assms(1) parseForInit_post[OF reached_in_range[OF assms(1)]]], rule assms(2))

lemma step_cond:
  assumes "reached inp a P s b"
    "\<And>x c. reached inp a (\<lambda>w. \<exists>u v. w = u @ v \<and> P u \<and> cond_spells x v) s c \<Longrightarrow> wpR (f (x, c)) Q"
  shows "wpR (bindR (parseForCondition inp b) f) Q"
  by (rule step_clause[OF assms(1) parseForCondition_post[OF reached_in_range[OF assms(1)]]], rule assms(2))

lemma step_step:
  assumes "reached inp a P s b"
    "\<And>x c. reached inp a (\<lambda>w. \<exists>u v. w = u @ v \<and> P u \<and> clause_spells x v) s c \<Longrightarrow> wpR (f (x, c)) Q"
  shows "wpR (bindR (parseForStepClause inp b) f) Q"
  by (rule step_clause[OF assms(1) parseForStepClause_post[OF reached_in_range[OF assms(1)]]], rule assms(2))

end

section \<open>Nested statements\<close>

inductive stmt_spells :: "Stmt \<Rightarrow> (TokenKind \<times> string) list \<Rightarrow> bool"
  and block_spells :: "Stmt list \<Rightarrow> (TokenKind \<times> string) list \<Rightarrow> bool"
where
  spells_simple: "simple_spells s w \<Longrightarrow> stmt_spells s w"
| spells_block: "block_spells ss w \<Longrightarrow> stmt_spells (BlockStmt sp ss) (tk LeftBrace # w @ [tk RightBrace])"
| spells_if: "grouped c \<Longrightarrow> stmt_spells t v \<Longrightarrow>
    stmt_spells (IfStmt sp c (Some t) None)
      (tk KwIf # tk LeftParen # expr_keys c @ tk RightParen # v)"
| spells_if_else: "grouped c \<Longrightarrow> stmt_spells t v \<Longrightarrow> stmt_spells e w \<Longrightarrow>
    stmt_spells (IfStmt sp c (Some t) (Some e))
      (tk KwIf # tk LeftParen # expr_keys c @ tk RightParen # v @ tk KwElse # w)"
| spells_while: "grouped c \<Longrightarrow> stmt_spells body v \<Longrightarrow>
    stmt_spells (WhileStmt sp c (Some body))
      (tk KwWhile # tk LeftParen # expr_keys c @ tk RightParen # v)"
| spells_for: "init_spells init v1 \<Longrightarrow> cond_spells c v2 \<Longrightarrow> step_spells step v3 \<Longrightarrow>
    stmt_spells body v \<Longrightarrow>
    stmt_spells (ForStmt sp init c step (Some body))
      (tk KwFor # tk LeftParen # v1 @ v2 @ v3 @ v)"
| spells_nil: "block_spells [] []"
| spells_cons: "stmt_spells s v \<Longrightarrow> block_spells ss w \<Longrightarrow> block_spells (s # ss) (v @ w)"

definition stmt_post :: "ParserInput \<Rightarrow> parser \<Rightarrow> Stmt option \<times> parser \<Rightarrow> bool" where
  "stmt_post inp ps r \<longleftrightarrow>
     (case r of (so, ps') \<Rightarrow>
        spelled inp ps (\<lambda>w. \<exists>s. so = Some s \<and> stmt_spells s w) ps' \<and>
        (so \<noteq> None \<longrightarrow> ps_current ps < ps_current ps'))"

definition block_post :: "ParserInput \<Rightarrow> parser \<Rightarrow> Stmt list \<times> parser \<Rightarrow> bool" where
  "block_post inp ps r \<longleftrightarrow> (case r of (ss, ps') \<Rightarrow> spelled inp ps (block_spells ss) ps')"

definition stmt_rec_ok :: "ParserInput \<Rightarrow> nat \<Rightarrow> stmt_rec \<Rightarrow> bool" where
  "stmt_rec_ok inp n rec \<longleftrightarrow>
     (\<forall>ps. in_range inp ps \<longrightarrow> remaining inp ps \<le> n \<longrightarrow> wpR (rec ps) (stmt_post inp ps))"

definition block_rec_ok :: "ParserInput \<Rightarrow> nat \<Rightarrow> block_rec \<Rightarrow> bool" where
  "block_rec_ok inp n recs \<longleftrightarrow>
     (\<forall>ps. in_range inp ps \<longrightarrow> remaining inp ps \<le> n \<longrightarrow> wpR (recs ps) (block_post inp ps))"

lemma step_stmt:
  assumes "reached inp a P True b" "stmt_rec_ok inp n rec" "remaining inp a \<le> Suc n"
    "\<And>so c. reached inp a (\<lambda>w. \<exists>u v s. w = u @ v \<and> P u \<and> so = Some s \<and> stmt_spells s v) True c \<Longrightarrow>
      wpR (f (so, c)) Q"
  shows "wpR (bindR (rec b) f) Q"
proof -
  have "wpR (rec b) (stmt_post inp b)"
    using assms(2) reached_in_range[OF assms(1)] reached_strict[OF assms(1)] assms(3)
    by (simp add: stmt_rec_ok_def)
  then show ?thesis
  proof (rule wpR_bindI)
    fix r assume r: "stmt_post inp b r"
    obtain so c where "r = (so, c)" by fastforce
    with r show "wpR (f r) Q"
      using assms(4)[of so c] reached_append[OF assms(1), of "\<lambda>w. \<exists>s. so = Some s \<and> stmt_spells s w" c
          "\<lambda>w. \<exists>u v s. w = u @ v \<and> P u \<and> so = Some s \<and> stmt_spells s v"]
      by (auto simp: stmt_post_def)
  qed
qed

lemma step_block:
  assumes "reached inp a P True b" "block_rec_ok inp n recs" "remaining inp a \<le> Suc n"
    "\<And>ss c. reached inp a (\<lambda>w. \<exists>u v. w = u @ v \<and> P u \<and> block_spells ss v) True c \<Longrightarrow>
      wpR (f (ss, c)) Q"
  shows "wpR (bindR (recs b) f) Q"
proof -
  have "wpR (recs b) (block_post inp b)"
    using assms(2) reached_in_range[OF assms(1)] reached_strict[OF assms(1)] assms(3)
    by (simp add: block_rec_ok_def)
  then show ?thesis
  proof (rule wpR_bindI)
    fix r assume r: "block_post inp b r"
    obtain ss c where "r = (ss, c)" by fastforce
    with r show "wpR (f r) Q"
      using assms(4)[of ss c] reached_append[OF assms(1), of "block_spells ss" c
          "\<lambda>w. \<exists>u v. w = u @ v \<and> P u \<and> block_spells ss v"]
      by (auto simp: block_post_def)
  qed
qed

lemma stmt_postI:
  "reached inp ps P True c \<Longrightarrow> (\<And>w. P w \<Longrightarrow> \<exists>s. so = Some s \<and> stmt_spells s w) \<Longrightarrow>
    wpR (Ok (so, c)) (stmt_post inp ps)"
  by (auto simp: reached_def stmt_post_def intro: spelled_mono)

lemma reached_step_clause:
  assumes "reached inp a (\<lambda>w. \<exists>u v. w = u @ v \<and> P u \<and> clause_spells step v) s b"
    and e: "\<And>Q. reached inp a Q s b \<Longrightarrow>
      reached inp a (followed Q [tk RightParen]) s (snd (Parser_expect inp RightParen m b))"
  shows "reached inp a (\<lambda>w. \<exists>u v. w = u @ v \<and> P u \<and> step_spells step v) s
    (if step = None then snd (Parser_expect inp RightParen m b) else b)"
proof (cases step)
  case None
  then show ?thesis using e[OF assms(1)] by (auto simp: clause_spells_def elim!: reached_mono)
next
  case (Some st)
  then show ?thesis using assms(1) by (auto simp: clause_spells_def elim!: reached_mono)
qed

text \<open>A routine that always returns a statement, as a branch of \<open>parseStmt\<close>.\<close>

definition node_post :: "ParserInput \<Rightarrow> parser \<Rightarrow> Stmt \<times> parser \<Rightarrow> bool" where
  "node_post inp ps r \<longleftrightarrow> stmt_post inp ps (Some (fst r), snd r)"

lemma node_postI:
  "reached inp ps P True c \<Longrightarrow> (\<And>w. P w \<Longrightarrow> stmt_spells s w) \<Longrightarrow> wpR (Ok (s, c)) (node_post inp ps)"
  using stmt_postI[of inp ps P c "Some s"] by (simp add: node_post_def)

context token_source
begin

lemma parseIfStmt_post:
  assumes ps: "in_range inp ps" "Parser_check inp KwIf ps" "remaining inp ps \<le> Suc n"
    and rec: "stmt_rec_ok inp n rec"
  shows "wpR (parseIfStmt inp rec ps) (node_post inp ps)"
  unfolding parseIfStmt_def
  apply (rule step_keyword[OF ps(1,2)], simp)
  apply (simp only: case_prod_conv, erule step_expect_snd, simp)
  apply (erule step_expr, simp only: case_prod_conv, erule step_expect_snd, simp)
  apply (erule step_stmt[OF _ rec ps(3)], simp only: case_prod_conv, erule step_match, simp)
   apply (simp only: case_prod_conv if_True, erule step_stmt[OF _ rec ps(3)])
   apply (simp only: case_prod_conv, erule node_postI)
   apply (clarsimp, erule (2) spells_if_else)
  apply (simp only: case_prod_conv if_False bindR.simps, erule node_postI)
  apply (clarsimp, erule (1) spells_if)
  done

lemma parseWhileStmt_post:
  assumes ps: "in_range inp ps" "Parser_check inp KwWhile ps" "remaining inp ps \<le> Suc n"
    and rec: "stmt_rec_ok inp n rec"
  shows "wpR (parseWhileStmt inp rec ps) (node_post inp ps)"
  unfolding parseWhileStmt_def
  apply (rule step_keyword[OF ps(1,2)], simp)
  apply (simp only: case_prod_conv, erule step_expect_snd, simp)
  apply (erule step_expr, simp only: case_prod_conv, erule step_expect_snd, simp)
  apply (erule step_stmt[OF _ rec ps(3)], simp only: case_prod_conv, erule node_postI)
  apply (clarsimp, erule (1) spells_while)
  done

lemma parseForStmt_post:
  assumes ps: "in_range inp ps" "Parser_check inp KwFor ps" "remaining inp ps \<le> Suc n"
    and rec: "stmt_rec_ok inp n rec"
  shows "wpR (parseForStmt inp rec ps) (node_post inp ps)"
  unfolding parseForStmt_def
  apply (rule step_keyword[OF ps(1,2)], simp)
  apply (simp only: case_prod_conv, erule step_expect_snd, simp)
  apply (erule step_init, simp only: case_prod_conv)
  apply (erule step_cond, simp only: case_prod_conv)
  apply (erule step_step, simp only: case_prod_conv, rule wpR_let)
  apply (drule reached_step_clause[OF _ reached_expect], assumption, simp)
  apply (erule step_stmt[OF _ rec ps(3)], simp only: case_prod_conv, erule node_postI)
  apply (clarsimp, erule (3) spells_for)
  done

text \<open>The branches of \<open>parseStmt\<close>.\<close>

lemma node_branch:
  assumes "wpR m (node_post inp ps)"
  shows "wpR (bindR m (\<lambda>(s, ps1). Ok (Some s, ps1))) (stmt_post inp ps)"
  by (rule wpR_bindI[OF assms]) (auto simp: node_post_def)

lemma simple_branch:
  assumes "wpR m (simple_post inp ps)"
  shows "wpR (bindR m (\<lambda>(s, ps1). Ok (Some s, ps1))) (stmt_post inp ps)"
  by (rule wpR_bindI[OF assms])
    (auto simp: simple_post_def stmt_post_def elim!: spelled_mono intro: spells_simple)

lemma option_branch:
  assumes "wpR m (option_post inp ps)" "\<not> Parser_isAtEnd inp ps"
  shows "wpR m (stmt_post inp ps)"
  by (rule wpR_mono[OF assms(1)])
    (use assms(2) in \<open>auto simp: option_post_def stmt_post_def progress_def
      intro: spells_simple elim!: spelled_mono\<close>)

lemma error_branch:
  assumes "in_range inp ps"
  shows "wpR (Ok (None, Parser_error sp m ps)) (stmt_post inp ps)"
  using error_spelled[OF assms] by (simp add: stmt_post_def)

lemma parseBlockStmt_post:
  assumes ps: "in_range inp ps" "remaining inp ps \<le> Suc n" and recs: "block_rec_ok inp n recs"
    and check: "Parser_check inp LeftBrace ps"
  shows "wpR (parseBlockStmt inp recs ps) (\<lambda>((sp, ss), ps'). node_post inp ps (BlockStmt sp ss, ps'))"
  unfolding parseBlockStmt_def
  apply (rule step_keyword[OF ps(1) check], simp)
  apply (simp only: case_prod_conv, erule step_block[OF _ recs ps(2)])
  apply (simp only: case_prod_conv, erule step_expect, simp)
  apply (simp add: node_post_def stmt_post_def reached_def)
  apply (erule conjE, erule spelled_mono, auto intro: spells_block)
  done

lemma startsExpressionStmt_notAtEnd: "startsExpressionStmt inp ps \<Longrightarrow> \<not> Parser_isAtEnd inp ps"
  by (auto simp: startsExpressionStmt_def Parser_check_def)

lemma parseStmt_post:
  assumes ps: "in_range inp ps" "remaining inp ps \<le> Suc n"
    and rec: "stmt_rec_ok inp n rec" and recs: "block_rec_ok inp n recs"
  shows "wpR (parseStmt inp rec recs ps) (stmt_post inp ps)"
  unfolding parseStmt_def
  apply (rule wpR_if, rule wpR_bindI[OF parseBlockStmt_post[OF ps recs]], assumption)
   apply (auto simp: node_post_def)[1]
  apply (rule wpR_if, rule simple_branch, rule wpR_mono[OF parseLetStmt_post[OF ps(1)]], assumption)
   apply (simp add: let_post_def)
  apply (rule wpR_if, rule simple_branch, erule parseReturnStmt_post[OF ps(1)])
  apply (rule wpR_if)
   apply (use simple_branch[OF parseBreakStmt_post[OF ps(1)]] in \<open>simp add: map_prod_def case_prod_unfold\<close>)
  apply (rule wpR_if)
   apply (use simple_branch[OF parseContinueStmt_post[OF ps(1)]] in \<open>simp add: map_prod_def case_prod_unfold\<close>)
  apply (rule wpR_if, rule node_branch, erule parseIfStmt_post[OF ps(1) _ ps(2) rec])
  apply (rule wpR_if, rule node_branch, erule parseWhileStmt_post[OF ps(1) _ ps(2) rec])
  apply (rule wpR_if, rule node_branch, erule parseForStmt_post[OF ps(1) _ ps(2) rec])
  apply (rule wpR_if, rule error_branch[OF ps(1)])
  apply (rule wpR_if, rule option_branch[OF parseAssignmentOrCallStmt_post[OF ps(1)]])
   apply (erule startsExpressionStmt_notAtEnd)
  apply (rule error_branch[OF ps(1)])
  done

lemma same_cursor:
  assumes "ps_current a = ps_current b"
  shows "Parser_check inp k a = Parser_check inp k b" "Parser_isAtEnd inp a = Parser_isAtEnd inp b"
  using assms by (simp_all add: Parser_check_def Parser_isAtEnd_def Parser_peek_def)

text \<open>Recovery after a failed statement always moves on.\<close>

lemma recovery:
  assumes ps: "in_range inp ps" "\<not> Parser_isAtEnd inp ps" "\<not> Parser_check inp RightBrace ps"
    and r: "spelled inp ps (\<lambda>_. False) ps1"
  shows "reached inp ps (\<lambda>_. False) True
    (if \<not> Parser_check inp RightBrace ps1 then snd (Parser_advance inp ps1) else ps1)"
proof -
  have in1: "in_range inp ps1" by (rule spelled_in_range[OF r])
  have le: "ps_current ps \<le> ps_current ps1" by (rule spelled_current[OF r])
  have moved: "ps_current ps < ps_current ps1" if "Parser_isAtEnd inp ps1 \<or> Parser_check inp RightBrace ps1"
    using that same_cursor[of ps ps1] ps le by force
  show ?thesis
  proof (cases "Parser_isAtEnd inp ps1 \<or> Parser_check inp RightBrace ps1")
    case True
    then show ?thesis using moved[OF True] r
      by (auto simp: reached_def Parser_advance_def Parser_check_def)
  next
    case False
    then have "spelled inp ps1 (\<lambda>v. v = [tokenKey inp (Parser_peek inp ps1 0)]) (snd (Parser_advance inp ps1))"
      using advance_ran(1)[OF in1] by (intro spelled_ran) simp
    from spelled_append[OF r this, of "\<lambda>_. False"]
    show ?thesis using False advance_ran(2)[OF in1] le by (auto simp: reached_def)
  qed
qed

lemma parseBlockLoop_post:
  assumes ps: "in_range inp ps" "remaining inp ps \<le> Suc n"
    and rec: "stmt_rec_ok inp n rec" and recs: "block_rec_ok inp n recs"
  shows "wpR (parseBlockLoop inp rec recs ps) (block_post inp ps)"
proof (cases "Parser_isAtEnd inp ps \<or> Parser_check inp RightBrace ps")
  case True
  then show ?thesis
    using spelled_ran[OF ran_refl[OF ps(1)]]
    by (auto simp: parseBlockLoop_def block_post_def intro: spells_nil elim!: spelled_mono)
next
  case False
  have step: "wpR (case stmt of
        Some s \<Rightarrow> bindR (recs ps1) (\<lambda>(rest, ps2). Ok (s # rest, ps2))
      | None \<Rightarrow> recs (if \<not> Parser_check inp RightBrace ps1 then snd (Parser_advance inp ps1) else ps1))
    (block_post inp ps)" if r: "stmt_post inp ps (stmt, ps1)" for stmt ps1
  proof (cases stmt)
    case None
    then have "spelled inp ps (\<lambda>_. False) ps1" using r by (simp add: stmt_post_def)
    from recovery[OF ps(1) _ _ this] False
    have re: "reached inp ps (\<lambda>_. False) True
      (if \<not> Parser_check inp RightBrace ps1 then snd (Parser_advance inp ps1) else ps1)" by simp
    have "wpR (recs (if \<not> Parser_check inp RightBrace ps1 then snd (Parser_advance inp ps1) else ps1))
      (block_post inp (if \<not> Parser_check inp RightBrace ps1 then snd (Parser_advance inp ps1) else ps1))"
      using recs reached_in_range[OF re] reached_strict[OF re] ps(2) by (simp only: block_rec_ok_def)
    then have "wpR (recs (if \<not> Parser_check inp RightBrace ps1 then snd (Parser_advance inp ps1) else ps1))
      (block_post inp ps)"
      by (rule wpR_mono)
        (use re in \<open>auto simp: block_post_def reached_def intro: spelled_append[of inp ps "\<lambda>_. False"]\<close>)
    with None show ?thesis by simp
  next
    case (Some s)
    then have re: "reached inp ps (stmt_spells s) True ps1" using r by (simp add: stmt_post_def reached_def)
    have "wpR (bindR (recs ps1) (\<lambda>(rest, ps2). Ok (s # rest, ps2))) (block_post inp ps)"
      apply (rule step_block[OF re recs ps(2)])
      apply (simp add: block_post_def reached_def, erule conjE, erule spelled_mono)
      apply (auto intro: spells_cons)
      done
    with Some show ?thesis by simp
  qed
  show ?thesis
    unfolding parseBlockLoop_def if_not_P[OF False]
    by (rule wpR_bindI[OF parseStmt_post[OF ps rec recs]]) (use step in auto)
qed

lemma run_stmt_ok: "stmt_rec_ok inp n (runStmt inp n) \<and> block_rec_ok inp n (runBlock inp n)"
proof (induction n)
  case 0
  show ?case by (auto simp: stmt_rec_ok_def block_rec_ok_def in_range_def remaining_def)
next
  case (Suc n)
  then show ?case
    using parseStmt_post[of _ n "runStmt inp n" "runBlock inp n"]
      parseBlockLoop_post[of _ n "runStmt inp n" "runBlock inp n"]
    by (simp add: stmt_rec_ok_def block_rec_ok_def)
qed

end

section \<open>Items\<close>

definition param_spells :: "ParameterSyntax \<Rightarrow> (TokenKind \<times> string) list \<Rightarrow> bool" where
  "param_spells p w \<longleftrightarrow> (\<exists>v. w = (Identifier, pr_name p) # tk Colon # v \<and> type_spells (pr_type p) v)"

definition params_spell :: "ParameterSyntax list \<Rightarrow> (TokenKind \<times> string) list \<Rightarrow> bool" where
  "params_spell ps w \<longleftrightarrow> (\<exists>ws. list_all2 param_spells ps ws \<and> w = commas ws)"

fun item_spells :: "Item \<Rightarrow> (TokenKind \<times> string) list \<Rightarrow> bool" where
  "item_spells (FunctionDecl sp name nameSpan parameters returnType bodySpan body) w \<longleftrightarrow>
     (\<exists>pw rw bw. params_spell parameters pw \<and> type_spells returnType rw \<and> block_spells body bw \<and>
        w = tk KwFn # (Identifier, name) # tk LeftParen # pw @ tk RightParen # tk Arrow # rw @
            tk LeftBrace # bw @ [tk RightBrace])"
| "item_spells (ConstDecl sp name nameSpan type init) w \<longleftrightarrow>
     (\<exists>tw. type_spells type tw \<and> grouped init \<and>
        w = tk KwConst # (Identifier, name) # tk Colon # tw @ tk Equal # expr_keys init @ [tk Semicolon])"

definition items_spell :: "Item list \<Rightarrow> (TokenKind \<times> string) list \<Rightarrow> bool" where
  "items_spell is w \<longleftrightarrow> (\<exists>ws. list_all2 item_spells is ws \<and> w = concat ws)"

definition item_post :: "ParserInput \<Rightarrow> parser \<Rightarrow> Item \<times> parser \<Rightarrow> bool" where
  "item_post inp ps r \<longleftrightarrow>
     (case r of (i, ps') \<Rightarrow> spelled inp ps (item_spells i) ps' \<and> ps_current ps < ps_current ps')"

text \<open>The loop's list is exact except after a comma at the end of the file, which is an error later.\<close>

definition params_post :: "ParserInput \<Rightarrow> parser \<Rightarrow> ParameterSyntax list \<times> parser \<Rightarrow> bool" where
  "params_post inp ps r \<longleftrightarrow>
     (case r of (xs, ps') \<Rightarrow>
        spelled inp ps (\<lambda>w. params_spell xs w \<or> Parser_isAtEnd inp ps') ps' \<and>
        (xs = [] \<longrightarrow> Parser_isAtEnd inp ps'))"

lemma params_spell_one: "param_spells p w \<Longrightarrow> params_spell [p] w"
  by (auto simp: params_spell_def intro!: exI[of _ "[w]"])

lemma params_spell_Cons:
  assumes "param_spells p v" "params_spell ps w" "ps \<noteq> []"
  shows "params_spell (p # ps) (v @ tk Comma # w)"
proof -
  obtain ws where ws: "list_all2 param_spells ps ws" "w = commas ws"
    using assms(2) by (auto simp: params_spell_def)
  then have "ws \<noteq> []" using assms(3) by auto
  then show ?thesis
    using ws assms(1) unfolding params_spell_def by (intro exI[of _ "v # ws"]) (simp add: commas_Cons)
qed

context token_source
begin

lemma parseParameter_post:
  assumes "in_range inp ps"
  shows "wpR (parseParameter inp ps) (clause_post param_spells inp ps)"
  unfolding parseParameter_def
  apply (rule step_text[OF reached_start[OF assms]])
  apply (simp only: case_prod_conv, erule step_expect_snd, simp)
  apply (erule (1) step_type, simp only: case_prod_conv)
  apply (erule clause_postI, auto simp: param_spells_def)
  done

lemma parseParameterLoop_post:
  "\<lbrakk>in_range inp ps; remaining inp ps \<le> n\<rbrakk> \<Longrightarrow> wpR (parseParameterLoop inp n ps) (params_post inp ps)"
proof (induction n arbitrary: ps)
  case 0
  then show ?case by (simp add: in_range_def remaining_def)
next
  case (Suc n)
  show ?case
  proof (cases "Parser_isAtEnd inp ps")
    case True
    then show ?thesis
      using spelled_ran[OF ran_refl[OF Suc.prems(1)]] by (auto simp: params_post_def elim!: spelled_mono)
  next
    case False
    have step: "wpR (if \<not> Parser_check inp Comma ps1 then Ok ([p], ps1)
        else
          let ps2 = snd (Parser_advance inp ps1)
          in if Parser_check inp RightParen ps2 then
               Ok ([p], Parser_error (tok_span (Parser_peek inp ps2 0)) m ps2)
             else bindR (parseParameterLoop inp n ps2) (\<lambda>(parameters, ps3).
                    Ok (p # parameters, ps3))) (params_post inp ps)"
      if r: "clause_post param_spells inp ps (p, ps1)" for p ps1 m
    proof -
      have p: "reached inp ps (param_spells p) False ps1" using r by (simp add: clause_post_def reached_def)
      show ?thesis
      proof (cases "Parser_check inp Comma ps1")
        case False
        then show ?thesis
          using p by (auto simp: params_post_def reached_def intro: params_spell_one elim!: spelled_mono)
      next
        case comma: True
        let ?ps2 = "snd (Parser_advance inp ps1)"
        have p2: "reached inp ps (followed (param_spells p) [tk Comma]) False ?ps2"
          by (rule reached_advance(1)[OF p comma]) simp
        have in2: "in_range inp ?ps2" "remaining inp ?ps2 \<le> n"
          using reached_in_range[OF p2] check_ran(5)[OF reached_in_range[OF p] comma]
            reached_remaining[OF p] Suc.prems(2) by simp_all
        have more: "params_post inp ps (p # xs, ps3)" if x: "params_post inp ?ps2 (xs, ps3)" for xs ps3
        proof -
          have x': "spelled inp ?ps2 (\<lambda>w. params_spell xs w \<or> Parser_isAtEnd inp ps3) ps3"
            "xs = [] \<longrightarrow> Parser_isAtEnd inp ps3"
            using x by (auto simp: params_post_def)
          have s2: "spelled inp ps (followed (param_spells p) [tk Comma]) ?ps2"
            using p2 by (simp add: reached_def)
          have "spelled inp ps (\<lambda>w. params_spell (p # xs) w \<or> Parser_isAtEnd inp ps3) ps3"
            by (rule spelled_append[OF s2 x'(1)]) (use x'(2) params_spell_Cons in auto)
          then show ?thesis by (simp add: params_post_def)
        qed
        have "wpR (bindR (parseParameterLoop inp n ?ps2) (\<lambda>(parameters, ps3). Ok (p # parameters, ps3)))
          (params_post inp ps)"
          by (rule wpR_bindI[OF Suc.IH[OF in2]]) (use more in auto)
        moreover have "params_post inp ps ([p], Parser_error sp m ?ps2)" for sp
          using reached_error[OF p2] by (simp add: params_post_def reached_def)
        ultimately show ?thesis using comma by (simp add: Let_def)
      qed
    qed
    show ?thesis
      unfolding parseParameterLoop.simps if_not_P[OF False]
      by (rule wpR_bindI[OF parseParameter_post[OF Suc.prems(1)]]) (use step in \<open>auto simp del: wpR.simps\<close>)
  qed
qed

lemma parseParameterList_post:
  assumes "in_range inp ps"
  shows "wpR (parseParameterList inp ps)
    (\<lambda>(xs, ps'). spelled inp ps (\<lambda>w. params_spell xs w \<or> Parser_isAtEnd inp ps') ps')"
proof (cases "Parser_check inp RightParen ps")
  case True
  have "params_spell [] []" by (simp add: params_spell_def)
  then show ?thesis
    using True spelled_ran[OF ran_refl[OF assms]] by (auto simp: parseParameterList_def elim!: spelled_mono)
next
  case False
  have "remaining inp ps \<le> Parser_fuel inp" by (simp add: remaining_def Parser_fuel_def)
  from parseParameterLoop_post[OF assms this] show ?thesis
    using False by (auto simp: parseParameterList_def params_post_def elim!: wpR_mono)
qed

lemma step_params:
  assumes "reached inp a P s b"
    "\<And>xs c. reached inp a (\<lambda>w. \<exists>u v. w = u @ v \<and> P u \<and> (params_spell xs v \<or> Parser_isAtEnd inp c)) s c \<Longrightarrow>
      wpR (f (xs, c)) Q"
  shows "wpR (bindR (parseParameterList inp b) f) Q"
proof (rule wpR_bindI[OF parseParameterList_post[OF reached_in_range[OF assms(1)]]])
  fix r assume r: "case r of (xs, ps') \<Rightarrow>
    spelled inp b (\<lambda>w. params_spell xs w \<or> Parser_isAtEnd inp ps') ps'"
  obtain xs c where "r = (xs, c)" by fastforce
  with r show "wpR (f r) Q"
    using assms(2)[of xs c] reached_append[OF assms(1),
        of "\<lambda>w. params_spell xs w \<or> Parser_isAtEnd inp c" c
        "\<lambda>w. \<exists>u v. w = u @ v \<and> P u \<and> (params_spell xs v \<or> Parser_isAtEnd inp c)"]
    by auto
qed

text \<open>The closing parenthesis settles it: at the end of the file it is reported as missing.\<close>

lemma reached_params:
  assumes "reached inp a (\<lambda>w. \<exists>u v. w = u @ v \<and> P u \<and> (params_spell xs v \<or> Parser_isAtEnd inp b)) s b"
  shows "reached inp a (\<lambda>w. \<exists>u v. w = u @ v @ [tk RightParen] \<and> P u \<and> params_spell xs v) s
    (snd (Parser_expect inp RightParen m b))"
proof (cases "Parser_isAtEnd inp b")
  case True
  then have "snd (Parser_expect inp RightParen m b) = Parser_error (tok_span (Parser_peek inp b 0)) m b"
    by (simp add: Parser_expect_def Parser_check_def)
  then show ?thesis using reached_error[OF assms] by simp
next
  case False
  have "reached inp a (followed (\<lambda>w. \<exists>u v. w = u @ v \<and> P u \<and> (params_spell xs v \<or> Parser_isAtEnd inp b))
      [tk RightParen]) s (snd (Parser_expect inp RightParen m b))"
    using reached_expect[OF assms, of RightParen m] by simp
  then show ?thesis by (rule reached_mono) (use False in force)
qed

lemma step_body:
  assumes "reached inp a P s b"
    "\<And>sp ss c. reached inp a (\<lambda>w. \<exists>u v. w = u @ tk LeftBrace # v @ [tk RightBrace] \<and> P u \<and> block_spells ss v) s c \<Longrightarrow>
      wpR (f ((sp, ss), c)) Q"
  shows "wpR (bindR (Parser_parseBlockStmt inp b) f) Q"
proof -
  have loop: "wpR (bindR (runBlock inp (Parser_fuel inp) d) g) Q"
    if d: "reached inp a P' s d"
      and g: "\<And>ss c. reached inp a (\<lambda>w. \<exists>u v. w = u @ v \<and> P' u \<and> block_spells ss v) s c \<Longrightarrow> wpR (g (ss, c)) Q"
    for d g P'
  proof -
    have "remaining inp d \<le> Parser_fuel inp" by (simp add: remaining_def Parser_fuel_def)
    then have "wpR (runBlock inp (Parser_fuel inp) d) (block_post inp d)"
      using run_stmt_ok reached_in_range[OF d] by (simp add: block_rec_ok_def)
    then show ?thesis
    proof (rule wpR_bindI)
      fix r assume r: "block_post inp d r"
      obtain ss c where "r = (ss, c)" by fastforce
      with r show "wpR (g r) Q"
        using g[of ss c] reached_append[OF d, of "block_spells ss" c
            "\<lambda>w. \<exists>u v. w = u @ v \<and> P' u \<and> block_spells ss v"]
        by (auto simp: block_post_def)
    qed
  qed
  show ?thesis
    unfolding Parser_parseBlockStmt_def parseBlockStmt_def
    apply (simp only: Let_def case_prod_unfold bindR_assoc bindR.simps)
    apply (rule loop[OF reached_expect[OF assms(1)]], simp)
    apply (drule reached_expect, rule plain_simps(20))
    apply (simp only: fst_conv snd_conv bindR.simps)
    apply (rule assms(2), erule reached_mono, clarsimp, blast)
    done
qed

lemma parseFunctionDecl_post:
  assumes "in_range inp ps" "Parser_check inp KwFn ps"
  shows "wpR (parseFunctionDecl inp ps) (item_post inp ps)"
  unfolding parseFunctionDecl_def
  apply (rule step_keyword[OF assms], simp)
  apply (simp only: case_prod_conv, erule step_text)
  apply (simp only: case_prod_conv, erule step_expect_snd, simp)
  apply (erule step_params, simp only: case_prod_conv)
  apply (rule wpR_let, drule reached_params, erule step_expect_snd, simp)
  apply (erule (1) step_type, simp only: case_prod_conv)
  apply (erule step_body, simp only: case_prod_conv)
  apply (simp add: item_post_def reached_def, erule conjE, erule spelled_mono)
  apply fastforce
  done

lemma parseConstDecl_post:
  assumes "in_range inp ps" "Parser_check inp KwConst ps"
  shows "wpR (parseConstDecl inp ps) (item_post inp ps)"
  unfolding parseConstDecl_def
  apply (rule step_keyword[OF assms], simp)
  apply (simp only: case_prod_conv, erule step_text)
  apply (simp only: case_prod_conv, erule step_expect_snd, simp)
  apply (erule (1) step_type, simp only: case_prod_conv)
  apply (erule step_expect_snd, simp)
  apply (erule step_expr, simp only: case_prod_conv, erule step_expect, simp, simp only: case_prod_conv)
  apply (simp add: item_post_def reached_def, erule conjE, erule spelled_mono)
  apply fastforce
  done

lemma parseItem_post:
  assumes "in_range inp ps" "\<not> Parser_isAtEnd inp ps"
  shows "wpR (parseItem inp ps) (\<lambda>(io, ps').
    spelled inp ps (\<lambda>w. \<exists>i. io = Some i \<and> item_spells i w) ps' \<and>
    (if io = None then ps_current ps' = ps_current ps else ps_current ps < ps_current ps'))"
proof -
  have some: "wpR (bindR m (\<lambda>(i, ps1). Ok (Some i, ps1))) (\<lambda>(io, ps').
      spelled inp ps (\<lambda>w. \<exists>i. io = Some i \<and> item_spells i w) ps' \<and>
      (if io = None then ps_current ps' = ps_current ps else ps_current ps < ps_current ps'))"
    if "wpR m (item_post inp ps)" for m
    by (rule wpR_bindI[OF that]) (auto simp: item_post_def)
  show ?thesis
    using some[OF parseFunctionDecl_post[OF assms(1)]] some[OF parseConstDecl_post[OF assms(1)]]
      error_spelled[OF assms(1)]
    by (simp add: parseItem_def)
qed

text \<open>The loop over the items: it ends at an end-of-file token, everything before it consumed.\<close>

lemma parseItems_post:
  "\<lbrakk>in_range inp ps; remaining inp ps \<le> n\<rbrakk> \<Longrightarrow>
    wpR (parseItems inp n ps) (\<lambda>(is, ps'). spelled inp ps (items_spell is) ps' \<and> Parser_isAtEnd inp ps')"
proof (induction n arbitrary: ps)
  case 0
  then show ?case by (simp add: in_range_def remaining_def)
next
  case (Suc n)
  show ?case
  proof (cases "Parser_isAtEnd inp ps")
    case True
    have "items_spell [] []" by (simp add: items_spell_def)
    then show ?thesis
      using True spelled_ran[OF ran_refl[OF Suc.prems(1)]] by (auto elim!: spelled_mono)
  next
    case False
    have step: "wpR (case item of
          Some i \<Rightarrow> bindR (parseItems inp n ps1) (\<lambda>(rest, ps2). Ok (i # rest, ps2))
        | None \<Rightarrow> parseItems inp n (snd (Parser_advance inp ps1)))
      (\<lambda>(is, ps'). spelled inp ps (items_spell is) ps' \<and> Parser_isAtEnd inp ps')"
      if r: "spelled inp ps (\<lambda>w. \<exists>i. item = Some i \<and> item_spells i w) ps1"
        "if item = None then ps_current ps1 = ps_current ps else ps_current ps < ps_current ps1"
      for item ps1
    proof (cases item)
      case None
      have in1: "in_range inp ps1" by (rule spelled_in_range[OF r(1)])
      have more: "\<not> Parser_isAtEnd inp ps1" using same_cursor(2)[of ps1 ps] r(2) None False by simp
      have e: "spelled inp ps (\<lambda>_. False) ps1" using r(1) None by simp
      have adv: "spelled inp ps (\<lambda>_. False) (snd (Parser_advance inp ps1))"
        using spelled_append[OF e spelled_ran[OF advance_ran(1)[OF in1 more]]] by simp
      have "remaining inp (snd (Parser_advance inp ps1)) \<le> n"
        using advance_ran(2)[OF in1 more] r(2) None Suc.prems by (simp add: remaining_def)
      from Suc.IH[OF spelled_in_range[OF adv] this] None show ?thesis
        by (auto intro: spelled_append[OF adv] elim!: wpR_mono)
    next
      case (Some i)
      have "remaining inp ps1 \<le> n" using r(2) Some Suc.prems by (simp add: remaining_def in_range_def)
      note IH = Suc.IH[OF spelled_in_range[OF r(1)] this]
      have "items_spell (i # is) (v @ w)" if iv: "item_spells i v" and isw: "items_spell is w" for v w "is"
      proof -
        obtain ws where "list_all2 item_spells is ws" "w = concat ws"
          using isw by (auto simp: items_spell_def)
        then show ?thesis
          using iv unfolding items_spell_def by (intro exI[of _ "v # ws"]) simp
      qed
      then have "wpR (bindR (parseItems inp n ps1) (\<lambda>(rest, ps2). Ok (i # rest, ps2)))
        (\<lambda>(is, ps'). spelled inp ps (items_spell is) ps' \<and> Parser_isAtEnd inp ps')"
        using Some by (intro wpR_bindI[OF IH]) (auto intro!: spelled_append[OF r(1)])
      with Some show ?thesis by simp
    qed
    show ?thesis
      unfolding parseItems.simps if_not_P[OF False]
      by (rule wpR_bindI[OF parseItem_post[OF Suc.prems(1) False]])
        (use step in \<open>auto simp del: wpR.simps\<close>)
  qed
qed

end

end
