(* ===== verification/AstDump.thy ===== *)
theory AstDump
  imports Ast "HOL-Library.Multiset"
begin

text \<open>
  The two views of the tree in \<open>src/frontend/ast.cpp\<close>: \<open>AstDumper\<close>, an indented listing, and
  \<open>AstDotDumper\<close>, a Graphviz graph. Both follow the tree's pointers without a check, so a tree
  with a null body (the parser builds one after a syntax error) is undefined behaviour: the
  model returns \<open>None\<close>.
\<close>

section \<open>The indented listing\<close>

definition dumpLine :: "nat \<Rightarrow> string \<Rightarrow> string" where
  "dumpLine indent s = replicate indent (CHR '' '') @ s @ [newline]"

fun dumpExpr :: "nat \<Rightarrow> Expr \<Rightarrow> string" where
  "dumpExpr n (IntegerLiteralExpr sp raw) = dumpLine n (''IntegerLiteral '' @ raw)"
| "dumpExpr n (FloatLiteralExpr sp raw) = dumpLine n (''FloatLiteral '' @ raw)"
| "dumpExpr n (BoolLiteralExpr sp v) =
     dumpLine n (''BoolLiteral '' @ (if v then ''true'' else ''false''))"
| "dumpExpr n (StringLiteralExpr sp raw) = dumpLine n (''StringLiteral '' @ raw)"
| "dumpExpr n (NameExpr sp name) = dumpLine n (''NameExpr '' @ name)"
| "dumpExpr n (CallExpr sp callee arguments) =
     dumpLine n ''CallExpr'' @ dumpLine (n + 2) ''Callee'' @ dumpExpr (n + 4) callee @
     dumpLine (n + 2) ''Arguments'' @ concat (map (dumpExpr (n + 4)) arguments)"
| "dumpExpr n (UnaryExpr sp op operand) =
     dumpLine n (''UnaryExpr '' @ tokenKindName op) @ dumpExpr (n + 2) operand"
| "dumpExpr n (BinaryExpr sp left op right) =
     dumpLine n (''BinaryExpr '' @ tokenKindName op) @ dumpExpr (n + 2) left @ dumpExpr (n + 2) right"
| "dumpExpr n (ParenExpr sp inner) = dumpLine n ''ParenExpr'' @ dumpExpr (n + 2) inner"
| "dumpExpr n (ArrayLiteralExpr sp elements) =
     dumpLine n ''ArrayLiteralExpr'' @ concat (map (dumpExpr (n + 2)) elements)"
| "dumpExpr n (IndexExpr sp base index) =
     dumpLine n ''IndexExpr'' @ dumpLine (n + 2) ''Base'' @ dumpExpr (n + 4) base @
     dumpLine (n + 2) ''Index'' @ dumpExpr (n + 4) index"

text \<open>Output in pieces, any of which may follow a null pointer.\<close>

fun joinO :: "string option list \<Rightarrow> string option" where
  "joinO [] = Some []"
| "joinO (None # ps) = None"
| "joinO (Some s # ps) = map_option ((@) s) (joinO ps)"

definition letHeader :: "string \<Rightarrow> string \<Rightarrow> TypeSyntax \<Rightarrow> string" where
  "letHeader heading name type =
     heading @ name @ (if hasExplicitTypeSyntax type then '': '' @ formatTypeSyntax type
                      else '': <inferred>'')"

fun dumpStmt :: "nat \<Rightarrow> Stmt \<Rightarrow> string option" where
  "dumpStmt n (BlockStmt sp statements) =
     joinO (Some (dumpLine n ''BlockStmt'') # map (dumpStmt (n + 2)) statements)"
| "dumpStmt n (LetStmt sp isMutable name nameSpan type init) =
     Some (dumpLine n (letHeader (if isMutable then ''LetStmt mut '' else ''LetStmt '') name type) @
       (case init of Some e \<Rightarrow> dumpExpr (n + 2) e | None \<Rightarrow> dumpLine (n + 2) ''(uninitialized)''))"
| "dumpStmt n (AssignStmt sp target v) =
     Some (dumpLine n ''AssignStmt'' @ dumpLine (n + 2) ''Target'' @ dumpExpr (n + 4) target @
       dumpLine (n + 2) ''Value'' @ dumpExpr (n + 4) v)"
| "dumpStmt n (ReturnStmt sp v) =
     Some (dumpLine n ''ReturnStmt'' @ (case v of Some e \<Rightarrow> dumpExpr (n + 2) e | None \<Rightarrow> []))"
| "dumpStmt n (IfStmt sp condition thenBranch elseBranch) =
     joinO [Some (dumpLine n ''IfStmt'' @ dumpLine (n + 2) ''Condition'' @ dumpExpr (n + 4) condition @
              dumpLine (n + 2) ''Then''),
            (case thenBranch of None \<Rightarrow> None | Some s \<Rightarrow> dumpStmt (n + 4) s),
            (case elseBranch of None \<Rightarrow> Some []
             | Some s \<Rightarrow> joinO [Some (dumpLine (n + 2) ''Else''), dumpStmt (n + 4) s])]"
| "dumpStmt n (WhileStmt sp condition body) =
     joinO [Some (dumpLine n ''WhileStmt'' @ dumpLine (n + 2) ''Condition'' @
              dumpExpr (n + 4) condition @ dumpLine (n + 2) ''Body''),
            (case body of None \<Rightarrow> None | Some s \<Rightarrow> dumpStmt (n + 4) s)]"
| "dumpStmt n (ForStmt sp init condition step body) =
     joinO [Some (dumpLine n ''ForStmt''),
            (case init of None \<Rightarrow> Some []
             | Some s \<Rightarrow> joinO [Some (dumpLine (n + 2) ''Init''), dumpStmt (n + 4) s]),
            Some (case condition of None \<Rightarrow> []
                  | Some e \<Rightarrow> dumpLine (n + 2) ''Condition'' @ dumpExpr (n + 4) e),
            (case step of None \<Rightarrow> Some []
             | Some s \<Rightarrow> joinO [Some (dumpLine (n + 2) ''Step''), dumpStmt (n + 4) s]),
            Some (dumpLine (n + 2) ''Body''),
            (case body of None \<Rightarrow> None | Some s \<Rightarrow> dumpStmt (n + 4) s)]"
| "dumpStmt n (CallStmt sp callSpan callee arguments) =
     Some (dumpLine n ''CallStmt'' @ dumpExpr (n + 2) (CallExpr callSpan callee arguments))"
| "dumpStmt n (BreakStmt sp) = Some (dumpLine n ''BreakStmt'')"
| "dumpStmt n (ContinueStmt sp) = Some (dumpLine n ''ContinueStmt'')"

fun dumpItem :: "nat \<Rightarrow> Item \<Rightarrow> string option" where
  "dumpItem n (FunctionDecl sp name nameSpan parameters returnType bodySpan body) =
     joinO [Some (dumpLine n (''FunctionDecl '' @ name) @ dumpLine (n + 2) ''Parameters'' @
              concat (map (\<lambda>p. dumpLine (n + 4)
                (''Parameter '' @ pr_name p @ '': '' @ formatTypeSyntax (pr_type p))) parameters) @
              dumpLine (n + 2) (''ReturnType '' @ formatTypeSyntax returnType)),
            dumpStmt (n + 2) (BlockStmt bodySpan body)]"
| "dumpItem n (ConstDecl sp name nameSpan type init) =
     Some (dumpLine n (''ConstDecl '' @ name @ '': '' @ formatTypeSyntax type) @ dumpExpr (n + 2) init)"

definition dumpAst :: "TranslationUnit \<Rightarrow> string option" where
  "dumpAst unit = joinO (Some (dumpLine 0 ''TranslationUnit'') # map (dumpItem 2) unit)"

section \<open>The graph\<close>

fun dotEscape :: "string \<Rightarrow> string" where
  "dotEscape [] = []"
| "dotEscape (c # cs) =
     (if c = CHR 0x5C then [CHR 0x5C, CHR 0x5C]
      else if c = CHR 0x22 then [CHR 0x5C, CHR 0x22]
      else if c = newline then [CHR 0x5C, CHR ''n'']
      else [c]) @ dotEscape cs"

text \<open>A statement of the graph, and the text \<open>node\<close> and \<open>edge\<close> write for it.\<close>

datatype dot_line = DotNode nat string | DotEdge nat nat string

definition quoteDot :: "string \<Rightarrow> string" where
  "quoteDot label = '' [label='' @ [CHR 0x22] @ dotEscape label @ [CHR 0x22] @ '']''"

fun dotText :: "dot_line \<Rightarrow> string" where
  "dotText (DotNode i label) = ''  n'' @ to_string i @ quoteDot label @ '';'' @ [newline]"
| "dotText (DotEdge a b label) =
     ''  n'' @ to_string a @ '' -> n'' @ to_string b @ (if label \<noteq> [] then quoteDot label else []) @
     '';'' @ [newline]"

text \<open>
  The dumper's state is \<open>nextId_\<close>; an action takes it and returns a value, the lines written
  and the new \<open>nextId_\<close>, or \<open>None\<close> after a null pointer.
\<close>

type_synonym 'a dot = "nat \<Rightarrow> ('a \<times> dot_line list \<times> nat) option"

definition returnD :: "'a \<Rightarrow> 'a dot" where
  "returnD x n = Some (x, [], n)"

definition nullD :: "'a dot" where
  "nullD n = None"

definition bindD :: "'a dot \<Rightarrow> ('a \<Rightarrow> 'b dot) \<Rightarrow> 'b dot" where
  "bindD m f n =
     (case m n of None \<Rightarrow> None
      | Some (x, ls, n1) \<Rightarrow>
          (case f x n1 of None \<Rightarrow> None | Some (y, ls', n2) \<Rightarrow> Some (y, ls @ ls', n2)))"

definition dotNode :: "string \<Rightarrow> nat dot" where
  "dotNode label n = Some (n, [DotNode n label], n + 1)"

definition dotEdge :: "nat \<Rightarrow> nat \<Rightarrow> string \<Rightarrow> unit dot" where
  "dotEdge a b label n = Some ((), [DotEdge a b label], n)"

text \<open>\<open>edge(id, dump(child), role)\<close>, and a node with such children in order.\<close>

definition childD :: "nat \<Rightarrow> string \<times> nat dot \<Rightarrow> unit dot" where
  "childD i c = bindD (snd c) (\<lambda>b. dotEdge i b (fst c))"

primrec childrenD :: "nat \<Rightarrow> (string \<times> nat dot) list \<Rightarrow> unit dot" where
  "childrenD i [] = returnD ()"
| "childrenD i (c # cs) = bindD (childD i c) (\<lambda>_. childrenD i cs)"

definition treeD :: "string \<Rightarrow> (string \<times> nat dot) list \<Rightarrow> nat dot" where
  "treeD label cs = bindD (dotNode label) (\<lambda>i. bindD (childrenD i cs) (\<lambda>_. returnD i))"

definition titled :: "string \<Rightarrow> string \<Rightarrow> string" where
  "titled kind s = kind @ [newline] @ s"

fun dotExpr :: "Expr \<Rightarrow> nat dot" where
  "dotExpr (IntegerLiteralExpr sp raw) = treeD (titled ''IntegerLiteral'' raw) []"
| "dotExpr (FloatLiteralExpr sp raw) = treeD (titled ''FloatLiteral'' raw) []"
| "dotExpr (BoolLiteralExpr sp v) = treeD (titled ''BoolLiteral'' (if v then ''true'' else ''false'')) []"
| "dotExpr (StringLiteralExpr sp raw) = treeD (titled ''StringLiteral'' raw) []"
| "dotExpr (NameExpr sp name) = treeD (titled ''NameExpr'' name) []"
| "dotExpr (CallExpr sp callee arguments) =
     treeD ''CallExpr'' ((''callee'', dotExpr callee) # map (\<lambda>a. (''arg'', dotExpr a)) arguments)"
| "dotExpr (UnaryExpr sp op operand) =
     treeD (titled ''UnaryExpr'' (tokenKindName op)) [(''operand'', dotExpr operand)]"
| "dotExpr (BinaryExpr sp left op right) =
     treeD (titled ''BinaryExpr'' (tokenKindName op)) [(''left'', dotExpr left), (''right'', dotExpr right)]"
| "dotExpr (ParenExpr sp inner) = treeD ''ParenExpr'' [(''inner'', dotExpr inner)]"
| "dotExpr (ArrayLiteralExpr sp elements) =
     treeD ''ArrayLiteralExpr'' (map (\<lambda>e. (''elem'', dotExpr e)) elements)"
| "dotExpr (IndexExpr sp base index) =
     treeD ''IndexExpr'' [(''base'', dotExpr base), (''index'', dotExpr index)]"

definition optionalD :: "string \<Rightarrow> Expr option \<Rightarrow> (string \<times> nat dot) list" where
  "optionalD role e = (case e of None \<Rightarrow> [] | Some e \<Rightarrow> [(role, dotExpr e)])"

fun dotStmt :: "Stmt \<Rightarrow> nat dot" where
  "dotStmt (BlockStmt sp statements) = treeD ''BlockStmt'' (map (\<lambda>s. ([], dotStmt s)) statements)"
| "dotStmt (LetStmt sp isMutable name nameSpan type init) =
     treeD (letHeader (titled (if isMutable then ''LetStmt mut'' else ''LetStmt'') []) name type)
       (optionalD ''init'' init)"
| "dotStmt (AssignStmt sp target v) =
     treeD ''AssignStmt'' [(''target'', dotExpr target), (''value'', dotExpr v)]"
| "dotStmt (ReturnStmt sp v) = treeD ''ReturnStmt'' (optionalD ''value'' v)"
| "dotStmt (IfStmt sp condition thenBranch elseBranch) =
     treeD ''IfStmt''
       ([(''condition'', dotExpr condition),
         (''then'', case thenBranch of None \<Rightarrow> nullD | Some s \<Rightarrow> dotStmt s)] @
        (case elseBranch of None \<Rightarrow> [] | Some s \<Rightarrow> [(''else'', dotStmt s)]))"
| "dotStmt (WhileStmt sp condition body) =
     treeD ''WhileStmt''
       [(''condition'', dotExpr condition),
        (''body'', case body of None \<Rightarrow> nullD | Some s \<Rightarrow> dotStmt s)]"
| "dotStmt (ForStmt sp init condition step body) =
     treeD ''ForStmt''
       ((case init of None \<Rightarrow> [] | Some s \<Rightarrow> [(''init'', dotStmt s)]) @
        optionalD ''condition'' condition @
        (case step of None \<Rightarrow> [] | Some s \<Rightarrow> [(''step'', dotStmt s)]) @
        [(''body'', case body of None \<Rightarrow> nullD | Some s \<Rightarrow> dotStmt s)])"
| "dotStmt (CallStmt sp callSpan callee arguments) =
     treeD ''CallStmt'' [([], dotExpr (CallExpr callSpan callee arguments))]"
| "dotStmt (BreakStmt sp) = treeD ''BreakStmt'' []"
| "dotStmt (ContinueStmt sp) = treeD ''ContinueStmt'' []"

fun dotItem :: "Item \<Rightarrow> nat dot" where
  "dotItem (FunctionDecl sp name nameSpan parameters returnType bodySpan body) =
     bindD (dotNode (titled ''FunctionDecl'' name)) (\<lambda>i.
     bindD (dotNode ''Parameters'') (\<lambda>params.
     bindD (dotEdge i params []) (\<lambda>_.
     bindD (childrenD params
       (map (\<lambda>p. ([], dotNode (titled ''Parameter''
          (pr_name p @ '': '' @ formatTypeSyntax (pr_type p))))) parameters)) (\<lambda>_.
     bindD (childrenD i
       [([], dotNode (titled ''ReturnType'' (formatTypeSyntax returnType))),
        (''body'', dotStmt (BlockStmt bodySpan body))]) (\<lambda>_.
     returnD i)))))"
| "dotItem (ConstDecl sp name nameSpan type init) =
     treeD (titled ''ConstDecl'' (name @ '': '' @ formatTypeSyntax type)) [(''init'', dotExpr init)]"

definition dotUnit :: "TranslationUnit \<Rightarrow> nat dot" where
  "dotUnit unit = treeD ''TranslationUnit'' (map (\<lambda>i. ([], dotItem i)) unit)"

definition dumpAstDot :: "TranslationUnit \<Rightarrow> string option" where
  "dumpAstDot unit =
     map_option (\<lambda>(root, ls, n).
       ''digraph NEX_AST {'' @ [newline] @ ''  graph [rankdir=TB];'' @ [newline] @
       ''  node [shape=box, fontname='' @ [CHR 0x22] @ ''monospace'' @ [CHR 0x22] @ ''];'' @ [newline] @
       ''  edge [fontname='' @ [CHR 0x22] @ ''monospace'' @ [CHR 0x22] @ ''];'' @ [newline] @
       concat (map dotText ls) @ ''}'' @ [newline])
     (dotUnit unit 0)"

section \<open>The listing is defined exactly on complete trees\<close>

lemma joinO_None: "joinO ps = None \<longleftrightarrow> None \<in> set ps"
  by (induction ps rule: joinO.induct) auto

lemma dumpStmt_None: "dumpStmt n s = None \<longleftrightarrow> \<not> stmt_complete s"
proof (induction n s rule: dumpStmt.induct)
  case (1 n sp statements)
  then show ?case by (auto simp: joinO_None list_all_iff image_iff)
      (metis option.distinct(1))+
qed (auto simp: joinO_None split: option.splits)

lemma dumpItem_None: "dumpItem n i = None \<longleftrightarrow> \<not> item_complete i"
proof (cases i)
  case (FunctionDecl sp name nameSpan parameters returnType bodySpan body)
  have "dumpStmt (n + 2) (BlockStmt bodySpan body) = None \<longleftrightarrow> \<not> list_all stmt_complete body"
    by (simp only: dumpStmt_None stmt_complete.simps)
  then show ?thesis using FunctionDecl by (auto simp: joinO_None simp del: dumpStmt.simps)
qed simp

lemma dumpAst_None: "dumpAst unit = None \<longleftrightarrow> \<not> list_all item_complete unit"
  by (auto simp: dumpAst_def joinO_None list_all_iff image_iff dumpItem_None eq_commute[of None])

section \<open>The graph is a tree\<close>

fun node_ids :: "dot_line list \<Rightarrow> nat list" where
  "node_ids [] = []"
| "node_ids (DotNode i label # ls) = i # node_ids ls"
| "node_ids (DotEdge a b label # ls) = node_ids ls"

fun edges :: "dot_line list \<Rightarrow> (nat \<times> nat) list" where
  "edges [] = []"
| "edges (DotNode i label # ls) = edges ls"
| "edges (DotEdge a b label # ls) = (a, b) # edges ls"

lemma node_ids_append [simp]: "node_ids (xs @ ys) = node_ids xs @ node_ids ys"
  by (induction xs rule: node_ids.induct) simp_all

lemma edges_append [simp]: "edges (xs @ ys) = edges xs @ edges ys"
  by (induction xs rule: edges.induct) simp_all

text \<open>
  A piece of the graph made of the nodes \<open>n .. m - 1\<close>, declared in that order, in which every
  node from \<open>k\<close> on has exactly one parent, declared before it and not before \<open>r\<close>.
\<close>

definition forest :: "nat \<Rightarrow> nat \<Rightarrow> nat \<Rightarrow> nat \<Rightarrow> dot_line list \<Rightarrow> bool" where
  "forest r n k m ls \<longleftrightarrow>
     n \<le> m \<and> node_ids ls = [n..<m] \<and> mset (map snd (edges ls)) = mset [k..<m] \<and>
     (\<forall>(a, b) \<in> set (edges ls). r \<le> a \<and> a < b)"

definition dot_tree :: "nat dot \<Rightarrow> bool" where
  "dot_tree m \<longleftrightarrow>
     (\<forall>n i ls n'. m n = Some (i, ls, n') \<longrightarrow> i = n \<and> n < n' \<and> forest n n (Suc n) n' ls)"

lemma upt_split: "i \<le> j \<Longrightarrow> j \<le> k \<Longrightarrow> [i..<k] = [i..<j] @ [j..<k]"
  using upt_add_eq_append[of i j "k - j"] by simp

lemma forest_append:
  assumes "forest r n n m ls" "forest r m m l ls'"
  shows "forest r n n l (ls @ ls')"
  using assms upt_split[of n m l] unfolding forest_def by auto

lemma forest_child:
  assumes "forest n n (Suc n) m ls" "r < n" "n < m"
  shows "forest r n n m (ls @ [DotEdge r n label])"
proof -
  have "mset [n..<m] = mset [Suc n..<m] + {#n#}" using assms(3) by (simp add: upt_conv_Cons)
  then show ?thesis using assms unfolding forest_def by auto
qed

lemma childrenD_forest:
  "\<lbrakk>\<forall>c \<in> set cs. dot_tree (snd c); r < n; childrenD r cs n = Some (u, ls, n')\<rbrakk> \<Longrightarrow>
    forest r n n n' ls"
proof (induction cs arbitrary: n ls)
  case Nil
  then show ?case by (simp add: returnD_def forest_def)
next
  case (Cons c cs)
  obtain i ls1 n1 where c: "snd c n = Some (i, ls1, n1)"
    using Cons.prems(3) by (auto simp: bindD_def childD_def split: option.splits)
  then obtain ls2 where ls2: "childrenD r cs n1 = Some (u, ls2, n')"
    "ls = (ls1 @ [DotEdge r i (fst c)]) @ ls2"
    using Cons.prems(3) by (auto simp: bindD_def childD_def dotEdge_def split: option.splits)
  have t: "i = n" "n < n1" "forest n n (Suc n) n1 ls1" using Cons.prems(1) c by (auto simp: dot_tree_def)
  have "forest r n n n1 (ls1 @ [DotEdge r i (fst c)])"
    using forest_child[OF t(3) Cons.prems(2) t(2)] t(1) by simp
  moreover have "forest r n1 n1 n' ls2" using Cons.IH[OF _ _ ls2(1)] Cons.prems t by simp
  ultimately show ?case using forest_append ls2(2) by blast
qed

lemma forest_node: "forest n (Suc n) (Suc n) m ls \<Longrightarrow> forest n n (Suc n) m (DotNode n label # ls)"
  by (auto simp: forest_def upt_conv_Cons)

lemma treeD_tree:
  assumes "\<forall>c \<in> set cs. dot_tree (snd c)"
  shows "dot_tree (treeD label cs)"
  unfolding dot_tree_def
proof (intro allI impI)
  fix n i ls n' assume r: "treeD label cs n = Some (i, ls, n')"
  then obtain ls1 where ls1: "childrenD n cs (Suc n) = Some ((), ls1, n')" "i = n" "ls = DotNode n label # ls1"
    by (auto simp: treeD_def bindD_def dotNode_def returnD_def split: option.splits)
  have f: "forest n (Suc n) (Suc n) n' ls1" using childrenD_forest[OF assms _ ls1(1)] by simp
  then show "i = n \<and> n < n' \<and> forest n n (Suc n) n' ls"
    using forest_node[OF f] ls1 by (auto simp: forest_def)
qed

lemma dot_tree_node: "dot_tree (dotNode label)"
  by (auto simp: dot_tree_def dotNode_def forest_def)

lemma dot_tree_null: "dot_tree nullD"
  by (simp add: dot_tree_def nullD_def)

lemma dotExpr_tree: "dot_tree (dotExpr e)"
  by (induction e rule: dotExpr.induct) (auto intro!: treeD_tree)

lemma optionalD_tree: "(a, b) \<in> set (optionalD role e) \<Longrightarrow> dot_tree b"
  by (auto simp: optionalD_def dotExpr_tree split: option.splits)

lemma dotStmt_tree: "dot_tree (dotStmt s)"
  by (induction s rule: dotStmt.induct)
    (auto intro!: treeD_tree simp: dotExpr_tree optionalD_tree dot_tree_null simp del: dotExpr.simps
      split: option.splits)

lemma dotItem_tree: "dot_tree (dotItem i)"
proof (cases i)
  case (FunctionDecl sp name nameSpan parameters returnType bodySpan body)
  show ?thesis
    unfolding dot_tree_def
  proof (intro allI impI)
    fix n j ls n' assume r: "dotItem i n = Some (j, ls, n')"
    define ps where "ps = map (\<lambda>p. ([] :: string, dotNode (titled ''Parameter''
      (pr_name p @ '': '' @ formatTypeSyntax (pr_type p))))) parameters"
    define rs where "rs = [([], dotNode (titled ''ReturnType'' (formatTypeSyntax returnType))),
        (''body'', dotStmt (BlockStmt bodySpan body))]"
    obtain ls1 n1 ls2 where l: "childrenD (Suc n) ps (Suc (Suc n)) = Some ((), ls1, n1)"
      "childrenD n rs n1 = Some ((), ls2, n')" "j = n"
      "ls = DotNode n (titled ''FunctionDecl'' name) #
        (([DotNode (Suc n) ''Parameters'', DotEdge n (Suc n) []] @ ls1) @ ls2)"
      using r unfolding FunctionDecl dotItem.simps ps_def[symmetric] rs_def[symmetric]
      by (auto simp: bindD_def dotNode_def dotEdge_def returnD_def split: option.splits)
    have f1: "forest (Suc n) (Suc (Suc n)) (Suc (Suc n)) n1 ls1"
      by (rule childrenD_forest[OF _ _ l(1)]) (auto simp: ps_def dot_tree_node)
    have le: "Suc (Suc n) \<le> n1" using f1 by (simp add: forest_def)
    have f2: "forest n n1 n1 n' ls2"
      by (rule childrenD_forest[OF _ _ l(2)]) (use le in \<open>auto simp: rs_def dot_tree_node dotStmt_tree simp del: dotStmt.simps\<close>)
    have "forest n (Suc n) (Suc n) n1 ([DotNode (Suc n) ''Parameters'', DotEdge n (Suc n) []] @ ls1)"
      using f1 by (auto simp: forest_def upt_conv_Cons)
    from forest_node[OF forest_append[OF this f2]] l le
    show "j = n \<and> n < n' \<and> forest n n (Suc n) n' ls"
      using f2 by (auto simp: forest_def)
  qed
next
  case (ConstDecl sp name nameSpan type init)
  then show ?thesis by (auto intro!: treeD_tree simp: dotExpr_tree)
qed

lemma dotUnit_tree: "dot_tree (dotUnit unit)"
  unfolding dotUnit_def by (rule treeD_tree) (auto simp: dotItem_tree)

section \<open>The graph is defined exactly on complete trees\<close>

definition defined_iff :: "'a dot \<Rightarrow> bool \<Rightarrow> bool" where
  "defined_iff m b \<longleftrightarrow> (\<forall>n. m n = None \<longleftrightarrow> \<not> b)"

lemma defined_iff_bind:
  assumes "defined_iff m b" "\<And>x. defined_iff (f x) c"
  shows "defined_iff (bindD m f) (b \<and> c)"
  unfolding defined_iff_def
proof
  fix n
  show "bindD m f n = None \<longleftrightarrow> \<not> (b \<and> c)"
    using assms by (cases "m n") (auto simp: defined_iff_def bindD_def split: option.splits; metis option.distinct(1))+
qed

lemma defined_iff_return: "defined_iff (returnD x) True"
  by (simp add: defined_iff_def returnD_def)

lemma defined_iff_edge: "defined_iff (dotEdge a b l) True"
  by (simp add: defined_iff_def dotEdge_def)

lemma dotNode_defined: "defined_iff (dotNode label) True"
  by (simp add: defined_iff_def dotNode_def)

lemma defined_iff_cong: "defined_iff m b \<Longrightarrow> b = c \<Longrightarrow> defined_iff m c"
  by simp

lemma childD_defined: "defined_iff (snd c) b \<Longrightarrow> defined_iff (childD i c) b"
  unfolding childD_def by (rule defined_iff_cong, rule defined_iff_bind, assumption, rule defined_iff_edge) simp

lemma childrenD_defined:
  "\<forall>c \<in> set cs. defined_iff (snd c) (P c) \<Longrightarrow> defined_iff (childrenD i cs) (\<forall>c \<in> set cs. P c)"
proof (induction cs)
  case Nil
  show ?case by (simp add: defined_iff_return)
next
  case (Cons c cs)
  have "defined_iff (bindD (childD i c) (\<lambda>_. childrenD i cs)) (P c \<and> (\<forall>c \<in> set cs. P c))"
    by (rule defined_iff_bind) (use Cons in \<open>auto intro: childD_defined\<close>)
  then show ?case by simp
qed

lemma treeD_defined:
  assumes "\<forall>c \<in> set cs. defined_iff (snd c) (P c)"
  shows "defined_iff (treeD label cs) (\<forall>c \<in> set cs. P c)"
proof -
  have "defined_iff (treeD label cs) (True \<and> ((\<forall>c \<in> set cs. P c) \<and> True))"
    unfolding treeD_def
    by (intro defined_iff_bind dotNode_defined childrenD_defined[OF assms] defined_iff_return)
  then show ?thesis by simp
qed

lemma treeD_total: "\<forall>c \<in> set cs. defined_iff (snd c) True \<Longrightarrow> defined_iff (treeD label cs) True"
  using treeD_defined[of cs "\<lambda>_. True" label] by simp

lemma defined_iff_0: "defined_iff m b \<Longrightarrow> m 0 = None \<longleftrightarrow> \<not> b"
  by (simp add: defined_iff_def)

lemma treeD_defined_by:
  assumes "\<forall>c \<in> set cs. \<exists>b. defined_iff (snd c) b" "(\<exists>c \<in> set cs. snd c 0 = None) = (\<not> b)"
  shows "defined_iff (treeD label cs) b"
proof -
  have "\<forall>c \<in> set cs. defined_iff (snd c) (snd c 0 \<noteq> None)"
  proof
    fix c assume "c \<in> set cs"
    then obtain b where b: "defined_iff (snd c) b" using assms(1) by blast
    with defined_iff_0[OF this] show "defined_iff (snd c) (snd c 0 \<noteq> None)" by simp
  qed
  moreover have "(\<forall>c \<in> set cs. snd c 0 \<noteq> None) = b" using assms(2) by metis
  ultimately show ?thesis by (rule defined_iff_cong[OF treeD_defined])
qed

lemma nullD_defined: "defined_iff nullD False"
  by (simp add: defined_iff_def nullD_def)

lemma dotExpr_defined: "defined_iff (dotExpr e) True"
  by (induction e rule: dotExpr.induct) (auto intro!: treeD_total)

lemma optionalD_defined: "(a, b) \<in> set (optionalD role e) \<Longrightarrow> defined_iff b True"
  by (auto simp: optionalD_def dotExpr_defined split: option.splits)

lemma optionalD_defined_0: "(a, b) \<in> set (optionalD role e) \<Longrightarrow> b 0 \<noteq> None"
  using optionalD_defined defined_iff_0 by blast

lemmas leaf_defined = dotExpr_defined optionalD_defined nullD_defined dotNode_defined
lemmas leaf_defined_0 = leaf_defined[THEN defined_iff_0]

lemma dotStmt_defined: "defined_iff (dotStmt s) (stmt_complete s)"
proof (induction s rule: dotStmt.induct)
  case (1 sp statements)
  have ih: "dotStmt s 0 = None \<longleftrightarrow> \<not> stmt_complete s" if "s \<in> set statements" for s
    using 1[OF that] by (rule defined_iff_0)
  show ?case unfolding dotStmt.simps
    by (rule treeD_defined_by) (use 1 ih in \<open>auto simp: list_all_iff\<close>)
next
  case (5 sp condition thenBranch elseBranch)
  show ?case unfolding dotStmt.simps
    by (rule treeD_defined_by)
      (use 5 in \<open>auto simp: leaf_defined_0 dest!: defined_iff_0 intro: leaf_defined split: option.splits\<close>)
next
  case (6 sp condition body)
  show ?case unfolding dotStmt.simps
    by (rule treeD_defined_by)
      (use 6 in \<open>auto simp: leaf_defined_0 dest!: defined_iff_0 intro: leaf_defined split: option.splits\<close>)
next
  case (7 sp init condition step body)
  have o: "(a, b) \<in> set (optionalD ''condition'' condition) \<Longrightarrow> Ex (defined_iff b)" for a b
    using optionalD_defined by blast
  have z: "Ex (defined_iff nullD)" using nullD_defined by blast
  show ?case unfolding dotStmt.simps
    by (rule treeD_defined_by)
      (use 7 o z optionalD_defined_0 in \<open>auto simp: leaf_defined_0 dest!: defined_iff_0 split: option.splits\<close>)
qed (auto intro!: treeD_total simp: leaf_defined simp del: dotExpr.simps)

lemma dotItem_defined: "defined_iff (dotItem i) (item_complete i)"
proof (cases i)
  case (FunctionDecl sp name nameSpan parameters returnType bodySpan body)
  have b: "defined_iff (dotStmt (BlockStmt bodySpan body)) (list_all stmt_complete body)"
    using dotStmt_defined[of "BlockStmt bodySpan body"] by (simp only: stmt_complete.simps)
  have ps: "defined_iff (childrenD k (map (\<lambda>p. ([], dotNode (f p))) parameters)) True" for k f
    using childrenD_defined[of "map (\<lambda>p. ([], dotNode (f p))) parameters" "\<lambda>_. True"]
    by (auto simp: dotNode_defined)
  have rs: "defined_iff (childrenD k [([], dotNode l), (''body'', dotStmt (BlockStmt bodySpan body))])
      (list_all stmt_complete body)" for k l
    using childrenD_defined[of "[([], dotNode l), (''body'', dotStmt (BlockStmt bodySpan body))]"
        "\<lambda>c. fst c = ''body'' \<longrightarrow> list_all stmt_complete body" k] b
    by (simp add: dotNode_defined del: dotStmt.simps childrenD.simps)
  have "defined_iff (dotItem i) (True \<and> True \<and> True \<and> True \<and> list_all stmt_complete body \<and> True)"
    unfolding FunctionDecl dotItem.simps
    by (intro defined_iff_bind dotNode_defined defined_iff_edge ps rs defined_iff_return)
  then show ?thesis using FunctionDecl by simp
next
  case (ConstDecl sp name nameSpan type init)
  then show ?thesis by (auto intro!: treeD_total simp: leaf_defined simp del: dotExpr.simps)
qed

lemma dotUnit_defined: "dotUnit unit n = None \<longleftrightarrow> \<not> list_all item_complete unit"
proof -
  have "defined_iff (dotUnit unit) (list_all item_complete unit)"
    unfolding dotUnit_def
    by (rule treeD_defined_by)
      (use dotItem_defined dotItem_defined[THEN defined_iff_0] in \<open>auto simp: list_all_iff\<close>)
  then show ?thesis by (simp add: defined_iff_def)
qed

section \<open>Labels\<close>

text \<open>A reader of a quoted DOT string: its text ends at the first quote without a backslash.\<close>

fun dotUnescape :: "string \<Rightarrow> string option" where
  "dotUnescape [] = Some []"
| "dotUnescape [c] = (if c = CHR 0x5C \<or> c = CHR 0x22 then None else Some [c])"
| "dotUnescape (c # d # s) =
     (if c = CHR 0x22 then None
      else if c = CHR 0x5C then
        map_option ((#) (if d = CHR ''n'' then newline else d)) (dotUnescape s)
      else map_option ((#) c) (dotUnescape (d # s)))"

lemma dotUnescape_Escape: "dotUnescape (dotEscape s) = Some s"
proof (induction s)
  case (Cons c s)
  have plain: "c \<noteq> CHR 0x22 \<Longrightarrow> c \<noteq> CHR 0x5C \<Longrightarrow> dotUnescape (c # t) = map_option ((#) c) (dotUnescape t)" for t
    by (cases t) auto
  show ?case using Cons plain[of "dotEscape s"] by auto
qed simp

section \<open>Properties\<close>

text \<open>C19: both dumps of a tree are defined on exactly the trees without a null body: on any other
  tree the code follows a null pointer. (The driver dumps the tree of a file with syntax errors,
  which may be such a tree.)\<close>

theorem dumpAst_defined:
  "(dumpAst unit \<noteq> None \<longleftrightarrow> list_all item_complete unit) \<and>
   (dumpAstDot unit \<noteq> None \<longleftrightarrow> list_all item_complete unit)"
  using dumpAst_None[of unit] dotUnit_defined[of unit 0] by (auto simp: dumpAstDot_def)

text \<open>C20: the graph of a dump is a tree: of a complete tree it has nodes numbered in the order they
  are written, the root is node 0, and every other node has exactly one incoming edge, from a node
  written before it.\<close>

theorem dumpAstDot_tree:
  assumes "list_all item_complete unit"
  shows "\<exists>ls n. dotUnit unit 0 = Some (0, ls, n) \<and> node_ids ls = [0..<n] \<and>
    mset (map snd (edges ls)) = mset [1..<n] \<and> list_all (\<lambda>(a, b). a < b) (edges ls)"
proof -
  obtain root ls n where r: "dotUnit unit 0 = Some (root, ls, n)"
    using assms dotUnit_defined[of unit 0] by fastforce
  then have "root = 0 \<and> forest 0 0 (Suc 0) n ls"
    using dotUnit_tree[of unit] unfolding dot_tree_def by blast
  with r show ?thesis by (auto simp: forest_def list_all_iff)
qed

lemma dumpAstDot_tree_witness:
  "\<exists>ls n. dotUnit [ConstDecl (mk_span 0 14) ''A'' (mk_span 6 7) 
      \<lparr>ts_kind = I32, ts_arrayDimensions = [], ts_pointerDepth = 0, ts_span = mk_span 8 11\<rparr>
      (IntegerLiteralExpr (mk_span 12 13) ''1'')] 0 = Some (0, ls, n) \<and> node_ids ls = [0..<n] \<and>
    mset (map snd (edges ls)) = mset [1..<n] \<and> list_all (\<lambda>(a, b). a < b) (edges ls)"
  by (rule dumpAstDot_tree) simp

text \<open>C21: a label survives the quoting: reading the escaped text of a DOT label back, up to its
  first unescaped quote, gives the label, so no source text can break the graph's syntax.\<close>

theorem dotEscape_roundtrip: "dotUnescape (dotEscape s) = Some s"
  by (rule dotUnescape_Escape)

end
