(* ===== verification/Frontend.thy ===== *)
theory Frontend
  imports ParserStmtProps AstDump
begin

text \<open>
  The lexer feeding the parser: the lexer's stream satisfies the parser's contract for a token
  source, so what was proved of the parser holds of every source file.
\<close>

lemma tokenize_stream: "stream_from src 0 (fst (tokenize src bag))"
  using stream_from_loop[of "Lexer_new bag" src]
  by (simp add: tokenize_def Lexer_new_def case_prod_unfold Let_def)

lemma tokenize_bag: "bag_ext bag (snd (tokenize src bag))"
  using lx_step_loop[of "Lexer_new bag" src]
  by (simp add: tokenize_def Lexer_new_def case_prod_unfold lx_step_def Let_def)

lemma tokenize_clean:
  assumes "\<not> hasErrors (snd (tokenize src bag))"
  shows "list_all trivia (gaps src 0 (fst (tokenize src bag)))"
    "\<forall>t \<in> set (butlast (fst (tokenize src bag))).
       tok_kind t \<noteq> EndOfFile \<and> lexeme (tok_kind t) (spelling src t)"
  using loop_lexemes[of "Lexer_new bag" src] assms
  by (simp_all add: tokenize_def Lexer_new_def case_prod_unfold Let_def)

interpretation tokenized: token_source "\<lparr>pi_source = src, pi_tokens = fst (tokenize src bag)\<rparr>"
  for src bag
  by unfold_locales (use stream_from_last[OF tokenize_stream] in simp_all)

text \<open>Source text to tree, as the driver does it: every phase reports to the same bag.\<close>

definition parseSource :: "SourceFile \<Rightarrow> DiagnosticBag \<Rightarrow> (TranslationUnit \<times> DiagnosticBag) result" where
  "parseSource src bag =
     (let (tokens, bag1) = tokenize src bag in parseTranslationUnit src tokens bag1)"

abbreviation source_input :: "SourceFile \<Rightarrow> DiagnosticBag \<Rightarrow> ParserInput" where
  "source_input src bag \<equiv> \<lparr>pi_source = src, pi_tokens = fst (tokenize src bag)\<rparr>"

lemma parseSource_wp:
  "wpR (parseSource src bag) (\<lambda>(unit, bag').
     bag_ext (snd (tokenize src bag)) bag' \<and>
     (\<exists>ps'. bag' = ps_bag ps' \<and> Parser_isAtEnd (source_input src bag) ps' \<and>
        spelled (source_input src bag) (Parser_new (snd (tokenize src bag))) (items_spell unit) ps'))"
proof -
  let ?inp = "source_input src bag"
  let ?ps = "Parser_new (snd (tokenize src bag))"
  have "in_range ?inp ?ps"
    using stream_from_last[OF tokenize_stream] by (simp add: in_range_def Parser_new_def)
  moreover have "remaining ?inp ?ps \<le> Parser_fuel ?inp" by (simp add: remaining_def Parser_fuel_def)
  ultimately have "wpR (parseItems ?inp (Parser_fuel ?inp) ?ps)
      (\<lambda>(is, ps'). spelled ?inp ?ps (items_spell is) ps' \<and> Parser_isAtEnd ?inp ps')"
    by (rule tokenized.parseItems_post)
  then show ?thesis
    unfolding parseSource_def parseTranslationUnit_def Let_def case_prod_unfold
    by (rule wpR_bindI) (auto simp: spelled_def ran_def Parser_new_def)
qed

text \<open>With no error, the parser stopped at the last token: it has read the whole stream.\<close>

lemma at_end_last:
  assumes "\<not> hasErrors (snd (tokenize src bag))" "in_range (source_input src bag) ps"
    "Parser_isAtEnd (source_input src bag) ps"
  shows "ps_current ps = length (fst (tokenize src bag)) - 1"
proof (rule ccontr)
  let ?ts = "fst (tokenize src bag)"
  assume "ps_current ps \<noteq> length ?ts - 1"
  then have "ps_current ps < length (butlast ?ts)" using assms(2) by (simp add: in_range_def)
  then have "?ts ! ps_current ps \<in> set (butlast ?ts)" by (metis nth_butlast nth_mem)
  then show False
    using tokenize_clean(2)[OF assms(1)] assms(2,3)
    by (auto simp: Parser_isAtEnd_def Parser_peek_def in_range_def)
qed

lemma parseSource_spells:
  assumes "parseSource src bag = Ok (unit, bag')" "\<not> hasErrors bag'"
  shows "items_spell unit (map (tokenKey (source_input src bag)) (butlast (fst (tokenize src bag))))"
proof -
  let ?inp = "source_input src bag"
  let ?ps = "Parser_new (snd (tokenize src bag))"
  from wpR_OkD[OF parseSource_wp assms(1)]
  obtain ps' where ps': "bag_ext (snd (tokenize src bag)) bag'" "bag' = ps_bag ps'"
    "Parser_isAtEnd ?inp ps'" "spelled ?inp ?ps (items_spell unit) ps'" by auto
  obtain w where w: "ran ?inp ?ps w ps'" "items_spell unit w"
    using ps' assms(2) by (auto elim: spelledE)
  have "\<not> hasErrors (snd (tokenize src bag))" using ps'(1) assms(2) bag_ext_hasErrors by blast
  then have "ps_current ps' = length (fst (tokenize src bag)) - 1"
    using at_end_last ran_in_range[OF w(1)] ps'(3) by blast
  then have "consumed ?inp ?ps ps' = map (tokenKey ?inp) (butlast (fst (tokenize src bag)))"
    by (simp add: consumed_def Parser_new_def butlast_conv_take)
  moreover have "consumed ?inp ?ps ps' = w" using w(1) ps'(2) assms(2) by (simp add: ran_def)
  ultimately show ?thesis using w(2) by simp
qed

section \<open>Trees without errors are complete\<close>

lemma simple_spells_complete: "simple_spells s w \<Longrightarrow> stmt_complete s"
  by (cases s) auto

lemma step_spells_complete: "step_spells (Some s) w \<Longrightarrow> stmt_complete s"
  by (cases s) auto

lemma spells_complete:
  "stmt_spells s w \<Longrightarrow> stmt_complete s" "block_spells ss w' \<Longrightarrow> list_all stmt_complete ss"
proof (induction rule: stmt_spells_block_spells.inducts)
  case (spells_simple s w)
  then show ?case by (rule simple_spells_complete)
next
  case (spells_for init v1 c v2 step v3 body v sp)
  then show ?case
    by (auto simp: init_spells_def dest: simple_spells_complete step_spells_complete split: option.splits)
qed auto

lemma items_spell_complete: "items_spell is w \<Longrightarrow> list_all item_complete is"
proof -
  assume "items_spell is w"
  then obtain ws where "list_all2 item_spells is ws" by (auto simp: items_spell_def)
  moreover have "item_spells i w \<Longrightarrow> item_complete i" for i w
    by (cases i) (auto dest: spells_complete(2))
  ultimately show ?thesis by (induction rule: list_all2_induct) auto
qed

section \<open>Only types throw\<close>

definition no_throw :: "'a result \<Rightarrow> bool" where
  "no_throw m \<longleftrightarrow> (\<forall>e. m \<noteq> Throw e)"

lemma no_throw_simps [simp]: "no_throw (Ok x)" "no_throw OutOfFuel" "\<not> no_throw (Throw e)"
  by (simp_all add: no_throw_def)

lemma no_throw_bind: "no_throw m \<Longrightarrow> (\<And>x. no_throw (f x)) \<Longrightarrow> no_throw (bindR m f)"
  by (cases m) simp_all

lemma parsePrimaryExpr_no_throw:
  assumes "\<And>t ps. no_throw (rec t ps)" "\<And>t ps. no_throw (recs t ps)"
  shows "no_throw (parsePrimaryExpr inp rec recs ps)"
  unfolding parsePrimaryExpr_def Let_def
  by (auto simp: assms case_prod_unfold intro!: no_throw_bind split: option.split)

lemma parsePostfixLoop_no_throw:
  assumes "\<And>t ps. no_throw (rec t ps)" "\<And>t ps. no_throw (recs t ps)"
  shows "no_throw (parsePostfixLoop inp rec recs e ps)"
  unfolding parsePostfixLoop_def parseArgumentList_def Let_def
  by (auto simp: assms case_prod_unfold intro!: no_throw_bind)

lemma parseUnaryExpr_no_throw:
  assumes "\<And>t ps. no_throw (rec t ps)" "\<And>t ps. no_throw (recs t ps)"
  shows "no_throw (parseUnaryExpr inp rec recs ps)"
  unfolding parseUnaryExpr_def parsePostfixExpr_def Let_def
  by (auto simp: assms case_prod_unfold
    intro!: no_throw_bind parsePrimaryExpr_no_throw[OF assms] parsePostfixLoop_no_throw[OF assms])

lemma parseExprLoop_no_throw:
  assumes "\<And>t ps. no_throw (rec t ps)"
  shows "no_throw (parseExprLoop inp rec p e ps)"
  unfolding parseExprLoop_def Let_def
  by (auto simp: assms case_prod_unfold intro!: no_throw_bind)

lemma parseExpr_no_throw:
  assumes "\<And>t ps. no_throw (rec t ps)" "\<And>t ps. no_throw (recs t ps)"
  shows "no_throw (parseExpr inp rec recs p ps)"
  unfolding parseExpr_def
  by (auto simp: case_prod_unfold
    intro!: no_throw_bind parseUnaryExpr_no_throw[OF assms] parseExprLoop_no_throw[OF assms(1)])

lemma run_no_throw: "(\<forall>t ps. no_throw (runExpr inp n t ps)) \<and> (\<forall>u ps. no_throw (runExprs inp n u ps))"
proof (induction n)
  case (Suc n)
  then have ih: "no_throw (runExpr inp n t ps)" "no_throw (runExprs inp n u ps)" for t u ps by auto
  have "no_throw (parseArrayElements inp (runExpr inp n) (runExprs inp n) ps)"
    "no_throw (parseArgumentLoop inp (runExpr inp n) (runExprs inp n) ps)" for ps
    unfolding parseArrayElements_def parseArgumentLoop_def Let_def
    by (auto simp: ih case_prod_unfold intro!: no_throw_bind parseExpr_no_throw[OF ih])
  then have "no_throw (runExprs inp (Suc n) u ps)" for u ps by (cases u) simp_all
  moreover have "no_throw (runExpr inp (Suc n) t ps)" for t ps
    by (cases t) (simp_all add: parseExpr_no_throw[OF ih] parseExprLoop_no_throw[OF ih(1)]
      parseUnaryExpr_no_throw[OF ih] parsePostfixLoop_no_throw[OF ih])
  ultimately show ?case by blast
qed simp

lemma Parser_parseExpr_no_throw: "Parser_parseExpr inp ps \<noteq> Throw e"
  using parseExpr_no_throw[of "runExpr inp (Parser_fuel inp)" "runExprs inp (Parser_fuel inp)" inp 1 ps]
    run_no_throw[of inp "Parser_fuel inp"]
  by (simp add: Parser_parseExpr_def no_throw_def)

lemma parseSource_ext:
  "case parseSource src bag of
     OutOfFuel \<Rightarrow> False | Throw e \<Rightarrow> True | Ok (unit, bag') \<Rightarrow> bag_ext bag bag'"
  using parseSource_wp[of src bag] tokenize_bag[of bag src]
  by (cases "parseSource src bag") (auto intro: bag_ext_trans)

section \<open>Properties\<close>

text \<open>C10: whatever the bytes of the file are, its tokens tile it: they are non-empty, in order and
  do not overlap, the last one is the end-of-file token at the size of the file, and putting the
  skipped bytes back between the spellings rebuilds the file. Lexing only adds diagnostics.\<close>

theorem tokenize_covers:
  "stream_from src 0 (fst (tokenize src bag)) \<and>
   rebuild src 0 (fst (tokenize src bag)) = sf_text src \<and>
   last (fst (tokenize src bag)) = mk_token EndOfFile (mk_span (sf_size src) (sf_size src)) \<and>
   bag_ext bag (snd (tokenize src bag))"
  using rebuild_stream[OF tokenize_stream[of src bag]] stream_from_last[OF tokenize_stream[of src bag]]
    tokenize_stream[of src bag] tokenize_bag[of bag src]
  by (simp add: slice_whole)

text \<open>C11: when lexing reports no error, every byte is accounted for by the language: between the
  tokens there is only white space and closed comments, and each token is spelled as the grammar of
  its kind says (a decimal or hexadecimal number, a closed string with known escapes, an identifier
  that is no keyword, a keyword or an operator).\<close>

theorem tokenize_lexemes:
  assumes "\<not> hasErrors (snd (tokenize src bag))"
  shows "list_all trivia (gaps src 0 (fst (tokenize src bag))) \<and>
    (\<forall>t \<in> set (butlast (fst (tokenize src bag))).
       tok_kind t \<noteq> EndOfFile \<and> lexeme (tok_kind t) (spelling src t))"
  using tokenize_clean[OF assms] by blast

lemma tokenize_lexemes_witness:
  "(let src = SourceFile_new ''a'' ''let x = 0x1F; // y''
    in list_all trivia (gaps src 0 (fst (tokenize src DiagnosticBag_new))) \<and>
      (\<forall>t \<in> set (butlast (fst (tokenize src DiagnosticBag_new))).
         tok_kind t \<noteq> EndOfFile \<and> lexeme (tok_kind t) (spelling src t)))"
  unfolding Let_def by (rule tokenize_lexemes) code_simp

text \<open>C12: names and keywords are read as long as possible: the byte after such a token, if there is
  one, cannot continue an identifier.\<close>

theorem tokenize_maximal:
  assumes "t \<in> set (fst (tokenize src bag))" "word_kind (tok_kind t)" "sp_end (tok_span t) < sf_size src"
  shows "\<not> isIdentifierContinue (sf_text src ! sp_end (tok_span t))"
  using assms maximal_loop[of "Lexer_new bag" src t]
  by (simp add: tokenize_def Lexer_new_def case_prod_unfold Let_def)

lemma tokenize_maximal_witness:
  "(let src = SourceFile_new ''a'' ''letter = x1''
    in \<not> isIdentifierContinue (sf_text src ! sp_end (tok_span (fst (tokenize src DiagnosticBag_new) ! 0))))"
  unfolding Let_def by (rule tokenize_maximal[where bag = DiagnosticBag_new]) code_simp+

text \<open>C9: the front end always comes back: for every file, well formed or not, the token loop and
  the recursive-descent parser end (the fuel of the model, the number of tokens, is never used up),
  and no diagnostic that was there before is lost or changed.\<close>

theorem parseSource_returns:
  "case parseSource src bag of
     OutOfFuel \<Rightarrow> False | Throw e \<Rightarrow> True | Ok (unit, bag') \<Rightarrow> bag_ext bag bag'"
  by (rule parseSource_ext)

text \<open>C8: operator precedence and associativity: an expression read anywhere in a file is a tree in
  which every operand binds at least as tightly as its place demands, left operands may have the same
  level and right operands a higher one, and, when no error is reported, reading the tree from left to
  right gives back exactly the tokens that were consumed.\<close>

theorem parseExpr_groups:
  assumes "ps_current ps < length (fst (tokenize src bag))"
  shows "case Parser_parseExpr (source_input src bag) ps of
     OutOfFuel \<Rightarrow> False | Throw e \<Rightarrow> False
   | Ok (e, ps') \<Rightarrow> grouped e \<and> ps_current ps \<le> ps_current ps' \<and>
       (\<not> hasErrors (ps_bag ps') \<longrightarrow> consumed (source_input src bag) ps ps' = expr_keys e)"
proof -
  have "in_range (source_input src bag) ps" using assms by (simp add: in_range_def)
  from tokenized.Parser_parseExpr_post[OF this] show ?thesis
    using Parser_parseExpr_no_throw[of "source_input src bag" ps]
    by (cases "Parser_parseExpr (source_input src bag) ps") (auto simp: expr_post_def ran_def)
qed

lemma parseExpr_groups_witness:
  "(let src = SourceFile_new ''a'' ''a + b * c''; ps = Parser_new DiagnosticBag_new in
    case Parser_parseExpr (source_input src DiagnosticBag_new) ps of
      OutOfFuel \<Rightarrow> False | Throw e \<Rightarrow> False
    | Ok (e, ps') \<Rightarrow> grouped e \<and> ps_current ps \<le> ps_current ps' \<and>
        (\<not> hasErrors (ps_bag ps') \<longrightarrow>
           consumed (source_input src DiagnosticBag_new) ps ps' = expr_keys e))"
  unfolding Let_def by (rule parseExpr_groups) code_simp

text \<open>C5: parsing without an error is faithful: the tree spells exactly the tokens of the file, all
  of them, in order, with every expression grouped by precedence; nothing is skipped, invented or
  reordered.\<close>

theorem parseSource_faithful:
  assumes "parseSource src bag = Ok (unit, bag')" "\<not> hasErrors bag'"
  shows "items_spell unit (map (tokenKey (source_input src bag)) (butlast (fst (tokenize src bag))))"
  by (rule parseSource_spells[OF assms])

abbreviation sample_source :: SourceFile where
  "sample_source \<equiv> SourceFile_new ''a'' ''fn f() -> i32 { if (x) { return 1; } return 2 + 3 * y; }''"

lemma sample_parses:
  "\<exists>unit bag'. parseSource sample_source DiagnosticBag_new = Ok (unit, bag') \<and> \<not> hasErrors bag'"
proof -
  have "case parseSource sample_source DiagnosticBag_new of
      Ok (unit, bag') \<Rightarrow> \<not> hasErrors bag' | Throw e \<Rightarrow> False | OutOfFuel \<Rightarrow> False"
    by code_simp
  then show ?thesis by (simp split: result.splits prod.splits)
qed

lemma parseSource_faithful_witness:
  "\<exists>unit bag'. parseSource sample_source DiagnosticBag_new = Ok (unit, bag') \<and>
     items_spell unit (map (tokenKey (source_input sample_source DiagnosticBag_new))
       (butlast (fst (tokenize sample_source DiagnosticBag_new))))"
proof -
  obtain unit bag' where p: "parseSource sample_source DiagnosticBag_new = Ok (unit, bag')" "\<not> hasErrors bag'"
    using sample_parses by blast
  from p(1) parseSource_faithful[OF p] show ?thesis by blast
qed

text \<open>C13: a tree parsed without an error has no null child, so both dumps of it are defined.\<close>

theorem parseSource_dumps:
  assumes "parseSource src bag = Ok (unit, bag')" "\<not> hasErrors bag'"
  shows "list_all item_complete unit \<and> dumpAst unit \<noteq> None \<and> dumpAstDot unit \<noteq> None"
proof -
  have "list_all item_complete unit"
    using items_spell_complete[OF parseSource_spells[OF assms]] .
  then show ?thesis using dumpAst_None[of unit] dotUnit_defined[of unit 0]
    by (auto simp: dumpAstDot_def)
qed

lemma parseSource_dumps_witness:
  "\<exists>unit bag'. parseSource sample_source DiagnosticBag_new = Ok (unit, bag') \<and>
     list_all item_complete unit \<and> dumpAst unit \<noteq> None \<and> dumpAstDot unit \<noteq> None"
proof -
  obtain unit bag' where p: "parseSource sample_source DiagnosticBag_new = Ok (unit, bag')" "\<not> hasErrors bag'"
    using sample_parses by blast
  from p(1) parseSource_dumps[OF p] show ?thesis by blast
qed


end
