(* ===== verification/SemTypes.thy ===== *)
theory SemTypes
  imports Ast Numbers
begin

text \<open>
  The head of \<open>src/frontend/semantic.cpp\<close>: the semantic view of a type, the integer facts of a
  type (width, sign, largest literal), the values of literals, and the arithmetic that maps the
  indices of a fixed array to the offset of an element. Lengths, offsets and literal values are
  \<open>64 word\<close>s, as the code's \<open>unsigned long long\<close>: products of lengths wrap. Pointer depths and
  bit widths are \<open>nat\<close>s.
\<close>

section \<open>Types\<close>

record Type =
  t_kind :: BuiltinTypeKind
  t_arrayDimensions :: "64 word list"
  t_pointerDepth :: nat

definition mk_type :: "BuiltinTypeKind \<Rightarrow> 64 word list \<Rightarrow> nat \<Rightarrow> Type" where
  "mk_type k dims depth = \<lparr>t_kind = k, t_arrayDimensions = dims, t_pointerDepth = depth\<rparr>"

text \<open>\<open>Type{}\<close>, which the analysis also uses for "unknown".\<close>

definition invalidType :: Type where
  "invalidType = mk_type Invalid [] 0"

definition Type_isInvalid :: "Type \<Rightarrow> bool" where
  "Type_isInvalid t \<longleftrightarrow> t_kind t = Invalid \<and> t_arrayDimensions t = [] \<and> t_pointerDepth t = 0"

definition Type_isVoid :: "Type \<Rightarrow> bool" where
  "Type_isVoid t \<longleftrightarrow> t_pointerDepth t = 0 \<and> t_arrayDimensions t = [] \<and> t_kind t = Void"

definition Type_isBool :: "Type \<Rightarrow> bool" where
  "Type_isBool t \<longleftrightarrow> t_pointerDepth t = 0 \<and> t_arrayDimensions t = [] \<and> t_kind t = Bool"

definition Type_isString :: "Type \<Rightarrow> bool" where
  "Type_isString t \<longleftrightarrow> t_pointerDepth t = 0 \<and> t_arrayDimensions t = [] \<and> t_kind t = Str"

definition Type_isFixedArray :: "Type \<Rightarrow> bool" where
  "Type_isFixedArray t \<longleftrightarrow> t_pointerDepth t = 0 \<and> t_arrayDimensions t \<noteq> []"

definition Type_isPointer :: "Type \<Rightarrow> bool" where
  "Type_isPointer t \<longleftrightarrow> t_pointerDepth t \<noteq> 0"

definition Type_pointeeType :: "Type \<Rightarrow> Type" where
  "Type_pointeeType t =
     (if t_pointerDepth t \<noteq> 0 then t\<lparr>t_pointerDepth := t_pointerDepth t - 1\<rparr> else t)"

definition Type_afterIndex :: "Type \<Rightarrow> Type" where
  "Type_afterIndex t =
     (if t_arrayDimensions t \<noteq> [] then t\<lparr>t_arrayDimensions := tl (t_arrayDimensions t)\<rparr> else t)"

definition Type_elementScalarType :: "Type \<Rightarrow> Type" where
  "Type_elementScalarType t = mk_type (t_kind t) [] (t_pointerDepth t)"

definition Type_isInteger :: "Type \<Rightarrow> bool" where
  "Type_isInteger t \<longleftrightarrow>
     (if Type_isFixedArray t \<or> Type_isPointer t then False
      else t_kind t \<in> {I8, I16, I32, I64, U8, U16, U32, U64})"

definition Type_isFloat :: "Type \<Rightarrow> bool" where
  "Type_isFloat t \<longleftrightarrow>
     (if Type_isFixedArray t \<or> Type_isPointer t then False else t_kind t \<in> {F32, F64})"

definition builtinScalar :: "BuiltinTypeKind \<Rightarrow> Type" where
  "builtinScalar k = mk_type k [] 0"

definition sameType :: "Type \<Rightarrow> Type \<Rightarrow> bool" where
  "sameType left right \<longleftrightarrow>
     (if Type_isInvalid left \<or> Type_isInvalid right then True
      else t_kind left = t_kind right \<and> t_arrayDimensions left = t_arrayDimensions right \<and>
        t_pointerDepth left = t_pointerDepth right)"

definition typeName :: "Type \<Rightarrow> string" where
  "typeName t =
     (if t_arrayDimensions t = [] \<and> t_pointerDepth t = 0 then builtinTypeName (t_kind t)
      else replicate (t_pointerDepth t) (CHR ''*'') @
        wrapDimensions (builtinTypeName (t_kind t)) (t_arrayDimensions t))"

definition typeFromSyntax :: "TypeSyntax \<Rightarrow> Type" where
  "typeFromSyntax syntax =
     mk_type (ts_kind syntax) (ts_arrayDimensions syntax) (ts_pointerDepth syntax)"

definition canBeCondition :: "Type \<Rightarrow> bool" where
  "canBeCondition t \<longleftrightarrow> Type_isBool t \<or> Type_isInteger t \<or> Type_isInvalid t"

section \<open>Widths and ranges\<close>

text \<open>For an array the code asks its element type, which has the same kind.\<close>

fun kindBitWidth :: "BuiltinTypeKind \<Rightarrow> nat" where
  "kindBitWidth I8 = 8"
| "kindBitWidth U8 = 8"
| "kindBitWidth I16 = 16"
| "kindBitWidth U16 = 16"
| "kindBitWidth I32 = 32"
| "kindBitWidth U32 = 32"
| "kindBitWidth I64 = 64"
| "kindBitWidth U64 = 64"
| "kindBitWidth _ = 0"

definition bitWidth :: "Type \<Rightarrow> nat" where
  "bitWidth t =
     (if Type_isFixedArray t then kindBitWidth (t_kind (Type_elementScalarType t))
      else kindBitWidth (t_kind t))"

definition kindIsSigned :: "BuiltinTypeKind \<Rightarrow> bool" where
  "kindIsSigned k \<longleftrightarrow> k \<in> {I8, I16, I32, I64}"

definition isSigned :: "Type \<Rightarrow> bool" where
  "isSigned t \<longleftrightarrow>
     (if Type_isFixedArray t then kindIsSigned (t_kind (Type_elementScalarType t))
      else kindIsSigned (t_kind t))"

definition maxIntegerValue :: "Type \<Rightarrow> 64 word" where
  "maxIntegerValue t =
     (let width = bitWidth t in
      if width = 0 then 0
      else if width = 64 \<and> \<not> isSigned t then - 1
      else
        let valueBits = (if isSigned t then width - 1 else width)
        in push_bit valueBits 1 - 1)"

section \<open>Literals\<close>

definition parseUnsignedInteger :: "string \<Rightarrow> 64 word option" where
  "parseUnsignedInteger raw =
     (let hex = (length raw \<ge> 2 \<and> raw ! 0 = CHR ''0'' \<and> (raw ! 1 = CHR ''x'' \<or> raw ! 1 = CHR ''X''));
          digits = (if hex then drop 2 raw else raw);
          base = (if hex then 16 else 10)
      in case from_chars base (2 ^ 64) digits of
           FC_ok v n \<Rightarrow> if n \<noteq> length digits then None else Some (of_nat v)
         | FC_invalid_argument \<Rightarrow> None
         | FC_result_out_of_range \<Rightarrow> None)"

text \<open>
  \<open>strtof\<close> and \<open>strtod\<close> on a decimal spelling (digits, a fraction, an exponent), which is what
  the lexer makes of a float literal: how many characters they read, and whether the value
  overflows. With rounding to nearest, the value \<open>m * 10 ^ e\<close> becomes infinite from
  half a unit above the largest finite number on: \<open>2 ^ 128 - 2 ^ 103\<close> and
  \<open>2 ^ 1024 - 2 ^ 970\<close>. (An underflow also sets \<open>ERANGE\<close> but leaves a finite value, which the
  code accepts.)
\<close>

record decimal =
  dec_mantissa :: nat
  dec_exponent :: int
  dec_read :: nat

definition scanExponent :: "string \<Rightarrow> int \<times> nat" where
  "scanExponent s =
     (if s \<noteq> [] \<and> (hd s = CHR ''e'' \<or> hd s = CHR ''E'') then
        let signs = (if tl s \<noteq> [] \<and> (hd (tl s) = CHR ''+'' \<or> hd (tl s) = CHR ''-'') then 1 else 0);
            ds = takeWhile (is_digit 10) (drop (1 + signs) s);
            v = int (digits_value 10 ds)
        in if ds = [] then (0, 0)
           else (if signs = 1 \<and> hd (tl s) = CHR ''-'' then - v else v, 1 + signs + length ds)
      else (0, 0))"

definition scanDecimal :: "string \<Rightarrow> decimal option" where
  "scanDecimal s =
     (let whole = takeWhile (is_digit 10) s;
          rest = drop (length whole) s;
          fraction = (if rest \<noteq> [] \<and> hd rest = CHR ''.'' then takeWhile (is_digit 10) (tl rest) else []);
          dot = (if rest \<noteq> [] \<and> hd rest = CHR ''.'' then 1 else 0);
          n = length whole + dot + length fraction;
          (e, k) = scanExponent (drop n s)
      in if whole = [] \<and> fraction = [] then None
         else Some \<lparr>dec_mantissa = digits_value 10 (whole @ fraction),
                    dec_exponent = e - int (length fraction), dec_read = n + k\<rparr>)"

definition dec_at_least :: "decimal \<Rightarrow> nat \<Rightarrow> bool" where
  "dec_at_least d bound \<longleftrightarrow>
     (if dec_exponent d \<ge> 0 then dec_mantissa d * 10 ^ nat (dec_exponent d) \<ge> bound
      else dec_mantissa d \<ge> bound * 10 ^ nat (- dec_exponent d))"

definition parseFiniteFloatLiteral :: "string \<Rightarrow> Type \<Rightarrow> bool" where
  "parseFiniteFloatLiteral raw t \<longleftrightarrow>
     (case scanDecimal raw of
        None \<Rightarrow> raw = []
      | Some d \<Rightarrow> dec_read d = length raw \<and>
          \<not> dec_at_least d (if t_kind t = F32 then 2 ^ 128 - 2 ^ 103 else 2 ^ 1024 - 2 ^ 970))"

section \<open>Elements of fixed arrays\<close>

definition flatElementCountRanked :: "Type \<Rightarrow> 64 word" where
  "flatElementCountRanked t = (if \<not> Type_isFixedArray t then 1 else foldl (*) 1 (t_arrayDimensions t))"

text \<open>The index of an element: its indices weighted by the strides, the products of the later
  dimensions.\<close>

definition strideAfter :: "64 word list \<Rightarrow> nat \<Rightarrow> 64 word" where
  "strideAfter dims k = foldl (*) 1 (drop (Suc k) dims)"

definition flatOffset :: "64 word list \<Rightarrow> 64 word list \<Rightarrow> 64 word" where
  "flatOffset dims idxs =
     foldl (\<lambda>offset k. offset + idxs ! k * strideAfter dims k) 0 [0..<length idxs]"

definition indicesInBounds :: "64 word list \<Rightarrow> 64 word list \<Rightarrow> bool" where
  "indicesInBounds dims idxs \<longleftrightarrow> list_all (\<lambda>k. idxs ! k < dims ! k) [0..<length idxs]"

definition constIndicesToFlatOffset :: "Type \<Rightarrow> 64 word list \<Rightarrow> 64 word option" where
  "constIndicesToFlatOffset arrayTy idxs =
     (if \<not> Type_isFixedArray arrayTy \<or> length idxs \<noteq> length (t_arrayDimensions arrayTy) then None
      else if \<not> indicesInBounds (t_arrayDimensions arrayTy) idxs then None
      else Some (flatOffset (t_arrayDimensions arrayTy) idxs))"

definition flatOffsetForPrefixIndices :: "Type \<Rightarrow> 64 word list \<Rightarrow> 64 word option" where
  "flatOffsetForPrefixIndices arrayTy idxs =
     (if \<not> Type_isFixedArray arrayTy \<or> idxs = [] \<or>
         length idxs > length (t_arrayDimensions arrayTy) then None
      else if \<not> indicesInBounds (t_arrayDimensions arrayTy) idxs then None
      else Some (flatOffset (t_arrayDimensions arrayTy) idxs))"

section \<open>Chains of indices\<close>

fun stripParensConst :: "Expr \<Rightarrow> Expr" where
  "stripParensConst (ParenExpr sp inner) = stripParensConst inner"
| "stripParensConst e = e"

text \<open>\<open>a[i][j]\<close>, with parentheses anywhere in the chain: the name and the indices, outermost
  dimension first. The loop collects the indices from the last to the first.\<close>

record IndexedNameChain =
  chain_rootName :: string
  chain_rootSpan :: SourceSpan
  chain_indices :: "Expr list"

lemma size_stripParensConst: "size (stripParensConst e) \<le> size e"
  by (induction e rule: stripParensConst.induct) simp_all

function peelLoop :: "Expr \<Rightarrow> Expr list \<Rightarrow> Expr \<times> Expr list" where
  "peelLoop cur idxRev =
     (case stripParensConst cur of
        IndexExpr sp base index \<Rightarrow> peelLoop base (idxRev @ [index])
      | e \<Rightarrow> (e, idxRev))"
  by pat_completeness auto
termination
proof (relation "measure (\<lambda>(cur, idxRev). size cur)")
  fix cur idxRev sp base index
  assume "stripParensConst cur = IndexExpr sp base index"
  then show "((base, idxRev @ [index]), (cur, idxRev)) \<in> measure (\<lambda>(cur, idxRev). size cur)"
    using size_stripParensConst[of cur] by simp
qed simp

declare peelLoop.simps [simp del]

definition peelIndexedNameChain :: "Expr \<Rightarrow> IndexedNameChain option" where
  "peelIndexedNameChain outermost =
     (case peelLoop outermost [] of
        (NameExpr sp name, idxRev) \<Rightarrow>
          Some \<lparr>chain_rootName = name, chain_rootSpan = sp, chain_indices = rev idxRev\<rparr>
      | _ \<Rightarrow> None)"

end
