(* ===== verification/StringDecode.thy ===== *)
theory StringDecode
  imports LexerStream Numbers
begin

text \<open>
  \<open>include/nexc/frontend/string_literal_decode.h\<close> and \<open>src/frontend/string_literal_decode.cpp\<close>:
  the bytes of a string literal and the literal segments and holes of a format string. The
  \<open>bool\<close> results with an error out-parameter are sums: \<open>Inl\<close> the error, \<open>Inr\<close> the value.
\<close>

section \<open>String literals\<close>

text \<open>The character an escape stands for; \<open>None\<close> is the \<open>default\<close> of the switch.\<close>

definition escapeChar :: "char \<Rightarrow> char option" where
  "escapeChar escaped =
     (if escaped = dquote then Some dquote
      else if escaped = backslash then Some backslash
      else if escaped = CHR ''n'' then Some newline
      else if escaped = CHR ''t'' then Some (CHR 0x09)
      else if escaped = CHR ''r'' then Some (CHR 0x0D)
      else None)"

text \<open>
  The loop over the bytes between the quotes: \<open>i\<close> is the index in the raw literal, \<open>i + 1 < size\<close>
  its bound, \<open>out\<close> what has been decoded.
\<close>

function decodeLoop :: "string \<Rightarrow> nat \<Rightarrow> string \<Rightarrow> string + string" where
  "decodeLoop raw i out =
     (if \<not> i + 1 < length raw then Inr out
      else if raw ! i \<noteq> backslash then decodeLoop raw (i + 1) (out @ [raw ! i])
      else if i + 2 \<ge> length raw then Inl ''string literal ended inside an escape sequence''
      else case escapeChar (raw ! (i + 1)) of
             None \<Rightarrow> Inl ''unsupported string escape sequence''
           | Some c \<Rightarrow> decodeLoop raw (i + 2) (out @ [c]))"
  by pat_completeness auto
termination by (relation "measure (\<lambda>(raw, i, out). length raw - i)") auto

declare decodeLoop.simps [simp del]

definition decodeStringLiteralContent :: "string \<Rightarrow> string + string" where
  "decodeStringLiteralContent rawQuoted =
     (if length rawQuoted < 2 \<or> hd rawQuoted \<noteq> dquote \<or> last rawQuoted \<noteq> dquote
      then Inl ''string literal must be enclosed in double quotes''
      else decodeLoop rawQuoted 1 [])"

section \<open>Format strings\<close>

datatype FormatHoleKind = Default | FloatFixed | HexLower | HexUpper | Binary

record FormatHole =
  hole_kind :: FormatHoleKind
  hole_precision :: "nat option"

record FormatParts =
  fp_literals :: "string list"
  fp_holes :: "FormatHole list"

definition substr :: "string \<Rightarrow> nat \<Rightarrow> nat \<Rightarrow> string" where
  "substr s pos count = take count (drop pos s)"

definition addHole :: "string \<Rightarrow> FormatHole \<Rightarrow> FormatParts \<Rightarrow> FormatParts" where
  "addHole literal hole parts =
     \<lparr>fp_literals = fp_literals parts @ [literal], fp_holes = fp_holes parts @ [hole]\<rparr>"

text \<open>The end of the run of decimal digits that starts at an index.\<close>

definition digitRunEnd :: "string \<Rightarrow> nat \<Rightarrow> nat" where
  "digitRunEnd s i = i + length (takeWhile isDecimalDigit (drop i s))"

text \<open>
  The branch of \<open>{:.\<close>: an error, or a precision and the index of the closing brace, or neither
  (the closing brace is missing and the loop goes on to its next test).
\<close>

datatype precision_result = Precision_error string | Precision nat nat | Precision_none

definition parsePrecision :: "string \<Rightarrow> nat \<Rightarrow> precision_result" where
  "parsePrecision decoded digitsBegin =
     (let cursor = digitRunEnd decoded digitsBegin
      in if cursor = digitsBegin then
           Precision_error ''invalid format string: expected precision digits after `{:.`''
         else
           let cursor1 = (if cursor < length decoded \<and> decoded ! cursor = CHR ''f''
                          then cursor + 1 else cursor)
           in if cursor1 < length decoded \<and> decoded ! cursor1 = CHR ''}'' then
                let digitsEnd = cursor1 - (if decoded ! (cursor1 - 1) = CHR ''f'' then 1 else 0)
                in case from_chars 10 (2 ^ 32)
                          (substr decoded digitsBegin (digitsEnd - digitsBegin)) of
                     FC_ok precision consumed \<Rightarrow>
                       if consumed \<noteq> digitsEnd - digitsBegin \<or> precision > 18
                       then Precision_error ''invalid format string: float precision must be an integer from 0 to 18''
                       else Precision precision cursor1
                   | _ \<Rightarrow> Precision_error ''invalid format string: float precision must be an integer from 0 to 18''
              else Precision_none)"

definition holeKindOf :: "char \<Rightarrow> FormatHoleKind" where
  "holeKindOf c =
     (if c = CHR ''x'' then HexLower else if c = CHR ''X'' then HexUpper
      else if c = CHR ''b'' then Binary else Default)"

text \<open>The branch of \<open>{:x}\<close> and its kin, and the error when no placeholder form fits.\<close>

definition parseSimpleHole :: "string \<Rightarrow> nat \<Rightarrow> string + FormatHole" where
  "parseSimpleHole decoded i =
     (if i + 3 < length decoded \<and> decoded ! (i + 1) = CHR '':'' \<and> decoded ! (i + 3) = CHR ''}'' \<and>
         holeKindOf (decoded ! (i + 2)) \<noteq> Default
      then Inr \<lparr>hole_kind = holeKindOf (decoded ! (i + 2)), hole_precision = None\<rparr>
      else Inl ''invalid format string: expected `{}`, `{:.N}`, `{:.Nf}`, `{:x}`, `{:X}`, or `{:b}` placeholder'')"

text \<open>One placeholder at an open brace: the hole and the index after it.\<close>

definition parseHole :: "string \<Rightarrow> nat \<Rightarrow> string + (FormatHole \<times> nat)" where
  "parseHole decoded i =
     (if i + 1 < length decoded \<and> decoded ! (i + 1) = CHR ''}''
      then Inr (\<lparr>hole_kind = Default, hole_precision = None\<rparr>, i + 2)
      else
        let simple = map_sum id (\<lambda>h. (h, i + 4)) (parseSimpleHole decoded i)
        in if i + 3 < length decoded \<and> decoded ! (i + 1) = CHR '':'' \<and> decoded ! (i + 2) = CHR ''.''
           then case parsePrecision decoded (i + 3) of
                  Precision_error e \<Rightarrow> Inl e
                | Precision p cursor \<Rightarrow>
                    Inr (\<lparr>hole_kind = FloatFixed, hole_precision = Some p\<rparr>, cursor + 1)
                | Precision_none \<Rightarrow> simple
           else simple)"

lemma digitRunEnd_ge: "i \<le> digitRunEnd s i"
  by (simp add: digitRunEnd_def)

lemma parsePrecision_ge: "parsePrecision s i = Precision p c \<Longrightarrow> i < c"
  using digitRunEnd_ge[of i s]
  by (auto simp: parsePrecision_def Let_def split: if_splits from_chars_result.splits)

lemma parseHole_ge: "parseHole s i = Inr (h, j) \<Longrightarrow> i < j"
  by (auto simp: parseHole_def Let_def split: if_splits precision_result.splits
      dest: parsePrecision_ge) (cases "parseSimpleHole s i"; simp)+

function formatLoop :: "string \<Rightarrow> nat \<Rightarrow> nat \<Rightarrow> FormatParts \<Rightarrow> string + FormatParts" where
  "formatLoop decoded start i parts =
     (if i \<ge> length decoded then
        Inr (parts\<lparr>fp_literals := fp_literals parts @ [drop start decoded]\<rparr>)
      else if decoded ! i \<noteq> CHR ''{'' then formatLoop decoded start (i + 1) parts
      else case parseHole decoded i of
             Inl e \<Rightarrow> Inl e
           | Inr (hole, after) \<Rightarrow>
               formatLoop decoded after after
                 (addHole (substr decoded start (i - start)) hole parts))"
  by pat_completeness auto
termination
  by (relation "measure (\<lambda>(s, start, i, parts). length s - i)") (auto dest: parseHole_ge)

declare formatLoop.simps [simp del]

definition parseFormatString :: "string \<Rightarrow> string + FormatParts" where
  "parseFormatString decoded = formatLoop decoded 0 0 \<lparr>fp_literals = [], fp_holes = []\<rparr>"

definition splitFormatString :: "string \<Rightarrow> string + string list" where
  "splitFormatString decoded = map_sum id fp_literals (parseFormatString decoded)"

end
