(* ===== verification/Semantic.thy ===== *)
theory Semantic
  imports SemTypes Diagnostics StringDecode "HOL-Library.Mapping" "HOL-Library.AList_Mapping"
    "HOL-Library.State_Monad"
begin

text \<open>
  \<open>AnalyzerImpl\<close> of \<open>src/frontend/semantic.cpp\<close>: the state of an analysis, the scopes, the
  bookkeeping of definite assignment, the collection of declarations. The state is threaded by
  \<open>State_Monad\<close>. A scope is an association list (a name enters it at most once); the stack of
  scopes has the innermost scope first. The entries of the code's 0/1 byte masks are \<open>bool\<close>s.
  Binding ids, loop depths and list sizes are unbounded numbers.
\<close>

section \<open>Symbols and facts\<close>

record FunctionSymbol =
  fs_nameSpan :: SourceSpan
  fs_parameterTypes :: "Type list"
  fs_returnType :: Type
  fs_isBuiltin :: bool

record ValueSymbol =
  vs_type :: Type
  vs_isMutable :: bool
  vs_isConst :: bool
  vs_nameSpan :: SourceSpan
  vs_bindingId :: nat

record ExprInfo =
  ei_type :: Type
  ei_isConstant :: bool
  ei_integerValue :: "64 word option"

definition mk_info :: "Type \<Rightarrow> bool \<Rightarrow> 64 word option \<Rightarrow> ExprInfo" where
  "mk_info t c v = \<lparr>ei_type = t, ei_isConstant = c, ei_integerValue = v\<rparr>"

datatype ExprCtx = Ctx_Normal | Ctx_IndexBase

type_synonym ArrayElemMap = "(nat, bool list) mapping"

record DefAssignReason =
  dr_span :: SourceSpan
  dr_message :: string

type_synonym Scope = "(string \<times> ValueSymbol) list"

record analyzer =
  an_bag :: DiagnosticBag
  an_loopDepth :: nat
  an_inForStepClause :: bool
  an_topLevelNames :: "(string, SourceSpan) mapping"
  an_functions :: "(string, FunctionSymbol) mapping"
  an_globals :: "(string, ValueSymbol) mapping"
  an_scopes :: "Scope list"
  an_definiteAssign :: "nat set"
  an_defAssignReasons :: "(nat, DefAssignReason) mapping"
  an_arrayElemAssign :: ArrayElemMap
  an_scopeBindingIds :: "nat list list"
  an_nextBindingId :: nat
  an_currentReturnType :: Type
  an_sawReturnValue :: bool
  an_nullDereferenced :: bool

text \<open>The last field is not in the code: it records that the run followed a null child pointer,
  after which the code's behaviour is undefined.\<close>

definition AnalyzerImpl_new :: "DiagnosticBag \<Rightarrow> analyzer" where
  "AnalyzerImpl_new bag =
     \<lparr>an_bag = bag, an_loopDepth = 0, an_inForStepClause = False, an_topLevelNames = Mapping.empty,
      an_functions = Mapping.empty, an_globals = Mapping.empty, an_scopes = [],
      an_definiteAssign = {}, an_defAssignReasons = Mapping.empty,
      an_arrayElemAssign = Mapping.empty, an_scopeBindingIds = [], an_nextBindingId = 1,
      an_currentReturnType = invalidType, an_sawReturnValue = False, an_nullDereferenced = False\<rparr>"

type_synonym 'a analysis = "(analyzer, 'a) state"

abbreviation returnA :: "'a \<Rightarrow> 'a analysis" where
  "returnA \<equiv> State_Monad.return"

definition getsA :: "(analyzer \<Rightarrow> 'a) \<Rightarrow> 'a analysis" where
  "getsA f = State (\<lambda>st. (f st, st))"

definition modifyA :: "(analyzer \<Rightarrow> analyzer) \<Rightarrow> unit analysis" where
  "modifyA f = State (\<lambda>st. ((), f st))"

definition whenA :: "bool \<Rightarrow> unit analysis \<Rightarrow> unit analysis" where
  "whenA b m = (if b then m else returnA ())"

definition errorA :: "SourceSpan \<Rightarrow> string \<Rightarrow> unit analysis" where
  "errorA sp message = modifyA (\<lambda>st. st\<lparr>an_bag := bag_error sp message (an_bag st)\<rparr>)"

definition noteA :: "SourceSpan \<Rightarrow> string \<Rightarrow> unit analysis" where
  "noteA sp message = modifyA (\<lambda>st. st\<lparr>an_bag := bag_note sp message (an_bag st)\<rparr>)"

section \<open>Masks\<close>

definition intersectDefAssign :: "nat set \<Rightarrow> nat set \<Rightarrow> nat set" where
  "intersectDefAssign a b = Set.filter (\<lambda>bid. bid \<in> b) a"

text \<open>\<open>kMaxArrayElemsForDA\<close>.\<close>

definition kMaxArrayElemsForDA :: nat where
  "kMaxArrayElemsForDA = 65536"

definition vectorAllOnes :: "bool list \<Rightarrow> bool" where
  "vectorAllOnes v \<longleftrightarrow> list_all (\<lambda>b. b) v"

definition bandMasks :: "bool list \<Rightarrow> bool list \<Rightarrow> bool list" where
  "bandMasks a b = map (\<lambda>i. a ! i \<and> b ! i) [0..<length a]"

definition maskOrFull :: "nat set \<Rightarrow> ArrayElemMap \<Rightarrow> nat \<Rightarrow> nat \<Rightarrow> bool list" where
  "maskOrFull def arr bid n =
     (if bid \<in> def then replicate n True
      else case Mapping.lookup arr bid of None \<Rightarrow> replicate n False | Some m \<Rightarrow> m)"

section \<open>Scopes\<close>

definition pushScope :: "unit analysis" where
  "pushScope = modifyA (\<lambda>st. st\<lparr>an_scopes := [] # an_scopes st,
     an_scopeBindingIds := [] # an_scopeBindingIds st\<rparr>)"

definition forgetBinding :: "nat \<Rightarrow> analyzer \<Rightarrow> analyzer" where
  "forgetBinding bid st = st\<lparr>an_definiteAssign := Set.remove bid (an_definiteAssign st),
     an_arrayElemAssign := Mapping.delete bid (an_arrayElemAssign st),
     an_defAssignReasons := Mapping.delete bid (an_defAssignReasons st)\<rparr>"

definition popScope :: "unit analysis" where
  "popScope = modifyA (\<lambda>st.
     let st' = fold forgetBinding (hd (an_scopeBindingIds st)) st
     in st'\<lparr>an_scopeBindingIds := tl (an_scopeBindingIds st'), an_scopes := tl (an_scopes st')\<rparr>)"

definition declareLocal :: "string \<Rightarrow> SourceSpan \<Rightarrow> Type \<Rightarrow> bool \<Rightarrow> nat analysis" where
  "declareLocal name span t isMutable = do {
     scopes \<leftarrow> getsA an_scopes;
     case map_of (hd scopes) name of
       Some previous \<Rightarrow> do {
         errorA span (''duplicate local name `'' @ name @ ''`'');
         noteA (vs_nameSpan previous) (''previous declaration of `'' @ name @ ''` is here'');
         returnA 0 }
     | None \<Rightarrow> do {
         bid \<leftarrow> getsA an_nextBindingId;
         modifyA (\<lambda>st. st\<lparr>an_nextBindingId := bid + 1,
           an_scopes :=
             ((name, \<lparr>vs_type = t, vs_isMutable = isMutable, vs_isConst = False,
                vs_nameSpan = span, vs_bindingId = bid\<rparr>) # hd (an_scopes st)) # tl (an_scopes st),
           an_scopeBindingIds :=
             (hd (an_scopeBindingIds st) @ [bid]) # tl (an_scopeBindingIds st)\<rparr>);
         returnA bid } }"

primrec lookupScopes :: "Scope list \<Rightarrow> string \<Rightarrow> ValueSymbol option" where
  "lookupScopes [] name = None"
| "lookupScopes (scope # scopes) name =
     (case map_of scope name of Some s \<Rightarrow> Some s | None \<Rightarrow> lookupScopes scopes name)"

definition lookupValue :: "string \<Rightarrow> ValueSymbol option analysis" where
  "lookupValue name = getsA (\<lambda>st.
     case lookupScopes (an_scopes st) name of
       Some s \<Rightarrow> Some s
     | None \<Rightarrow> Mapping.lookup (an_globals st) name)"

definition lookupLocalTypeByBindingId :: "Scope list \<Rightarrow> nat \<Rightarrow> Type option" where
  "lookupLocalTypeByBindingId scopes bid =
     map_option (\<lambda>(name, s). vs_type s)
       (find (\<lambda>(name, s). \<not> vs_isConst s \<and> vs_bindingId s = bid) (concat scopes))"

section \<open>Definite assignment\<close>

definition rememberDefAssignReason :: "nat \<Rightarrow> SourceSpan \<Rightarrow> string \<Rightarrow> unit analysis" where
  "rememberDefAssignReason bid span message =
     whenA (bid \<noteq> 0) (modifyA (\<lambda>st. st\<lparr>an_defAssignReasons :=
       Mapping.update bid \<lparr>dr_span = span, dr_message = message\<rparr> (an_defAssignReasons st)\<rparr>))"

definition markDefiniteAssigned :: "nat \<Rightarrow> unit analysis" where
  "markDefiniteAssigned bid = modifyA (\<lambda>st.
     st\<lparr>an_definiteAssign := insert bid (an_definiteAssign st),
        an_defAssignReasons := Mapping.delete bid (an_defAssignReasons st)\<rparr>)"

definition noteDefAssignReason :: "ValueSymbol \<Rightarrow> unit analysis" where
  "noteDefAssignReason symbol = do {
     reasons \<leftarrow> getsA an_defAssignReasons;
     case Mapping.lookup reasons (vs_bindingId symbol) of
       Some r \<Rightarrow> noteA (dr_span r) (dr_message r)
     | None \<Rightarrow> noteA (vs_nameSpan symbol)
         ''binding declared here; it must be assigned on every path before use'' }"

definition readBeforeAssignment :: "ValueSymbol \<Rightarrow> SourceSpan \<Rightarrow> string \<Rightarrow> unit analysis" where
  "readBeforeAssignment symbol useSpan name = do {
     errorA useSpan (''local `'' @ name @ ''` may be read before assignment'');
     noteDefAssignReason symbol }"

definition requireReadableLocal :: "ValueSymbol \<Rightarrow> SourceSpan \<Rightarrow> string \<Rightarrow> unit analysis" where
  "requireReadableLocal symbol useSpan name =
     (if vs_isConst symbol then returnA ()
      else do {
        def \<leftarrow> getsA an_definiteAssign;
        arr \<leftarrow> getsA an_arrayElemAssign;
        if Type_isFixedArray (vs_type symbol) then
          if vs_bindingId symbol \<in> def then returnA ()
          else case Mapping.lookup arr (vs_bindingId symbol) of
              Some marks \<Rightarrow>
                if vectorAllOnes marks then returnA ()
                else readBeforeAssignment symbol useSpan name
            | None \<Rightarrow> readBeforeAssignment symbol useSpan name
        else whenA (vs_bindingId symbol \<notin> def) (readBeforeAssignment symbol useSpan name) })"

text \<open>More than \<open>kMaxArrayElemsForDA\<close> elements, or a count that wraps to 0.\<close>

definition untrackable :: "Type \<Rightarrow> bool" where
  "untrackable t \<longleftrightarrow>
     (let n64 = flatElementCountRanked t in n64 = 0 \<or> unat n64 > kMaxArrayElemsForDA)"

definition initArrayElemTrackingForBinding :: "nat \<Rightarrow> Type \<Rightarrow> SourceSpan \<Rightarrow> unit analysis" where
  "initArrayElemTrackingForBinding bid declared span =
     (if \<not> Type_isFixedArray declared then returnA ()
      else if untrackable declared then
        errorA span (''fixed array is too large for per-element definite assignment '' @
          ''tracking in this compiler version ('' @
          to_string (unat (flatElementCountRanked declared)) @ '' elements; limit is '' @
          to_string kMaxArrayElemsForDA @ '')'')
      else modifyA (\<lambda>st. st\<lparr>an_arrayElemAssign :=
        Mapping.update bid (replicate (unat (flatElementCountRanked declared)) False)
          (an_arrayElemAssign st)\<rparr>))"

definition markArrayBindingFullyAssigned :: "nat \<Rightarrow> unit analysis" where
  "markArrayBindingFullyAssigned bid = do {
     modifyA (\<lambda>st. st\<lparr>an_arrayElemAssign := Mapping.delete bid (an_arrayElemAssign st)\<rparr>);
     markDefiniteAssigned bid }"

definition constantIndex :: "ExprInfo \<Rightarrow> bool" where
  "constantIndex ii \<longleftrightarrow>
     Type_isInteger (ei_type ii) \<and> ei_isConstant ii \<and> ei_integerValue ii \<noteq> None"

text \<open>The end of \<open>noteIndexedStoreToLocal\<close>: element \<open>offset\<close> of the array is now assigned.\<close>

definition markElement :: "nat \<Rightarrow> nat \<Rightarrow> nat \<Rightarrow> unit analysis" where
  "markElement bid n offset = do {
     modifyA (\<lambda>st. if Mapping.lookup (an_arrayElemAssign st) bid = None
       then st\<lparr>an_arrayElemAssign := Mapping.update bid (replicate n False) (an_arrayElemAssign st)\<rparr>
       else st);
     arr \<leftarrow> getsA an_arrayElemAssign;
     let marks = the (Mapping.lookup arr bid);
     if offset \<ge> length marks then returnA ()
     else do {
       let marks' = marks[offset := True];
       modifyA (\<lambda>st. st\<lparr>an_arrayElemAssign := Mapping.update bid marks' (an_arrayElemAssign st)\<rparr>);
       whenA (vectorAllOnes marks') (do {
         markDefiniteAssigned bid;
         modifyA (\<lambda>st. st\<lparr>an_arrayElemAssign := Mapping.delete bid (an_arrayElemAssign st)\<rparr>) }) } }"

definition noteIndexedStoreToLocal ::
    "nat \<Rightarrow> Type \<Rightarrow> ExprInfo list \<Rightarrow> Expr list \<Rightarrow> unit analysis" where
  "noteIndexedStoreToLocal bid rootArrayTy indexInfos indexExprs =
     (if \<not> Type_isFixedArray rootArrayTy then returnA ()
      else if untrackable rootArrayTy then returnA ()
      else
        let n = unat (flatElementCountRanked rootArrayTy);
            i = length (takeWhile constantIndex indexInfos)
        in if i < length indexInfos then do {
             modifyA (\<lambda>st. st\<lparr>an_arrayElemAssign :=
                 Mapping.update bid (replicate n False) (an_arrayElemAssign st),
               an_definiteAssign := Set.remove bid (an_definiteAssign st)\<rparr>);
             rememberDefAssignReason bid
               (if i < length indexExprs then expr_span (indexExprs ! i) else mk_span 0 0)
               ''non-constant index here prevents proving which array element was assigned'' }
           else
             let vals = map (\<lambda>ii. the (ei_integerValue ii)) indexInfos
             in if length vals \<noteq> length (t_arrayDimensions rootArrayTy) then returnA ()
                else case constIndicesToFlatOffset rootArrayTy vals of
                    None \<Rightarrow> returnA ()
                  | Some offset \<Rightarrow> markElement bid n (unat offset))"

definition requireIndexedScalarReadable ::
    "ValueSymbol \<Rightarrow> Type \<Rightarrow> ExprInfo list \<Rightarrow> SourceSpan \<Rightarrow> string \<Rightarrow> unit analysis" where
  "requireIndexedScalarReadable symbol rootTy indexInfos useSpan name = do {
     def \<leftarrow> getsA an_definiteAssign;
     arr \<leftarrow> getsA an_arrayElemAssign;
     let vals = map (\<lambda>ii. the (ei_integerValue ii)) indexInfos;
     if vs_isConst symbol then returnA ()
     else if vs_bindingId symbol \<in> def then returnA ()
     else if \<not> list_all constantIndex indexInfos \<or>
         length indexInfos \<noteq> length (t_arrayDimensions rootTy) then
       requireReadableLocal symbol useSpan name
     else if \<not> indicesInBounds (t_arrayDimensions rootTy) vals then returnA ()
     else case constIndicesToFlatOffset rootTy vals of
         None \<Rightarrow> returnA ()
       | Some offset \<Rightarrow>
           if (case Mapping.lookup arr (vs_bindingId symbol) of
                 None \<Rightarrow> True
               | Some marks \<Rightarrow> unat offset \<ge> length marks \<or> \<not> marks ! unat offset) then do {
             errorA useSpan (''indexed read may access an uninitialized element of `'' @ name @ ''`'');
             noteDefAssignReason symbol }
           else returnA () }"

text \<open>The slice type after the indices, or \<open>None\<close> as soon as an index is out of bounds.\<close>

fun sliceTypeAt :: "Type \<Rightarrow> 64 word list \<Rightarrow> Type option" where
  "sliceTypeAt t [] = Some t"
| "sliceTypeAt t (v # vs) =
     (if v \<ge> hd (t_arrayDimensions t) then None else sliceTypeAt (Type_afterIndex t) vs)"

definition uninitializedSlice :: "ValueSymbol \<Rightarrow> SourceSpan \<Rightarrow> string \<Rightarrow> unit analysis" where
  "uninitializedSlice symbol useSpan name = do {
     errorA useSpan (''indexed access may read uninitialized elements of `'' @ name @ ''`'');
     noteDefAssignReason symbol }"

definition requireSubArraySliceReadable ::
    "ValueSymbol \<Rightarrow> nat \<Rightarrow> ExprInfo list \<Rightarrow> SourceSpan \<Rightarrow> string \<Rightarrow> unit analysis" where
  "requireSubArraySliceReadable symbol prefixLen indexInfos useSpan name = do {
     def \<leftarrow> getsA an_definiteAssign;
     arr \<leftarrow> getsA an_arrayElemAssign;
     let infos = take prefixLen indexInfos;
     let vals = map (\<lambda>ii. the (ei_integerValue ii)) infos;
     if vs_isConst symbol then returnA ()
     else if vs_bindingId symbol \<in> def then returnA ()
     else if prefixLen = 0 then returnA ()
     else if \<not> list_all constantIndex infos then requireReadableLocal symbol useSpan name
     else case sliceTypeAt (vs_type symbol) vals of
         None \<Rightarrow> returnA ()
       | Some sliceTy \<Rightarrow>
           if untrackable sliceTy then requireReadableLocal symbol useSpan name
           else case flatOffsetForPrefixIndices (vs_type symbol) vals of
               None \<Rightarrow> returnA ()
             | Some rangeStart \<Rightarrow>
                 (case Mapping.lookup arr (vs_bindingId symbol) of
                    None \<Rightarrow> uninitializedSlice symbol useSpan name
                  | Some marks \<Rightarrow>
                      whenA (list_ex (\<lambda>i. let pos = unat (rangeStart + of_nat i)
                                         in pos \<ge> length marks \<or> \<not> marks ! pos)
                               [0..<unat (flatElementCountRanked sliceTy)])
                        (uninitializedSlice symbol useSpan name)) }"

section \<open>Joins\<close>

definition mergeDefiniteAssignAfterIf ::
    "nat set \<Rightarrow> nat set \<Rightarrow> nat set \<Rightarrow> bool \<Rightarrow> bool \<Rightarrow> bool \<Rightarrow> nat set" where
  "mergeDefiniteAssignAfterIf beforeIf afterThen afterElse hasElse thenReturns elseReturns =
     (if \<not> hasElse then
        if thenReturns then beforeIf else intersectDefAssign beforeIf afterThen
      else if thenReturns \<and> \<not> elseReturns then afterElse
      else if \<not> thenReturns \<and> elseReturns then afterThen
      else if thenReturns \<and> elseReturns then beforeIf
      else intersectDefAssign afterThen afterElse)"

definition noteIfDefAssignLosses ::
    "SourceSpan \<Rightarrow> nat set \<Rightarrow> nat set \<Rightarrow> nat set \<Rightarrow> bool \<Rightarrow> bool \<Rightarrow> bool \<Rightarrow> unit analysis" where
  "noteIfDefAssignLosses ifSpan beforeIf afterThen afterElse hasElse thenReturns elseReturns = do {
     def \<leftarrow> getsA an_definiteAssign;
     traverse_list (\<lambda>bid.
       if bid \<in> def \<or> bid \<in> beforeIf then returnA ()
       else if \<not> hasElse then
         whenA (bid \<in> afterThen) (rememberDefAssignReason bid ifSpan
           ''assignment may be skipped because this `if` has no `else`'')
       else
         whenA ((\<not> thenReturns \<and> bid \<notin> afterThen) \<or> (\<not> elseReturns \<and> bid \<notin> afterElse))
           (rememberDefAssignReason bid ifSpan
              ''assignment is not guaranteed on every branch of this `if`''))
       (sorted_list_of_set (afterThen \<union> afterElse));
     returnA () }"

definition noteLoopDefAssignLosses :: "SourceSpan \<Rightarrow> nat set \<Rightarrow> nat set \<Rightarrow> unit analysis" where
  "noteLoopDefAssignLosses loopSpan beforeLoop afterBody = do {
     traverse_list (\<lambda>bid. whenA (bid \<notin> beforeLoop)
         (rememberDefAssignReason bid loopSpan
            ''assignment inside a loop is not guaranteed because the loop may run zero times''))
       (sorted_list_of_set afterBody);
     returnA () }"

text \<open>
  \<open>mergeArrayElemAssignAfterIf\<close> as a function of the scopes and of \<open>definiteAssign_\<close>: the new
  \<open>definiteAssign_\<close> and \<open>arrayElemAssign_\<close>. The loops over unordered containers treat each
  binding on its own, so their order is immaterial. \<open>mergeTwoWayMaps\<close> and \<open>mergeBothWayMaps\<close>
  differ only in the two states they are given.
\<close>

definition promoteFullMasks :: "nat set \<times> ArrayElemMap \<Rightarrow> nat set \<times> ArrayElemMap" where
  "promoteFullMasks s =
     (case s of (def, arr) \<Rightarrow>
       (def \<union> Set.filter (\<lambda>bid. vectorAllOnes (the (Mapping.lookup arr bid))) (Mapping.keys arr),
        Mapping.filter (\<lambda>bid m. \<not> vectorAllOnes m) arr))"

definition assignArrayMap :: "nat set \<Rightarrow> ArrayElemMap \<Rightarrow> nat set \<times> ArrayElemMap" where
  "assignArrayMap def src = promoteFullMasks (def, Mapping.filter (\<lambda>bid m. bid \<notin> def) src)"

definition isArrayBinding :: "Scope list \<Rightarrow> nat \<Rightarrow> bool" where
  "isArrayBinding scopes bid \<longleftrightarrow>
     (case lookupLocalTypeByBindingId scopes bid of None \<Rightarrow> False | Some t \<Rightarrow> Type_isFixedArray t)"

definition collectArrayCandidates ::
    "Scope list \<Rightarrow> nat set \<Rightarrow> ArrayElemMap \<Rightarrow> nat set \<Rightarrow> ArrayElemMap \<Rightarrow> nat set" where
  "collectArrayCandidates scopes d0 a0 d1 a1 =
     Mapping.keys a0 \<union> Mapping.keys a1 \<union> Set.filter (isArrayBinding scopes) d0 \<union>
     Set.filter (isArrayBinding scopes) d1"

definition mergedMask ::
    "Scope list \<Rightarrow> nat set \<Rightarrow> ArrayElemMap \<Rightarrow> nat set \<Rightarrow> ArrayElemMap \<Rightarrow> nat \<Rightarrow> bool list option" where
  "mergedMask scopes d0 a0 d1 a1 bid =
     (case lookupLocalTypeByBindingId scopes bid of
        None \<Rightarrow> None
      | Some t \<Rightarrow>
          if \<not> Type_isFixedArray t \<or> untrackable t then None
          else
            let n = unat (flatElementCountRanked t)
            in Some (bandMasks (maskOrFull d0 a0 bid n) (maskOrFull d1 a1 bid n)))"

definition mergeWayMaps ::
    "Scope list \<Rightarrow> nat set \<Rightarrow> nat set \<Rightarrow> ArrayElemMap \<Rightarrow> nat set \<Rightarrow> ArrayElemMap \<Rightarrow>
     nat set \<times> ArrayElemMap" where
  "mergeWayMaps scopes def d0 a0 d1 a1 =
     (let candidates = collectArrayCandidates scopes d0 a0 d1 a1 - def;
          merged = mergedMask scopes d0 a0 d1 a1;
          full = Set.filter (\<lambda>bid. case merged bid of None \<Rightarrow> False | Some m \<Rightarrow> vectorAllOnes m) candidates;
          partial = Set.filter (\<lambda>bid. case merged bid of None \<Rightarrow> False
            | Some m \<Rightarrow> \<not> vectorAllOnes m \<and> list_ex (\<lambda>b. b) m) candidates
      in promoteFullMasks (def \<union> full,
           Mapping.tabulate (sorted_list_of_set partial) (\<lambda>bid. the (merged bid))))"

definition mergeArrayElemAssignAfterIf ::
    "Scope list \<Rightarrow> nat set \<Rightarrow> ArrayElemMap \<Rightarrow> nat set \<Rightarrow> ArrayElemMap \<Rightarrow> nat set \<Rightarrow> ArrayElemMap \<Rightarrow> nat set \<Rightarrow>
     bool \<Rightarrow> bool \<Rightarrow> bool \<Rightarrow> nat set \<times> ArrayElemMap" where
  "mergeArrayElemAssignAfterIf scopes def beforeArr beforeDef afterThenArr afterThenDef
       afterElseArr afterElseDef hasElse thenReturns elseReturns =
     (if \<not> hasElse then
        if thenReturns then assignArrayMap def beforeArr
        else mergeWayMaps scopes def beforeDef beforeArr afterThenDef afterThenArr
      else if thenReturns \<and> \<not> elseReturns then assignArrayMap def afterElseArr
      else if \<not> thenReturns \<and> elseReturns then assignArrayMap def afterThenArr
      else if thenReturns \<and> elseReturns then assignArrayMap def beforeArr
      else mergeWayMaps scopes def afterThenDef afterThenArr afterElseDef afterElseArr)"

end
