(* ===== verification/SemanticExpr.thy ===== *)
theory SemanticExpr
  imports Semantic
begin

text \<open>
  The expression half of \<open>AnalyzerImpl\<close>. A routine that analyses subexpressions takes the
  recursive \<open>analyzeExpr\<close> as its argument \<open>rec\<close>; \<open>analyzeExpr\<close> ties the knot by recursion on
  the size of the tree: it passes itself, guarded by the size, and
  \<open>analyzeExpr_unfold\<close> (in \<open>SemanticFacts\<close>) shows that the guard never applies.
\<close>

type_synonym analyze_rec = "Expr \<Rightarrow> Type option \<Rightarrow> ExprCtx \<Rightarrow> ExprInfo analysis"

definition unknownInfo :: ExprInfo where
  "unknownInfo = mk_info invalidType False None"

section \<open>Leaves\<close>

definition checkIntegerLiteralRange :: "string \<Rightarrow> SourceSpan \<Rightarrow> Type \<Rightarrow> unit analysis" where
  "checkIntegerLiteralRange raw span t =
     (case parseUnsignedInteger raw of
        None \<Rightarrow> returnA ()
      | Some v \<Rightarrow> whenA (v > maxIntegerValue t)
          (errorA span (''integer literal `'' @ raw @ ''` does not fit in type `'' @ typeName t @ ''`'')))"

definition analyzeIntegerLiteral :: "SourceSpan \<Rightarrow> string \<Rightarrow> Type option \<Rightarrow> ExprInfo analysis" where
  "analyzeIntegerLiteral span raw expected =
     (let t = (case expected of None \<Rightarrow> builtinScalar I32 | Some t \<Rightarrow> t) in
      if \<not> Type_isInteger t then do {
        errorA span (''integer literal cannot be used as `'' @ typeName t @ ''`'');
        returnA (mk_info invalidType True None) }
      else do {
        checkIntegerLiteralRange raw span t;
        returnA (mk_info t True (parseUnsignedInteger raw)) })"

definition analyzeFloatLiteral :: "SourceSpan \<Rightarrow> string \<Rightarrow> Type option \<Rightarrow> ExprInfo analysis" where
  "analyzeFloatLiteral span raw expected =
     (let t = (case expected of None \<Rightarrow> builtinScalar F64 | Some t \<Rightarrow> t) in
      if \<not> Type_isFloat t then do {
        errorA span (''float literal cannot be used as `'' @ typeName t @ ''`'');
        returnA (mk_info invalidType True None) }
      else do {
        whenA (\<not> parseFiniteFloatLiteral raw t)
          (errorA span (''float literal `'' @ raw @ ''` does not fit in type `'' @ typeName t @ ''`''));
        returnA (mk_info t True None) })"

definition isFunctionName :: "string \<Rightarrow> bool analysis" where
  "isFunctionName name = getsA (\<lambda>st. Mapping.lookup (an_functions st) name \<noteq> None)"

text \<open>The two messages for a name that is no value.\<close>

definition unresolvedName :: "SourceSpan \<Rightarrow> string \<Rightarrow> ExprInfo analysis" where
  "unresolvedName span name = do {
     isFunction \<leftarrow> isFunctionName name;
     (if isFunction then errorA span (''function `'' @ name @ ''` cannot be used as a value'')
      else errorA span (''undefined name `'' @ name @ ''`''));
     returnA unknownInfo }"

definition analyzeNameExpr :: "SourceSpan \<Rightarrow> string \<Rightarrow> ExprCtx \<Rightarrow> ExprInfo analysis" where
  "analyzeNameExpr span name ctx = do {
     symbol \<leftarrow> lookupValue name;
     case symbol of
       None \<Rightarrow> unresolvedName span name
     | Some s \<Rightarrow> do {
         whenA (\<not> (ctx = Ctx_IndexBase \<and> Type_isFixedArray (vs_type s)))
           (requireReadableLocal s span name);
         returnA (mk_info (vs_type s) (vs_isConst s) None) } }"

section \<open>Calls\<close>

text \<open>Arguments analysed for their own errors only.\<close>

definition analyzeRest :: "analyze_rec \<Rightarrow> Expr list \<Rightarrow> unit analysis" where
  "analyzeRest rec arguments = do {
     traverse_list (\<lambda>a. rec a None Ctx_Normal) arguments;
     returnA () }"

definition isFormatSubstitutionType :: "Type \<Rightarrow> bool" where
  "isFormatSubstitutionType t \<longleftrightarrow>
     Type_isInteger t \<or> Type_isFloat t \<or> Type_isBool t \<or> Type_isString t"

definition analyzeFormatArgument :: "analyze_rec \<Rightarrow> Expr \<times> FormatHole \<Rightarrow> unit analysis" where
  "analyzeFormatArgument rec ah =
     (case ah of (a, hole) \<Rightarrow> do {
        arg \<leftarrow> rec a None Ctx_Normal;
        let t = ei_type arg;
        whenA (\<not> Type_isInvalid t \<and> \<not> isFormatSubstitutionType t)
          (errorA (expr_span a) (''format argument has type `'' @ typeName t @
             ''`; supported types are integers, floats, bool, and str''));
        whenA (hole_kind hole = FloatFixed \<and> \<not> Type_isFloat t \<and> \<not> Type_isInvalid t)
          (errorA (expr_span a) ''format precision is only supported for floating-point arguments'');
        whenA (hole_kind hole \<in> {HexLower, HexUpper, Binary} \<and> \<not> Type_isInteger t \<and> \<not> Type_isInvalid t)
          (errorA (expr_span a) ''integer base formatting is only supported for integer arguments'') })"

definition analyzeFormatPrintCall ::
    "analyze_rec \<Rightarrow> SourceSpan \<Rightarrow> Expr list \<Rightarrow> string \<Rightarrow> ExprInfo analysis" where
  "analyzeFormatPrintCall rec callSpan arguments builtinName =
     (let done = returnA (mk_info (builtinScalar Void) False None);
          strType = builtinScalar Str
      in case arguments of
        [] \<Rightarrow> do {
          errorA callSpan (''`'' @ builtinName @ ''` requires at least a format string argument'');
          done }
      | StringLiteralExpr sp raw # rest \<Rightarrow>
          (case decodeStringLiteralContent raw of
             Inl decErr \<Rightarrow> do { errorA sp decErr; analyzeRest rec rest; done }
           | Inr decoded \<Rightarrow>
               (case parseFormatString decoded of
                  Inl splitErr \<Rightarrow> do { errorA sp splitErr; analyzeRest rec rest; done }
                | Inr parts \<Rightarrow> do {
                    let holes = length (fp_holes parts);
                    whenA (length arguments \<noteq> 1 + holes)
                      (errorA callSpan (''`'' @ builtinName @ ''` format string has '' @
                         to_string holes @ '' `{}` placeholder(s), but callsite has '' @
                         to_string (length arguments) @ '' argument(s) (expected '' @
                         to_string (1 + holes) @ '')''));
                    let toCheck = min (length rest) holes;
                    traverse_list (analyzeFormatArgument rec)
                      (zip (take toCheck rest) (take toCheck (fp_holes parts)));
                    analyzeRest rec (drop toCheck rest);
                    done }))
      | first # rest \<Rightarrow>
          if rest \<noteq> [] then do {
            errorA (expr_span first) (''`'' @ builtinName @ ''` with multiple arguments requires a string '' @
              ''literal format as the first argument'');
            analyzeRest rec rest;
            done }
          else do {
            arg \<leftarrow> rec first (Some strType) Ctx_Normal;
            whenA (\<not> sameType (ei_type arg) strType)
              (errorA (expr_span first) (''`'' @ builtinName @
                 ''` expects either a format string literal or '' @ ''one `str` argument''));
            done })"

definition analyzeArgument :: "analyze_rec \<Rightarrow> string \<Rightarrow> nat \<times> Expr \<times> Type \<Rightarrow> unit analysis" where
  "analyzeArgument rec name iat =
     (case iat of (i, a, expected) \<Rightarrow> do {
        actual \<leftarrow> rec a (Some expected) Ctx_Normal;
        whenA (\<not> sameType expected (ei_type actual))
          (errorA (expr_span a) (''argument '' @ to_string (i + 1) @ '' to `'' @ name @
             ''` has type `'' @ typeName (ei_type actual) @ ''`, expected `'' @
             typeName expected @ ''`'')) })"

definition analyzeCallExpr ::
    "analyze_rec \<Rightarrow> SourceSpan \<Rightarrow> Expr \<Rightarrow> Expr list \<Rightarrow> ExprInfo analysis" where
  "analyzeCallExpr rec callSpan callee arguments =
     (case callee of
        NameExpr sp name \<Rightarrow> do {
          functions \<leftarrow> getsA an_functions;
          case Mapping.lookup functions name of
            None \<Rightarrow> do {
              errorA sp (''undefined function `'' @ name @ ''`'');
              analyzeRest rec arguments;
              returnA unknownInfo }
          | Some symbol \<Rightarrow>
              if fs_isBuiltin symbol \<and> (name = ''print'' \<or> name = ''println'') then
                analyzeFormatPrintCall rec callSpan arguments name
              else do {
                let parameters = fs_parameterTypes symbol;
                whenA (length arguments \<noteq> length parameters)
                  (errorA callSpan (''function `'' @ name @ ''` expects '' @
                     to_string (length parameters) @ '' argument(s), got '' @
                     to_string (length arguments)));
                let count = min (length arguments) (length parameters);
                traverse_list (analyzeArgument rec name)
                  (zip [0..<count] (zip (take count arguments) (take count parameters)));
                analyzeRest rec (drop count arguments);
                returnA (mk_info (fs_returnType symbol) False None) } }
      | _ \<Rightarrow> do {
          errorA (expr_span callee) ''callee must be a function name'';
          analyzeRest rec arguments;
          returnA unknownInfo })"

section \<open>Operators\<close>

definition analyzeAddressOf :: "analyze_rec \<Rightarrow> Expr \<Rightarrow> ExprInfo analysis" where
  "analyzeAddressOf rec operand =
     (case stripParensConst operand of
        NameExpr sp name \<Rightarrow> do {
          symbol \<leftarrow> lookupValue name;
          case symbol of
            None \<Rightarrow> do {
              errorA sp (''undefined local `'' @ name @ ''`'');
              returnA unknownInfo }
          | Some s \<Rightarrow> do {
              whenA (vs_isConst s \<or> \<not> vs_isMutable s)
                (errorA sp ''`&` currently requires a mutable local binding'');
              requireReadableLocal s sp name;
              if Type_isFixedArray (vs_type s) \<or> Type_isPointer (vs_type s) \<or>
                 Type_isString (vs_type s) \<or> Type_isVoid (vs_type s) then do {
                errorA sp ''`&` currently supports scalar integer, float, or bool locals'';
                returnA unknownInfo }
              else returnA (mk_info ((vs_type s)\<lparr>t_pointerDepth := 1\<rparr>) False None) } }
      | _ \<Rightarrow> do {
          errorA (expr_span operand) ''`&` currently requires a mutable local name'';
          rec operand None Ctx_Normal;
          returnA unknownInfo })"

definition analyzeUnaryExpr ::
    "analyze_rec \<Rightarrow> TokenKind \<Rightarrow> Expr \<Rightarrow> Type option \<Rightarrow> ExprInfo analysis" where
  "analyzeUnaryExpr rec op operand expected =
     (if op = Amp then analyzeAddressOf rec operand
      else if op = Star then do {
        o1 \<leftarrow> rec operand expected Ctx_Normal;
        if \<not> Type_isPointer (ei_type o1) then do {
          errorA (expr_span operand) (''`*` operand must be a pointer type, not `'' @
            typeName (ei_type o1) @ ''`'');
          returnA unknownInfo }
        else returnA (mk_info (Type_pointeeType (ei_type o1)) False None) }
      else if op = Bang then do {
        o1 \<leftarrow> rec operand None Ctx_Normal;
        whenA (\<not> canBeCondition (ei_type o1))
          (errorA (expr_span operand) (''`!` operand must be `bool` or integer, not `'' @
             typeName (ei_type o1) @ ''`''));
        returnA (mk_info (builtinScalar Bool) (ei_isConstant o1) None) }
      else if op = Minus then do {
        o1 \<leftarrow> rec operand expected Ctx_Normal;
        whenA (\<not> Type_isInteger (ei_type o1) \<and> \<not> Type_isFloat (ei_type o1))
          (errorA (expr_span operand) (''`-` operand must be an integer or floating-point type, not `'' @
             typeName (ei_type o1) @ ''`''));
        returnA (mk_info (ei_type o1) (ei_isConstant o1) None) }
      else if op = Tilde then do {
        o1 \<leftarrow> rec operand expected Ctx_Normal;
        whenA (\<not> Type_isInteger (ei_type o1))
          (errorA (expr_span operand) (''`~` operand must be an integer type, not `'' @
             typeName (ei_type o1) @ ''`''));
        returnA (mk_info (ei_type o1) (ei_isConstant o1)
          (if ei_isConstant o1 \<and> Type_isInteger (ei_type o1) then
             map_option (\<lambda>v. and (not v) (maxIntegerValue (ei_type o1))) (ei_integerValue o1)
           else None)) }
      else returnA unknownInfo)"

text \<open>The switch of \<open>analyzeConstantArithmetic\<close> on two known operands: the value, or the error
  and whether it is reported at the right operand.\<close>

datatype folded = Fold_value "64 word" | Fold_none | Fold_overflow | Fold_error string

definition shiftCountError :: "Type \<Rightarrow> folded" where
  "shiftCountError t =
     Fold_error (''shift count is greater than or equal to the bit width of `'' @ typeName t @ ''`'')"

definition foldConstants :: "TokenKind \<Rightarrow> Type \<Rightarrow> 64 word \<Rightarrow> 64 word \<Rightarrow> folded" where
  "foldConstants op t lhs rhs =
     (let m = maxIntegerValue t in
      if op = Plus then
        if rhs > m \<or> lhs > m - rhs then Fold_overflow else Fold_value (lhs + rhs)
      else if op = Minus then
        if lhs < rhs then if \<not> isSigned t then Fold_overflow else Fold_none
        else Fold_value (lhs - rhs)
      else if op = Star then
        if rhs \<noteq> 0 \<and> lhs > m div rhs then Fold_overflow else Fold_value (lhs * rhs)
      else if op = Slash then
        if rhs = 0 then Fold_error ''division by zero in constant expression''
        else Fold_value (lhs div rhs)
      else if op = Percent then
        if rhs = 0 then Fold_error ''remainder by zero in constant expression''
        else Fold_value (lhs mod rhs)
      else if op = Amp then Fold_value (and lhs rhs)
      else if op = Pipe then Fold_value (or lhs rhs)
      else if op = Caret then Fold_value (xor lhs rhs)
      else if op = LessLess then
        if unat rhs \<ge> bitWidth t then shiftCountError t
        else if lhs > drop_bit (unat rhs) m then Fold_overflow
        else Fold_value (and (push_bit (unat rhs) lhs) m)
      else if op = GreaterGreater then
        if unat rhs \<ge> bitWidth t then shiftCountError t
        else Fold_value (drop_bit (unat rhs) lhs)
      else Fold_none)"

definition analyzeConstantArithmetic ::
    "SourceSpan \<Rightarrow> TokenKind \<Rightarrow> SourceSpan \<Rightarrow> ExprInfo \<Rightarrow> ExprInfo \<Rightarrow> ExprInfo analysis" where
  "analyzeConstantArithmetic span op rightSpan left right =
     (let c = (ei_isConstant left \<and> ei_isConstant right);
          result = mk_info (ei_type left) c None
      in case (c, ei_integerValue left, ei_integerValue right) of
           (True, Some lhs, Some rhs) \<Rightarrow>
             if \<not> Type_isInteger (ei_type left) then returnA result
             else (case foldConstants op (ei_type left) lhs rhs of
                 Fold_value v \<Rightarrow> returnA (mk_info (ei_type left) c (Some v))
               | Fold_none \<Rightarrow> returnA result
               | Fold_overflow \<Rightarrow> do {
                   errorA span (''constant expression overflows type `'' @ typeName (ei_type left) @ ''`'');
                   returnA result }
               | Fold_error message \<Rightarrow> do { errorA rightSpan message; returnA result })
         | _ \<Rightarrow> returnA result)"

definition truthOf :: "ExprInfo \<Rightarrow> bool option" where
  "truthOf e = (if \<not> ei_isConstant e then None else map_option (\<lambda>v. v \<noteq> 0) (ei_integerValue e))"

text \<open>Short-circuit folding: a left operand that decides the result needs no constant on the right.\<close>

definition foldLogical :: "TokenKind \<Rightarrow> bool option \<Rightarrow> bool option \<Rightarrow> bool option" where
  "foldLogical op lt rt =
     (if op = AmpAmp then
        case lt of Some False \<Rightarrow> Some False | Some True \<Rightarrow> rt | None \<Rightarrow> None
      else
        case lt of Some True \<Rightarrow> Some True | Some False \<Rightarrow> rt | None \<Rightarrow> None)"

definition analyzeLogical ::
    "analyze_rec \<Rightarrow> Expr \<Rightarrow> TokenKind \<Rightarrow> Expr \<Rightarrow> ExprInfo analysis" where
  "analyzeLogical rec left op right = do {
     l \<leftarrow> rec left None Ctx_Normal;
     whenA (\<not> canBeCondition (ei_type l))
       (errorA (expr_span left) ''left operand must be `bool` or integer'');
     r \<leftarrow> rec right None Ctx_Normal;
     whenA (\<not> canBeCondition (ei_type r))
       (errorA (expr_span right) ''right operand must be `bool` or integer'');
     case foldLogical op (truthOf l) (truthOf r) of
       None \<Rightarrow> returnA (mk_info (builtinScalar Bool) False None)
     | Some b \<Rightarrow> returnA (mk_info (builtinScalar Bool) True (Some (if b then 1 else 0))) }"

abbreviation arithmeticOps :: "TokenKind set" where
  "arithmeticOps \<equiv> {Plus, Minus, Star, Slash, Percent}"
abbreviation bitwiseOps :: "TokenKind set" where
  "bitwiseOps \<equiv> {Amp, Pipe, Caret}"
abbreviation shiftOps :: "TokenKind set" where
  "shiftOps \<equiv> {LessLess, GreaterGreater}"
abbreviation comparisonOps :: "TokenKind set" where
  "comparisonOps \<equiv> {Less, LessEqual, Greater, GreaterEqual}"
abbreviation equalityOps :: "TokenKind set" where
  "equalityOps \<equiv> {EqualEqual, BangEqual}"

definition isNumeric :: "Type \<Rightarrow> bool" where
  "isNumeric t \<longleftrightarrow> Type_isInteger t \<or> Type_isFloat t"

definition checkOperandTypes ::
    "SourceSpan \<Rightarrow> Expr \<Rightarrow> TokenKind \<Rightarrow> Expr \<Rightarrow> Type \<Rightarrow> Type \<Rightarrow> unit analysis" where
  "checkOperandTypes span left op right lt rt = do {
     whenA (op \<in> arithmeticOps \<or> op \<in> comparisonOps) (do {
       whenA (\<not> isNumeric lt)
         (errorA (expr_span left) ''left operand must be an integer or floating-point type'');
       whenA (\<not> isNumeric rt)
         (errorA (expr_span right) ''right operand must be an integer or floating-point type'');
       whenA (op = Percent \<and> (Type_isFloat lt \<or> Type_isFloat rt))
         (errorA span ''`%` operands must be integer types'') });
     whenA (op \<in> bitwiseOps \<or> op \<in> shiftOps) (do {
       whenA (\<not> Type_isInteger lt) (errorA (expr_span left) ''left operand must be an integer type'');
       whenA (\<not> Type_isInteger rt) (errorA (expr_span right) ''right operand must be an integer type'') });
     whenA (\<not> sameType lt rt)
       (errorA span (''binary operands must have the same type, got `'' @ typeName lt @ ''` and `'' @
          typeName rt @ ''`'')) }"

definition analyzeBinaryExpr ::
    "analyze_rec \<Rightarrow> SourceSpan \<Rightarrow> Expr \<Rightarrow> TokenKind \<Rightarrow> Expr \<Rightarrow> Type option \<Rightarrow> ExprInfo analysis" where
  "analyzeBinaryExpr rec span left op right expected =
     (if op = AmpAmp \<or> op = PipePipe then analyzeLogical rec left op right
      else do {
        l \<leftarrow> rec left expected Ctx_Normal;
        r \<leftarrow> rec right (Some (ei_type l)) Ctx_Normal;
        checkOperandTypes span left op right (ei_type l) (ei_type r);
        if op \<in> arithmeticOps \<or> op \<in> bitwiseOps \<or> op \<in> shiftOps then
          analyzeConstantArithmetic span op (expr_span right) l r
        else if op \<in> comparisonOps \<or> op \<in> equalityOps then
          returnA (mk_info (builtinScalar Bool) (ei_isConstant l \<and> ei_isConstant r) None)
        else returnA unknownInfo })"

section \<open>Arrays\<close>

text \<open>An element of a literal whose type is known: it must have the element type.\<close>

definition analyzeElement :: "analyze_rec \<Rightarrow> Type \<Rightarrow> Expr \<Rightarrow> bool analysis" where
  "analyzeElement rec innerExpected el = do {
     ei \<leftarrow> rec el (Some innerExpected) Ctx_Normal;
     whenA (\<not> sameType innerExpected (ei_type ei))
       (errorA (expr_span el) (''array element type `'' @ typeName (ei_type ei) @
          ''` does not match `'' @ typeName innerExpected @ ''`''));
     returnA (ei_isConstant ei) }"

definition analyzeLaterElement :: "analyze_rec \<Rightarrow> Type \<Rightarrow> Expr \<Rightarrow> bool analysis" where
  "analyzeLaterElement rec firstType el = do {
     ei \<leftarrow> rec el (Some firstType) Ctx_Normal;
     whenA (\<not> sameType firstType (ei_type ei))
       (errorA (expr_span el) ''array literal elements must have the same type'');
     returnA (ei_isConstant ei) }"

definition analyzeArrayLiteral ::
    "analyze_rec \<Rightarrow> SourceSpan \<Rightarrow> Expr list \<Rightarrow> Type option \<Rightarrow> ExprInfo analysis" where
  "analyzeArrayLiteral rec span elements expected =
     (case (case expected of Some arr \<Rightarrow> if Type_isFixedArray arr then Some arr else None | None \<Rightarrow> None) of
        Some arr \<Rightarrow> do {
          whenA (of_nat (length elements) \<noteq> hd (t_arrayDimensions arr))
            (errorA span (''array literal length '' @ to_string (length elements) @
               '' does not match type `'' @ typeName arr @ ''`''));
          constants \<leftarrow> traverse_list (analyzeElement rec (Type_afterIndex arr)) elements;
          returnA (mk_info arr (list_all (\<lambda>b. b) constants) None) }
      | None \<Rightarrow>
          (case elements of
             [] \<Rightarrow> do {
               errorA span ''empty array literal requires a contextual `[T; N]` type'';
               returnA unknownInfo }
           | first # rest \<Rightarrow> do {
               f \<leftarrow> rec first None Ctx_Normal;
               constants \<leftarrow> traverse_list (analyzeLaterElement rec (ei_type f)) rest;
               let allConst = (ei_isConstant f \<and> list_all (\<lambda>b. b) constants);
               let t = ei_type f;
               if Type_isVoid t \<or> Type_isString t \<or> Type_isInvalid t then do {
                 errorA span ''cannot infer array type from these element types'';
                 returnA unknownInfo }
               else if Type_isFixedArray t then
                 returnA (mk_info (t\<lparr>t_arrayDimensions := of_nat (length elements) # t_arrayDimensions t\<rparr>)
                   allConst None)
               else returnA (mk_info (mk_type (t_kind t) [of_nat (length elements)] 0) allConst None) }))"

text \<open>One index of a chain: \<open>walk\<close> is the type that is indexed, \<open>whole\<close> the type of the array.\<close>

definition analyzeIndex :: "analyze_rec \<Rightarrow> Type \<Rightarrow> Type \<Rightarrow> Expr \<Rightarrow> ExprInfo analysis" where
  "analyzeIndex rec whole walk idxExpr = do {
     ii \<leftarrow> rec idxExpr (Some (builtinScalar I32)) Ctx_Normal;
     whenA (\<not> Type_isInteger (ei_type ii))
       (errorA (expr_span idxExpr) ''array index must be an integer type'');
     whenA (ei_isConstant ii \<and>
         (case ei_integerValue ii of None \<Rightarrow> False
          | Some v \<Rightarrow> t_arrayDimensions walk = [] \<or> v \<ge> hd (t_arrayDimensions walk)))
       (errorA (expr_span idxExpr) (''array index out of bounds for `'' @ typeName whole @ ''`''));
     returnA ii }"

primrec analyzeIndices ::
    "analyze_rec \<Rightarrow> Type \<Rightarrow> Type \<Rightarrow> Expr list \<Rightarrow> (ExprInfo list \<times> Type) analysis" where
  "analyzeIndices rec whole walk [] = returnA ([], walk)"
| "analyzeIndices rec whole walk (i # is) = do {
     ii \<leftarrow> analyzeIndex rec whole walk i;
     (iis, t) \<leftarrow> analyzeIndices rec whole (Type_afterIndex walk) is;
     returnA (ii # iis, t) }"

definition analyzeNameChain ::
    "analyze_rec \<Rightarrow> SourceSpan \<Rightarrow> IndexedNameChain \<Rightarrow> ExprInfo analysis" where
  "analyzeNameChain rec span chain = do {
     symbol \<leftarrow> lookupValue (chain_rootName chain);
     case symbol of
       None \<Rightarrow> unresolvedName (chain_rootSpan chain) (chain_rootName chain)
     | Some s \<Rightarrow>
         if \<not> Type_isFixedArray (vs_type s) then do {
           errorA (chain_rootSpan chain) ''indexed access requires an array value'';
           returnA unknownInfo }
         else if length (chain_indices chain) > length (t_arrayDimensions (vs_type s)) then do {
           errorA span (''too many index operations for type `'' @ typeName (vs_type s) @ ''`'');
           returnA unknownInfo }
         else do {
           (idxInfos, walk) \<leftarrow> analyzeIndices rec (vs_type s) (vs_type s) (chain_indices chain);
           whenA (\<not> vs_isConst s \<and> Type_isFixedArray (vs_type s))
             (if Type_isFixedArray walk then
                requireSubArraySliceReadable s (length (chain_indices chain)) idxInfos span
                  (chain_rootName chain)
              else requireIndexedScalarReadable s (vs_type s) idxInfos span (chain_rootName chain));
           returnA (mk_info walk False None) } }"

definition analyzeIndexedValue ::
    "analyze_rec \<Rightarrow> Expr \<Rightarrow> Expr \<Rightarrow> ExprInfo analysis" where
  "analyzeIndexedValue rec base index = do {
     b \<leftarrow> rec base None Ctx_IndexBase;
     i \<leftarrow> rec index (Some (builtinScalar I32)) Ctx_Normal;
     if \<not> Type_isFixedArray (ei_type b) then do {
       errorA (expr_span base) ''indexed access requires an array value'';
       returnA unknownInfo }
     else do {
       whenA (\<not> Type_isInteger (ei_type i))
         (errorA (expr_span index) ''array index must be an integer type'');
       whenA (ei_isConstant i \<and>
           (case ei_integerValue i of None \<Rightarrow> False
            | Some v \<Rightarrow> v \<ge> hd (t_arrayDimensions (ei_type b))))
         (errorA (expr_span index) (''array index out of bounds for `'' @ typeName (ei_type b) @ ''`''));
       returnA (mk_info (Type_afterIndex (ei_type b)) False None) } }"

definition analyzeIndexExpr ::
    "analyze_rec \<Rightarrow> SourceSpan \<Rightarrow> Expr \<Rightarrow> Expr \<Rightarrow> ExprCtx \<Rightarrow> ExprInfo analysis" where
  "analyzeIndexExpr rec span base index ctx =
     (case (if ctx = Ctx_Normal then peelIndexedNameChain (IndexExpr span base index) else None) of
        Some chain \<Rightarrow> analyzeNameChain rec span chain
      | None \<Rightarrow> analyzeIndexedValue rec base index)"

section \<open>Expressions\<close>

definition exprStep :: "analyze_rec \<Rightarrow> Expr \<Rightarrow> Type option \<Rightarrow> ExprCtx \<Rightarrow> ExprInfo analysis" where
  "exprStep rec e expected ctx =
     (case e of
        IntegerLiteralExpr sp raw \<Rightarrow> analyzeIntegerLiteral sp raw expected
      | FloatLiteralExpr sp raw \<Rightarrow> analyzeFloatLiteral sp raw expected
      | BoolLiteralExpr sp v \<Rightarrow> returnA (mk_info (builtinScalar Bool) True (Some (if v then 1 else 0)))
      | StringLiteralExpr sp raw \<Rightarrow> returnA (mk_info (builtinScalar Str) True None)
      | NameExpr sp name \<Rightarrow> analyzeNameExpr sp name ctx
      | CallExpr sp callee arguments \<Rightarrow> analyzeCallExpr rec sp callee arguments
      | UnaryExpr sp op operand \<Rightarrow> analyzeUnaryExpr rec op operand expected
      | BinaryExpr sp left op right \<Rightarrow> analyzeBinaryExpr rec sp left op right expected
      | ArrayLiteralExpr sp elements \<Rightarrow> analyzeArrayLiteral rec sp elements expected
      | IndexExpr sp base index \<Rightarrow> analyzeIndexExpr rec sp base index ctx
      | ParenExpr sp inner \<Rightarrow> rec inner expected ctx)"

function analyzeExpr :: "Expr \<Rightarrow> Type option \<Rightarrow> ExprCtx \<Rightarrow> ExprInfo analysis" where
  "analyzeExpr e expected ctx =
     exprStep (\<lambda>e' expected' ctx'. if size e' < size e then analyzeExpr e' expected' ctx'
       else returnA unknownInfo) e expected ctx"
  by pat_completeness auto
termination by (relation "measure (\<lambda>(e, expected, ctx). size e)") simp_all

declare analyzeExpr.simps [simp del]

end
