(* ===== verification/SemanticStmt.thy ===== *)
theory SemanticStmt
  imports SemanticExpr
begin

text \<open>
  The statement half of \<open>AnalyzerImpl\<close>, the declarations and the driver \<open>analyze\<close>. A statement
  returns whether it definitely returns. The recursion over statements is tied like the one over
  expressions; a null child marks the run as undefined.
\<close>

section \<open>Declared types\<close>

definition validateFixedArrayDecl :: "Type \<Rightarrow> SourceSpan \<Rightarrow> unit analysis" where
  "validateFixedArrayDecl t span =
     (if \<not> Type_isFixedArray t then returnA ()
      else if 0 \<in> set (t_arrayDimensions t) then
        errorA span ''fixed array length must be greater than zero''
      else whenA (t_kind t = Void \<or> t_kind t = Str \<or> t_kind t = Invalid)
        (errorA span ''fixed array element cannot be `void`, `str`, or invalid''))"

definition validatePointerDecl :: "Type \<Rightarrow> SourceSpan \<Rightarrow> unit analysis" where
  "validatePointerDecl t span =
     (if \<not> Type_isPointer t then returnA ()
      else whenA (t_pointerDepth t \<noteq> 1 \<or> t_arrayDimensions t \<noteq> [] \<or>
          t_kind t = Void \<or> t_kind t = Str \<or> t_kind t = Invalid)
        (errorA span (''this pointer slice only supports `*T` where `T` is a scalar '' @
          ''integer, float, or bool type'')))"

section \<open>Leaf statements\<close>

definition analyzeCondition :: "Expr \<Rightarrow> string \<Rightarrow> unit analysis" where
  "analyzeCondition condition label = do {
     info \<leftarrow> analyzeExpr condition None Ctx_Normal;
     whenA (\<not> canBeCondition (ei_type info))
       (errorA (expr_span condition) (label @ '' must be `bool` or an integer type, not `'' @
          typeName (ei_type info) @ ''`'')) }"

definition analyzeReturn :: "SourceSpan \<Rightarrow> Expr option \<Rightarrow> unit analysis" where
  "analyzeReturn span v = do {
     ret \<leftarrow> getsA an_currentReturnType;
     case v of
       None \<Rightarrow> whenA (\<not> Type_isVoid ret)
         (errorA span (''non-void function must return a value of type `'' @ typeName ret @ ''`''))
     | Some e \<Rightarrow>
         if Type_isVoid ret then do {
           errorA (expr_span e) ''`void` function cannot return a value'';
           analyzeExpr e None Ctx_Normal;
           returnA () }
         else do {
           modifyA (\<lambda>st. st\<lparr>an_sawReturnValue := True\<rparr>);
           info \<leftarrow> analyzeExpr e (Some ret) Ctx_Normal;
           whenA (\<not> sameType ret (ei_type info))
             (errorA (expr_span e) (''cannot return value of type `'' @ typeName (ei_type info) @
                ''` from function returning `'' @ typeName ret @ ''`'')) } }"

text \<open>A \<open>let\<close> without an initializer.\<close>

definition analyzeUninitializedLet ::
    "SourceSpan \<Rightarrow> bool \<Rightarrow> string \<Rightarrow> SourceSpan \<Rightarrow> bool \<Rightarrow> Type \<Rightarrow> SourceSpan \<Rightarrow> unit analysis" where
  "analyzeUninitializedLet span isMutable name nameSpan hasExplicitType declared typeSpan =
     (if \<not> isMutable then
        errorA span (''`let` requires an initializer; only `let mut` '' @ ''may omit `=`'')
      else if \<not> hasExplicitType then
        errorA span ''uninitialized `let mut` requires an explicit type annotation''
      else do {
        bid \<leftarrow> declareLocal name nameSpan declared True;
        if Type_isFixedArray declared then
          whenA (bid \<noteq> 0) (do {
            initArrayElemTrackingForBinding bid declared typeSpan;
            rememberDefAssignReason bid nameSpan ''binding declared here without an initializer'' })
        else rememberDefAssignReason bid nameSpan ''binding declared here without an initializer'' })"

text \<open>The type of an initialized \<open>let\<close> against its initializer, and the declaration that follows.\<close>

definition checkInitializer ::
    "bool \<Rightarrow> bool \<Rightarrow> string \<Rightarrow> SourceSpan \<Rightarrow> Expr \<Rightarrow> Type \<Rightarrow> Type \<Rightarrow> unit analysis" where
  "checkInitializer hasExplicitType isMutable name nameSpan e t initType =
     (if \<not> hasExplicitType then do {
        whenA (Type_isVoid t \<or> Type_isInvalid t)
          (errorA (expr_span e) (''cannot infer type for local `'' @ name @
             ''`; add an explicit type annotation''));
        validateFixedArrayDecl t (expr_span e);
        validatePointerDecl t (expr_span e);
        whenA (Type_isPointer t \<and> isMutable)
          (errorA nameSpan ''mutable pointer variables are not implemented yet'') }
      else whenA (\<not> sameType t initType)
        (errorA (expr_span e) (''cannot initialize local `'' @ name @ ''` of type `'' @ typeName t @
           ''` with value of type `'' @ typeName initType @ ''`'')))"

definition declareInitialized :: "string \<Rightarrow> SourceSpan \<Rightarrow> Type \<Rightarrow> bool \<Rightarrow> unit analysis" where
  "declareInitialized name nameSpan t isMutable = do {
     bid \<leftarrow> declareLocal name nameSpan t isMutable;
     whenA (bid \<noteq> 0) (do {
       markDefiniteAssigned bid;
       whenA (Type_isFixedArray t) (markArrayBindingFullyAssigned bid) }) }"

definition analyzeLet ::
    "SourceSpan \<Rightarrow> bool \<Rightarrow> string \<Rightarrow> SourceSpan \<Rightarrow> TypeSyntax \<Rightarrow> Expr option \<Rightarrow> unit analysis" where
  "analyzeLet span isMutable name nameSpan syntax init = do {
     let hasExplicitType = hasExplicitTypeSyntax syntax;
     let declared = (if hasExplicitType then typeFromSyntax syntax else invalidType);
     let typeSpan = ts_span syntax;
     whenA hasExplicitType (do {
       validateFixedArrayDecl declared typeSpan;
       validatePointerDecl declared typeSpan;
       whenA (Type_isPointer declared \<and> isMutable)
         (errorA typeSpan ''mutable pointer variables are not implemented yet'') });
     case init of
       None \<Rightarrow>
         analyzeUninitializedLet span isMutable name nameSpan hasExplicitType declared typeSpan
     | Some e \<Rightarrow> do {
         info \<leftarrow> analyzeExpr e (if hasExplicitType then Some declared else None) Ctx_Normal;
         let t = (if hasExplicitType then declared else ei_type info);
         checkInitializer hasExplicitType isMutable name nameSpan e t (ei_type info);
         declareInitialized name nameSpan t isMutable } }"

text \<open>An assignment that was rejected at its target: the value is still analysed.\<close>

definition rejectAssign :: "SourceSpan \<Rightarrow> string \<Rightarrow> Expr \<Rightarrow> unit analysis" where
  "rejectAssign span message v = do {
     errorA span message;
     analyzeExpr v None Ctx_Normal;
     returnA () }"

definition analyzeNameAssign :: "SourceSpan \<Rightarrow> string \<Rightarrow> Expr \<Rightarrow> unit analysis" where
  "analyzeNameAssign span name v = do {
     symbol \<leftarrow> lookupValue name;
     case symbol of
       None \<Rightarrow> rejectAssign span (''undefined local `'' @ name @ ''`'') v
     | Some s \<Rightarrow> do {
         whenA (\<not> vs_isMutable s)
           (errorA span (''cannot assign to immutable binding `'' @ name @ ''`''));
         info \<leftarrow> analyzeExpr v (Some (vs_type s)) Ctx_Normal;
         whenA (\<not> sameType (vs_type s) (ei_type info))
           (errorA (expr_span v) (''cannot assign value of type `'' @ typeName (ei_type info) @
              ''` to `'' @ name @ ''` of type `'' @ typeName (vs_type s) @ ''`''));
         markDefiniteAssigned (vs_bindingId s) } }"

definition analyzeIndexAssign :: "Expr \<Rightarrow> Expr \<Rightarrow> unit analysis" where
  "analyzeIndexAssign target v =
     (case peelIndexedNameChain target of
        None \<Rightarrow> rejectAssign (expr_span target)
          (''indexed assignment requires a local array name '' @ ''with a constant index chain'') v
      | Some chain \<Rightarrow> do {
          symbol \<leftarrow> lookupValue (chain_rootName chain);
          case symbol of
            None \<Rightarrow> rejectAssign (chain_rootSpan chain)
              (''undefined local `'' @ chain_rootName chain @ ''`'') v
          | Some s \<Rightarrow>
              if \<not> vs_isMutable s then
                rejectAssign (chain_rootSpan chain) (''cannot assign through immutable array binding `'' @
                  chain_rootName chain @ ''`'') v
              else if \<not> Type_isFixedArray (vs_type s) then
                rejectAssign (chain_rootSpan chain) ''indexed assignment requires an array local'' v
              else if length (chain_indices chain) \<noteq> length (t_arrayDimensions (vs_type s)) then
                rejectAssign (expr_span target) (''indexed assignment must store through a scalar element '' @
                  ''of `'' @ typeName (vs_type s) @ ''`'') v
              else do {
                (idxInfos, elem) \<leftarrow>
                  analyzeIndices analyzeExpr (vs_type s) (vs_type s) (chain_indices chain);
                info \<leftarrow> analyzeExpr v (Some elem) Ctx_Normal;
                whenA (\<not> sameType elem (ei_type info))
                  (errorA (expr_span v) (''cannot assign value of type `'' @ typeName (ei_type info) @
                     ''` to element type `'' @ typeName elem @ ''`''));
                whenA (\<not> vs_isConst s)
                  (noteIndexedStoreToLocal (vs_bindingId s) (vs_type s) idxInfos (chain_indices chain)) } })"

definition analyzeDerefAssign :: "Expr \<Rightarrow> Expr \<Rightarrow> unit analysis" where
  "analyzeDerefAssign operand v = do {
     ptr \<leftarrow> analyzeExpr operand None Ctx_Normal;
     if \<not> Type_isPointer (ei_type ptr) then
       rejectAssign (expr_span operand) ''dereferenced assignment target must have pointer type'' v
     else do {
       let pointee = Type_pointeeType (ei_type ptr);
       info \<leftarrow> analyzeExpr v (Some pointee) Ctx_Normal;
       whenA (\<not> sameType pointee (ei_type info))
         (errorA (expr_span v) (''cannot assign value of type `'' @ typeName (ei_type info) @
            ''` through pointer to `'' @ typeName pointee @ ''`'')) } }"

definition rejectTarget :: "Expr \<Rightarrow> Expr \<Rightarrow> unit analysis" where
  "rejectTarget target v = rejectAssign (expr_span target)
     (''assignment target must be a local name, indexed place, or '' @ ''dereferenced pointer'') v"

definition analyzeAssign :: "Expr \<Rightarrow> Expr \<Rightarrow> unit analysis" where
  "analyzeAssign target v =
     (case target of
        NameExpr sp name \<Rightarrow> analyzeNameAssign sp name v
      | IndexExpr sp base index \<Rightarrow> analyzeIndexAssign target v
      | UnaryExpr sp op operand \<Rightarrow>
          if op = Star then analyzeDerefAssign operand v else rejectTarget target v
      | _ \<Rightarrow> rejectTarget target v)"

definition analyzeBreak :: "SourceSpan \<Rightarrow> unit analysis" where
  "analyzeBreak span = do {
     depth \<leftarrow> getsA an_loopDepth;
     whenA (depth = 0) (errorA span ''`break` is only valid inside `while` or `for`'') }"

definition analyzeContinue :: "SourceSpan \<Rightarrow> unit analysis" where
  "analyzeContinue span = do {
     depth \<leftarrow> getsA an_loopDepth;
     inStep \<leftarrow> getsA an_inForStepClause;
     if depth = 0 then errorA span ''`continue` is only valid inside `while` or `for`''
     else whenA inStep (errorA span ''`continue` cannot appear in a `for` update clause'') }"

definition analyzeCallStmt :: "SourceSpan \<Rightarrow> SourceSpan \<Rightarrow> Expr \<Rightarrow> Expr list \<Rightarrow> unit analysis" where
  "analyzeCallStmt span callSpan callee arguments = do {
     call \<leftarrow> analyzeCallExpr analyzeExpr callSpan callee arguments;
     whenA (\<not> Type_isVoid (ei_type call) \<and> \<not> Type_isInvalid (ei_type call))
       (errorA span (''cannot discard value of type `'' @ typeName (ei_type call) @
          ''`; only `void` calls may be statements'')) }"

section \<open>Structured statements\<close>

type_synonym stmt_analysis = "Stmt \<Rightarrow> bool analysis"

definition nullDereference :: "bool analysis" where
  "nullDereference = do {
     modifyA (\<lambda>st. st\<lparr>an_nullDereferenced := True\<rparr>);
     returnA False }"

definition analyzeChild :: "stmt_analysis \<Rightarrow> Stmt option \<Rightarrow> bool analysis" where
  "analyzeChild rec child = (case child of None \<Rightarrow> nullDereference | Some s \<Rightarrow> rec s)"

definition analyzeBlock :: "stmt_analysis \<Rightarrow> Stmt list \<Rightarrow> bool analysis" where
  "analyzeBlock rec statements = do {
     pushScope;
     returns \<leftarrow> traverse_list rec statements;
     popScope;
     returnA (list_ex (\<lambda>b. b) returns) }"

text \<open>The flow state: what the branches save and restore.\<close>

record flow =
  fl_def :: "nat set"
  fl_arr :: ArrayElemMap
  fl_reasons :: "(nat, DefAssignReason) mapping"

definition getFlow :: "flow analysis" where
  "getFlow = getsA (\<lambda>st. \<lparr>fl_def = an_definiteAssign st, fl_arr = an_arrayElemAssign st,
     fl_reasons = an_defAssignReasons st\<rparr>)"

definition setFlow :: "flow \<Rightarrow> unit analysis" where
  "setFlow f = modifyA (\<lambda>st. st\<lparr>an_definiteAssign := fl_def f, an_arrayElemAssign := fl_arr f,
     an_defAssignReasons := fl_reasons f\<rparr>)"

definition mergeIf :: "SourceSpan \<Rightarrow> flow \<Rightarrow> flow \<Rightarrow> flow \<Rightarrow> bool \<Rightarrow> bool \<Rightarrow> bool \<Rightarrow> unit analysis" where
  "mergeIf span beforeIf afterThen afterElse hasElse thenReturns elseReturns = do {
     modifyA (\<lambda>st. st\<lparr>
       an_defAssignReasons :=
         (if hasElse \<and> thenReturns \<and> \<not> elseReturns then fl_reasons afterElse
          else if hasElse \<and> \<not> thenReturns \<and> elseReturns then fl_reasons afterThen
          else fl_reasons beforeIf),
       an_definiteAssign :=
         mergeDefiniteAssignAfterIf (fl_def beforeIf) (fl_def afterThen) (fl_def afterElse)
           hasElse thenReturns elseReturns\<rparr>);
     noteIfDefAssignLosses span (fl_def beforeIf) (fl_def afterThen) (fl_def afterElse)
       hasElse thenReturns elseReturns;
     modifyA (\<lambda>st.
       let (def, arr) = mergeArrayElemAssignAfterIf (an_scopes st) (an_definiteAssign st)
             (fl_arr beforeIf) (fl_def beforeIf) (fl_arr afterThen) (fl_def afterThen)
             (fl_arr afterElse) (fl_def afterElse) hasElse thenReturns elseReturns
       in st\<lparr>an_definiteAssign := def, an_arrayElemAssign := arr\<rparr>) }"

definition analyzeIf ::
    "stmt_analysis \<Rightarrow> SourceSpan \<Rightarrow> Expr \<Rightarrow> Stmt option \<Rightarrow> Stmt option \<Rightarrow> bool analysis" where
  "analyzeIf rec span condition thenBranch elseBranch = do {
     analyzeCondition condition ''`if` condition'';
     beforeIf \<leftarrow> getFlow;
     thenReturns \<leftarrow> analyzeChild rec thenBranch;
     afterThen \<leftarrow> getFlow;
     setFlow beforeIf;
     elseReturns \<leftarrow> (case elseBranch of None \<Rightarrow> returnA False | Some s \<Rightarrow> rec s);
     afterElse \<leftarrow> getFlow;
     mergeIf span beforeIf afterThen afterElse (elseBranch \<noteq> None) thenReturns elseReturns;
     returnA (elseBranch \<noteq> None \<and> thenReturns \<and> elseReturns) }"

definition analyzeWhile :: "stmt_analysis \<Rightarrow> SourceSpan \<Rightarrow> Expr \<Rightarrow> Stmt option \<Rightarrow> bool analysis" where
  "analyzeWhile rec span condition body = do {
     saved \<leftarrow> getFlow;
     analyzeCondition condition ''`while` condition'';
     modifyA (\<lambda>st. st\<lparr>an_loopDepth := an_loopDepth st + 1\<rparr>);
     analyzeChild rec body;
     modifyA (\<lambda>st. st\<lparr>an_loopDepth := an_loopDepth st - 1\<rparr>);
     afterBody \<leftarrow> getsA an_definiteAssign;
     setFlow saved;
     noteLoopDefAssignLosses span (fl_def saved) afterBody;
     returnA False }"

definition analyzeFor ::
    "stmt_analysis \<Rightarrow> SourceSpan \<Rightarrow> Stmt option \<Rightarrow> Expr option \<Rightarrow> Stmt option \<Rightarrow> Stmt option \<Rightarrow>
     bool analysis" where
  "analyzeFor rec span init condition step body = do {
     pushScope;
     (case init of None \<Rightarrow> returnA False | Some s \<Rightarrow> rec s);
     afterInit \<leftarrow> getFlow;
     (case condition of None \<Rightarrow> returnA () | Some c \<Rightarrow> analyzeCondition c ''`for` condition'');
     modifyA (\<lambda>st. st\<lparr>an_loopDepth := an_loopDepth st + 1\<rparr>);
     analyzeChild rec body;
     (case step of
        None \<Rightarrow> returnA ()
      | Some s \<Rightarrow> do {
          modifyA (\<lambda>st. st\<lparr>an_inForStepClause := True\<rparr>);
          rec s;
          modifyA (\<lambda>st. st\<lparr>an_inForStepClause := False\<rparr>) });
     modifyA (\<lambda>st. st\<lparr>an_loopDepth := an_loopDepth st - 1\<rparr>);
     afterBody \<leftarrow> getsA an_definiteAssign;
     setFlow afterInit;
     noteLoopDefAssignLosses span (fl_def afterInit) afterBody;
     popScope;
     returnA False }"

definition neverReturns :: "unit analysis \<Rightarrow> bool analysis" where
  "neverReturns m = do { m; returnA False }"

definition stmtStep :: "stmt_analysis \<Rightarrow> stmt_analysis" where
  "stmtStep rec s =
     (case s of
        BlockStmt sp statements \<Rightarrow> analyzeBlock rec statements
      | LetStmt sp isMutable name nameSpan type init \<Rightarrow>
          neverReturns (analyzeLet sp isMutable name nameSpan type init)
      | AssignStmt sp target v \<Rightarrow> neverReturns (analyzeAssign target v)
      | ReturnStmt sp v \<Rightarrow> do { analyzeReturn sp v; returnA True }
      | IfStmt sp condition thenBranch elseBranch \<Rightarrow> analyzeIf rec sp condition thenBranch elseBranch
      | WhileStmt sp condition body \<Rightarrow> analyzeWhile rec sp condition body
      | ForStmt sp init condition step body \<Rightarrow> analyzeFor rec sp init condition step body
      | BreakStmt sp \<Rightarrow> neverReturns (analyzeBreak sp)
      | ContinueStmt sp \<Rightarrow> neverReturns (analyzeContinue sp)
      | CallStmt sp callSpan callee arguments \<Rightarrow>
          neverReturns (analyzeCallStmt sp callSpan callee arguments))"

function analyzeStmt :: stmt_analysis where
  "analyzeStmt s =
     stmtStep (\<lambda>s'. if size s' < size s then analyzeStmt s' else returnA False) s"
  by pat_completeness auto
termination by (relation "measure size") simp_all

declare analyzeStmt.simps [simp del]

section \<open>Declarations\<close>

definition builtinFunction :: "Type list \<Rightarrow> Type \<Rightarrow> FunctionSymbol" where
  "builtinFunction parameterTypes returnType =
     \<lparr>fs_nameSpan = mk_span 0 0, fs_parameterTypes = parameterTypes, fs_returnType = returnType,
      fs_isBuiltin = True\<rparr>"

definition builtinTable :: "(string \<times> FunctionSymbol) list" where
  "builtinTable =
     [(''print'', builtinFunction [] (builtinScalar Void)),
      (''println'', builtinFunction [] (builtinScalar Void)),
      (''readln'', builtinFunction [] (builtinScalar Str)),
      (''parse_i32'', builtinFunction [builtinScalar Str] (builtinScalar I32)),
      (''parse_u64'', builtinFunction [builtinScalar Str] (builtinScalar U64)),
      (''parse_bool'', builtinFunction [builtinScalar Str] (builtinScalar Bool)),
      (''input_ok'', builtinFunction [] (builtinScalar Bool))]"

definition installBuiltins :: "unit analysis" where
  "installBuiltins = modifyA (\<lambda>st. st\<lparr>an_functions :=
     fold (\<lambda>(name, f). Mapping.update name f) builtinTable (an_functions st)\<rparr>)"

definition declareTopLevel :: "string \<Rightarrow> SourceSpan \<Rightarrow> unit analysis" where
  "declareTopLevel name span = do {
     names \<leftarrow> getsA an_topLevelNames;
     case Mapping.lookup names name of
       Some previous \<Rightarrow> do {
         errorA span (''duplicate top-level name `'' @ name @ ''`'');
         noteA previous (''previous declaration of `'' @ name @ ''` is here'') }
     | None \<Rightarrow> modifyA (\<lambda>st. st\<lparr>an_topLevelNames := Mapping.update name span (an_topLevelNames st)\<rparr>) }"

definition collectParameter :: "ParameterSyntax \<Rightarrow> Type analysis" where
  "collectParameter parameter = do {
     let pt = typeFromSyntax (pr_type parameter);
     let sp = ts_span (pr_type parameter);
     validateFixedArrayDecl pt sp;
     validatePointerDecl pt sp;
     whenA (Type_isPointer pt) (errorA sp ''pointer parameters are not implemented yet'');
     returnA pt }"

definition collectFunction ::
    "string \<Rightarrow> SourceSpan \<Rightarrow> ParameterSyntax list \<Rightarrow> TypeSyntax \<Rightarrow> unit analysis" where
  "collectFunction name nameSpan parameters returnSyntax = do {
     declareTopLevel name nameSpan;
     functions \<leftarrow> getsA an_functions;
     if (case Mapping.lookup functions name of None \<Rightarrow> False | Some f \<Rightarrow> fs_isBuiltin f) then
       errorA nameSpan (''cannot redefine built-in function `'' @ name @ ''`'')
     else do {
       parameterTypes \<leftarrow> traverse_list collectParameter parameters;
       let returnType = typeFromSyntax returnSyntax;
       validateFixedArrayDecl returnType (ts_span returnSyntax);
       validatePointerDecl returnType (ts_span returnSyntax);
       whenA (Type_isPointer returnType)
         (errorA (ts_span returnSyntax) ''pointer return types are not implemented yet'');
       modifyA (\<lambda>st. st\<lparr>an_functions := Mapping.update name
         \<lparr>fs_nameSpan = nameSpan, fs_parameterTypes = parameterTypes, fs_returnType = returnType,
          fs_isBuiltin = False\<rparr> (an_functions st)\<rparr>) } }"

definition collectConst :: "string \<Rightarrow> SourceSpan \<Rightarrow> TypeSyntax \<Rightarrow> unit analysis" where
  "collectConst name nameSpan syntax = do {
     declareTopLevel name nameSpan;
     let constTy = typeFromSyntax syntax;
     validateFixedArrayDecl constTy (ts_span syntax);
     validatePointerDecl constTy (ts_span syntax);
     whenA (Type_isPointer constTy)
       (errorA (ts_span syntax) ''module const pointers are not implemented yet'');
     modifyA (\<lambda>st. st\<lparr>an_globals := Mapping.update name
       \<lparr>vs_type = constTy, vs_isMutable = False, vs_isConst = True, vs_nameSpan = nameSpan,
        vs_bindingId = 0\<rparr> (an_globals st)\<rparr>) }"

fun collectItem :: "Item \<Rightarrow> unit analysis" where
  "collectItem (FunctionDecl sp name nameSpan parameters returnType bodySpan body) =
     collectFunction name nameSpan parameters returnType"
| "collectItem (ConstDecl sp name nameSpan type init) = collectConst name nameSpan type"

definition collectItems :: "TranslationUnit \<Rightarrow> unit analysis" where
  "collectItems unit = do { traverse_list collectItem unit; returnA () }"

definition validateMainIfPresent :: "unit analysis" where
  "validateMainIfPresent = do {
     functions \<leftarrow> getsA an_functions;
     case Mapping.lookup functions ''main'' of
       None \<Rightarrow> returnA ()
     | Some main \<Rightarrow> do {
         whenA (fs_parameterTypes main \<noteq> [])
           (errorA (fs_nameSpan main) ''`main` must not have parameters'');
         whenA (\<not> Type_isVoid (fs_returnType main) \<and>
             (Type_isFixedArray (fs_returnType main) \<or> t_kind (fs_returnType main) \<noteq> I32))
           (errorA (fs_nameSpan main) ''`main` must return `void` or `i32`'') } }"

section \<open>The passes\<close>

definition analyzeConstDecl :: "string \<Rightarrow> TypeSyntax \<Rightarrow> Expr \<Rightarrow> unit analysis" where
  "analyzeConstDecl name syntax init = do {
     let t = typeFromSyntax syntax;
     info \<leftarrow> analyzeExpr init (Some t) Ctx_Normal;
     whenA (\<not> sameType t (ei_type info))
       (errorA (expr_span init) (''cannot initialize constant `'' @ name @ ''` of type `'' @ typeName t @
          ''` with value of type `'' @ typeName (ei_type info) @ ''`''));
     whenA (\<not> ei_isConstant info)
       (errorA (expr_span init) (''constant initializer for `'' @ name @
          ''` must be compile-time evaluable'')) }"

definition declareParameter :: "ParameterSyntax \<Rightarrow> unit analysis" where
  "declareParameter parameter = do {
     bid \<leftarrow> declareLocal (pr_name parameter) (pr_nameSpan parameter)
       (typeFromSyntax (pr_type parameter)) False;
     markDefiniteAssigned bid }"

definition resetFunctionState :: "Type \<Rightarrow> unit analysis" where
  "resetFunctionState returnType = modifyA (\<lambda>st. st\<lparr>an_currentReturnType := returnType,
     an_sawReturnValue := False, an_scopes := [], an_definiteAssign := {},
     an_defAssignReasons := Mapping.empty, an_scopeBindingIds := [], an_nextBindingId := 1\<rparr>)"

definition analyzeFunction ::
    "string \<Rightarrow> SourceSpan \<Rightarrow> ParameterSyntax list \<Rightarrow> TypeSyntax \<Rightarrow> Stmt \<Rightarrow> unit analysis" where
  "analyzeFunction name nameSpan parameters returnSyntax body = do {
     let returnType = typeFromSyntax returnSyntax;
     resetFunctionState returnType;
     pushScope;
     traverse_list declareParameter parameters;
     allPathsReturn \<leftarrow> analyzeStmt body;
     whenA (\<not> Type_isVoid returnType \<and> \<not> allPathsReturn)
       (errorA nameSpan (''not all paths in function `'' @ name @ ''` return a value of type `'' @
          typeName returnType @ ''`''));
     popScope }"

fun analyzeItem :: "Item \<Rightarrow> unit analysis" where
  "analyzeItem (FunctionDecl sp name nameSpan parameters returnType bodySpan body) =
     analyzeFunction name nameSpan parameters returnType (BlockStmt bodySpan body)"
| "analyzeItem (ConstDecl sp name nameSpan type init) = analyzeConstDecl name type init"

definition analyzeUnit :: "TranslationUnit \<Rightarrow> unit analysis" where
  "analyzeUnit unit = do {
     installBuiltins;
     collectItems unit;
     validateMainIfPresent;
     traverse_list analyzeItem unit;
     returnA () }"

text \<open>\<open>SemanticAnalyzer::analyze\<close>: the diagnostics after the run, or \<open>None\<close> when it followed a
  null pointer.\<close>

definition analyze :: "TranslationUnit \<Rightarrow> DiagnosticBag \<Rightarrow> DiagnosticBag option" where
  "analyze unit bag =
     (let st = snd (run_state (analyzeUnit unit) (AnalyzerImpl_new bag))
      in if an_nullDereferenced st then None else Some (an_bag st))"

end
