(* ===== verification/SemanticFacts.thy ===== *)
theory SemanticFacts
  imports SemanticStmt
begin

text \<open>
  The recursion of the analysis without its guards, and what every routine of the analysis does
  to the state: expressions only add diagnostics, statements keep the declarations.
\<close>

section \<open>The guard of the recursion never applies\<close>

lemma traverse_list_cong [fundef_cong]:
  "xs = ys \<Longrightarrow> (\<And>x. x \<in> set ys \<Longrightarrow> f x = g x) \<Longrightarrow> traverse_list f xs = traverse_list g ys"
proof (induction xs arbitrary: ys)
  case (Cons x xs)
  then obtain ys' where "ys = x # ys'" "xs = ys'" by blast
  then show ?case using Cons by auto
qed simp

lemma size_elem: "x \<in> set xs \<Longrightarrow> size x < Suc (size_list size xs)"
  by (induction xs) auto

lemma set_zip_fst: "(a, b) \<in> set (zip xs ys) \<Longrightarrow> a \<in> set xs"
  by (rule set_zip_leftD)

lemma peelLoop_size:
  "peelLoop cur acc = (r, is) \<Longrightarrow> i \<in> set is \<Longrightarrow> i \<in> set acc \<or> size i < size cur"
proof (induction cur acc arbitrary: r "is" rule: peelLoop.induct)
  case (1 cur acc)
  show ?case
  proof (cases "\<exists>sp base index. stripParensConst cur = IndexExpr sp base index")
    case True
    then obtain sp base index where c: "stripParensConst cur = IndexExpr sp base index" by blast
    have "size base < size cur" "size index < size cur"
      using size_stripParensConst[of cur] c by auto
    then show ?thesis using 1(1)[OF c] 1(2,3) c by (fastforce simp: peelLoop.simps[of cur])
  next
    case False
    then show ?thesis using 1(2,3) by (auto simp: peelLoop.simps[of cur] split: Expr.splits)
  qed
qed

lemma peel_size: "peelIndexedNameChain e = Some chain \<Longrightarrow> i \<in> set (chain_indices chain) \<Longrightarrow> size i < size e"
  using peelLoop_size[of e "[]"]
  by (fastforce simp: peelIndexedNameChain_def split: prod.splits Expr.splits)

definition agree :: "nat \<Rightarrow> analyze_rec \<Rightarrow> analyze_rec \<Rightarrow> bool" where
  "agree n f g \<longleftrightarrow> (\<forall>e ex c. size e < n \<longrightarrow> f e ex c = g e ex c)"

lemma agreeD: "agree n f g \<Longrightarrow> size e < n \<Longrightarrow> f e ex c = g e ex c"
  by (simp add: agree_def)

lemma agree_le: "agree n f g \<Longrightarrow> m \<le> n \<Longrightarrow> agree m f g"
  by (auto simp: agree_def)

lemma analyzeIndices_cong:
  "agree n f g \<Longrightarrow> (\<And>i. i \<in> set is \<Longrightarrow> size i < n) \<Longrightarrow>
     analyzeIndices f whole walk is = analyzeIndices g whole walk is"
  by (induction "is" arbitrary: walk) (simp_all add: analyzeIndex_def agreeD)

lemma analyzeRest_cong:
  "agree n f g \<Longrightarrow> (\<And>e. e \<in> set es \<Longrightarrow> size e < n) \<Longrightarrow> analyzeRest f es = analyzeRest g es"
  by (simp add: analyzeRest_def agreeD cong: traverse_list_cong)

lemma analyzeFormatArgument_cong:
  "agree n f g \<Longrightarrow> size (fst ah) < n \<Longrightarrow> analyzeFormatArgument f ah = analyzeFormatArgument g ah"
  by (cases ah) (simp add: analyzeFormatArgument_def agreeD)

lemma analyzeArgument_cong:
  "agree n f g \<Longrightarrow> size (fst (snd iat)) < n \<Longrightarrow> analyzeArgument f name iat = analyzeArgument g name iat"
  by (cases iat) (simp add: analyzeArgument_def agreeD)

lemma in_set_zip_take: "(a, b) \<in> set (zip (take k xs) ys) \<Longrightarrow> a \<in> set xs"
  by (meson in_set_takeD set_zip_leftD)

lemma analyzeFormatPrintCall_cong:
  assumes "agree n f g" "\<And>e. e \<in> set es \<Longrightarrow> size e < n"
  shows "analyzeFormatPrintCall f sp es name = analyzeFormatPrintCall g sp es name"
proof (cases es)
  case Nil
  then show ?thesis by (simp add: analyzeFormatPrintCall_def)
next
  case (Cons first rest)
  have first: "x = first \<Longrightarrow> f x ex c = g x ex c" for x ex c using assms Cons by (simp add: agreeD)
  have r: "analyzeRest f rest = analyzeRest g rest" "analyzeRest f (drop k rest) = analyzeRest g (drop k rest)" for k
    by (rule analyzeRest_cong[OF assms(1)]; use assms(2) Cons in \<open>auto dest: in_set_dropD\<close>)+
  have z: "traverse_list (analyzeFormatArgument f) (zip (take k rest) hs) =
      traverse_list (analyzeFormatArgument g) (zip (take k rest) hs)" for k hs
    by (rule traverse_list_cong[OF refl], rule analyzeFormatArgument_cong[OF assms(1)])
      (use assms(2) Cons in \<open>auto dest: in_set_zip_take\<close>)
  show ?thesis unfolding analyzeFormatPrintCall_def Cons by (cases first) (simp_all add: first r z Let_def cong: sum.case_cong if_cong)
qed

lemma analyzeCallExpr_cong:
  assumes "agree n f g" "\<And>e. e \<in> set es \<Longrightarrow> size e < n"
  shows "analyzeCallExpr f sp callee es = analyzeCallExpr g sp callee es"
proof -
  have r: "analyzeRest f es = analyzeRest g es" "analyzeRest f (drop k es) = analyzeRest g (drop k es)" for k
    by (rule analyzeRest_cong[OF assms(1)]; use assms(2) in \<open>auto dest: in_set_dropD\<close>)+
  have z: "traverse_list (analyzeArgument f name) (zip is (zip (take k es) ts)) =
      traverse_list (analyzeArgument g name) (zip is (zip (take k es) ts))" for name "is" k ts
    by (rule traverse_list_cong[OF refl], rule analyzeArgument_cong[OF assms(1)])
      (use assms(2) in \<open>auto dest!: set_zip_rightD in_set_zip_take\<close>)
  show ?thesis unfolding analyzeCallExpr_def
    by (cases callee) (simp_all add: r z analyzeFormatPrintCall_cong[OF assms] Let_def cong: option.case_cong if_cong)
qed

lemma traverse_elements_cong:
  assumes "agree n f g" "\<And>e. e \<in> set es \<Longrightarrow> size e < n"
  shows "traverse_list (analyzeElement f t) es = traverse_list (analyzeElement g t) es"
    "traverse_list (analyzeLaterElement f t) es = traverse_list (analyzeLaterElement g t) es"
  by (rule traverse_list_cong[OF refl],
      simp add: analyzeElement_def analyzeLaterElement_def agreeD[OF assms(1) assms(2)])+

lemma analyzeArrayLiteral_cong:
  assumes "agree n f g" "\<And>e. e \<in> set es \<Longrightarrow> size e < n"
  shows "analyzeArrayLiteral f sp es expected = analyzeArrayLiteral g sp es expected"
proof (cases es)
  case Nil
  then show ?thesis by (simp add: analyzeArrayLiteral_def cong: option.case_cong)
next
  case (Cons first rest)
  have "f first ex c = g first ex c" for ex c using assms Cons by (simp add: agreeD)
  moreover have "traverse_list (analyzeLaterElement f t) rest = traverse_list (analyzeLaterElement g t) rest" for t
    by (rule traverse_elements_cong[OF assms(1)]) (use assms(2) Cons in auto)
  moreover have "traverse_list (analyzeElement f t) (first # rest) = traverse_list (analyzeElement g t) (first # rest)" for t
    by (rule traverse_elements_cong(1)[OF assms(1)]) (use assms(2) Cons in auto)
  ultimately show ?thesis unfolding analyzeArrayLiteral_def Cons list.case by (simp only:)
qed

lemma analyzeUnaryExpr_cong:
  "agree n f g \<Longrightarrow> size e < n \<Longrightarrow> analyzeUnaryExpr f op e expected = analyzeUnaryExpr g op e expected"
  by (simp add: analyzeUnaryExpr_def analyzeAddressOf_def agreeD cong: Expr.case_cong)

lemma analyzeBinaryExpr_cong:
  "agree n f g \<Longrightarrow> size l < n \<Longrightarrow> size r < n \<Longrightarrow>
    analyzeBinaryExpr f sp l op r expected = analyzeBinaryExpr g sp l op r expected"
  by (simp add: analyzeBinaryExpr_def analyzeLogical_def agreeD)

lemma analyzeIndexExpr_cong:
  assumes "agree (size (IndexExpr sp base index)) f g"
  shows "analyzeIndexExpr f sp base index ctx = analyzeIndexExpr g sp base index ctx"
proof -
  have "analyzeIndexedValue f base index = analyzeIndexedValue g base index"
    by (simp add: analyzeIndexedValue_def agreeD[OF assms])
  moreover have "analyzeNameChain f sp chain = analyzeNameChain g sp chain"
    if "peelIndexedNameChain (IndexExpr sp base index) = Some chain" for chain
    using analyzeIndices_cong[OF assms peel_size[OF that]] by (simp add: analyzeNameChain_def cong: option.case_cong if_cong)
  ultimately show ?thesis by (auto simp: analyzeIndexExpr_def split: option.split)
qed

lemma exprStep_cong:
  assumes "agree (size e) f g"
  shows "exprStep f e expected ctx = exprStep g e expected ctx"
proof (cases e)
  case (CallExpr sp callee es)
  show ?thesis unfolding exprStep_def CallExpr Expr.case
    by (rule analyzeCallExpr_cong[OF assms]) (use size_elem CallExpr in fastforce)
next
  case (ArrayLiteralExpr sp es)
  show ?thesis unfolding exprStep_def ArrayLiteralExpr Expr.case
    by (rule analyzeArrayLiteral_cong[OF assms]) (use size_elem ArrayLiteralExpr in fastforce)
next
  case (IndexExpr sp base index)
  show ?thesis using analyzeIndexExpr_cong[OF assms[unfolded IndexExpr]]
    by (simp add: exprStep_def IndexExpr)
qed (use assms in \<open>simp_all add: exprStep_def agreeD analyzeUnaryExpr_cong[OF assms] analyzeBinaryExpr_cong[OF assms]\<close>)

lemma analyzeExpr_unfold: "analyzeExpr e expected ctx = exprStep analyzeExpr e expected ctx"
  by (subst analyzeExpr.simps) (rule exprStep_cong, simp add: agree_def)

lemmas analyzeExpr_eqs =
  analyzeExpr_unfold[of "IntegerLiteralExpr sp raw" for sp raw, unfolded exprStep_def Expr.case]
  analyzeExpr_unfold[of "FloatLiteralExpr sp raw" for sp raw, unfolded exprStep_def Expr.case]
  analyzeExpr_unfold[of "BoolLiteralExpr sp v" for sp v, unfolded exprStep_def Expr.case]
  analyzeExpr_unfold[of "StringLiteralExpr sp raw" for sp raw, unfolded exprStep_def Expr.case]
  analyzeExpr_unfold[of "NameExpr sp name" for sp name, unfolded exprStep_def Expr.case]
  analyzeExpr_unfold[of "CallExpr sp callee es" for sp callee es, unfolded exprStep_def Expr.case]
  analyzeExpr_unfold[of "UnaryExpr sp op a" for sp op a, unfolded exprStep_def Expr.case]
  analyzeExpr_unfold[of "BinaryExpr sp l op r" for sp l op r, unfolded exprStep_def Expr.case]
  analyzeExpr_unfold[of "ArrayLiteralExpr sp es" for sp es, unfolded exprStep_def Expr.case]
  analyzeExpr_unfold[of "IndexExpr sp base i" for sp base i, unfolded exprStep_def Expr.case]
  analyzeExpr_unfold[of "ParenExpr sp inner" for sp inner, unfolded exprStep_def Expr.case]

text \<open>The same for statements.\<close>

definition stmt_agree :: "nat \<Rightarrow> stmt_analysis \<Rightarrow> stmt_analysis \<Rightarrow> bool" where
  "stmt_agree n f g \<longleftrightarrow> (\<forall>s. size s < n \<longrightarrow> f s = g s)"

lemma stmtStep_cong:
  assumes "stmt_agree (size s) f g"
  shows "stmtStep f s = stmtStep g s"
proof -
  have c: "f x = g x" if "size x < size s" for x using assms that by (simp add: stmt_agree_def)
  show ?thesis
  proof (cases s)
    case (BlockStmt sp ss)
    have "traverse_list f ss = traverse_list g ss"
      by (rule traverse_list_cong[OF refl], rule c) (use size_elem BlockStmt in fastforce)
    then show ?thesis by (simp add: stmtStep_def BlockStmt analyzeBlock_def)
  next
    case (IfStmt sp condition t e)
    have "analyzeChild f t = analyzeChild g t"
      "(case e of None \<Rightarrow> returnA False | Some s \<Rightarrow> f s) = (case e of None \<Rightarrow> returnA False | Some s \<Rightarrow> g s)"
      using c IfStmt by (auto simp: analyzeChild_def split: option.split)
    then show ?thesis by (simp only: stmtStep_def IfStmt analyzeIf_def Stmt.case)
  next
    case (WhileStmt sp condition body)
    have "analyzeChild f body = analyzeChild g body"
      using c WhileStmt by (auto simp: analyzeChild_def split: option.split)
    then show ?thesis by (simp only: stmtStep_def WhileStmt analyzeWhile_def Stmt.case)
  next
    case (ForStmt sp init condition step body)
    have "analyzeChild f body = analyzeChild g body"
      "(case init of None \<Rightarrow> returnA False | Some s \<Rightarrow> f s) = (case init of None \<Rightarrow> returnA False | Some s \<Rightarrow> g s)"
      "step = Some s' \<Longrightarrow> f s' = g s'" for s'
      using c ForStmt by (auto simp: analyzeChild_def split: option.split)
    then show ?thesis
      by (simp add: stmtStep_def ForStmt analyzeFor_def del: bind_assoc cong: option.case_cong)
  qed (simp_all add: stmtStep_def)
qed

lemma analyzeStmt_unfold: "analyzeStmt s = stmtStep analyzeStmt s"
  by (subst analyzeStmt.simps) (rule stmtStep_cong, simp add: stmt_agree_def)

section \<open>What a run may change\<close>

text \<open>A preorder on states that every step of a routine respects is respected by the routine.\<close>

locale state_preorder =
  fixes R :: "'s \<Rightarrow> 's \<Rightarrow> bool"
  assumes R_refl: "R s s"
    and R_trans: "R s t \<Longrightarrow> R t u \<Longrightarrow> R s u"
begin

lemma keep_return: "state_io_rel R (State_Monad.return x)"
  by (rule state_io_relI) (simp add: R_refl)

lemma keep_bind:
  assumes "state_io_rel R m" "\<And>x. state_io_rel R (f x)"
  shows "state_io_rel R (State_Monad.bind m f)"
proof (rule state_io_relI)
  fix a s s' assume r: "run_state (State_Monad.bind m f) s = (a, s')"
  obtain x t where m: "run_state m s = (x, t)" by fastforce
  then have "run_state (f x) t = (a, s')" using r by simp
  then show "R s s'" using R_trans state_io_relD[OF assms(1) m] state_io_relD[OF assms(2)] by blast
qed

lemma keep_if: "(b \<Longrightarrow> state_io_rel R m) \<Longrightarrow> (\<not> b \<Longrightarrow> state_io_rel R n) \<Longrightarrow> state_io_rel R (if b then m else n)"
  by simp

lemma keep_option:
  "(v = None \<Longrightarrow> state_io_rel R m) \<Longrightarrow> (\<And>x. v = Some x \<Longrightarrow> state_io_rel R (f x)) \<Longrightarrow>
    state_io_rel R (case v of None \<Rightarrow> m | Some x \<Rightarrow> f x)"
  by (cases v) simp_all

lemma keep_prod: "(\<And>x y. p = (x, y) \<Longrightarrow> state_io_rel R (f x y)) \<Longrightarrow> state_io_rel R (case p of (x, y) \<Rightarrow> f x y)"
  by (cases p) simp

lemma keep_sum:
  "(\<And>x. v = Inl x \<Longrightarrow> state_io_rel R (f x)) \<Longrightarrow> (\<And>y. v = Inr y \<Longrightarrow> state_io_rel R (g y)) \<Longrightarrow>
    state_io_rel R (case v of Inl x \<Rightarrow> f x | Inr y \<Rightarrow> g y)"
  by (cases v) simp_all

lemma keep_let: "(\<And>x. x = v \<Longrightarrow> state_io_rel R (f x)) \<Longrightarrow> state_io_rel R (Let v f)"
  by simp

lemma keep_traverse: "(\<And>x. x \<in> set xs \<Longrightarrow> state_io_rel R (f x)) \<Longrightarrow> state_io_rel R (traverse_list f xs)"
  by (induction xs) (simp_all add: keep_return keep_bind)

lemmas keep_rules = keep_return keep_bind keep_if keep_option keep_prod keep_sum keep_let keep_traverse

end

lemma getsA_rel: "(\<And>s. R s s) \<Longrightarrow> state_io_rel R (getsA f)"
  by (simp add: state_io_rel_def getsA_def)

lemma modifyA_rel: "(\<And>s. R s (f s)) \<Longrightarrow> state_io_rel R (modifyA f)"
  by (simp add: state_io_rel_def modifyA_def)

lemma whenA_rel: "(\<And>s. R s s) \<Longrightarrow> (b \<Longrightarrow> state_io_rel R m) \<Longrightarrow> state_io_rel R (whenA b m)"
  by (auto simp: whenA_def state_io_rel_def)

text \<open>Expressions: only diagnostics are added.\<close>

definition only_bag :: "analyzer \<Rightarrow> analyzer \<Rightarrow> bool" where
  "only_bag st st' \<longleftrightarrow> st' = st\<lparr>an_bag := an_bag st'\<rparr> \<and> bag_ext (an_bag st) (an_bag st')"

lemma only_bag_refl: "only_bag s s"
  by (simp add: only_bag_def)

lemma only_bag_trans: "only_bag s t \<Longrightarrow> only_bag t u \<Longrightarrow> only_bag s u"
  unfolding only_bag_def by (metis (no_types, lifting) analyzer.surjective analyzer.update_convs(1) bag_ext_trans)

interpretation ob: state_preorder only_bag
  by unfold_locales (fact only_bag_refl, rule only_bag_trans)

lemma errorA_only_bag: "state_io_rel only_bag (errorA sp m)"
  unfolding errorA_def by (rule modifyA_rel) (simp add: only_bag_def)

lemma noteA_only_bag: "state_io_rel only_bag (noteA sp m)"
  unfolding noteA_def by (rule modifyA_rel) (simp add: only_bag_def)

lemmas ob_rules = ob.keep_rules errorA_only_bag noteA_only_bag getsA_rel[of only_bag, OF only_bag_refl]
  whenA_rel[of only_bag, OF only_bag_refl]

lemma noteDefAssignReason_only_bag: "state_io_rel only_bag (noteDefAssignReason s)"
  unfolding noteDefAssignReason_def by (intro ob_rules)

lemma requireReadableLocal_only_bag: "state_io_rel only_bag (requireReadableLocal s sp name)"
  unfolding requireReadableLocal_def readBeforeAssignment_def
  by (intro ob_rules noteDefAssignReason_only_bag)

lemma requireIndexedScalarReadable_only_bag:
  "state_io_rel only_bag (requireIndexedScalarReadable s t infos sp name)"
  unfolding requireIndexedScalarReadable_def
  by (intro ob_rules noteDefAssignReason_only_bag requireReadableLocal_only_bag)

lemma requireSubArraySliceReadable_only_bag:
  "state_io_rel only_bag (requireSubArraySliceReadable s k infos sp name)"
  unfolding requireSubArraySliceReadable_def uninitializedSlice_def
  by (intro ob_rules noteDefAssignReason_only_bag requireReadableLocal_only_bag)

lemma leaf_only_bag:
  "state_io_rel only_bag (analyzeIntegerLiteral sp raw ex)"
  "state_io_rel only_bag (analyzeFloatLiteral sp raw ex)"
  "state_io_rel only_bag (unresolvedName sp name)"
  "state_io_rel only_bag (lookupValue name)"
  unfolding analyzeIntegerLiteral_def analyzeFloatLiteral_def unresolvedName_def isFunctionName_def
    checkIntegerLiteralRange_def lookupValue_def
  by (intro ob_rules)+

lemma analyzeNameExpr_only_bag: "state_io_rel only_bag (analyzeNameExpr sp name ctx)"
  unfolding analyzeNameExpr_def by (intro ob_rules leaf_only_bag requireReadableLocal_only_bag)

definition rec_only_bag :: "analyze_rec \<Rightarrow> bool" where
  "rec_only_bag rec \<longleftrightarrow> (\<forall>e ex c. state_io_rel only_bag (rec e ex c))"

lemma rec_only_bagD: "rec_only_bag rec \<Longrightarrow> state_io_rel only_bag (rec e ex c)"
  by (simp add: rec_only_bag_def)

lemma analyzeRest_only_bag: "rec_only_bag rec \<Longrightarrow> state_io_rel only_bag (analyzeRest rec es)"
  unfolding analyzeRest_def by (intro ob_rules rec_only_bagD)

lemma keep_list:
  "(xs = [] \<Longrightarrow> P m) \<Longrightarrow> (\<And>y ys. xs = y # ys \<Longrightarrow> P (f y ys)) \<Longrightarrow> P (case xs of [] \<Rightarrow> m | y # ys \<Rightarrow> f y ys)"
  by (cases xs) simp_all

lemma analyzeFormatPrintCall_only_bag:
  assumes "rec_only_bag rec"
  shows "state_io_rel only_bag (analyzeFormatPrintCall rec sp es name)"
proof -
  have a: "state_io_rel only_bag (analyzeFormatArgument rec ah)" for ah
    unfolding analyzeFormatArgument_def by (intro ob_rules rec_only_bagD[OF assms])
  show ?thesis
    unfolding analyzeFormatPrintCall_def
    by (cases es; (cases "hd es")?)
      (simp_all only: list.case Expr.case list.sel Let_def;
        intro ob_rules a analyzeRest_only_bag[OF assms] rec_only_bagD[OF assms])+
qed

lemma analyzeCallExpr_only_bag:
  assumes "rec_only_bag rec"
  shows "state_io_rel only_bag (analyzeCallExpr rec sp callee es)"
proof -
  have a: "state_io_rel only_bag (analyzeArgument rec name iat)" for name iat
    unfolding analyzeArgument_def by (intro ob_rules rec_only_bagD[OF assms])
  show ?thesis unfolding analyzeCallExpr_def
    by (cases callee; simp only: Expr.case)
      (intro ob_rules a analyzeFormatPrintCall_only_bag[OF assms] analyzeRest_only_bag[OF assms])+
qed

lemma analyzeUnaryExpr_only_bag:
  assumes "rec_only_bag rec"
  shows "state_io_rel only_bag (analyzeUnaryExpr rec op e expected)"
proof -
  have "state_io_rel only_bag (analyzeAddressOf rec e)"
    unfolding analyzeAddressOf_def
    by (cases "stripParensConst e"; simp only: Expr.case)
      (intro ob_rules leaf_only_bag requireReadableLocal_only_bag rec_only_bagD[OF assms])+
  then show ?thesis unfolding analyzeUnaryExpr_def
    by (intro ob_rules rec_only_bagD[OF assms])
qed

lemma analyzeConstantArithmetic_only_bag:
  "state_io_rel only_bag (analyzeConstantArithmetic sp op rsp l r)"
proof -
  have f: "state_io_rel only_bag (case x of Fold_value v \<Rightarrow> returnA (a v) | Fold_none \<Rightarrow> returnA b
     | Fold_overflow \<Rightarrow> errorA sp m \<bind> (\<lambda>_. returnA c) | Fold_error m \<Rightarrow> errorA rsp m \<bind> (\<lambda>_. returnA c))"
    for x a b m c by (cases x; simp only: folded.case) (intro ob_rules)+
  show ?thesis unfolding analyzeConstantArithmetic_def Let_def
    by (simp split: bool.split option.split) (auto simp: f intro: ob_rules)
qed

lemma analyzeBinaryExpr_only_bag:
  assumes "rec_only_bag rec"
  shows "state_io_rel only_bag (analyzeBinaryExpr rec sp l op r expected)"
  unfolding analyzeBinaryExpr_def analyzeLogical_def checkOperandTypes_def
  by (intro ob_rules rec_only_bagD[OF assms] analyzeConstantArithmetic_only_bag)

lemma analyzeArrayLiteral_only_bag:
  assumes "rec_only_bag rec"
  shows "state_io_rel only_bag (analyzeArrayLiteral rec sp es expected)"
  unfolding analyzeArrayLiteral_def analyzeElement_def analyzeLaterElement_def
  by (cases es; simp only: list.case) (intro ob_rules rec_only_bagD[OF assms])+

lemma analyzeIndices_only_bag:
  assumes "rec_only_bag rec"
  shows "state_io_rel only_bag (analyzeIndices rec whole walk is)"
proof (induction "is" arbitrary: walk)
  case (Cons i "is")
  show ?case unfolding analyzeIndices.simps analyzeIndex_def
    by (intro ob_rules rec_only_bagD[OF assms] Cons.IH)
qed (simp add: ob.keep_return)

lemma analyzeIndexExpr_only_bag:
  assumes "rec_only_bag rec"
  shows "state_io_rel only_bag (analyzeIndexExpr rec sp base i ctx)"
  unfolding analyzeIndexExpr_def analyzeNameChain_def analyzeIndexedValue_def
  by (intro ob_rules rec_only_bagD[OF assms] leaf_only_bag analyzeIndices_only_bag[OF assms]
    requireSubArraySliceReadable_only_bag requireIndexedScalarReadable_only_bag)

lemma analyzeExpr_only_bag: "state_io_rel only_bag (analyzeExpr e expected ctx)"
proof (induction e expected ctx rule: analyzeExpr.induct)
  case (1 e expected ctx)
  define rec where "rec = (\<lambda>e' ex c. if size e' < size e then analyzeExpr e' ex c else returnA unknownInfo)"
  have r: "rec_only_bag rec" using 1 by (auto simp: rec_only_bag_def rec_def ob.keep_return)
  have "state_io_rel only_bag (exprStep rec e expected ctx)"
    by (cases e; simp only: exprStep_def Expr.case)
      (intro ob_rules leaf_only_bag analyzeNameExpr_only_bag analyzeCallExpr_only_bag[OF r]
        analyzeUnaryExpr_only_bag[OF r] analyzeBinaryExpr_only_bag[OF r]
        analyzeArrayLiteral_only_bag[OF r] analyzeIndexExpr_only_bag[OF r] rec_only_bagD[OF r])+
  then show ?case by (subst analyzeExpr.simps) (simp add: rec_def)
qed

lemma rec_only_bag_analyzeExpr: "rec_only_bag analyzeExpr"
  by (simp add: rec_only_bag_def analyzeExpr_only_bag)

section \<open>Statements\<close>

text \<open>A statement keeps the module's declarations, the function's return type and the loop depth,
  only adds diagnostics, and follows no null pointer when it is complete.\<close>

definition quiet :: "analyzer \<Rightarrow> analyzer \<Rightarrow> bool" where
  "quiet st st' \<longleftrightarrow> an_functions st' = an_functions st \<and> an_globals st' = an_globals st \<and>
     an_topLevelNames st' = an_topLevelNames st \<and> an_currentReturnType st' = an_currentReturnType st \<and>
     an_nullDereferenced st' = an_nullDereferenced st \<and> an_loopDepth st' = an_loopDepth st \<and>
     bag_ext (an_bag st) (an_bag st')"

lemma quiet_refl: "quiet s s"
  by (simp add: quiet_def)

interpretation qu: state_preorder quiet
  by unfold_locales (auto simp: quiet_def intro: bag_ext_trans)

lemma only_bag_quiet: "only_bag s t \<Longrightarrow> quiet s t"
proof -
  assume "only_bag s t"
  then have "t = s\<lparr>an_bag := an_bag t\<rparr>" "bag_ext (an_bag s) (an_bag t)" by (simp_all add: only_bag_def)
  then show "quiet s t" unfolding quiet_def by (metis analyzer.select_convs analyzer.surjective analyzer.update_convs(1))
qed

lemma only_bag_rel_quiet: "state_io_rel only_bag m \<Longrightarrow> state_io_rel quiet m"
  by (auto simp: state_io_rel_def only_bag_quiet)

lemmas qu_only_bag = only_bag_rel_quiet[OF errorA_only_bag] only_bag_rel_quiet[OF noteA_only_bag]
  only_bag_rel_quiet[OF analyzeExpr_only_bag] only_bag_rel_quiet[OF leaf_only_bag(4)]
  only_bag_rel_quiet[OF analyzeIndices_only_bag[OF rec_only_bag_analyzeExpr]]
  only_bag_rel_quiet[OF analyzeCallExpr_only_bag[OF rec_only_bag_analyzeExpr]]

lemma modifyA_quiet: "(\<And>s. quiet s (f s)) \<Longrightarrow> state_io_rel quiet (modifyA f)"
  by (rule modifyA_rel)

lemmas qu_rules = qu.keep_rules qu_only_bag getsA_rel[of quiet, OF quiet_refl]
  whenA_rel[of quiet, OF quiet_refl] modifyA_quiet

lemma forgetBinding_quiet: "quiet s (fold forgetBinding ids s)"
proof (induction ids arbitrary: s)
  case (Cons i ids)
  have "quiet s (forgetBinding i s)" by (simp add: quiet_def forgetBinding_def)
  then show ?case using qu.R_trans[OF _ Cons] by simp
qed (simp add: quiet_refl)

lemma scope_quiet: "state_io_rel quiet pushScope" "state_io_rel quiet popScope"
  unfolding pushScope_def popScope_def
proof (rule modifyA_rel)
  show "quiet s (s\<lparr>an_scopes := [] # an_scopes s, an_scopeBindingIds := [] # an_scopeBindingIds s\<rparr>)" for s
    by (simp add: quiet_def)
next
  show "state_io_rel quiet (modifyA (\<lambda>st. let st' = fold forgetBinding (hd (an_scopeBindingIds st)) st
      in st'\<lparr>an_scopeBindingIds := tl (an_scopeBindingIds st'), an_scopes := tl (an_scopes st')\<rparr>))"
    using forgetBinding_quiet by (intro modifyA_rel) (simp add: Let_def quiet_def)
qed

lemma declareLocal_quiet: "state_io_rel quiet (declareLocal name sp t m)"
  unfolding declareLocal_def by (intro qu_rules) (simp add: quiet_def)

lemma def_quiet:
  "state_io_rel quiet (rememberDefAssignReason bid sp m)"
  "state_io_rel quiet (markDefiniteAssigned bid)"
  unfolding rememberDefAssignReason_def markDefiniteAssigned_def
  by (intro qu_rules; simp add: quiet_def)+

lemma markElement_quiet: "state_io_rel quiet (markElement bid n k)"
  unfolding markElement_def by (intro qu_rules def_quiet) (simp_all add: quiet_def)

lemma arr_quiet:
  "state_io_rel quiet (markArrayBindingFullyAssigned bid)"
  "state_io_rel quiet (initArrayElemTrackingForBinding bid t sp)"
  "state_io_rel quiet (noteIndexedStoreToLocal bid t infos es)"
  unfolding markArrayBindingFullyAssigned_def initArrayElemTrackingForBinding_def noteIndexedStoreToLocal_def
  by (intro qu_rules def_quiet markElement_quiet; simp add: quiet_def)+

lemma validate_quiet:
  "state_io_rel quiet (validateFixedArrayDecl t sp)" "state_io_rel quiet (validatePointerDecl t sp)"
  unfolding validateFixedArrayDecl_def validatePointerDecl_def by (intro qu_rules)+

lemma leaf_stmt_quiet:
  "state_io_rel quiet (analyzeCondition c label)"
  "state_io_rel quiet (analyzeReturn sp v)"
  "state_io_rel quiet (analyzeBreak sp)"
  "state_io_rel quiet (analyzeContinue sp)"
  "state_io_rel quiet (analyzeCallStmt sp csp callee es)"
  "state_io_rel quiet (rejectAssign sp m e)"
  unfolding analyzeCondition_def analyzeReturn_def analyzeBreak_def analyzeContinue_def
    analyzeCallStmt_def rejectAssign_def
  by (intro qu_rules; simp add: quiet_def)+

lemma analyzeLet_quiet: "state_io_rel quiet (analyzeLet sp m name nsp t init)"
  unfolding analyzeLet_def analyzeUninitializedLet_def checkInitializer_def declareInitialized_def
  by (intro qu_rules declareLocal_quiet validate_quiet def_quiet arr_quiet)

lemma analyzeAssign_quiet: "state_io_rel quiet (analyzeAssign target v)"
proof -
  have n: "state_io_rel quiet (analyzeNameAssign sp name v)" for sp name
    unfolding analyzeNameAssign_def by (intro qu_rules leaf_stmt_quiet def_quiet)
  have i: "state_io_rel quiet (analyzeIndexAssign t v)" for t
    unfolding analyzeIndexAssign_def by (intro qu_rules leaf_stmt_quiet arr_quiet)
  have d: "state_io_rel quiet (analyzeDerefAssign e v)" for e
    unfolding analyzeDerefAssign_def by (intro qu_rules leaf_stmt_quiet)
  show ?thesis unfolding analyzeAssign_def rejectTarget_def
    by (cases target; simp only: Expr.case) (intro qu_rules n i d leaf_stmt_quiet)+
qed

lemma flow_quiet:
  "state_io_rel quiet getFlow" "state_io_rel quiet (setFlow f)"
  "state_io_rel quiet (noteIfDefAssignLosses sp d0 d1 d2 h t e)"
  "state_io_rel quiet (noteLoopDefAssignLosses sp d0 d1)"
  unfolding getFlow_def setFlow_def noteIfDefAssignLosses_def noteLoopDefAssignLosses_def
  by (intro qu_rules def_quiet; simp add: quiet_def)+

lemma mergeIf_quiet: "state_io_rel quiet (mergeIf sp f0 f1 f2 h t e)"
  unfolding mergeIf_def by (intro qu_rules flow_quiet) (simp_all add: quiet_def split: prod.split)

text \<open>The loop depth is raised for the body only.\<close>

lemma quiet_loop:
  assumes "state_io_rel quiet m" "\<And>x. state_io_rel quiet (f x)"
  shows "state_io_rel quiet (do {
    modifyA (\<lambda>st. st\<lparr>an_loopDepth := an_loopDepth st + 1\<rparr>);
    m;
    x \<leftarrow> modifyA (\<lambda>st. st\<lparr>an_loopDepth := an_loopDepth st - 1\<rparr>);
    f x })"
proof (rule state_io_relI)
  fix a and s s' :: analyzer
  let ?s1 = "s\<lparr>an_loopDepth := an_loopDepth s + 1\<rparr>"
  obtain x t where m: "run_state m ?s1 = (x, t)" by fastforce
  let ?t1 = "t\<lparr>an_loopDepth := an_loopDepth t - 1\<rparr>"
  assume "run_state (do {
    modifyA (\<lambda>st. st\<lparr>an_loopDepth := an_loopDepth st + 1\<rparr>);
    m;
    x \<leftarrow> modifyA (\<lambda>st. st\<lparr>an_loopDepth := an_loopDepth st - 1\<rparr>);
    f x }) s = (a, s')"
  then have "run_state (f ()) ?t1 = (a, s')" using m by (simp add: modifyA_def)
  then have "quiet ?s1 t" "quiet ?t1 s'" using state_io_relD[OF assms(1) m] state_io_relD[OF assms(2)] by blast+
  then show "quiet s s'" by (auto simp: quiet_def intro: bag_ext_trans)
qed

lemma analyzeStmt_quiet: "stmt_complete s \<Longrightarrow> state_io_rel quiet (analyzeStmt s)"
proof (induction s rule: analyzeStmt.induct)
  case (1 s)
  have c: "state_io_rel quiet (analyzeStmt x)" if "size x < size s" "stmt_complete x" for x
    using 1 that by blast
  have step: "state_io_rel quiet (modifyA (\<lambda>st. st\<lparr>an_inForStepClause := b\<rparr>))" for b
    by (rule modifyA_quiet) (simp add: quiet_def)
  have child: "state_io_rel quiet (analyzeChild analyzeStmt (Some x))" if "size x < size s" "stmt_complete x" for x
    using c that by (simp add: analyzeChild_def)
  show ?case
  proof (cases s)
    case (BlockStmt sp ss)
    have "state_io_rel quiet (analyzeStmt x)" if "x \<in> set ss" for x
      by (rule c) (use that BlockStmt 1(2) size_elem[OF that] in \<open>auto simp: list_all_iff\<close>)
    then show ?thesis unfolding analyzeStmt_unfold[of s] unfolding stmtStep_def BlockStmt Stmt.case analyzeBlock_def
      by (intro qu_rules scope_quiet)
  next
    case (IfStmt sp e t el)
    then obtain t' where t: "t = Some t'" using 1(2) by (auto split: option.splits)
    show ?thesis unfolding analyzeStmt_unfold[of s] unfolding stmtStep_def IfStmt Stmt.case analyzeIf_def t
      by (intro qu_rules scope_quiet leaf_stmt_quiet flow_quiet mergeIf_quiet child c)
        (use IfStmt t 1(2) in auto)
  next
    case (WhileStmt sp e body)
    then obtain b where b: "body = Some b" using 1(2) by (auto split: option.splits)
    show ?thesis unfolding analyzeStmt_unfold[of s] unfolding stmtStep_def WhileStmt Stmt.case analyzeWhile_def b
      by (rule qu.keep_bind[OF flow_quiet(1)], rule qu.keep_bind[OF leaf_stmt_quiet(1)], rule quiet_loop)
        (intro qu_rules flow_quiet child; use WhileStmt b 1(2) in auto)+
  next
    case (ForStmt sp init e st body)
    then obtain b where b: "body = Some b" using 1(2) by (auto split: option.splits)
    have body: "state_io_rel quiet (do {
        analyzeChild analyzeStmt body;
        (case st of None \<Rightarrow> returnA () | Some s \<Rightarrow> do {
          modifyA (\<lambda>st. st\<lparr>an_inForStepClause := True\<rparr>);
          analyzeStmt s;
          modifyA (\<lambda>st. st\<lparr>an_inForStepClause := False\<rparr>) }) })"
      unfolding b by (intro qu.keep_rules child step c) (use ForStmt b 1(2) in auto)
    have init: "state_io_rel quiet (case init of None \<Rightarrow> returnA False | Some s \<Rightarrow> analyzeStmt s)"
      by (intro qu.keep_rules c) (use ForStmt 1(2) in auto)
    have cond: "state_io_rel quiet (case e of None \<Rightarrow> returnA () | Some c \<Rightarrow> analyzeCondition c label)" for label
      by (intro qu.keep_rules leaf_stmt_quiet)
    show ?thesis unfolding analyzeStmt_unfold[of s] unfolding stmtStep_def ForStmt Stmt.case analyzeFor_def
      by (rule qu.keep_bind[OF scope_quiet(1)], rule qu.keep_bind[OF init], rule qu.keep_bind[OF flow_quiet(1)],
          rule qu.keep_bind[OF cond], subst bind_assoc[symmetric], rule quiet_loop[OF body])
        (intro qu_rules flow_quiet scope_quiet)
  qed (simp_all only: analyzeStmt_unfold[of "LetStmt _ _ _ _ _ _"] analyzeStmt_unfold[of "AssignStmt _ _ _"]
      analyzeStmt_unfold[of "ReturnStmt _ _"] analyzeStmt_unfold[of "BreakStmt _"]
      analyzeStmt_unfold[of "ContinueStmt _"] analyzeStmt_unfold[of "CallStmt _ _ _ _"]
      stmtStep_def Stmt.case neverReturns_def;
      intro qu_rules leaf_stmt_quiet analyzeLet_quiet analyzeAssign_quiet)+
qed

section \<open>Runs without new errors\<close>

text \<open>\<open>growing\<close>: errors are never taken back. \<open>cwp m Q st\<close>: if the run of \<open>m\<close> from \<open>st\<close> ends
  without an error in the bag, its result satisfies \<open>Q\<close>. An error met on the way discharges
  every obligation after it.\<close>

definition bag_grows :: "analyzer \<Rightarrow> analyzer \<Rightarrow> bool" where
  "bag_grows st st' \<longleftrightarrow> bag_ext (an_bag st) (an_bag st')"

abbreviation growing :: "'a analysis \<Rightarrow> bool" where
  "growing m \<equiv> state_io_rel bag_grows m"

interpretation gr: state_preorder bag_grows
  by unfold_locales (auto simp: bag_grows_def intro: bag_ext_trans)

lemma quiet_growing: "state_io_rel quiet m \<Longrightarrow> growing m"
  by (auto simp: state_io_rel_def quiet_def bag_grows_def)

lemma only_bag_growing: "state_io_rel only_bag m \<Longrightarrow> growing m"
  by (rule quiet_growing, rule only_bag_rel_quiet)

definition clean :: "analyzer \<Rightarrow> bool" where
  "clean st \<longleftrightarrow> \<not> hasErrors (an_bag st)"

definition cwp :: "'a analysis \<Rightarrow> ('a \<Rightarrow> analyzer \<Rightarrow> bool) \<Rightarrow> analyzer \<Rightarrow> bool" where
  "cwp m Q st \<longleftrightarrow> (case run_state m st of (x, st') \<Rightarrow> clean st' \<longrightarrow> Q x st')"

lemma cwp_bind:
  assumes "\<And>x. growing (f x)" "cwp m (\<lambda>x. cwp (f x) Q) st"
  shows "cwp (State_Monad.bind m f) Q st"
proof -
  obtain x st1 where m: "run_state m st = (x, st1)" by fastforce
  obtain y st2 where f: "run_state (f x) st1 = (y, st2)" by fastforce
  have "bag_ext (an_bag st1) (an_bag st2)" using state_io_relD[OF assms(1) f] by (simp add: bag_grows_def)
  then have "clean st2 \<Longrightarrow> clean st1" using bag_ext_hasErrors by (auto simp: clean_def)
  then show ?thesis using assms(2) m f by (simp add: cwp_def)
qed

lemma cwp_return: "Q x st \<Longrightarrow> cwp (returnA x) Q st"
  by (simp add: cwp_def)

lemma cwp_gets: "Q (f st) st \<Longrightarrow> cwp (getsA f) Q st"
  by (simp add: cwp_def getsA_def)

lemma cwp_modify: "Q () (f st) \<Longrightarrow> cwp (modifyA f) Q st"
  by (simp add: cwp_def modifyA_def)

lemma cwp_error: "cwp (errorA sp m) Q st"
  by (simp add: cwp_def errorA_def modifyA_def clean_def)

lemma cwp_when: "(b \<Longrightarrow> cwp m Q st) \<Longrightarrow> (\<not> b \<Longrightarrow> Q () st) \<Longrightarrow> cwp (whenA b m) Q st"
  by (simp add: whenA_def cwp_return)

lemma cwp_when_error: "(\<not> b \<Longrightarrow> Q () st) \<Longrightarrow> cwp (whenA b (errorA sp m)) Q st"
  by (simp add: cwp_when cwp_error)

lemma cwp_if: "(b \<Longrightarrow> cwp m Q st) \<Longrightarrow> (\<not> b \<Longrightarrow> cwp n Q st) \<Longrightarrow> cwp (if b then m else n) Q st"
  by simp

lemma cwp_option:
  "(v = None \<Longrightarrow> cwp m Q st) \<Longrightarrow> (\<And>x. v = Some x \<Longrightarrow> cwp (f x) Q st) \<Longrightarrow>
    cwp (case v of None \<Rightarrow> m | Some x \<Rightarrow> f x) Q st"
  by (cases v) simp_all

lemma cwp_let: "cwp (f v) Q st \<Longrightarrow> cwp (Let v f) Q st"
  by simp

lemma cwp_mono: "cwp m P st \<Longrightarrow> (\<And>x st'. clean st' \<Longrightarrow> P x st' \<Longrightarrow> Q x st') \<Longrightarrow> cwp m Q st"
  by (auto simp: cwp_def)

lemma cwp_conj: "cwp m P st \<Longrightarrow> cwp m Q st \<Longrightarrow> cwp m (\<lambda>x st'. P x st' \<and> Q x st') st"
  by (auto simp: cwp_def)

lemma cwp_rel: "state_io_rel R m \<Longrightarrow> cwp m (\<lambda>_ st'. R st st') st"
  by (auto simp: cwp_def split: prod.split)

lemma cwp_rel_mono:
  "cwp m P st \<Longrightarrow> state_io_rel R m \<Longrightarrow> (\<And>x st'. clean st' \<Longrightarrow> P x st' \<Longrightarrow> R st st' \<Longrightarrow> Q x st') \<Longrightarrow> cwp m Q st"
  by (auto simp: cwp_def split: prod.splits)

lemma cwp_only:
  "state_io_rel only_bag m \<Longrightarrow> (\<And>x b. Q x (st\<lparr>an_bag := b\<rparr>)) \<Longrightarrow> cwp m Q st"
proof -
  assume m: "state_io_rel only_bag m" and Q: "\<And>x b. Q x (st\<lparr>an_bag := b\<rparr>)"
  obtain x st' where r: "run_state m st = (x, st')" by fastforce
  have "st' = st\<lparr>an_bag := an_bag st'\<rparr>" using state_io_relD[OF m r] by (simp add: only_bag_def)
  then have "Q x st'" using Q by metis
  then show ?thesis using r by (simp add: cwp_def)
qed

lemma cwp_traverse:
  assumes "\<And>x. x \<in> set xs \<Longrightarrow> growing (f x)"
    "\<And>x st. x \<in> set xs \<Longrightarrow> I st \<Longrightarrow> cwp (f x) (\<lambda>y st'. I st' \<and> P x y) st" "I st"
  shows "cwp (traverse_list f xs) (\<lambda>ys st'. I st' \<and> list_all2 P xs ys) st"
  using assms
proof (induction xs arbitrary: st)
  case Nil
  then show ?case by (simp add: cwp_return)
next
  case (Cons x xs)
  have g: "growing (traverse_list f xs)" using Cons.prems(1) by (intro gr.keep_traverse) simp
  have ih: "I st1 \<Longrightarrow> cwp (traverse_list f xs) (\<lambda>ys st'. I st' \<and> list_all2 P xs ys) st1" for st1
    using Cons by simp
  show ?case unfolding traverse_list.simps
    by (intro cwp_bind gr.keep_bind gr.keep_return g, rule cwp_mono[OF Cons.prems(2)])
      (use Cons.prems(3) in \<open>auto intro!: cwp_bind gr.keep_return cwp_mono[OF ih] cwp_return\<close>)
qed

section \<open>The whole analysis\<close>

lemma bag_grows_refl: "bag_grows s s"
  by (simp add: bag_grows_def)

definition sound_step :: "analyzer \<Rightarrow> analyzer \<Rightarrow> bool" where
  "sound_step st st' \<longleftrightarrow>
     an_nullDereferenced st' = an_nullDereferenced st \<and> an_loopDepth st' = an_loopDepth st \<and>
     bag_ext (an_bag st) (an_bag st')"

interpretation ss: state_preorder sound_step
  by unfold_locales (auto simp: sound_step_def intro: bag_ext_trans)

lemma quiet_sound: "state_io_rel quiet m \<Longrightarrow> state_io_rel sound_step m"
  by (auto simp: state_io_rel_def quiet_def sound_step_def)

lemma sound_step_refl: "sound_step s s"
  by (simp add: sound_step_def)

lemmas ss_rules = ss.keep_rules qu_only_bag[THEN quiet_sound] getsA_rel[of sound_step, OF sound_step_refl]
  whenA_rel[of sound_step, OF sound_step_refl] modifyA_rel[of sound_step]

lemma collect_sound:
  "state_io_rel sound_step (declareTopLevel name sp)"
  "state_io_rel sound_step (collectParameter p)"
  unfolding declareTopLevel_def collectParameter_def
  by (intro ss_rules validate_quiet[THEN quiet_sound]; simp add: sound_step_def)+

lemma collectItem_sound: "state_io_rel sound_step (collectItem i)"
  by (cases i; simp only: collectItem.simps collectFunction_def collectConst_def)
    (intro ss_rules validate_quiet[THEN quiet_sound] collect_sound; simp add: sound_step_def)+

lemma analyzeItem_sound: "item_complete i \<Longrightarrow> state_io_rel sound_step (analyzeItem i)"
proof (cases i)
  case (FunctionDecl sp name nsp ps rt bsp body)
  assume "item_complete i"
  then have "stmt_complete (BlockStmt bsp body)" using FunctionDecl by simp
  note b = analyzeStmt_quiet[OF this, THEN quiet_sound]
  show ?thesis unfolding FunctionDecl analyzeItem.simps analyzeFunction_def resetFunctionState_def declareParameter_def
    by (intro ss_rules b scope_quiet[THEN quiet_sound] declareLocal_quiet[THEN quiet_sound]
        def_quiet[THEN quiet_sound]) (simp add: sound_step_def)
next
  case (ConstDecl sp name nsp t init)
  show ?thesis unfolding ConstDecl analyzeItem.simps analyzeConstDecl_def by (intro ss_rules)
qed

lemma prologue_sound:
  "state_io_rel sound_step installBuiltins" "state_io_rel sound_step (collectItems unit)"
  "state_io_rel sound_step validateMainIfPresent"
  unfolding installBuiltins_def collectItems_def validateMainIfPresent_def
  by (intro ss_rules collectItem_sound; simp add: sound_step_def)+

lemma analyzeUnit_sound: "list_all item_complete unit \<Longrightarrow> state_io_rel sound_step (analyzeUnit unit)"
  unfolding analyzeUnit_def
  by (intro ss_rules prologue_sound analyzeItem_sound) (simp add: list_all_iff)

lemma analyze_complete:
  assumes "list_all item_complete unit"
  shows "\<exists>bag'. analyze unit bag = Some bag' \<and> bag_ext bag bag'"
proof -
  obtain st where r: "run_state (analyzeUnit unit) (AnalyzerImpl_new bag) = ((), st)" by (metis old.unit.exhaust surj_pair)
  have "sound_step (AnalyzerImpl_new bag) st" using state_io_relD[OF analyzeUnit_sound[OF assms] r] .
  then show ?thesis using r by (auto simp: analyze_def sound_step_def AnalyzerImpl_new_def)
qed

end
