(* ===== verification/ReturnPaths.thy ===== *)
theory ReturnPaths
  imports SemanticFacts
begin

text \<open>
  Control flow. \<open>runs s c\<close>: some execution of the statement \<open>s\<close> ends in the way \<open>c\<close>; what the
  conditions evaluate to is left open. The result of \<open>analyzeStmt\<close> depends on the shape of the
  statement only, and a function that is accepted cannot fall off its end.
\<close>

section \<open>Executions\<close>

datatype completion = Falls | Returns | Breaks | Continues

inductive runs :: "Stmt \<Rightarrow> completion \<Rightarrow> bool"
  and runs_list :: "Stmt list \<Rightarrow> completion \<Rightarrow> bool"
  and loops :: "Stmt \<Rightarrow> Stmt option \<Rightarrow> completion \<Rightarrow> bool"
where
  runs_let: "runs (LetStmt sp m name nsp t init) Falls"
| runs_assign: "runs (AssignStmt sp target v) Falls"
| runs_call: "runs (CallStmt sp csp callee es) Falls"
| runs_return: "runs (ReturnStmt sp v) Returns"
| runs_break: "runs (BreakStmt sp) Breaks"
| runs_continue: "runs (ContinueStmt sp) Continues"
| runs_block: "runs_list ss c \<Longrightarrow> runs (BlockStmt sp ss) c"
| runs_then: "runs t c \<Longrightarrow> runs (IfStmt sp e (Some t) el) c"
| runs_else: "runs el c \<Longrightarrow> runs (IfStmt sp e t (Some el)) c"
| runs_skip: "runs (IfStmt sp e t None) Falls"
| runs_while: "loops body None c \<Longrightarrow> runs (WhileStmt sp e (Some body)) c"
| runs_for: "loops body step c \<Longrightarrow> runs (ForStmt sp init e step (Some body)) c"
| list_nil: "runs_list [] Falls"
| list_stop: "runs s c \<Longrightarrow> c \<noteq> Falls \<Longrightarrow> runs_list (s # ss) c"
| list_next: "runs s Falls \<Longrightarrow> runs_list ss c \<Longrightarrow> runs_list (s # ss) c"
| loop_exit: "loops body step Falls"
| loop_break: "runs body Breaks \<Longrightarrow> loops body step Falls"
| loop_return: "runs body Returns \<Longrightarrow> loops body step Returns"
| loop_again: "runs body c1 \<Longrightarrow> c1 = Falls \<or> c1 = Continues \<Longrightarrow>
    (\<forall>s. step = Some s \<longrightarrow> runs s Falls) \<Longrightarrow> loops body step c \<Longrightarrow> loops body step c"

section \<open>The flag of \<open>analyzeStmt\<close>\<close>

fun definitelyReturns :: "Stmt \<Rightarrow> bool" where
  "definitelyReturns (BlockStmt sp ss) \<longleftrightarrow> list_ex definitelyReturns ss"
| "definitelyReturns (ReturnStmt sp v) \<longleftrightarrow> True"
| "definitelyReturns (IfStmt sp e t el) \<longleftrightarrow>
     (case t of None \<Rightarrow> False | Some t \<Rightarrow> definitelyReturns t) \<and>
     (case el of None \<Rightarrow> False | Some el \<Rightarrow> definitelyReturns el)"
| "definitelyReturns _ \<longleftrightarrow> False"

definition gives :: "'a analysis \<Rightarrow> 'a \<Rightarrow> bool" where
  "gives m v \<longleftrightarrow> (\<forall>st. fst (run_state m st) = v)"

lemma gives_bind: "(\<And>x. gives (f x) v) \<Longrightarrow> gives (State_Monad.bind m f) v"
  by (auto simp: gives_def split: prod.split)

lemma gives_bind_value: "gives m u \<Longrightarrow> gives (f u) v \<Longrightarrow> gives (State_Monad.bind m f) v"
  by (auto simp: gives_def split: prod.split) (metis fst_conv)

lemma gives_return: "gives (returnA v) v"
  by (simp add: gives_def)

lemma gives_traverse: "(\<And>x. x \<in> set xs \<Longrightarrow> gives (f x) (g x)) \<Longrightarrow> gives (traverse_list f xs) (map g xs)"
  by (induction xs) (auto intro!: gives_return intro: gives_bind_value)

lemma gives_value: "gives m u \<Longrightarrow> u = v \<Longrightarrow> gives m v"
  by simp

lemma analyzeStmt_gives: "gives (analyzeStmt s) (definitelyReturns s)"
proof (induction s rule: analyzeStmt.induct)
  case (1 s)
  show ?case
  proof (cases s)
    case (BlockStmt sp ss)
    have "gives (traverse_list analyzeStmt ss) (map definitelyReturns ss)"
      by (rule gives_traverse, rule 1) (use BlockStmt size_elem in fastforce)
    then show ?thesis unfolding BlockStmt
      by (subst analyzeStmt_unfold, unfold stmtStep_def Stmt.case analyzeBlock_def)
        (rule gives_bind, erule gives_bind_value, rule gives_bind,
          auto simp: list_ex_iff intro!: gives_value[OF gives_return])
  next
    case (IfStmt sp e t el)
    have t: "gives (analyzeChild analyzeStmt t) (case t of None \<Rightarrow> False | Some t \<Rightarrow> definitelyReturns t)"
      using 1 IfStmt
      by (auto simp: analyzeChild_def nullDereference_def split: option.split intro!: gives_bind gives_return)
    have el: "gives (case el of None \<Rightarrow> returnA False | Some s \<Rightarrow> analyzeStmt s)
        (case el of None \<Rightarrow> False | Some el \<Rightarrow> definitelyReturns el)"
      using 1 IfStmt by (auto split: option.split intro!: gives_return)
    show ?thesis unfolding IfStmt
      by (subst analyzeStmt_unfold, unfold stmtStep_def Stmt.case analyzeIf_def)
        (intro gives_bind gives_bind_value[OF t] gives_bind_value[OF el] gives_value[OF gives_return],
          auto split: option.split)
  qed (simp_all only: analyzeStmt_unfold[of "LetStmt _ _ _ _ _ _"] analyzeStmt_unfold[of "AssignStmt _ _ _"]
      analyzeStmt_unfold[of "ReturnStmt _ _"] analyzeStmt_unfold[of "BreakStmt _"]
      analyzeStmt_unfold[of "ContinueStmt _"] analyzeStmt_unfold[of "CallStmt _ _ _ _"]
      analyzeStmt_unfold[of "WhileStmt _ _ _"] analyzeStmt_unfold[of "ForStmt _ _ _ _ _"]
      stmtStep_def Stmt.case neverReturns_def definitelyReturns.simps analyzeWhile_def analyzeFor_def;
      intro gives_bind gives_return)+
qed

lemma definitelyReturns_sound:
  "runs s c \<Longrightarrow> definitelyReturns s \<Longrightarrow> c \<noteq> Falls"
  "runs_list ss c' \<Longrightarrow> list_ex definitelyReturns ss \<Longrightarrow> c' \<noteq> Falls"
  "loops b st c'' \<Longrightarrow> True"
  by (induction rule: runs_runs_list_loops.inducts) (auto split: option.splits)

section \<open>Jumps\<close>

text \<open>\<open>break\<close> and \<open>continue\<close> only inside loops.\<close>

fun jumps_inside :: "bool \<Rightarrow> Stmt \<Rightarrow> bool" where
  "jumps_inside l (BlockStmt sp ss) \<longleftrightarrow> list_all (jumps_inside l) ss"
| "jumps_inside l (BreakStmt sp) \<longleftrightarrow> l"
| "jumps_inside l (ContinueStmt sp) \<longleftrightarrow> l"
| "jumps_inside l (IfStmt sp e t el) \<longleftrightarrow>
     (case t of None \<Rightarrow> True | Some t \<Rightarrow> jumps_inside l t) \<and>
     (case el of None \<Rightarrow> True | Some el \<Rightarrow> jumps_inside l el)"
| "jumps_inside l (WhileStmt sp e body) \<longleftrightarrow> (case body of None \<Rightarrow> True | Some b \<Rightarrow> jumps_inside True b)"
| "jumps_inside l (ForStmt sp init e step body) \<longleftrightarrow>
     (case init of None \<Rightarrow> True | Some s \<Rightarrow> jumps_inside l s) \<and>
     (case step of None \<Rightarrow> True | Some s \<Rightarrow> jumps_inside True s) \<and>
     (case body of None \<Rightarrow> True | Some b \<Rightarrow> jumps_inside True b)"
| "jumps_inside l _ \<longleftrightarrow> True"

lemma jumps_inside_sound:
  "runs s c \<Longrightarrow> jumps_inside False s \<Longrightarrow> c \<noteq> Breaks \<and> c \<noteq> Continues"
  "runs_list ss c' \<Longrightarrow> list_all (jumps_inside False) ss \<Longrightarrow> c' \<noteq> Breaks \<and> c' \<noteq> Continues"
  "loops b st c'' \<Longrightarrow> c'' \<noteq> Breaks \<and> c'' \<noteq> Continues"
  by (induction rule: runs_runs_list_loops.inducts) (auto split: option.splits)

text \<open>\<open>at_depth n m P\<close>: run at loop depth \<open>n\<close>, \<open>m\<close> ends at depth \<open>n\<close>, and \<open>P\<close> holds if no error
  was reported.\<close>

definition at_depth :: "nat \<Rightarrow> 'a analysis \<Rightarrow> bool \<Rightarrow> bool" where
  "at_depth n m P \<longleftrightarrow> growing m \<and>
     (\<forall>st. an_loopDepth st = n \<longrightarrow> cwp m (\<lambda>_ st'. an_loopDepth st' = n \<and> P) st)"

lemma depth_growing: "at_depth n m P \<Longrightarrow> growing m"
  by (simp add: at_depth_def)

lemma depth_quiet: "state_io_rel quiet m \<Longrightarrow> at_depth n m True"
  unfolding at_depth_def
  by (auto intro: quiet_growing cwp_mono[OF cwp_rel[where R = quiet]] simp: quiet_def)

lemma depth_return: "P \<Longrightarrow> at_depth n (returnA v) P"
  by (simp add: at_depth_def cwp_return gr.keep_return)

lemma depth_bind:
  assumes "at_depth n m P" "\<And>x. at_depth n (f x) Q" "P \<Longrightarrow> Q \<Longrightarrow> S"
  shows "at_depth n (State_Monad.bind m f) S"
  using assms unfolding at_depth_def
  by (auto intro!: gr.keep_bind cwp_bind) (smt (verit) cwp_mono)

text \<open>The body of a loop runs one level deeper.\<close>

lemma depth_loop:
  assumes "at_depth (Suc n) m P" "\<And>x. at_depth n (f x) Q"
  shows "at_depth n (do {
    modifyA (\<lambda>st. st\<lparr>an_loopDepth := an_loopDepth st + 1\<rparr>);
    m;
    x \<leftarrow> modifyA (\<lambda>st. st\<lparr>an_loopDepth := an_loopDepth st - 1\<rparr>);
    f x }) (P \<and> Q)"
  unfolding at_depth_def
proof (intro conjI allI impI)
  have g: "growing (modifyA (\<lambda>st. st\<lparr>an_loopDepth := h st\<rparr>))" for h
    by (rule modifyA_rel) (simp add: bag_grows_def)
  have gm: "growing m" "\<And>x. growing (f x)" using assms by (auto dest: depth_growing)
  show "growing (do {
    modifyA (\<lambda>st. st\<lparr>an_loopDepth := an_loopDepth st + 1\<rparr>);
    m;
    x \<leftarrow> modifyA (\<lambda>st. st\<lparr>an_loopDepth := an_loopDepth st - 1\<rparr>);
    f x })" by (intro gr.keep_bind g gm)
  fix st :: analyzer assume n: "an_loopDepth st = n"
  have body: "an_loopDepth st1 = Suc n \<Longrightarrow> cwp m (\<lambda>_ st'. an_loopDepth st' = Suc n \<and> P) st1" for st1
    using assms(1) by (simp add: at_depth_def)
  have rest: "an_loopDepth st1 = n \<Longrightarrow> cwp (f x) (\<lambda>_ st'. an_loopDepth st' = n \<and> Q) st1" for st1 x
    using assms(2) by (simp add: at_depth_def)
  show "cwp (do {
    modifyA (\<lambda>st. st\<lparr>an_loopDepth := an_loopDepth st + 1\<rparr>);
    m;
    x \<leftarrow> modifyA (\<lambda>st. st\<lparr>an_loopDepth := an_loopDepth st - 1\<rparr>);
    f x }) (\<lambda>_ st'. an_loopDepth st' = n \<and> P \<and> Q) st"
    by (intro cwp_bind gr.keep_bind g gm cwp_modify, rule cwp_mono[OF body], simp add: n,
        intro cwp_bind g gm cwp_modify, rule cwp_mono[OF rest]) auto
qed

lemma depth_traverse:
  "(\<And>x. x \<in> set xs \<Longrightarrow> at_depth n (f x) (P x)) \<Longrightarrow> at_depth n (traverse_list f xs) (list_all P xs)"
proof (induction xs)
  case (Cons x xs)
  show ?case unfolding traverse_list.simps
    by (rule depth_bind[OF Cons.prems], simp, rule depth_bind[OF Cons.IH depth_return]) (use Cons.prems in auto)
qed (simp add: depth_return)

lemma depth_weaken: "at_depth n m P \<Longrightarrow> (P \<Longrightarrow> Q) \<Longrightarrow> at_depth n m Q"
  unfolding at_depth_def by (auto elim!: allE cwp_mono)

lemma depth_option:
  "at_depth n m True \<Longrightarrow> (\<And>s. v = Some s \<Longrightarrow> at_depth n (f s) (P s)) \<Longrightarrow>
    at_depth n (case v of None \<Rightarrow> m | Some s \<Rightarrow> f s) (case v of None \<Rightarrow> True | Some s \<Rightarrow> P s)"
  by (cases v) simp_all

lemma depth_break: "at_depth n (neverReturns (analyzeBreak sp)) (n > 0)"
proof -
  have "growing (neverReturns (analyzeBreak sp))"
    unfolding neverReturns_def by (intro gr.keep_bind gr.keep_return quiet_growing leaf_stmt_quiet)
  moreover have "cwp (neverReturns (analyzeBreak sp)) (\<lambda>_ st'. an_loopDepth st' = n \<and> n > 0) st"
    if "an_loopDepth st = n" for st
    using that by (auto simp: neverReturns_def analyzeBreak_def cwp_def getsA_def whenA_def errorA_def modifyA_def clean_def)
  ultimately show ?thesis by (simp add: at_depth_def)
qed

lemma depth_continue: "at_depth n (neverReturns (analyzeContinue sp)) (n > 0)"
proof -
  have "growing (neverReturns (analyzeContinue sp))"
    unfolding neverReturns_def by (intro gr.keep_bind gr.keep_return quiet_growing leaf_stmt_quiet)
  moreover have "cwp (neverReturns (analyzeContinue sp)) (\<lambda>_ st'. an_loopDepth st' = n \<and> n > 0) st"
    if "an_loopDepth st = n" for st
    using that by (auto simp: neverReturns_def analyzeContinue_def cwp_def getsA_def whenA_def errorA_def modifyA_def clean_def)
  ultimately show ?thesis by (simp add: at_depth_def)
qed

lemma depth_leaf: "state_io_rel quiet m \<Longrightarrow> at_depth n (neverReturns m) True"
  unfolding neverReturns_def by (rule depth_quiet, intro qu.keep_bind qu.keep_return)

lemma analyzeStmt_jumps: "stmt_complete s \<Longrightarrow> at_depth n (analyzeStmt s) (jumps_inside (n > 0) s)"
proof (induction s arbitrary: n rule: analyzeStmt.induct)
  case (1 s)
  note complete = \<open>stmt_complete s\<close>
  have c: "at_depth k (analyzeStmt x) (jumps_inside (k > 0) x)" if "size x < size s" "stmt_complete x" for x k
    using 1(1) that by blast
  have o: "at_depth k (case v of None \<Rightarrow> returnA False | Some x \<Rightarrow> analyzeStmt x)
      (case v of None \<Rightarrow> True | Some x \<Rightarrow> jumps_inside (k > 0) x)"
    if "\<And>x. v = Some x \<Longrightarrow> size x < size s \<and> stmt_complete x" for v k
    by (rule depth_option[OF depth_return]) (use that c in auto)
  have child: "at_depth k (analyzeChild analyzeStmt (Some x)) (jumps_inside (k > 0) x)"
    if "size x < size s" "stmt_complete x" for x k
    using c that by (simp add: analyzeChild_def)
  have step: "at_depth k (modifyA (\<lambda>st. st\<lparr>an_inForStepClause := b\<rparr>)) True" for b k
    by (rule depth_quiet, rule modifyA_quiet) (simp add: quiet_def)
  show ?case
  proof (cases s)
    case (BlockStmt sp ss)
    have l: "at_depth n (traverse_list analyzeStmt ss) (list_all (jumps_inside (n > 0)) ss)"
      by (rule depth_traverse, rule c) (use BlockStmt complete size_elem in \<open>auto simp: list_all_iff\<close>)
    show ?thesis unfolding analyzeStmt_unfold[of s]
      unfolding stmtStep_def BlockStmt Stmt.case analyzeBlock_def
      by (rule depth_bind[OF depth_quiet[OF scope_quiet(1)]], rule depth_bind[OF l],
          rule depth_bind[OF depth_quiet[OF scope_quiet(2)] depth_return[OF TrueI]]) simp_all
  next
    case (IfStmt sp e t el)
    then obtain t' where t: "t = Some t'" "stmt_complete t'" using complete by (auto split: option.splits)
    have child': "at_depth n (analyzeChild analyzeStmt (Some t')) (jumps_inside (n > 0) t')"
      by (rule child) (use IfStmt t in auto)
    have el: "at_depth n (case el of None \<Rightarrow> returnA False | Some s \<Rightarrow> analyzeStmt s)
        (case el of None \<Rightarrow> True | Some x \<Rightarrow> jumps_inside (n > 0) x)"
      by (rule o) (use IfStmt complete in auto)
    show ?thesis unfolding analyzeStmt_unfold[of s]
      unfolding stmtStep_def IfStmt Stmt.case analyzeIf_def t
      by (rule depth_bind[OF depth_quiet[OF leaf_stmt_quiet(1)]], rule depth_bind[OF depth_quiet[OF flow_quiet(1)]],
          rule depth_bind[OF child'],
          rule depth_bind[OF depth_quiet[OF flow_quiet(1)]], rule depth_bind[OF depth_quiet[OF flow_quiet(2)]],
          rule depth_bind[OF el],
          rule depth_bind[OF depth_quiet[OF flow_quiet(1)]],
          rule depth_bind[OF depth_quiet[OF mergeIf_quiet] depth_return[OF TrueI]])
        (use IfStmt complete t in auto)
  next
    case (WhileStmt sp e body)
    then obtain b where b: "body = Some b" "stmt_complete b" "size b < size s"
      using complete by (auto split: option.splits)
    have "at_depth (Suc n) (analyzeChild analyzeStmt body) (jumps_inside True b)"
      using child[of b "Suc n"] b by simp
    note loop = depth_loop[OF this]
    show ?thesis unfolding analyzeStmt_unfold[of s]
      unfolding stmtStep_def WhileStmt Stmt.case analyzeWhile_def
      by (rule depth_bind[OF depth_quiet[OF flow_quiet(1)]], rule depth_bind[OF depth_quiet[OF leaf_stmt_quiet(1)]],
          rule loop, rule depth_quiet, intro qu_rules flow_quiet) (simp_all add: b)
  next
    case (ForStmt sp init e st body)
    then obtain b where b: "body = Some b" "stmt_complete b" "size b < size s"
      using complete by (auto split: option.splits)
    have "at_depth (Suc n) (do {
        analyzeChild analyzeStmt body;
        (case st of None \<Rightarrow> returnA () | Some s \<Rightarrow> do {
          modifyA (\<lambda>st. st\<lparr>an_inForStepClause := True\<rparr>);
          analyzeStmt s;
          modifyA (\<lambda>st. st\<lparr>an_inForStepClause := False\<rparr>) }) })
       (jumps_inside True b \<and> (case st of None \<Rightarrow> True | Some s \<Rightarrow> jumps_inside True s))"
      unfolding b
      by (rule depth_bind[OF child[OF b(3,2)]], rule depth_option[OF depth_return[OF TrueI]],
          intro depth_bind[OF step] depth_bind[OF c step])
        (use ForStmt complete in auto)
    note loop = depth_loop[OF this]
    have init: "at_depth n (case init of None \<Rightarrow> returnA False | Some s \<Rightarrow> analyzeStmt s)
        (case init of None \<Rightarrow> True | Some x \<Rightarrow> jumps_inside (n > 0) x)"
      by (rule o) (use ForStmt complete in auto)
    have cond: "at_depth n (case e of None \<Rightarrow> returnA () | Some c \<Rightarrow> analyzeCondition c label) True" for label
      by (rule depth_quiet, intro qu.keep_rules leaf_stmt_quiet)
    show ?thesis unfolding analyzeStmt_unfold[of s]
      unfolding stmtStep_def ForStmt Stmt.case analyzeFor_def
      by (rule depth_bind[OF depth_quiet[OF scope_quiet(1)]], rule depth_bind[OF init],
          rule depth_bind[OF depth_quiet[OF flow_quiet(1)]], rule depth_bind[OF cond],
          subst bind_assoc[symmetric], rule loop, rule depth_quiet, intro qu_rules flow_quiet scope_quiet)
        (simp_all add: b)
  qed (simp_all only: analyzeStmt_unfold[of "LetStmt _ _ _ _ _ _"] analyzeStmt_unfold[of "AssignStmt _ _ _"]
      analyzeStmt_unfold[of "ReturnStmt _ _"] analyzeStmt_unfold[of "BreakStmt _"]
      analyzeStmt_unfold[of "ContinueStmt _"] analyzeStmt_unfold[of "CallStmt _ _ _ _"]
      stmtStep_def Stmt.case jumps_inside.simps;
      intro depth_break depth_continue depth_leaf depth_bind[OF depth_quiet depth_return] leaf_stmt_quiet
        analyzeLet_quiet analyzeAssign_quiet TrueI)+
qed


section \<open>Accepted functions\<close>

lemma depth_sound: "state_io_rel sound_step m \<Longrightarrow> at_depth n m True"
  unfolding at_depth_def
  by (auto simp: sound_step_def bag_grows_def state_io_rel_def
      intro!: cwp_mono[OF cwp_rel[where R = sound_step and m = m]])

text \<open>How the executions of a function body may end, \<open>void\<close> telling the return type.\<close>

definition ends_well :: "Item \<Rightarrow> bool" where
  "ends_well i \<longleftrightarrow> (case i of
     FunctionDecl sp name nsp ps rt bsp body \<Rightarrow>
       \<forall>c. runs_list body c \<longrightarrow> c = Returns \<or> c = Falls \<and> Type_isVoid (typeFromSyntax rt)
   | ConstDecl sp name nsp t init \<Rightarrow> True)"

lemma ends_wellI:
  assumes "list_all (jumps_inside False) body" "\<not> Type_isVoid (typeFromSyntax rt) \<Longrightarrow> list_ex definitelyReturns body"
  shows "ends_well (FunctionDecl sp name nsp ps rt bsp body)"
  unfolding ends_well_def Item.case
proof (intro allI impI)
  fix c assume r: "runs_list body c"
  have "c \<noteq> Breaks \<and> c \<noteq> Continues" by (rule jumps_inside_sound(2)[OF r assms(1)])
  moreover have "\<not> Type_isVoid (typeFromSyntax rt) \<Longrightarrow> c \<noteq> Falls"
    using definitelyReturns_sound(2)[OF r] assms(2) by blast
  ultimately show "c = Returns \<or> c = Falls \<and> Type_isVoid (typeFromSyntax rt)"
    by (cases c) auto
qed

lemma depth_seq: "at_depth n m P \<Longrightarrow> (\<And>x. at_depth n (f x) Q) \<Longrightarrow> at_depth n (State_Monad.bind m f) (P \<and> Q)"
  by (rule depth_bind[where P = P and Q = Q]) auto

lemma depth_given:
  assumes "gives m v" "at_depth n m P" "at_depth n (f v) Q" "\<And>x. growing (f x)"
  shows "at_depth n (State_Monad.bind m f) (P \<and> Q)"
  unfolding at_depth_def
proof (intro conjI allI impI)
  show "growing (State_Monad.bind m f)" using assms(2,4) by (auto simp: at_depth_def intro: gr.keep_bind)
  fix st :: analyzer assume n: "an_loopDepth st = n"
  have "cwp m (\<lambda>x st'. x = v \<and> an_loopDepth st' = n \<and> P) st"
    using assms(1,2) n by (auto simp: at_depth_def gives_def cwp_def split: prod.splits) (metis fst_conv)
  then show "cwp (State_Monad.bind m f) (\<lambda>_ st'. an_loopDepth st' = n \<and> P \<and> Q) st"
    by (intro cwp_bind assms(4), elim cwp_mono) (use assms(3) in \<open>auto simp: at_depth_def elim!: allE cwp_mono\<close>)
qed

lemma depth_when_error: "at_depth n (whenA b (errorA sp m)) (\<not> b)"
  by (auto simp: at_depth_def whenA_def cwp_error cwp_return gr.keep_return only_bag_growing[OF errorA_only_bag])

lemma analyzeItem_ends_well: "item_complete i \<Longrightarrow> at_depth 0 (analyzeItem i) (ends_well i)"
proof (cases i)
  case (FunctionDecl sp name nsp ps rt bsp body)
  assume "item_complete i"
  then have b: "stmt_complete (BlockStmt bsp body)" using FunctionDecl by simp
  have start: "at_depth 0 (resetFunctionState t) True" "at_depth 0 (traverse_list declareParameter ps) True" for t
    unfolding resetFunctionState_def declareParameter_def
    by (rule depth_sound, intro ss_rules declareLocal_quiet[THEN quiet_sound] def_quiet[THEN quiet_sound];
        simp add: sound_step_def)+
  have last: "growing (do {
      whenA v (errorA nsp m);
      popScope })" for v m
    by (intro gr.keep_bind quiet_growing scope_quiet qu_rules)
  show ?thesis unfolding FunctionDecl analyzeItem.simps analyzeFunction_def Let_def
    by (rule depth_weaken, rule depth_seq[OF start(1)], rule depth_seq[OF depth_quiet[OF scope_quiet(1)]],
        rule depth_seq[OF start(2)], rule depth_given[OF analyzeStmt_gives analyzeStmt_jumps[OF b]],
        rule depth_seq[OF depth_when_error], rule depth_quiet[OF scope_quiet(2)])
      (auto intro: ends_wellI last)
next
  case (ConstDecl sp name nsp t init)
  then have "at_depth 0 (analyzeItem i) True" by (intro depth_sound analyzeItem_sound) simp
  then show ?thesis by (simp add: ends_well_def ConstDecl)
qed

lemma analyzeUnit_ends_well:
  "list_all item_complete unit \<Longrightarrow> at_depth 0 (analyzeUnit unit) (list_all ends_well unit)"
  unfolding analyzeUnit_def
  by (rule depth_bind[OF depth_sound[OF prologue_sound(1)]], rule depth_bind[OF depth_sound[OF prologue_sound(2)]],
      rule depth_bind[OF depth_sound[OF prologue_sound(3)]], rule depth_bind[OF depth_traverse],
      rule analyzeItem_ends_well) (auto simp: list_all_iff intro: depth_return)

end
