(* ===== verification/Typing.thy ===== *)
theory Typing
  imports SemanticStmt
begin

text \<open>
  The static semantics of the language as a type system, independent of how the analyser computes
  it: what a file that passes the analyser is supposed to satisfy. \<open>typed \<Gamma> e t\<close>: expression \<open>e\<close>
  has type \<open>t\<close> in environment \<open>\<Gamma>\<close>; \<open>checks \<rho> \<Gamma> s \<Gamma>'\<close>: statement \<open>s\<close> is well typed in a function
  that returns \<open>\<rho>\<close> and leaves the environment \<open>\<Gamma>'\<close>.
\<close>

section \<open>Environments\<close>

record binding =
  b_type :: Type
  b_mutable :: bool
  b_const :: bool

record signature =
  sg_parameters :: "Type list"
  sg_return :: Type
  sg_builtin :: bool

record env =
  en_functions :: "string \<Rightarrow> signature option"
  en_globals :: "string \<Rightarrow> binding option"
  en_scopes :: "(string \<times> binding) list list"

fun innermost :: "(string \<times> binding) list list \<Rightarrow> string \<Rightarrow> binding option" where
  "innermost [] x = None"
| "innermost (sc # scs) x = (case map_of sc x of Some b \<Rightarrow> Some b | None \<Rightarrow> innermost scs x)"

definition visible :: "env \<Rightarrow> string \<Rightarrow> binding option" where
  "visible \<Gamma> x = (case innermost (en_scopes \<Gamma>) x of Some b \<Rightarrow> Some b | None \<Rightarrow> en_globals \<Gamma> x)"

definition fresh :: "env \<Rightarrow> string \<Rightarrow> bool" where
  "fresh \<Gamma> x \<longleftrightarrow> map_of (hd (en_scopes \<Gamma>)) x = None"

definition enter :: "env \<Rightarrow> env" where
  "enter \<Gamma> = \<Gamma>\<lparr>en_scopes := [] # en_scopes \<Gamma>\<rparr>"

definition leave :: "env \<Rightarrow> env" where
  "leave \<Gamma> = \<Gamma>\<lparr>en_scopes := tl (en_scopes \<Gamma>)\<rparr>"

definition local_binding :: "Type \<Rightarrow> bool \<Rightarrow> binding" where
  "local_binding t m = \<lparr>b_type = t, b_mutable = m, b_const = False\<rparr>"

definition bind_local :: "env \<Rightarrow> string \<Rightarrow> Type \<Rightarrow> bool \<Rightarrow> env" where
  "bind_local \<Gamma> x t m =
     \<Gamma>\<lparr>en_scopes := ((x, local_binding t m) # hd (en_scopes \<Gamma>)) # tl (en_scopes \<Gamma>)\<rparr>"

section \<open>Expressions\<close>

text \<open>A literal whose value is known fits its type. (The value is unknown from 2^64 on.)\<close>

definition literal_fits :: "string \<Rightarrow> Type \<Rightarrow> bool" where
  "literal_fits raw t \<longleftrightarrow>
     (case parseUnsignedInteger raw of None \<Rightarrow> True | Some v \<Rightarrow> v \<le> maxIntegerValue t)"

fun literal_value :: "Expr \<Rightarrow> 64 word option" where
  "literal_value (IntegerLiteralExpr sp raw) = parseUnsignedInteger raw"
| "literal_value _ = None"

definition literal_below :: "Expr \<Rightarrow> 64 word \<Rightarrow> bool" where
  "literal_below i n \<longleftrightarrow> (case literal_value i of None \<Rightarrow> True | Some v \<Rightarrow> v < n)"

definition is_print :: "string \<Rightarrow> signature \<Rightarrow> bool" where
  "is_print f s \<longleftrightarrow> sg_builtin s \<and> f \<in> {''print'', ''println''}"

fun is_string_literal :: "Expr \<Rightarrow> bool" where
  "is_string_literal (StringLiteralExpr sp raw) \<longleftrightarrow> True"
| "is_string_literal _ \<longleftrightarrow> False"

definition formattable :: "FormatHole \<Rightarrow> Type \<Rightarrow> bool" where
  "formattable h t \<longleftrightarrow> isFormatSubstitutionType t \<and> (hole_kind h = FloatFixed \<longrightarrow> Type_isFloat t) \<and>
     (hole_kind h \<in> {HexLower, HexUpper, Binary} \<longrightarrow> Type_isInteger t)"

definition scalar_place :: "Type \<Rightarrow> bool" where
  "scalar_place t \<longleftrightarrow> \<not> Type_isFixedArray t \<and> \<not> Type_isPointer t \<and> \<not> Type_isString t \<and> \<not> Type_isVoid t"

text \<open>The type of an array literal without context: the element type, one dimension more.\<close>

definition array_of :: "Type \<Rightarrow> nat \<Rightarrow> Type" where
  "array_of t n = (if Type_isFixedArray t then t\<lparr>t_arrayDimensions := of_nat n # t_arrayDimensions t\<rparr>
     else mk_type (t_kind t) [of_nat n] 0)"

inductive typed :: "env \<Rightarrow> Expr \<Rightarrow> Type \<Rightarrow> bool" for \<Gamma> where
  t_integer: "Type_isInteger t \<Longrightarrow> literal_fits raw t \<Longrightarrow> typed \<Gamma> (IntegerLiteralExpr sp raw) t"
| t_float: "Type_isFloat t \<Longrightarrow> parseFiniteFloatLiteral raw t \<Longrightarrow> typed \<Gamma> (FloatLiteralExpr sp raw) t"
| t_bool: "typed \<Gamma> (BoolLiteralExpr sp v) (builtinScalar Bool)"
| t_string: "typed \<Gamma> (StringLiteralExpr sp raw) (builtinScalar Str)"
| t_name: "visible \<Gamma> x = Some b \<Longrightarrow> typed \<Gamma> (NameExpr sp x) (b_type b)"
| t_call: "en_functions \<Gamma> f = Some s \<Longrightarrow> \<not> is_print f s \<Longrightarrow> list_all2 (typed \<Gamma>) es (sg_parameters s) \<Longrightarrow>
    typed \<Gamma> (CallExpr sp (NameExpr nsp f) es) (sg_return s)"
| t_print: "en_functions \<Gamma> f = Some s \<Longrightarrow> is_print f s \<Longrightarrow> typed \<Gamma> e (builtinScalar Str) \<Longrightarrow>
    \<not> is_string_literal e \<Longrightarrow> typed \<Gamma> (CallExpr sp (NameExpr nsp f) [e]) (builtinScalar Void)"
| t_format: "en_functions \<Gamma> f = Some s \<Longrightarrow> is_print f s \<Longrightarrow>
    decodeStringLiteralContent raw = Inr text' \<Longrightarrow> parseFormatString text' = Inr parts \<Longrightarrow>
    list_all2 (\<lambda>e h. \<exists>t. typed \<Gamma> e t \<and> formattable h t) es (fp_holes parts) \<Longrightarrow>
    typed \<Gamma> (CallExpr sp (NameExpr nsp f) (StringLiteralExpr lsp raw # es)) (builtinScalar Void)"
| t_address: "stripParensConst e = NameExpr nsp x \<Longrightarrow> visible \<Gamma> x = Some b \<Longrightarrow> b_mutable b \<Longrightarrow> \<not> b_const b \<Longrightarrow>
    scalar_place (b_type b) \<Longrightarrow> typed \<Gamma> (UnaryExpr sp Amp e) ((b_type b)\<lparr>t_pointerDepth := 1\<rparr>)"
| t_dereference: "typed \<Gamma> e t \<Longrightarrow> Type_isPointer t \<Longrightarrow> typed \<Gamma> (UnaryExpr sp Star e) (Type_pointeeType t)"
| t_not: "typed \<Gamma> e t \<Longrightarrow> canBeCondition t \<Longrightarrow> typed \<Gamma> (UnaryExpr sp Bang e) (builtinScalar Bool)"
| t_negate: "typed \<Gamma> e t \<Longrightarrow> isNumeric t \<Longrightarrow> typed \<Gamma> (UnaryExpr sp Minus e) t"
| t_complement: "typed \<Gamma> e t \<Longrightarrow> Type_isInteger t \<Longrightarrow> typed \<Gamma> (UnaryExpr sp Tilde e) t"
| t_logical: "op \<in> {AmpAmp, PipePipe} \<Longrightarrow> typed \<Gamma> l t \<Longrightarrow> canBeCondition t \<Longrightarrow> typed \<Gamma> r u \<Longrightarrow>
    canBeCondition u \<Longrightarrow> typed \<Gamma> (BinaryExpr sp l op r) (builtinScalar Bool)"
| t_arithmetic: "op \<in> arithmeticOps \<Longrightarrow> typed \<Gamma> l t \<Longrightarrow> typed \<Gamma> r t \<Longrightarrow> isNumeric t \<Longrightarrow>
    op = Percent \<longrightarrow> Type_isInteger t \<Longrightarrow> typed \<Gamma> (BinaryExpr sp l op r) t"
| t_bits: "op \<in> bitwiseOps \<union> shiftOps \<Longrightarrow> typed \<Gamma> l t \<Longrightarrow> typed \<Gamma> r t \<Longrightarrow> Type_isInteger t \<Longrightarrow>
    typed \<Gamma> (BinaryExpr sp l op r) t"
| t_compare: "op \<in> comparisonOps \<Longrightarrow> typed \<Gamma> l t \<Longrightarrow> typed \<Gamma> r t \<Longrightarrow> isNumeric t \<Longrightarrow>
    typed \<Gamma> (BinaryExpr sp l op r) (builtinScalar Bool)"
| t_equal: "op \<in> equalityOps \<Longrightarrow> typed \<Gamma> l t \<Longrightarrow> typed \<Gamma> r t \<Longrightarrow>
    typed \<Gamma> (BinaryExpr sp l op r) (builtinScalar Bool)"
| t_array: "Type_isFixedArray t \<Longrightarrow> of_nat (length es) = hd (t_arrayDimensions t) \<Longrightarrow>
    list_all (\<lambda>e. typed \<Gamma> e (Type_afterIndex t)) es \<Longrightarrow> typed \<Gamma> (ArrayLiteralExpr sp es) t"
| t_array_inferred: "es \<noteq> [] \<Longrightarrow> \<not> Type_isVoid t \<Longrightarrow> \<not> Type_isString t \<Longrightarrow>
    list_all (\<lambda>e. typed \<Gamma> e t) es \<Longrightarrow> typed \<Gamma> (ArrayLiteralExpr sp es) (array_of t (length es))"
| t_index: "typed \<Gamma> base t \<Longrightarrow> Type_isFixedArray t \<Longrightarrow> typed \<Gamma> i u \<Longrightarrow> Type_isInteger u \<Longrightarrow>
    literal_below i (hd (t_arrayDimensions t)) \<Longrightarrow> typed \<Gamma> (IndexExpr sp base i) (Type_afterIndex t)"
| t_paren: "typed \<Gamma> e t \<Longrightarrow> typed \<Gamma> (ParenExpr sp e) t"
monos list_all2_mono

text \<open>Expressions the analyser may call constant.\<close>

fun constant_expr :: "env \<Rightarrow> Expr \<Rightarrow> bool" where
  "constant_expr \<Gamma> (NameExpr sp x) \<longleftrightarrow> (\<exists>b. visible \<Gamma> x = Some b \<and> b_const b)"
| "constant_expr \<Gamma> (CallExpr sp callee es) \<longleftrightarrow> False"
| "constant_expr \<Gamma> (UnaryExpr sp op e) \<longleftrightarrow> op \<in> {Bang, Minus, Tilde} \<and> constant_expr \<Gamma> e"
| "constant_expr \<Gamma> (BinaryExpr sp l op r) \<longleftrightarrow>
     constant_expr \<Gamma> l \<and> (constant_expr \<Gamma> r \<or> op \<in> {AmpAmp, PipePipe})"
| "constant_expr \<Gamma> (ArrayLiteralExpr sp es) \<longleftrightarrow> list_all (constant_expr \<Gamma>) es"
| "constant_expr \<Gamma> (IndexExpr sp base i) \<longleftrightarrow> False"
| "constant_expr \<Gamma> (ParenExpr sp e) \<longleftrightarrow> constant_expr \<Gamma> e"
| "constant_expr \<Gamma> _ \<longleftrightarrow> True"

section \<open>Statements\<close>

text \<open>What a declared type must be.\<close>

definition declarable :: "Type \<Rightarrow> bool" where
  "declarable t \<longleftrightarrow>
     (Type_isFixedArray t \<longrightarrow> 0 \<notin> set (t_arrayDimensions t) \<and> t_kind t \<notin> {Void, Str, Invalid}) \<and>
     (Type_isPointer t \<longrightarrow>
        t_pointerDepth t = 1 \<and> t_arrayDimensions t = [] \<and> t_kind t \<notin> {Void, Str, Invalid})"

text \<open>The type of a \<open>let\<close>: the declared one, else the one of the initializer.\<close>

definition let_type_of :: "TypeSyntax \<Rightarrow> Type \<Rightarrow> Type" where
  "let_type_of syntax t = (if hasExplicitTypeSyntax syntax then typeFromSyntax syntax else t)"

inductive checks :: "Type \<Rightarrow> env \<Rightarrow> Stmt \<Rightarrow> env \<Rightarrow> bool"
  and checks_list :: "Type \<Rightarrow> env \<Rightarrow> Stmt list \<Rightarrow> env \<Rightarrow> bool"
  and checks_opt :: "Type \<Rightarrow> env \<Rightarrow> Stmt option \<Rightarrow> env \<Rightarrow> bool"
  for \<rho>
where
  c_block: "checks_list \<rho> (enter \<Gamma>) ss \<Gamma>' \<Longrightarrow> checks \<rho> \<Gamma> (BlockStmt sp ss) (leave \<Gamma>')"
| c_let_later: "hasExplicitTypeSyntax ty \<Longrightarrow> declarable (typeFromSyntax ty) \<Longrightarrow>
    \<not> Type_isPointer (typeFromSyntax ty) \<Longrightarrow> fresh \<Gamma> x \<Longrightarrow>
    checks \<rho> \<Gamma> (LetStmt sp True x nsp ty None) (bind_local \<Gamma> x (typeFromSyntax ty) True)"
| c_let: "typed \<Gamma> e t \<Longrightarrow> let_type_of ty t = t \<Longrightarrow> declarable t \<Longrightarrow> \<not> (Type_isPointer t \<and> m) \<Longrightarrow>
    \<not> hasExplicitTypeSyntax ty \<longrightarrow> \<not> Type_isVoid t \<Longrightarrow> fresh \<Gamma> x \<Longrightarrow>
    checks \<rho> \<Gamma> (LetStmt sp m x nsp ty (Some e)) (bind_local \<Gamma> x t m)"
| c_assign_name: "visible \<Gamma> x = Some b \<Longrightarrow> b_mutable b \<Longrightarrow> typed \<Gamma> v (b_type b) \<Longrightarrow>
    checks \<rho> \<Gamma> (AssignStmt sp (NameExpr nsp x) v) \<Gamma>"
| c_assign_element: "peelIndexedNameChain (IndexExpr isp base i) = Some chain \<Longrightarrow>
    visible \<Gamma> (chain_rootName chain) = Some b \<Longrightarrow> b_mutable b \<Longrightarrow>
    typed \<Gamma> (IndexExpr isp base i) t \<Longrightarrow> \<not> Type_isFixedArray t \<Longrightarrow> typed \<Gamma> v t \<Longrightarrow>
    checks \<rho> \<Gamma> (AssignStmt sp (IndexExpr isp base i) v) \<Gamma>"
| c_assign_pointee: "typed \<Gamma> p t \<Longrightarrow> Type_isPointer t \<Longrightarrow> typed \<Gamma> v (Type_pointeeType t) \<Longrightarrow>
    checks \<rho> \<Gamma> (AssignStmt sp (UnaryExpr usp Star p) v) \<Gamma>"
| c_return_void: "Type_isVoid \<rho> \<Longrightarrow> checks \<rho> \<Gamma> (ReturnStmt sp None) \<Gamma>"
| c_return: "\<not> Type_isVoid \<rho> \<Longrightarrow> typed \<Gamma> e \<rho> \<Longrightarrow> checks \<rho> \<Gamma> (ReturnStmt sp (Some e)) \<Gamma>"
| c_if: "typed \<Gamma> e t \<Longrightarrow> canBeCondition t \<Longrightarrow> checks \<rho> \<Gamma> s \<Gamma>1 \<Longrightarrow> checks_opt \<rho> \<Gamma>1 el \<Gamma>2 \<Longrightarrow>
    checks \<rho> \<Gamma> (IfStmt sp e (Some s) el) \<Gamma>2"
| c_while: "typed \<Gamma> e t \<Longrightarrow> canBeCondition t \<Longrightarrow> checks \<rho> \<Gamma> s \<Gamma>1 \<Longrightarrow> checks \<rho> \<Gamma> (WhileStmt sp e (Some s)) \<Gamma>1"
| c_for: "checks_opt \<rho> (enter \<Gamma>) init \<Gamma>1 \<Longrightarrow>
    (case c of None \<Rightarrow> True | Some e \<Rightarrow> \<exists>t. typed \<Gamma>1 e t \<and> canBeCondition t) \<Longrightarrow>
    checks \<rho> \<Gamma>1 s \<Gamma>2 \<Longrightarrow> checks_opt \<rho> \<Gamma>2 step \<Gamma>3 \<Longrightarrow>
    checks \<rho> \<Gamma> (ForStmt sp init c step (Some s)) (leave \<Gamma>3)"
| c_call: "typed \<Gamma> (CallExpr csp callee es) (builtinScalar Void) \<Longrightarrow>
    checks \<rho> \<Gamma> (CallStmt sp csp callee es) \<Gamma>"
| c_break: "checks \<rho> \<Gamma> (BreakStmt sp) \<Gamma>"
| c_continue: "checks \<rho> \<Gamma> (ContinueStmt sp) \<Gamma>"
| c_nil: "checks_list \<rho> \<Gamma> [] \<Gamma>"
| c_cons: "checks \<rho> \<Gamma> s \<Gamma>1 \<Longrightarrow> checks_list \<rho> \<Gamma>1 ss \<Gamma>2 \<Longrightarrow> checks_list \<rho> \<Gamma> (s # ss) \<Gamma>2"
| c_none: "checks_opt \<rho> \<Gamma> None \<Gamma>"
| c_some: "checks \<rho> \<Gamma> s \<Gamma>1 \<Longrightarrow> checks_opt \<rho> \<Gamma> (Some s) \<Gamma>1"

section \<open>Files\<close>

definition parameter_type :: "ParameterSyntax \<Rightarrow> Type" where
  "parameter_type p = typeFromSyntax (pr_type p)"

definition builtin_signature :: "string \<Rightarrow> signature option" where
  "builtin_signature f = map_option
     (\<lambda>s. \<lparr>sg_parameters = fs_parameterTypes s, sg_return = fs_returnType s, sg_builtin = True\<rparr>)
     (map_of builtinTable f)"

fun item_name :: "Item \<Rightarrow> string" where
  "item_name (FunctionDecl sp name nsp ps rt bsp body) = name"
| "item_name (ConstDecl sp name nsp t init) = name"

fun item_signature :: "Item \<Rightarrow> (string \<times> signature) option" where
  "item_signature (FunctionDecl sp name nsp ps rt bsp body) =
     Some (name, \<lparr>sg_parameters = map parameter_type ps, sg_return = typeFromSyntax rt, sg_builtin = False\<rparr>)"
| "item_signature (ConstDecl sp name nsp t init) = None"

fun item_constant :: "Item \<Rightarrow> (string \<times> binding) option" where
  "item_constant (FunctionDecl sp name nsp ps rt bsp body) = None"
| "item_constant (ConstDecl sp name nsp t init) =
     Some (name, \<lparr>b_type = typeFromSyntax t, b_mutable = False, b_const = True\<rparr>)"

text \<open>The names every body of a file can use, whatever the order of the declarations.\<close>

definition unit_env :: "TranslationUnit \<Rightarrow> env" where
  "unit_env unit =
     \<lparr>en_functions = (\<lambda>f. case builtin_signature f of Some s \<Rightarrow> Some s
        | None \<Rightarrow> map_of (List.map_filter item_signature unit) f),
      en_globals = map_of (List.map_filter item_constant unit), en_scopes = []\<rparr>"

definition simple_declarable :: "Type \<Rightarrow> bool" where
  "simple_declarable t \<longleftrightarrow> declarable t \<and> \<not> Type_isPointer t"

definition parameters_env :: "env \<Rightarrow> ParameterSyntax list \<Rightarrow> env" where
  "parameters_env \<Gamma> ps = foldl (\<lambda>\<Gamma> p. bind_local \<Gamma> (pr_name p) (parameter_type p) False) (enter \<Gamma>) ps"

definition main_signature :: "Type list \<Rightarrow> Type \<Rightarrow> bool" where
  "main_signature ps r \<longleftrightarrow> ps = [] \<and> (Type_isVoid r \<or> \<not> Type_isFixedArray r \<and> t_kind r = I32)"

fun item_typed :: "env \<Rightarrow> Item \<Rightarrow> bool" where
  "item_typed \<Gamma> (FunctionDecl sp name nsp ps rt bsp body) \<longleftrightarrow>
     builtin_signature name = None \<and> list_all (\<lambda>p. simple_declarable (parameter_type p)) ps \<and>
     simple_declarable (typeFromSyntax rt) \<and> distinct (map pr_name ps) \<and>
     (name = ''main'' \<longrightarrow> main_signature (map parameter_type ps) (typeFromSyntax rt)) \<and>
     (\<exists>\<Gamma>'. checks (typeFromSyntax rt) (parameters_env \<Gamma> ps) (BlockStmt bsp body) \<Gamma>')"
| "item_typed \<Gamma> (ConstDecl sp name nsp t init) \<longleftrightarrow>
     simple_declarable (typeFromSyntax t) \<and> typed \<Gamma> init (typeFromSyntax t) \<and> constant_expr \<Gamma> init"

definition unit_typed :: "TranslationUnit \<Rightarrow> bool" where
  "unit_typed unit \<longleftrightarrow> distinct (map item_name unit) \<and> list_all (item_typed (unit_env unit)) unit"

end
