(* ===== verification/TypingProps.thy ===== *)
theory TypingProps
  imports Typing SemanticFacts ParserProps
begin

text \<open>
  The analyser is sound for the type system: when the run over a tree of the parser's shape reports
  no error, every expression has the type the analyser found for it.
\<close>

section \<open>Known types\<close>

definition known :: "Type \<Rightarrow> bool" where
  "known t \<longleftrightarrow> t_kind t \<noteq> Invalid"

lemma known_simps [simp]:
  "known (t\<lparr>t_pointerDepth := n\<rparr>) = known t" "known (t\<lparr>t_arrayDimensions := ds\<rparr>) = known t"
  "known (Type_afterIndex t) = known t" "known (Type_pointeeType t) = known t"
  "known (mk_type k ds n) \<longleftrightarrow> k \<noteq> Invalid" "known (builtinScalar k) \<longleftrightarrow> k \<noteq> Invalid"
  "\<not> known invalidType"
  by (simp_all add: known_def Type_afterIndex_def Type_pointeeType_def mk_type_def builtinScalar_def invalidType_def)

lemma known_integer: "Type_isInteger t \<Longrightarrow> known t"
  by (auto simp: Type_isInteger_def known_def split: if_splits)

lemma known_float: "Type_isFloat t \<Longrightarrow> known t"
  by (auto simp: Type_isFloat_def known_def split: if_splits)

lemma known_valid: "known t \<Longrightarrow> \<not> Type_isInvalid t"
  by (auto simp: known_def Type_isInvalid_def)

lemma sameType_known: "known t \<Longrightarrow> known u \<Longrightarrow> sameType t u \<longleftrightarrow> t = u"
  by (auto simp: sameType_def known_valid)

lemma canBeCondition_known: "canBeCondition t \<Longrightarrow> \<not> Type_isInvalid t \<Longrightarrow> known t"
  by (auto simp: canBeCondition_def Type_isBool_def known_def known_integer[unfolded known_def])

lemma known_array_of: "known t \<Longrightarrow> known (array_of t n)"
  by (simp add: array_of_def) (simp add: known_def)

section \<open>The environment of a state\<close>

definition binding_of :: "ValueSymbol \<Rightarrow> binding" where
  "binding_of s = \<lparr>b_type = vs_type s, b_mutable = vs_isMutable s, b_const = vs_isConst s\<rparr>"

definition signature_of :: "FunctionSymbol \<Rightarrow> signature" where
  "signature_of s =
     \<lparr>sg_parameters = fs_parameterTypes s, sg_return = fs_returnType s, sg_builtin = fs_isBuiltin s\<rparr>"

definition env_of :: "analyzer \<Rightarrow> env" where
  "env_of st =
     \<lparr>en_functions = (\<lambda>f. map_option signature_of (Mapping.lookup (an_functions st) f)),
      en_globals = (\<lambda>x. map_option binding_of (Mapping.lookup (an_globals st) x)),
      en_scopes = map (map (\<lambda>(x, s). (x, binding_of s))) (an_scopes st)\<rparr>"

lemma env_of_bag [simp]: "env_of (st\<lparr>an_bag := b\<rparr>) = env_of st"
  by (simp add: env_of_def)

lemma env_of_only_bag: "only_bag st st' \<Longrightarrow> env_of st' = env_of st"
  by (metis env_of_bag only_bag_def)

lemma innermost_scopes: "innermost (map (map (\<lambda>(x, s). (x, binding_of s))) scs) x = map_option binding_of (lookupScopes scs x)"
  by (induction scs) (auto simp: map_of_map split: option.split)

lemma visible_env_of:
  "visible (env_of st) x = map_option binding_of
     (case lookupScopes (an_scopes st) x of Some s \<Rightarrow> Some s | None \<Rightarrow> Mapping.lookup (an_globals st) x)"
  by (auto simp: visible_def env_of_def innermost_scopes split: option.split)

definition env_known :: "env \<Rightarrow> bool" where
  "env_known \<Gamma> \<longleftrightarrow> list_all (list_all (\<lambda>(x, b). known (b_type b))) (en_scopes \<Gamma>) \<and>
     (\<forall>x b. en_globals \<Gamma> x = Some b \<longrightarrow> known (b_type b)) \<and>
     (\<forall>f s. en_functions \<Gamma> f = Some s \<longrightarrow> known (sg_return s) \<and> list_all known (sg_parameters s))"

lemma innermost_known:
  "list_all (list_all (\<lambda>(x, b). known (b_type b))) scs \<Longrightarrow> innermost scs x = Some b \<Longrightarrow> known (b_type b)"
  by (induction scs) (auto simp: list_all_iff split: option.splits dest!: map_of_SomeD)

lemma known_visible: "env_known \<Gamma> \<Longrightarrow> visible \<Gamma> x = Some b \<Longrightarrow> known (b_type b)"
  using innermost_known[of "en_scopes \<Gamma>" x b]
  by (auto simp: env_known_def visible_def split: option.splits)

lemma known_function:
  "env_known \<Gamma> \<Longrightarrow> en_functions \<Gamma> f = Some s \<Longrightarrow> known (sg_return s) \<and> list_all known (sg_parameters s)"
  by (auto simp: env_known_def)

section \<open>Runs in an environment\<close>

text \<open>\<open>tp \<Gamma> m P\<close>: run in a state with environment \<open>\<Gamma>\<close>, \<open>m\<close> only adds diagnostics, and its result
  satisfies \<open>P\<close> unless an error is reported.\<close>

definition tp :: "env \<Rightarrow> 'a analysis \<Rightarrow> ('a \<Rightarrow> bool) \<Rightarrow> bool" where
  "tp \<Gamma> m P \<longleftrightarrow> (\<forall>st. env_of st = \<Gamma> \<longrightarrow> cwp m (\<lambda>x st'. env_of st' = \<Gamma> \<and> P x) st)"

lemma tp_mono: "tp \<Gamma> m P \<Longrightarrow> (\<And>x. P x \<Longrightarrow> Q x) \<Longrightarrow> tp \<Gamma> m Q"
  unfolding tp_def by (auto elim!: cwp_mono)

lemma tp_return: "P x \<Longrightarrow> tp \<Gamma> (returnA x) P"
  by (simp add: tp_def cwp_return)

lemma tp_bind:
  assumes "tp \<Gamma> m P" "\<And>x. growing (f x)" "\<And>x. P x \<Longrightarrow> tp \<Gamma> (f x) Q"
  shows "tp \<Gamma> (State_Monad.bind m f) Q"
  using assms unfolding tp_def by (auto intro!: cwp_bind elim!: cwp_mono)

lemma tp_error: "tp \<Gamma> (errorA sp m) P"
  by (simp add: tp_def cwp_error)

lemma tp_error_then: "(\<And>x. growing (f x)) \<Longrightarrow> tp \<Gamma> (State_Monad.bind (errorA sp m) f) P"
  by (rule tp_bind[OF tp_error[where P = "\<lambda>_. False"]]) auto

lemma tp_only: "state_io_rel only_bag m \<Longrightarrow> tp \<Gamma> m (\<lambda>_. True)"
  by (auto simp: tp_def intro!: cwp_only)

lemma tp_gets: "tp \<Gamma> (getsA f) (\<lambda>x. \<exists>st. env_of st = \<Gamma> \<and> x = f st)"
  by (auto simp: tp_def intro!: cwp_gets)

text \<open>A check: the run goes on only when the condition for the error is false.\<close>

lemma tp_check:
  assumes "\<And>x. growing (f x)" "\<not> b \<Longrightarrow> tp \<Gamma> (f ()) Q"
  shows "tp \<Gamma> (State_Monad.bind (whenA b (errorA sp m)) f) Q"
proof (rule tp_bind[where P = "\<lambda>_. \<not> b"])
  show "tp \<Gamma> (whenA b (errorA sp m)) (\<lambda>_. \<not> b)" by (simp add: tp_def whenA_def cwp_error cwp_return)
qed (use assms in auto)

lemma tp_check_last: "(\<not> b \<Longrightarrow> P ()) \<Longrightarrow> tp \<Gamma> (whenA b (errorA sp m)) P"
  by (simp add: tp_def whenA_def cwp_error cwp_return)

lemma tp_when: "(b \<Longrightarrow> tp \<Gamma> m P) \<Longrightarrow> (\<not> b \<Longrightarrow> P ()) \<Longrightarrow> tp \<Gamma> (whenA b m) P"
  by (simp add: whenA_def tp_return)

lemma tp_if: "(b \<Longrightarrow> tp \<Gamma> m P) \<Longrightarrow> (\<not> b \<Longrightarrow> tp \<Gamma> n P) \<Longrightarrow> tp \<Gamma> (if b then m else n) P"
  by simp

lemma tp_traverse:
  assumes "\<And>x. x \<in> set xs \<Longrightarrow> tp \<Gamma> (f x) (P x)" "\<And>x. growing (f x)"
  shows "tp \<Gamma> (traverse_list f xs) (list_all2 P xs)"
  using assms(1)
proof (induction xs)
  case (Cons x xs)
  show ?case unfolding traverse_list.simps
    by (rule tp_bind[OF Cons.prems], simp, intro gr.keep_rules assms(2), rule tp_bind[OF Cons.IH])
      (auto intro!: gr.keep_rules assms(2) tp_return Cons.prems)
qed (simp add: tp_return)

lemma tp_lookup:
  "tp \<Gamma> (lookupValue x) (\<lambda>s. map_option binding_of s = visible \<Gamma> x)"
  unfolding lookupValue_def by (rule tp_mono[OF tp_gets]) (auto simp: visible_env_of)

lemma tp_functions:
  "tp \<Gamma> (getsA an_functions) (\<lambda>fs. \<forall>f. map_option signature_of (Mapping.lookup fs f) = en_functions \<Gamma> f)"
  by (rule tp_mono[OF tp_gets]) (auto simp: env_of_def)

lemmas ex_growing = gr.keep_rules only_bag_growing[OF errorA_only_bag] only_bag_growing[OF noteA_only_bag]
  only_bag_growing[OF analyzeExpr_only_bag] only_bag_growing[OF requireReadableLocal_only_bag]
  only_bag_growing[OF leaf_only_bag(1)] only_bag_growing[OF leaf_only_bag(2)]
  only_bag_growing[OF leaf_only_bag(3)] only_bag_growing[OF leaf_only_bag(4)]
  only_bag_growing[OF analyzeRest_only_bag[OF rec_only_bag_analyzeExpr]]
  getsA_rel[of bag_grows, OF bag_grows_refl] whenA_rel[of bag_grows, OF bag_grows_refl]


section \<open>Expressions\<close>

definition ok_info :: "env \<Rightarrow> Expr \<Rightarrow> ExprInfo \<Rightarrow> bool" where
  "ok_info \<Gamma> e info \<longleftrightarrow> known (ei_type info) \<and> typed \<Gamma> e (ei_type info) \<and>
     (ei_isConstant info \<longrightarrow> constant_expr \<Gamma> e) \<and>
     (\<forall>v. literal_value e = Some v \<longrightarrow> ei_isConstant info \<and> ei_integerValue info = Some v)"

definition known_opt :: "Type option \<Rightarrow> bool" where
  "known_opt ex \<longleftrightarrow> (\<forall>t. ex = Some t \<longrightarrow> known t)"

lemma known_opt_simps [simp]: "known_opt None" "known_opt (Some t) \<longleftrightarrow> known t"
  by (simp_all add: known_opt_def)

text \<open>What is known of the analysis of a smaller expression.\<close>

definition analyzed :: "env \<Rightarrow> Expr \<Rightarrow> bool" where
  "analyzed \<Gamma> e \<longleftrightarrow> (\<forall>ex c. known_opt ex \<longrightarrow> tp \<Gamma> (analyzeExpr e ex c) (ok_info \<Gamma> e))"

lemma tp_rec: "analyzed \<Gamma> e \<Longrightarrow> known_opt ex \<Longrightarrow> tp \<Gamma> (analyzeExpr e ex c) (ok_info \<Gamma> e)"
  by (simp add: analyzed_def)

lemma ok_infoI: "known t \<Longrightarrow> typed \<Gamma> e t \<Longrightarrow> (c \<Longrightarrow> constant_expr \<Gamma> e) \<Longrightarrow> literal_value e = None \<Longrightarrow>
    ok_info \<Gamma> e (mk_info t c v)"
  by (simp add: ok_info_def mk_info_def)

lemma mk_info_simps [simp]:
  "ei_type (mk_info t c v) = t" "ei_isConstant (mk_info t c v) = c" "ei_integerValue (mk_info t c v) = v"
  by (simp_all add: mk_info_def)

lemma integer_typed:
  "known_opt ex \<Longrightarrow> tp \<Gamma> (analyzeIntegerLiteral sp raw ex) (ok_info \<Gamma> (IntegerLiteralExpr sp raw))"
  unfolding analyzeIntegerLiteral_def checkIntegerLiteralRange_def Let_def
  by (rule tp_if, rule tp_error_then, intro ex_growing)
    (auto simp: ok_info_def known_integer literal_fits_def not_less
      intro!: tp_bind[where P = "\<lambda>_. literal_fits raw (case ex of None \<Rightarrow> builtinScalar I32 | Some t \<Rightarrow> t)"]
        tp_return tp_check_last typed.intros ex_growing split: option.split)

lemma float_typed:
  "known_opt ex \<Longrightarrow> tp \<Gamma> (analyzeFloatLiteral sp raw ex) (ok_info \<Gamma> (FloatLiteralExpr sp raw))"
  unfolding analyzeFloatLiteral_def Let_def
  by (rule tp_if, rule tp_error_then, intro ex_growing, rule tp_check, intro ex_growing)
    (auto simp: known_float intro!: tp_return ok_infoI typed.intros)

lemma unresolved_typed: "tp \<Gamma> (unresolvedName sp name) P"
  unfolding unresolvedName_def isFunctionName_def
  by (rule tp_bind[OF tp_gets], intro ex_growing, rule tp_bind[where P = "\<lambda>_. False"])
    (auto intro: tp_error ex_growing)

lemma name_typed:
  assumes "env_known \<Gamma>"
  shows "tp \<Gamma> (analyzeNameExpr sp x ctx) (ok_info \<Gamma> (NameExpr sp x))"
  unfolding analyzeNameExpr_def
proof (rule tp_bind[OF tp_lookup])
  fix s assume v: "map_option binding_of s = visible \<Gamma> x"
  have "ok_info \<Gamma> (NameExpr sp x) (mk_info (vs_type b) (vs_isConst b) None)" if "s = Some b" for b
  proof -
    have b: "visible \<Gamma> x = Some (binding_of b)" using v that by simp
    show ?thesis
      using typed.t_name[OF b] b known_visible[OF assms b] by (auto simp: binding_of_def intro!: ok_infoI)
  qed
  then show "tp \<Gamma> (case s of None \<Rightarrow> unresolvedName sp x | Some s \<Rightarrow> do {
         whenA (\<not> (ctx = Ctx_IndexBase \<and> Type_isFixedArray (vs_type s)))
           (requireReadableLocal s sp x);
         returnA (mk_info (vs_type s) (vs_isConst s) None) }) (ok_info \<Gamma> (NameExpr sp x))"
    by (cases s) (auto intro!: unresolved_typed tp_bind[OF tp_only] tp_return ex_growing
        whenA_rel[of only_bag, OF only_bag_refl] requireReadableLocal_only_bag)
qed (intro ex_growing)


subsection \<open>Calls\<close>

lemma rest_typed: "tp \<Gamma> (analyzeRest analyzeExpr es) (\<lambda>_. True)"
  by (rule tp_only[OF analyzeRest_only_bag[OF rec_only_bag_analyzeExpr]])

lemma rest_then: "tp \<Gamma> (f ()) P \<Longrightarrow> (\<And>x. growing (f x)) \<Longrightarrow>
    tp \<Gamma> (State_Monad.bind (analyzeRest analyzeExpr es) f) P"
  by (rule tp_bind[OF rest_typed]) auto

lemma formatArgument_typed:
  assumes "analyzed \<Gamma> e"
  shows "tp \<Gamma> (analyzeFormatArgument analyzeExpr (e, h)) (\<lambda>_. \<exists>t. typed \<Gamma> e t \<and> formattable h t)"
  unfolding analyzeFormatArgument_def prod.case Let_def
  by (rule tp_bind[OF tp_rec[OF assms]], simp, intro ex_growing, (rule tp_check, intro ex_growing)+,
      rule tp_check_last) (auto simp: ok_info_def formattable_def known_valid)

lemma formatArgument_growing: "growing (analyzeFormatArgument analyzeExpr eh)"
  unfolding analyzeFormatArgument_def by (intro ex_growing)

lemma zip_all2: "list_all2 (\<lambda>(x, y) _. P x y) (zip xs ys) zs \<Longrightarrow> length xs = length ys \<Longrightarrow> list_all2 P xs ys"
  by (auto simp: list_all2_conv_all_nth)

lemma format_single:
  "\<not> is_string_literal e \<Longrightarrow> analyzeFormatPrintCall rec sp (e # rest) name =
     (if rest \<noteq> [] then do {
        errorA (expr_span e) (''`'' @ name @ ''` with multiple arguments requires a string '' @
          ''literal format as the first argument'');
        analyzeRest rec rest;
        returnA (mk_info (builtinScalar Void) False None) }
      else do {
        arg \<leftarrow> rec e (Some (builtinScalar Str)) Ctx_Normal;
        whenA (\<not> sameType (ei_type arg) (builtinScalar Str))
          (errorA (expr_span e) (''`'' @ name @
             ''` expects either a format string literal or '' @ ''one `str` argument''));
        returnA (mk_info (builtinScalar Void) False None) })"
  by (cases e; simp only: analyzeFormatPrintCall_def Let_def list.case Expr.case is_string_literal.simps not_True_eq_False)

lemma print_typed:
  assumes s: "en_functions \<Gamma> f = Some s" "is_print f s" and e: "analyzed \<Gamma> e" "\<not> is_string_literal e"
  shows "tp \<Gamma> (analyzeFormatPrintCall analyzeExpr sp (e # rest) name)
    (ok_info \<Gamma> (CallExpr sp (NameExpr nsp f) (e # rest)))"
  unfolding format_single[OF e(2)]
proof (rule tp_if)
  assume "\<not> rest \<noteq> []"
  then show "tp \<Gamma> (do {
      arg \<leftarrow> analyzeExpr e (Some (builtinScalar Str)) Ctx_Normal;
      whenA (\<not> sameType (ei_type arg) (builtinScalar Str)) (errorA (expr_span e) m);
      returnA (mk_info (builtinScalar Void) False None) })
    (ok_info \<Gamma> (CallExpr sp (NameExpr nsp f) (e # rest)))" for m
    using t_print[OF s _ e(2)]
    by (intro tp_bind[OF tp_rec[OF e(1)]] tp_check ex_growing tp_return)
      (auto simp: ok_info_def sameType_known)
qed (intro tp_error_then ex_growing)

lemma format_typed:
  assumes s: "en_functions \<Gamma> f = Some s" "is_print f s" and es: "\<And>e. e \<in> set es \<Longrightarrow> analyzed \<Gamma> e"
  shows "tp \<Gamma> (analyzeFormatPrintCall analyzeExpr sp (StringLiteralExpr lsp raw # es) name)
    (ok_info \<Gamma> (CallExpr sp (NameExpr nsp f) (StringLiteralExpr lsp raw # es)))"
  (is "tp \<Gamma> _ ?ok")
proof -
  have parts: "tp \<Gamma> (do {
      traverse_list (analyzeFormatArgument analyzeExpr) (zip (take n es) (take n (fp_holes parts)));
      analyzeRest analyzeExpr rest;
      returnA (mk_info (builtinScalar Void) False None) }) ?ok"
    if d: "decodeStringLiteralContent raw = Inr d" "parseFormatString d = Inr parts"
      and n: "length es = length (fp_holes parts)" "n = length es" for d parts n rest
  proof (rule tp_bind[OF tp_traverse])
    fix x assume "x \<in> set (zip (take n es) (take n (fp_holes parts)))"
    moreover obtain e h where [simp]: "x = (e, h)" by (cases x)
    ultimately have "analyzed \<Gamma> e" using es n by (auto dest: set_zip_leftD)
    then show "tp \<Gamma> (analyzeFormatArgument analyzeExpr x) (\<lambda>_. \<exists>t. typed \<Gamma> (fst x) t \<and> formattable (snd x) t)"
      by (simp add: formatArgument_typed)
  next
    fix ys :: "unit list"
    assume "list_all2 (\<lambda>x _. \<exists>t. typed \<Gamma> (fst x) t \<and> formattable (snd x) t)
      (zip (take n es) (take n (fp_holes parts))) ys"
    then have "list_all2 (\<lambda>e h. \<exists>t. typed \<Gamma> e t \<and> formattable h t) es (fp_holes parts)"
      using n by (auto simp: list_all2_conv_all_nth)
    from t_format[OF s d this]
    show "tp \<Gamma> (do { analyzeRest analyzeExpr rest; returnA (mk_info (builtinScalar Void) False None) }) ?ok"
      by (intro rest_then tp_return ex_growing ok_infoI) simp_all
  qed (intro ex_growing formatArgument_growing)+
  show ?thesis
  proof (cases "decodeStringLiteralContent raw")
    case (Inl m)
    show ?thesis unfolding analyzeFormatPrintCall_def list.case Expr.case Let_def Inl sum.case
      by (intro tp_error_then ex_growing)
  next
    case (Inr d)
    show ?thesis
    proof (cases "parseFormatString d")
      case (Inl m)
      show ?thesis unfolding analyzeFormatPrintCall_def list.case Expr.case Let_def Inr sum.case Inl
        by (intro tp_error_then ex_growing)
    next
      case p: (Inr parts')
      show ?thesis unfolding analyzeFormatPrintCall_def list.case Expr.case Let_def Inr sum.case p
        by (intro tp_check parts[OF Inr p] ex_growing formatArgument_growing) simp_all
    qed
  qed
qed


lemma argument_growing: "growing (analyzeArgument analyzeExpr name iat)"
  unfolding analyzeArgument_def by (intro ex_growing)

lemma argument_typed:
  assumes "analyzed \<Gamma> e" "known t"
  shows "tp \<Gamma> (analyzeArgument analyzeExpr name (i, e, t)) (\<lambda>_. typed \<Gamma> e t)"
  unfolding analyzeArgument_def prod.case
  by (rule tp_bind[OF tp_rec[OF assms(1)]], simp add: assms(2), intro ex_growing, rule tp_check_last)
    (use assms(2) in \<open>auto simp: ok_info_def sameType_known\<close>)

lemma call_typed:
  assumes \<Gamma>: "env_known \<Gamma>" and es: "\<And>e. e \<in> set es \<Longrightarrow> analyzed \<Gamma> e"
  shows "tp \<Gamma> (analyzeCallExpr analyzeExpr sp callee es) (ok_info \<Gamma> (CallExpr sp callee es))"
proof (cases callee)
  case (NameExpr nsp f)
  let ?ok = "ok_info \<Gamma> (CallExpr sp (NameExpr nsp f) es)"
  have print: "tp \<Gamma> (analyzeFormatPrintCall analyzeExpr sp es f) ?ok"
    if s: "en_functions \<Gamma> f = Some s" "is_print f s" for s
  proof (cases es)
    case Nil
    then show ?thesis by (simp add: analyzeFormatPrintCall_def) (intro tp_error_then ex_growing)
  next
    case (Cons e rest)
    then show ?thesis using es format_typed[OF s, of rest] print_typed[OF s, of e]
      by (cases e) auto
  qed
  have call: "tp \<Gamma> (do {
      traverse_list (analyzeArgument analyzeExpr f) (zip [0..<n] (zip (take n es) (take n ps)));
      analyzeRest analyzeExpr rest;
      returnA (mk_info (sg_return s) False None) }) ?ok"
    if s: "en_functions \<Gamma> f = Some s" "\<not> is_print f s" and n: "length es = length ps" "n = length es"
      and ps: "ps = sg_parameters s" for s ps n rest
  proof (rule tp_bind[OF tp_traverse])
    fix x assume x: "x \<in> set (zip [0..<n] (zip (take n es) (take n ps)))"
    obtain i e t where [simp]: "x = (i, e, t)" by (cases x)
    have "(e, t) \<in> set (zip (take n es) (take n ps))" using x by (auto dest: set_zip_rightD)
    then have "e \<in> set es" "t \<in> set ps" by (auto dest: set_zip_leftD set_zip_rightD in_set_takeD)
    then have "analyzed \<Gamma> e" "known t" using es known_function[OF \<Gamma> s(1)] ps by (auto simp: list_all_iff)
    then show "tp \<Gamma> (analyzeArgument analyzeExpr f x) (\<lambda>_. typed \<Gamma> (fst (snd x)) (snd (snd x)))"
      by (simp add: argument_typed)
  next
    fix ys :: "unit list"
    assume "list_all2 (\<lambda>x _. typed \<Gamma> (fst (snd x)) (snd (snd x)))
      (zip [0..<n] (zip (take n es) (take n ps))) ys"
    then have "list_all2 (typed \<Gamma>) es (sg_parameters s)" using n ps by (auto simp: list_all2_conv_all_nth)
    from t_call[OF s this] known_function[OF \<Gamma> s(1)]
    show "tp \<Gamma> (do { analyzeRest analyzeExpr rest; returnA (mk_info (sg_return s) False None) }) ?ok"
      by (intro rest_then tp_return ex_growing ok_infoI) simp_all
  qed (intro ex_growing argument_growing)+
  show ?thesis unfolding analyzeCallExpr_def NameExpr Expr.case
  proof (rule tp_bind[OF tp_functions])
    fix fs assume fs: "\<forall>f. map_option signature_of (Mapping.lookup fs f) = en_functions \<Gamma> f"
    show "tp \<Gamma> (case Mapping.lookup fs f of
            None \<Rightarrow> do {
              errorA nsp (''undefined function `'' @ f @ ''`'');
              analyzeRest analyzeExpr es;
              returnA unknownInfo }
          | Some symbol \<Rightarrow>
              if fs_isBuiltin symbol \<and> (f = ''print'' \<or> f = ''println'') then
                analyzeFormatPrintCall analyzeExpr sp es f
              else do {
                let parameters = fs_parameterTypes symbol;
                whenA (length es \<noteq> length parameters)
                  (errorA sp (''function `'' @ f @ ''` expects '' @
                     to_string (length parameters) @ '' argument(s), got '' @
                     to_string (length es)));
                let count = min (length es) (length parameters);
                traverse_list (analyzeArgument analyzeExpr f)
                  (zip [0..<count] (zip (take count es) (take count parameters)));
                analyzeRest analyzeExpr (drop count es);
                returnA (mk_info (fs_returnType symbol) False None) }) ?ok"
    proof (cases "Mapping.lookup fs f")
      case None
      then show ?thesis by (simp only: option.case) (intro tp_error_then ex_growing)
    next
      case (Some s)
      have s: "en_functions \<Gamma> f = Some (signature_of s)" using fs Some by (metis option.map(2))
      show ?thesis
        unfolding Some option.case Let_def
      proof (rule tp_if)
        assume "fs_isBuiltin s \<and> (f = ''print'' \<or> f = ''println'')"
        then show "tp \<Gamma> (analyzeFormatPrintCall analyzeExpr sp es f) ?ok"
          by (intro print[OF s]) (auto simp: is_print_def signature_of_def)
      next
        assume "\<not> (fs_isBuiltin s \<and> (f = ''print'' \<or> f = ''println''))"
        then have np: "\<not> is_print f (signature_of s)" by (auto simp: is_print_def signature_of_def)
        have r: "fs_returnType s = sg_return (signature_of s)" by (simp add: signature_of_def)
        show "tp \<Gamma> (whenA (length es \<noteq> length (fs_parameterTypes s)) (errorA sp m) \<bind>
            (\<lambda>_. do {
              traverse_list (analyzeArgument analyzeExpr f)
                (zip [0..<min (length es) (length (fs_parameterTypes s))]
                  (zip (take (min (length es) (length (fs_parameterTypes s))) es)
                    (take (min (length es) (length (fs_parameterTypes s))) (fs_parameterTypes s))));
              analyzeRest analyzeExpr (drop (min (length es) (length (fs_parameterTypes s))) es);
              returnA (mk_info (fs_returnType s) False None) })) ?ok" for m
          unfolding r by (rule tp_check, intro ex_growing argument_growing, rule call[OF s np])
            (simp_all add: signature_of_def)
      qed
    qed
  qed (intro ex_growing argument_growing only_bag_growing[OF analyzeFormatPrintCall_only_bag[OF rec_only_bag_analyzeExpr]])
qed (simp_all only: analyzeCallExpr_def Expr.case; intro tp_error_then ex_growing)+


subsection \<open>Operators\<close>

lemma address_typed:
  assumes \<Gamma>: "env_known \<Gamma>"
  shows "tp \<Gamma> (analyzeAddressOf analyzeExpr e) (ok_info \<Gamma> (UnaryExpr sp Amp e))"
proof (cases "stripParensConst e")
  case (NameExpr nsp x)
  show ?thesis unfolding analyzeAddressOf_def NameExpr Expr.case
  proof (rule tp_bind[OF tp_lookup])
    fix s assume v: "map_option binding_of s = visible \<Gamma> x"
    show "tp \<Gamma> (case s of
            None \<Rightarrow> do {
              errorA nsp (''undefined local `'' @ x @ ''`'');
              returnA unknownInfo }
          | Some s \<Rightarrow> do {
              whenA (vs_isConst s \<or> \<not> vs_isMutable s)
                (errorA nsp ''`&` currently requires a mutable local binding'');
              requireReadableLocal s nsp x;
              if Type_isFixedArray (vs_type s) \<or> Type_isPointer (vs_type s) \<or>
                 Type_isString (vs_type s) \<or> Type_isVoid (vs_type s) then do {
                errorA nsp ''`&` currently supports scalar integer, float, or bool locals'';
                returnA unknownInfo }
              else returnA (mk_info ((vs_type s)\<lparr>t_pointerDepth := 1\<rparr>) False None) })
        (ok_info \<Gamma> (UnaryExpr sp Amp e))"
    proof (cases s)
      case None
      then show ?thesis by (simp only: option.case) (intro tp_error_then ex_growing)
    next
      case (Some b)
      then have b: "visible \<Gamma> x = Some (binding_of b)" using v by simp
      have "typed \<Gamma> (UnaryExpr sp Amp e) ((vs_type b)\<lparr>t_pointerDepth := 1\<rparr>)"
        if "\<not> vs_isConst b" "vs_isMutable b" "scalar_place (vs_type b)"
        using t_address[OF NameExpr b] that by (simp add: binding_of_def)
      then show ?thesis using known_visible[OF \<Gamma> b] unfolding Some option.case
        by (intro tp_check ex_growing tp_bind[OF tp_only] requireReadableLocal_only_bag tp_if tp_error_then
            tp_return ok_infoI) (auto simp: binding_of_def scalar_place_def)
    qed
  qed (intro ex_growing)
qed (simp_all only: analyzeAddressOf_def Expr.case; intro tp_error_then ex_growing)+

lemma unary_typed:
  assumes \<Gamma>: "env_known \<Gamma>" and e: "analyzed \<Gamma> e" and ex: "known_opt ex"
    and op: "op \<in> {Minus, Bang, Tilde, Amp, Star}"
  shows "tp \<Gamma> (analyzeUnaryExpr analyzeExpr op e ex) (ok_info \<Gamma> (UnaryExpr sp op e))"
proof -
  consider "op = Amp" | "op = Star" | "op = Bang" | "op = Minus" | "op = Tilde" using op by auto
  then show ?thesis
  proof cases
    case 1
    then show ?thesis by (simp add: analyzeUnaryExpr_def address_typed[OF \<Gamma>])
  next
    case 2
    then show ?thesis
      by (simp only: analyzeUnaryExpr_def simp_thms if_True if_False TokenKind.distinct)
        (intro tp_bind[OF tp_rec[OF e ex]] ex_growing tp_if tp_error_then tp_return ok_infoI;
          auto simp: ok_info_def intro: t_dereference)
  next
    case 3
    then show ?thesis
      by (simp only: analyzeUnaryExpr_def simp_thms if_True if_False TokenKind.distinct)
        (intro tp_bind[OF tp_rec[OF e]] ex_growing tp_check tp_return ok_infoI;
          auto simp: ok_info_def intro: t_not)
  next
    case 4
    then show ?thesis
      by (simp only: analyzeUnaryExpr_def simp_thms if_True if_False TokenKind.distinct)
        (intro tp_bind[OF tp_rec[OF e ex]] ex_growing tp_check tp_return ok_infoI;
          auto simp: ok_info_def isNumeric_def intro: t_negate)
  next
    case 5
    then show ?thesis
      by (simp only: analyzeUnaryExpr_def simp_thms if_True if_False TokenKind.distinct)
        (intro tp_bind[OF tp_rec[OF e ex]] ex_growing tp_check tp_return ok_infoI;
          auto simp: ok_info_def intro: t_complement)
  qed
qed

lemma logical_typed:
  assumes l: "analyzed \<Gamma> l" and r: "analyzed \<Gamma> r" and op: "op \<in> {AmpAmp, PipePipe}"
  shows "tp \<Gamma> (analyzeLogical analyzeExpr l op r) (ok_info \<Gamma> (BinaryExpr sp l op r))"
proof -
  have c: "foldLogical op (truthOf i) t = Some b \<Longrightarrow> ei_isConstant i" for i t b
    by (auto simp: foldLogical_def truthOf_def split: if_splits option.splits bool.splits)
  show ?thesis unfolding analyzeLogical_def
  proof (rule tp_bind[OF tp_rec[OF l]], simp, intro ex_growing, rule tp_check, intro ex_growing,
      rule tp_bind[OF tp_rec[OF r]], simp, intro ex_growing, rule tp_check, intro ex_growing)
    fix i j assume i: "ok_info \<Gamma> l i" "\<not> \<not> canBeCondition (ei_type i)"
      and j: "ok_info \<Gamma> r j" "\<not> \<not> canBeCondition (ei_type j)"
    have "typed \<Gamma> (BinaryExpr sp l op r) (builtinScalar Bool)"
      using t_logical[OF op] i j by (auto simp: ok_info_def)
    then show "tp \<Gamma> (case foldLogical op (truthOf i) (truthOf j) of
       None \<Rightarrow> returnA (mk_info (builtinScalar Bool) False None)
     | Some b \<Rightarrow> returnA (mk_info (builtinScalar Bool) True (Some (if b then 1 else 0))))
       (ok_info \<Gamma> (BinaryExpr sp l op r))"
      using i c[of i "truthOf j"] op
      by (auto simp: ok_info_def split: option.split intro!: tp_return)
  qed
qed

lemma arithmetic_result:
  "tp \<Gamma> (analyzeConstantArithmetic sp op rsp i j)
     (\<lambda>x. ei_type x = ei_type i \<and> (ei_isConstant x \<longrightarrow> ei_isConstant i \<and> ei_isConstant j))"
proof -
  have f: "tp \<Gamma> (case x of Fold_value v \<Rightarrow> returnA (mk_info t c (Some v)) | Fold_none \<Rightarrow> returnA (mk_info t c None)
     | Fold_overflow \<Rightarrow> errorA sp m \<bind> (\<lambda>_. returnA y) | Fold_error m \<Rightarrow> errorA rsp m \<bind> (\<lambda>_. returnA y))
     (\<lambda>x. ei_type x = t \<and> (ei_isConstant x \<longrightarrow> c))"
    for x t c m y by (cases x; simp only: folded.case) (intro tp_error_then ex_growing tp_return; simp)+
  show ?thesis unfolding analyzeConstantArithmetic_def Let_def
    by (auto split: bool.split option.split intro!: tp_return tp_mono[OF f])
qed

lemma operands_typed:
  assumes "known t" "known u"
  shows "tp \<Gamma> (checkOperandTypes sp l op r t u)
    (\<lambda>_. t = u \<and> (op \<in> arithmeticOps \<union> comparisonOps \<longrightarrow> isNumeric t \<and> (op = Percent \<longrightarrow> \<not> Type_isFloat t)) \<and>
       (op \<in> bitwiseOps \<union> shiftOps \<longrightarrow> Type_isInteger t))"
proof -
  let ?numeric = "op \<in> arithmeticOps \<union> comparisonOps \<longrightarrow> isNumeric t \<and> (op = Percent \<longrightarrow> \<not> Type_isFloat t)"
  let ?integer = "op \<in> bitwiseOps \<union> shiftOps \<longrightarrow> Type_isInteger t"
  show ?thesis unfolding checkOperandTypes_def
    by (rule tp_bind[where P = "\<lambda>_. ?numeric"], rule tp_when, rule tp_check, intro ex_growing, rule tp_check,
        intro ex_growing, rule tp_check_last, simp, simp, intro ex_growing,
        rule tp_bind[where P = "\<lambda>_. ?integer"], rule tp_when, rule tp_check, intro ex_growing, rule tp_check_last,
        simp, simp, intro ex_growing, rule tp_check_last)
      (use assms in \<open>simp add: sameType_known\<close>)
qed

lemma binary_typed:
  assumes l: "analyzed \<Gamma> l" and r: "analyzed \<Gamma> r" and ex: "known_opt ex" and op: "binaryPrecedence op \<ge> 1"
  shows "tp \<Gamma> (analyzeBinaryExpr analyzeExpr sp l op r ex) (ok_info \<Gamma> (BinaryExpr sp l op r))"
proof (cases "op \<in> {AmpAmp, PipePipe}")
  case True
  then show ?thesis using logical_typed[OF l r True] by (auto simp: analyzeBinaryExpr_def)
next
  case False
  have g: "growing (analyzeConstantArithmetic sp op rsp i j)" "growing (checkOperandTypes sp l op r t u)" for rsp i j t u
    using only_bag_growing[OF analyzeConstantArithmetic_only_bag]
    by (simp, simp only: checkOperandTypes_def, intro ex_growing)
  have eq: "analyzeBinaryExpr analyzeExpr sp l op r ex = do {
        i \<leftarrow> analyzeExpr l ex Ctx_Normal;
        j \<leftarrow> analyzeExpr r (Some (ei_type i)) Ctx_Normal;
        checkOperandTypes sp l op r (ei_type i) (ei_type j);
        if op \<in> arithmeticOps \<or> op \<in> bitwiseOps \<or> op \<in> shiftOps then
          analyzeConstantArithmetic sp op (expr_span r) i j
        else if op \<in> comparisonOps \<or> op \<in> equalityOps then
          returnA (mk_info (builtinScalar Bool) (ei_isConstant i \<and> ei_isConstant j) None)
        else returnA unknownInfo }"
    using False by (auto simp: analyzeBinaryExpr_def)
  have fin: "tp \<Gamma> (if op \<in> arithmeticOps \<or> op \<in> bitwiseOps \<or> op \<in> shiftOps then
          analyzeConstantArithmetic sp op (expr_span r) i j
        else if op \<in> comparisonOps \<or> op \<in> equalityOps then
          returnA (mk_info (builtinScalar Bool) (ei_isConstant i \<and> ei_isConstant j) None)
        else returnA unknownInfo) (ok_info \<Gamma> (BinaryExpr sp l op r))"
    if i: "ok_info \<Gamma> l i" and j: "ok_info \<Gamma> r j" and ops: "ei_type i = ei_type j \<and>
       (op \<in> arithmeticOps \<union> comparisonOps \<longrightarrow>
          isNumeric (ei_type i) \<and> (op = Percent \<longrightarrow> \<not> Type_isFloat (ei_type i))) \<and>
       (op \<in> bitwiseOps \<union> shiftOps \<longrightarrow> Type_isInteger (ei_type i))" for i j
  proof -
    have t: "typed \<Gamma> l (ei_type i)" "typed \<Gamma> r (ei_type i)" using i j ops by (simp_all add: ok_info_def)
    have n: "op \<in> arithmeticOps \<union> comparisonOps \<Longrightarrow> isNumeric (ei_type i)"
      "op \<in> bitwiseOps \<union> shiftOps \<Longrightarrow> Type_isInteger (ei_type i)" using ops by blast+
    have p: "op = Percent \<longrightarrow> Type_isInteger (ei_type i)" 
    proof
      assume "op = Percent"
      then show "Type_isInteger (ei_type i)" using ops by (simp add: isNumeric_def) metis
    qed
    have k: "known (ei_type i)" "ei_isConstant i \<Longrightarrow> constant_expr \<Gamma> l" "ei_isConstant j \<Longrightarrow> constant_expr \<Gamma> r"
      using i j by (simp_all add: ok_info_def)
    show ?thesis
    proof (rule tp_if)
      assume o: "op \<in> arithmeticOps \<or> op \<in> bitwiseOps \<or> op \<in> shiftOps"
      have "typed \<Gamma> (BinaryExpr sp l op r) (ei_type i)"
      proof (cases "op \<in> arithmeticOps")
        case True
        show ?thesis by (rule t_arithmetic[OF True t n(1) p]) (use True in blast)
      next
        case False
        then have "op \<in> bitwiseOps \<union> shiftOps" using o by blast
        then show ?thesis using t_bits t n(2) by blast
      qed
      then show "tp \<Gamma> (analyzeConstantArithmetic sp op (expr_span r) i j) (ok_info \<Gamma> (BinaryExpr sp l op r))"
        by (intro tp_mono[OF arithmetic_result]) (use k in \<open>simp add: ok_info_def\<close>)
    next
      assume o: "\<not> (op \<in> arithmeticOps \<or> op \<in> bitwiseOps \<or> op \<in> shiftOps)"
      have c: "op \<in> comparisonOps \<or> op \<in> equalityOps" using o op False by (cases op) simp_all
      then have "typed \<Gamma> (BinaryExpr sp l op r) (builtinScalar Bool)"
        using t_compare[of op \<Gamma> l "ei_type i" r sp] t_equal[of op \<Gamma> l "ei_type i" r sp] t n(1) by blast
      then show "tp \<Gamma> (if op \<in> comparisonOps \<or> op \<in> equalityOps then
            returnA (mk_info (builtinScalar Bool) (ei_isConstant i \<and> ei_isConstant j) None)
          else returnA unknownInfo) (ok_info \<Gamma> (BinaryExpr sp l op r))"
        unfolding if_P[OF c] by (intro tp_return ok_infoI) (use k in simp_all)
    qed
  qed
  show ?thesis unfolding eq
    by (rule tp_bind[OF tp_rec[OF l ex]], intro ex_growing g, rule tp_bind[OF tp_rec[OF r]],
        simp add: ok_info_def, intro ex_growing g, rule tp_bind[OF operands_typed], simp add: ok_info_def,
        simp add: ok_info_def, intro ex_growing g, rule fin)
qed


subsection \<open>Arrays\<close>

lemma tp_elements:
  assumes "\<And>e. e \<in> set es \<Longrightarrow> tp \<Gamma> (f e) (\<lambda>c. typed \<Gamma> e t \<and> (c \<longrightarrow> constant_expr \<Gamma> e))" "\<And>e. growing (f e)"
  shows "tp \<Gamma> (traverse_list f es)
    (\<lambda>cs. list_all (\<lambda>e. typed \<Gamma> e t) es \<and> (list_all (\<lambda>c. c) cs \<longrightarrow> list_all (constant_expr \<Gamma>) es))"
  by (rule tp_mono[OF tp_traverse[where P = "\<lambda>e c. typed \<Gamma> e t \<and> (c \<longrightarrow> constant_expr \<Gamma> e)"]])
    (use assms in \<open>auto simp: list_all2_conv_all_nth list_all_length\<close>)

lemma element_typed:
  assumes "analyzed \<Gamma> e" "known t"
  shows "tp \<Gamma> (analyzeElement analyzeExpr t e) (\<lambda>c. typed \<Gamma> e t \<and> (c \<longrightarrow> constant_expr \<Gamma> e))"
    "tp \<Gamma> (analyzeLaterElement analyzeExpr t e) (\<lambda>c. typed \<Gamma> e t \<and> (c \<longrightarrow> constant_expr \<Gamma> e))"
  unfolding analyzeElement_def analyzeLaterElement_def
  by (rule tp_bind[OF tp_rec[OF assms(1)]], simp add: assms(2), intro ex_growing, rule tp_check, intro ex_growing,
      rule tp_return, use assms(2) in \<open>auto simp: ok_info_def sameType_known\<close>)+

lemma element_growing: "growing (analyzeElement analyzeExpr t e)" "growing (analyzeLaterElement analyzeExpr t e)"
  unfolding analyzeElement_def analyzeLaterElement_def by (intro ex_growing)+

lemma array_typed:
  assumes es: "\<And>e. e \<in> set es \<Longrightarrow> analyzed \<Gamma> e" and ex: "known_opt ex"
  shows "tp \<Gamma> (analyzeArrayLiteral analyzeExpr sp es ex) (ok_info \<Gamma> (ArrayLiteralExpr sp es))"
proof (cases "\<exists>t. ex = Some t \<and> Type_isFixedArray t")
  case True
  then obtain t where t: "ex = Some t" "Type_isFixedArray t" "known t" using ex by auto
  have e: "e \<in> set es \<Longrightarrow> tp \<Gamma> (analyzeElement analyzeExpr (Type_afterIndex t) e)
      (\<lambda>c. typed \<Gamma> e (Type_afterIndex t) \<and> (c \<longrightarrow> constant_expr \<Gamma> e))" for e
    by (rule element_typed(1)) (use es t in auto)
  show ?thesis
    unfolding analyzeArrayLiteral_def t(1) option.case if_P[OF t(2)]
    by (rule tp_check, intro ex_growing element_growing, rule tp_bind[OF tp_elements[OF e]], assumption,
        intro ex_growing element_growing, intro ex_growing element_growing)
      (use t in \<open>auto intro!: tp_return ok_infoI t_array\<close>)
next
  case False
  then have n: "(case ex of Some arr \<Rightarrow> if Type_isFixedArray arr then Some arr else None | None \<Rightarrow> None) = None"
    by (auto split: option.split)
  show ?thesis
  proof (cases es)
    case Nil
    then show ?thesis unfolding analyzeArrayLiteral_def n option.case list.case Nil by (intro tp_error_then ex_growing)
  next
    case (Cons e rest)
    have e: "analyzed \<Gamma> e" "\<And>e'. e' \<in> set rest \<Longrightarrow> analyzed \<Gamma> e'" using es Cons by simp_all
    show ?thesis unfolding analyzeArrayLiteral_def n option.case list.case Cons
    proof (rule tp_bind[OF tp_rec[OF e(1)]], simp, intro ex_growing element_growing)
      fix f assume f: "ok_info \<Gamma> e f"
      have later: "e' \<in> set rest \<Longrightarrow> tp \<Gamma> (analyzeLaterElement analyzeExpr (ei_type f) e')
          (\<lambda>c. typed \<Gamma> e' (ei_type f) \<and> (c \<longrightarrow> constant_expr \<Gamma> e'))" for e'
        by (rule element_typed(2)) (use e(2) f in \<open>auto simp: ok_info_def\<close>)
      have t: "typed \<Gamma> (ArrayLiteralExpr sp (e # rest)) (array_of (ei_type f) (length (e # rest)))"
        if "list_all (\<lambda>e. typed \<Gamma> e (ei_type f)) rest" "\<not> Type_isVoid (ei_type f)" "\<not> Type_isString (ei_type f)"
        by (rule t_array_inferred) (use f that in \<open>auto simp: ok_info_def\<close>)
      show "tp \<Gamma> (do {
          constants \<leftarrow> traverse_list (analyzeLaterElement analyzeExpr (ei_type f)) rest;
          let allConst = (ei_isConstant f \<and> list_all (\<lambda>b. b) constants);
          let t = ei_type f;
          if Type_isVoid t \<or> Type_isString t \<or> Type_isInvalid t then do {
            errorA sp ''cannot infer array type from these element types'';
            returnA unknownInfo }
          else if Type_isFixedArray t then
            returnA (mk_info (t\<lparr>t_arrayDimensions := of_nat (length (e # rest)) # t_arrayDimensions t\<rparr>) allConst None)
          else returnA (mk_info (mk_type (t_kind t) [of_nat (length (e # rest))] 0) allConst None) })
        (ok_info \<Gamma> (ArrayLiteralExpr sp (e # rest)))"
      proof (rule tp_bind[OF tp_elements[OF later]], assumption, intro ex_growing element_growing)
        fix cs assume cs: "list_all (\<lambda>e. typed \<Gamma> e (ei_type f)) rest \<and>
          (list_all (\<lambda>c. c) cs \<longrightarrow> list_all (constant_expr \<Gamma>) rest)"
        have "ok_info \<Gamma> (ArrayLiteralExpr sp (e # rest))
            (mk_info (array_of (ei_type f) (length (e # rest))) (ei_isConstant f \<and> list_all (\<lambda>b. b) cs) None)"
          if "\<not> Type_isVoid (ei_type f)" "\<not> Type_isString (ei_type f)"
          by (rule ok_infoI[OF _ t]) (use cs f that in \<open>auto simp: ok_info_def known_array_of\<close>)
        then show "tp \<Gamma> (let allConst = (ei_isConstant f \<and> list_all (\<lambda>b. b) cs); t = ei_type f in
          if Type_isVoid t \<or> Type_isString t \<or> Type_isInvalid t then do {
            errorA sp ''cannot infer array type from these element types'';
            returnA unknownInfo }
          else if Type_isFixedArray t then
            returnA (mk_info (t\<lparr>t_arrayDimensions := of_nat (length (e # rest)) # t_arrayDimensions t\<rparr>) allConst None)
          else returnA (mk_info (mk_type (t_kind t) [of_nat (length (e # rest))] 0) allConst None))
          (ok_info \<Gamma> (ArrayLiteralExpr sp (e # rest)))"
          unfolding Let_def array_of_def
          by (intro tp_if tp_error_then ex_growing tp_return) auto
      qed (intro ex_growing element_growing)
    qed
  qed
qed


text \<open>A chain of indices applied to a type.\<close>

fun index_chain :: "env \<Rightarrow> Type \<Rightarrow> Expr list \<Rightarrow> Type \<Rightarrow> bool" where
  "index_chain \<Gamma> t0 [] t \<longleftrightarrow> t = t0"
| "index_chain \<Gamma> t0 (i # is) t \<longleftrightarrow> Type_isFixedArray t0 \<and> (\<exists>u. typed \<Gamma> i u \<and> Type_isInteger u) \<and>
     literal_below i (hd (t_arrayDimensions t0)) \<and> index_chain \<Gamma> (Type_afterIndex t0) is t"

lemma index_chain_append:
  "index_chain \<Gamma> t0 (is @ js) t \<longleftrightarrow> (\<exists>t1. index_chain \<Gamma> t0 is t1 \<and> index_chain \<Gamma> t1 js t)"
  by (induction "is" arbitrary: t0) auto

lemma strip_typed: "typed \<Gamma> (stripParensConst e) t \<Longrightarrow> typed \<Gamma> e t"
  by (induction e rule: stripParensConst.induct) (auto intro: t_paren)

lemma peelLoop_prefix: "peelLoop e acc = (r, js) \<Longrightarrow> \<exists>ks. js = acc @ ks"
proof (induction e acc arbitrary: js rule: peelLoop.induct)
  case (1 e acc)
  then show ?case
    by (cases "stripParensConst e") (force simp: peelLoop.simps[of e])+
qed

lemma peel_typed:
  assumes "peelLoop e acc = (NameExpr nsp x, acc @ js)" "visible \<Gamma> x = Some b" "index_chain \<Gamma> (b_type b) (rev js) t"
  shows "typed \<Gamma> e t"
  using assms
proof (induction e acc arbitrary: js t rule: peelLoop.induct)
  case (1 e acc)
  show ?case
  proof (cases "\<exists>sp base i. stripParensConst e = IndexExpr sp base i")
    case True
    then obtain sp base i where e: "stripParensConst e = IndexExpr sp base i" by blast
    then have p: "peelLoop base (acc @ [i]) = (NameExpr nsp x, acc @ js)" using 1(2) by (simp add: peelLoop.simps[of e])
    obtain ks where ks: "js = i # ks" using peelLoop_prefix[OF p] by auto
    obtain t1 where t1: "index_chain \<Gamma> (b_type b) (rev ks) t1" "index_chain \<Gamma> t1 [i] t"
      using 1(4) ks by (auto simp: index_chain_append)
    have "typed \<Gamma> base t1" by (rule 1(1)[OF e _ 1(3) t1(1)]) (use p ks in simp)
    then have "typed \<Gamma> (stripParensConst e) t" using t1(2) e t_index by auto
    then show ?thesis by (rule strip_typed)
  next
    case False
    then have "peelLoop e acc = (stripParensConst e, acc)"
      by (subst peelLoop.simps) (auto split: Expr.split)
    then have "stripParensConst e = NameExpr nsp x" "js = []" using 1(2) by auto
    then have "typed \<Gamma> (stripParensConst e) t" using t_name[OF 1(3)] 1(4) by auto
    then show ?thesis by (rule strip_typed)
  qed
qed

lemma strip_grouped: "grouped e \<Longrightarrow> grouped (stripParensConst e)"
  by (induction e rule: stripParensConst.induct) auto

lemma peel_grouped:
  "peelLoop e acc = (r, js) \<Longrightarrow> grouped e \<Longrightarrow> list_all grouped acc \<Longrightarrow> list_all grouped js"
proof (induction e acc arbitrary: js rule: peelLoop.induct)
  case (1 e acc)
  show ?case
  proof (cases "\<exists>sp base i. stripParensConst e = IndexExpr sp base i")
    case True
    then obtain sp base i where e: "stripParensConst e = IndexExpr sp base i" by blast
    have "grouped (IndexExpr sp base i)" using strip_grouped[OF 1(3)] e by simp
    then show ?thesis using 1(1)[OF e, of js] 1(2,4) e by (simp add: peelLoop.simps[of e])
  next
    case False
    then have "peelLoop e acc = (stripParensConst e, acc)"
      by (subst peelLoop.simps) (auto split: Expr.split)
    then show ?thesis using 1 by simp
  qed
qed


lemma index_growing: "growing (analyzeIndex analyzeExpr w t i)" "growing (analyzeIndices analyzeExpr w t is)"
proof -
  show i: "growing (analyzeIndex analyzeExpr w t i)" for t i
    unfolding analyzeIndex_def by (intro ex_growing)
  show "growing (analyzeIndices analyzeExpr w t is)"
    by (induction "is" arbitrary: t) (simp_all only: analyzeIndices.simps; intro ex_growing i; assumption?)+
qed

lemma literal_below_const:
  assumes "ok_info \<Gamma> i info"
    "\<not> (ei_isConstant info \<and> (case ei_integerValue info of None \<Rightarrow> False | Some v \<Rightarrow> P \<or> n \<le> v))"
  shows "literal_below i n"
  using assms by (auto simp: ok_info_def literal_below_def split: option.split)

lemma index_typed:
  assumes "analyzed \<Gamma> i"
  shows "tp \<Gamma> (analyzeIndex analyzeExpr w t i)
    (\<lambda>_. (\<exists>u. typed \<Gamma> i u \<and> Type_isInteger u) \<and> literal_below i (hd (t_arrayDimensions t)))"
  unfolding analyzeIndex_def
  by (rule tp_bind[OF tp_rec[OF assms]], simp, intro ex_growing, rule tp_check, intro ex_growing, rule tp_check,
      intro ex_growing, rule tp_return)
    (use literal_below_const in \<open>force simp: ok_info_def\<close>)

lemma array_after: "Type_isFixedArray t \<Longrightarrow> Suc n < length (t_arrayDimensions t) \<Longrightarrow> Type_isFixedArray (Type_afterIndex t)"
  by (cases "t_arrayDimensions t") (auto simp: Type_isFixedArray_def Type_afterIndex_def)

lemma length_after: "length (t_arrayDimensions (Type_afterIndex t)) = length (t_arrayDimensions t) - 1"
  by (simp add: Type_afterIndex_def)

lemma indices_typed:
  assumes "\<And>i. i \<in> set is \<Longrightarrow> analyzed \<Gamma> i" "is \<noteq> [] \<Longrightarrow> Type_isFixedArray t" "length is \<le> length (t_arrayDimensions t)"
  shows "tp \<Gamma> (analyzeIndices analyzeExpr w t is) (\<lambda>(infos, u). index_chain \<Gamma> t is u)"
  using assms
proof (induction "is" arbitrary: t)
  case (Cons i "is")
  have "is \<noteq> [] \<Longrightarrow> Type_isFixedArray (Type_afterIndex t)"
    by (rule array_after[where n = "length is - 1"]) (use Cons.prems in \<open>auto simp: Suc_le_eq neq_Nil_conv\<close>)
  note ih = Cons.IH[OF _ this]
  show ?case unfolding analyzeIndices.simps
    by (rule tp_bind[OF index_typed], use Cons.prems(1) in simp, intro ex_growing index_growing,
        rule tp_bind[OF ih]) 
      (use Cons.prems in \<open>auto simp: length_after intro!: tp_return ex_growing\<close>)
qed (simp add: tp_return)

lemma known_chain: "index_chain \<Gamma> t is u \<Longrightarrow> known t \<Longrightarrow> known u"
  by (induction "is" arbitrary: t) auto

lemma peel_chain:
  "peelIndexedNameChain e = Some chain \<Longrightarrow>
    peelLoop e [] = (NameExpr (chain_rootSpan chain) (chain_rootName chain), rev (chain_indices chain))"
  by (auto simp: peelIndexedNameChain_def split: prod.splits Expr.splits)

lemma chain_typed:
  "peelIndexedNameChain e = Some chain \<Longrightarrow> visible \<Gamma> (chain_rootName chain) = Some b \<Longrightarrow>
    index_chain \<Gamma> (b_type b) (chain_indices chain) t \<Longrightarrow> typed \<Gamma> e t"
  using peel_typed[of e "[]" "chain_rootSpan chain" "chain_rootName chain" "rev (chain_indices chain)" \<Gamma> b t]
  by (simp add: peel_chain)

lemma name_chain_typed:
  assumes \<Gamma>: "env_known \<Gamma>" and p: "peelIndexedNameChain (IndexExpr isp base i) = Some chain"
    and es: "\<And>e. e \<in> set (chain_indices chain) \<Longrightarrow> analyzed \<Gamma> e"
  shows "tp \<Gamma> (analyzeNameChain analyzeExpr sp chain) (ok_info \<Gamma> (IndexExpr isp base i))"
  unfolding analyzeNameChain_def
proof (rule tp_bind[OF tp_lookup])
  have g: "growing (whenA b (if c then requireSubArraySliceReadable s k infos sp x
      else requireIndexedScalarReadable s t infos sp x))" for b c s k infos sp x t
    by (intro ex_growing only_bag_growing[OF requireSubArraySliceReadable_only_bag]
      only_bag_growing[OF requireIndexedScalarReadable_only_bag])
  have o: "tp \<Gamma> (whenA b (if c then requireSubArraySliceReadable s k infos sp x
      else requireIndexedScalarReadable s t infos sp x)) (\<lambda>_. True)" for b c s k infos sp x t
    by (rule tp_only, intro ob_rules requireSubArraySliceReadable_only_bag requireIndexedScalarReadable_only_bag)
  fix s assume v: "map_option binding_of s = visible \<Gamma> (chain_rootName chain)"
  show "tp \<Gamma> (case s of
       None \<Rightarrow> unresolvedName (chain_rootSpan chain) (chain_rootName chain)
     | Some s \<Rightarrow>
         if \<not> Type_isFixedArray (vs_type s) then do {
           errorA (chain_rootSpan chain) ''indexed access requires an array value'';
           returnA unknownInfo }
         else if length (chain_indices chain) > length (t_arrayDimensions (vs_type s)) then do {
           errorA sp (''too many index operations for type `'' @ typeName (vs_type s) @ ''`'');
           returnA unknownInfo }
         else do {
           (idxInfos, walk) \<leftarrow> analyzeIndices analyzeExpr (vs_type s) (vs_type s) (chain_indices chain);
           whenA (\<not> vs_isConst s \<and> Type_isFixedArray (vs_type s))
             (if Type_isFixedArray walk then
                requireSubArraySliceReadable s (length (chain_indices chain)) idxInfos sp
                  (chain_rootName chain)
              else requireIndexedScalarReadable s (vs_type s) idxInfos sp (chain_rootName chain));
           returnA (mk_info walk False None) }) (ok_info \<Gamma> (IndexExpr isp base i))"
  proof (cases s)
    case (Some b)
    then have b: "visible \<Gamma> (chain_rootName chain) = Some (binding_of b)" using v by simp
    have t: "ok_info \<Gamma> (IndexExpr isp base i) (mk_info u False None)"
      if "index_chain \<Gamma> (vs_type b) (chain_indices chain) u" for u
      using that chain_typed[OF p b] known_chain[OF that] known_visible[OF \<Gamma> b]
      by (intro ok_infoI) (auto simp: binding_of_def)
    show ?thesis unfolding Some option.case
      by (rule tp_if, intro tp_error_then ex_growing, rule tp_if, intro tp_error_then ex_growing,
          rule tp_bind[OF indices_typed[OF es]])
        (auto intro!: tp_bind[OF o] tp_return t ex_growing g)
  qed (simp add: unresolved_typed)
qed (intro ex_growing index_growing only_bag_growing[OF requireSubArraySliceReadable_only_bag]
      only_bag_growing[OF requireIndexedScalarReadable_only_bag] only_bag_growing[OF leaf_only_bag(3)])

lemma indexed_value_typed:
  assumes "analyzed \<Gamma> base" "analyzed \<Gamma> i"
  shows "tp \<Gamma> (analyzeIndexedValue analyzeExpr base i) (ok_info \<Gamma> (IndexExpr sp base i))"
  unfolding analyzeIndexedValue_def
  by (rule tp_bind[OF tp_rec[OF assms(1)]], simp, intro ex_growing, rule tp_bind[OF tp_rec[OF assms(2)]], simp,
      intro ex_growing, rule tp_if, intro tp_error_then ex_growing, rule tp_check, intro ex_growing, rule tp_check,
      intro ex_growing, intro tp_return ok_infoI t_index)
    (auto simp: ok_info_def literal_below_def split: option.splits)


subsection \<open>All expressions\<close>

lemma chain_grouped:
  assumes "peelIndexedNameChain e = Some chain" "grouped e"
  shows "list_all grouped (chain_indices chain)"
  using peel_grouped[OF peel_chain[OF assms(1)] assms(2)] by simp

lemma analyzeExpr_typed:
  assumes \<Gamma>: "env_known \<Gamma>"
  shows "grouped e \<Longrightarrow> analyzed \<Gamma> e"
proof (induction e rule: measure_induct_rule[where f = size])
  case (less e)
  have sub: "analyzed \<Gamma> x" if "size x < size e" "grouped x" for x using less that by blast
  have subs: "analyzed \<Gamma> x" if "x \<in> set es" "list_all grouped es" "size_list size es < size e" for x es
    using sub[of x] that size_elem[OF that(1)] by (auto simp: list_all_iff)
  have "tp \<Gamma> (exprStep analyzeExpr e ex c) (ok_info \<Gamma> e)" if ex: "known_opt ex" for ex c
  proof (cases e)
    case (IntegerLiteralExpr sp raw)
    then show ?thesis using integer_typed[OF ex] by (simp add: exprStep_def)
  next
    case (FloatLiteralExpr sp raw)
    then show ?thesis using float_typed[OF ex] by (simp add: exprStep_def)
  next
    case (BoolLiteralExpr sp v)
    then show ?thesis by (auto simp: exprStep_def intro!: tp_return ok_infoI t_bool)
  next
    case (StringLiteralExpr sp raw)
    then show ?thesis by (auto simp: exprStep_def intro!: tp_return ok_infoI t_string)
  next
    case (NameExpr sp x)
    then show ?thesis using name_typed[OF \<Gamma>] by (simp add: exprStep_def)
  next
    case (CallExpr sp callee es)
    have "analyzed \<Gamma> x" if "x \<in> set es" for x using subs[OF that] less.prems CallExpr by simp
    then show ?thesis using call_typed[OF \<Gamma>] CallExpr by (simp add: exprStep_def)
  next
    case (UnaryExpr sp op x)
    then show ?thesis using unary_typed[OF \<Gamma> sub ex] less.prems by (simp add: exprStep_def)
  next
    case (BinaryExpr sp l op r)
    then show ?thesis using binary_typed[OF sub sub ex] less.prems by (simp add: exprStep_def)
  next
    case (ParenExpr sp x)
    then have "tp \<Gamma> (analyzeExpr x ex c) (ok_info \<Gamma> x)" using sub less.prems ex by (auto intro!: tp_rec)
    then show ?thesis unfolding exprStep_def ParenExpr Expr.case
      by (rule tp_mono) (auto simp: ok_info_def intro: t_paren)
  next
    case (ArrayLiteralExpr sp es)
    have "analyzed \<Gamma> x" if "x \<in> set es" for x using subs[OF that] less.prems ArrayLiteralExpr by simp
    then show ?thesis using array_typed[OF _ ex] ArrayLiteralExpr by (simp add: exprStep_def)
  next
    case (IndexExpr sp base i)
    have v: "tp \<Gamma> (analyzeIndexedValue analyzeExpr base i) (ok_info \<Gamma> (IndexExpr sp base i))"
      by (rule indexed_value_typed; rule sub) (use IndexExpr less.prems in auto)
    have n: "tp \<Gamma> (analyzeNameChain analyzeExpr sp chain) (ok_info \<Gamma> (IndexExpr sp base i))"
      if p: "peelIndexedNameChain (IndexExpr sp base i) = Some chain" for chain
    proof (rule name_chain_typed[OF \<Gamma> p])
      fix x assume x: "x \<in> set (chain_indices chain)"
      have "size x < size e" using peel_size[OF p x] by (simp only: IndexExpr)
      moreover have "grouped x"
        using chain_grouped[OF p] less.prems x by (simp only: IndexExpr list_all_iff)
      ultimately show "analyzed \<Gamma> x" by (rule sub)
    qed
    show ?thesis unfolding exprStep_def IndexExpr Expr.case analyzeIndexExpr_def
      using n v by (auto split: option.split)
  qed
  note step = this
  show ?case unfolding analyzed_def by (intro allI impI, subst analyzeExpr_unfold, rule step)
qed

end
