(* ===== verification/TypingStmts.thy ===== *)
theory TypingStmts
  imports TypingProps
begin

text \<open>
  Soundness of the analyser for the statement part of the type system, for the bodies of functions
  and for whole files.
\<close>

section \<open>Trees of the parser's shape\<close>

text \<open>What the parser guarantees of a tree beyond completeness: known operators and types.\<close>

definition type_shape :: "TypeSyntax \<Rightarrow> bool" where
  "type_shape t \<longleftrightarrow> ts_kind t \<noteq> Invalid"

fun stmt_shape :: "Stmt \<Rightarrow> bool" where
  "stmt_shape (BlockStmt sp ss) \<longleftrightarrow> list_all stmt_shape ss"
| "stmt_shape (LetStmt sp m x nsp t init) \<longleftrightarrow> (hasExplicitTypeSyntax t \<longrightarrow> type_shape t) \<and> pred_option grouped init"
| "stmt_shape (AssignStmt sp target v) \<longleftrightarrow> grouped target \<and> grouped v"
| "stmt_shape (ReturnStmt sp v) \<longleftrightarrow> pred_option grouped v"
| "stmt_shape (IfStmt sp e t el) \<longleftrightarrow> grouped e \<and> pred_option stmt_shape t \<and> pred_option stmt_shape el"
| "stmt_shape (WhileStmt sp e body) \<longleftrightarrow> grouped e \<and> pred_option stmt_shape body"
| "stmt_shape (ForStmt sp init c step body) \<longleftrightarrow>
     pred_option stmt_shape init \<and> pred_option grouped c \<and> pred_option stmt_shape step \<and> pred_option stmt_shape body"
| "stmt_shape (CallStmt sp csp callee es) \<longleftrightarrow> grouped (CallExpr csp callee es)"
| "stmt_shape (BreakStmt sp) \<longleftrightarrow> True"
| "stmt_shape (ContinueStmt sp) \<longleftrightarrow> True"

fun item_shape :: "Item \<Rightarrow> bool" where
  "item_shape (FunctionDecl sp name nsp ps rt bsp body) \<longleftrightarrow>
     list_all (\<lambda>p. type_shape (pr_type p)) ps \<and> type_shape rt \<and> list_all stmt_shape body"
| "item_shape (ConstDecl sp name nsp t init) \<longleftrightarrow> type_shape t \<and> grouped init"

lemma known_typeFromSyntax: "type_shape t \<Longrightarrow> known (typeFromSyntax t)"
  by (simp add: type_shape_def typeFromSyntax_def)

section \<open>Steps that keep the environment\<close>

definition env_same :: "analyzer \<Rightarrow> analyzer \<Rightarrow> bool" where
  "env_same st st' \<longleftrightarrow> env_of st' = env_of st \<and> an_currentReturnType st' = an_currentReturnType st"

lemma env_same_refl: "env_same st st"
  by (simp add: env_same_def)

interpretation es: state_preorder env_same
  by unfold_locales (auto simp: env_same_def)

lemma only_bag_same: "state_io_rel only_bag m \<Longrightarrow> state_io_rel env_same m"
  unfolding state_io_rel_def env_same_def
  by (metis (no_types, lifting) analyzer.select_convs(13) analyzer.surjective analyzer.update_convs(1)
      env_of_only_bag only_bag_def)

lemmas es_rules = es.keep_rules only_bag_same[OF errorA_only_bag] only_bag_same[OF noteA_only_bag]
  only_bag_same[OF leaf_only_bag(4)] getsA_rel[of env_same, OF env_same_refl]
  whenA_rel[of env_same, OF env_same_refl] modifyA_rel[of env_same]

lemma def_same:
  "state_io_rel env_same (rememberDefAssignReason bid sp m)"
  "state_io_rel env_same (markDefiniteAssigned bid)"
  unfolding rememberDefAssignReason_def markDefiniteAssigned_def
  by (intro es_rules; simp add: env_same_def env_of_def)+

lemma markElement_same: "state_io_rel env_same (markElement bid n k)"
  unfolding markElement_def by (intro es_rules def_same) (simp_all add: env_same_def env_of_def)

lemma arr_same:
  "state_io_rel env_same (markArrayBindingFullyAssigned bid)"
  "state_io_rel env_same (initArrayElemTrackingForBinding bid t sp)"
  "state_io_rel env_same (noteIndexedStoreToLocal bid t infos es)"
  unfolding markArrayBindingFullyAssigned_def initArrayElemTrackingForBinding_def noteIndexedStoreToLocal_def
  by (intro es_rules def_same markElement_same; simp add: env_same_def env_of_def)+

lemma flow_same:
  "state_io_rel env_same getFlow" "state_io_rel env_same (setFlow f)"
  "state_io_rel env_same (noteIfDefAssignLosses sp d0 d1 d2 h t e)"
  "state_io_rel env_same (noteLoopDefAssignLosses sp d0 d1)"
  unfolding getFlow_def setFlow_def noteIfDefAssignLosses_def noteLoopDefAssignLosses_def
  by (intro es_rules def_same; simp add: env_same_def env_of_def)+

lemma mergeIf_same: "state_io_rel env_same (mergeIf sp f0 f1 f2 h t e)"
  unfolding mergeIf_def by (intro es_rules flow_same) (simp_all add: env_same_def env_of_def split: prod.split)

section \<open>Runs that change the environment\<close>

definition stp :: "Type \<Rightarrow> env \<Rightarrow> 'a analysis \<Rightarrow> ('a \<Rightarrow> env \<Rightarrow> bool) \<Rightarrow> bool" where
  "stp \<rho> \<Gamma> m P \<longleftrightarrow> (\<forall>st. env_of st = \<Gamma> \<and> an_currentReturnType st = \<rho> \<longrightarrow>
     cwp m (\<lambda>x st'. an_currentReturnType st' = \<rho> \<and> P x (env_of st')) st)"

lemma stp_mono: "stp \<rho> \<Gamma> m P \<Longrightarrow> (\<And>x \<Gamma>'. P x \<Gamma>' \<Longrightarrow> Q x \<Gamma>') \<Longrightarrow> stp \<rho> \<Gamma> m Q"
  unfolding stp_def by (auto elim!: cwp_mono)

lemma stp_return: "P x \<Gamma> \<Longrightarrow> stp \<rho> \<Gamma> (returnA x) P"
  by (simp add: stp_def cwp_return)

lemma stp_bind:
  assumes "stp \<rho> \<Gamma> m P" "\<And>x. growing (f x)" "\<And>x \<Gamma>'. P x \<Gamma>' \<Longrightarrow> stp \<rho> \<Gamma>' (f x) Q"
  shows "stp \<rho> \<Gamma> (State_Monad.bind m f) Q"
  using assms unfolding stp_def by (auto intro!: cwp_bind elim!: cwp_mono)

lemma stp_same: "state_io_rel env_same m \<Longrightarrow> stp \<rho> \<Gamma> m (\<lambda>_ \<Gamma>'. \<Gamma>' = \<Gamma>)"
  unfolding stp_def by (auto intro!: cwp_mono[OF cwp_rel[of env_same]] simp: env_same_def)

text \<open>A step that keeps the environment, followed by the rest.\<close>

lemma stp_skip:
  "state_io_rel env_same m \<Longrightarrow> (\<And>x. growing (f x)) \<Longrightarrow> (\<And>x. stp \<rho> \<Gamma> (f x) Q) \<Longrightarrow> stp \<rho> \<Gamma> (State_Monad.bind m f) Q"
  by (rule stp_bind[OF stp_same]) auto

lemma stp_tp: "tp \<Gamma> m P \<Longrightarrow> state_io_rel only_bag m \<Longrightarrow> stp \<rho> \<Gamma> m (\<lambda>x \<Gamma>'. \<Gamma>' = \<Gamma> \<and> P x)"
  unfolding stp_def
proof (intro allI impI)
  fix st assume m: "tp \<Gamma> m P" "state_io_rel only_bag m" and st: "env_of st = \<Gamma> \<and> an_currentReturnType st = \<rho>"
  then have "cwp m (\<lambda>x st'. env_of st' = \<Gamma> \<and> P x) st" by (simp add: tp_def)
  from cwp_rel_mono[OF this only_bag_same[OF m(2)]] st
  show "cwp m (\<lambda>x st'. an_currentReturnType st' = \<rho> \<and> env_of st' = \<Gamma> \<and> P x) st"
    by (simp add: env_same_def)
qed

lemma stp_when: "(b \<Longrightarrow> stp \<rho> \<Gamma> m P) \<Longrightarrow> (\<not> b \<Longrightarrow> P () \<Gamma>) \<Longrightarrow> stp \<rho> \<Gamma> (whenA b m) P"
  by (simp add: whenA_def stp_return)

lemma stp_if: "(b \<Longrightarrow> stp \<rho> \<Gamma> m P) \<Longrightarrow> (\<not> b \<Longrightarrow> stp \<rho> \<Gamma> n P) \<Longrightarrow> stp \<rho> \<Gamma> (if b then m else n) P"
  by simp

lemma stp_error: "stp \<rho> \<Gamma> (errorA sp m) P"
  by (simp add: stp_def cwp_error)

lemma stp_error_then: "(\<And>x. growing (f x)) \<Longrightarrow> stp \<rho> \<Gamma> (State_Monad.bind (errorA sp m) f) P"
  by (rule stp_bind[OF stp_error[where P = "\<lambda>_ _. False"]]) auto

lemma stp_check:
  "(\<And>x. growing (f x)) \<Longrightarrow> (\<not> b \<Longrightarrow> stp \<rho> \<Gamma> (f ()) Q) \<Longrightarrow>
    stp \<rho> \<Gamma> (State_Monad.bind (whenA b (errorA sp m)) f) Q"
  by (rule stp_bind[OF stp_when[where P = "\<lambda>_ \<Gamma>'. \<Gamma>' = \<Gamma> \<and> \<not> b"]]) (auto intro: stp_error)

lemma stp_check_last: "(\<not> b \<Longrightarrow> P () \<Gamma>) \<Longrightarrow> stp \<rho> \<Gamma> (whenA b (errorA sp m)) P"
  by (rule stp_when) (auto intro: stp_error)

lemma stp_expr:
  assumes "env_known \<Gamma>" "grouped e" "known_opt ex" "\<And>x. growing (f x)" "\<And>i. ok_info \<Gamma> e i \<Longrightarrow> stp \<rho> \<Gamma> (f i) Q"
  shows "stp \<rho> \<Gamma> (State_Monad.bind (analyzeExpr e ex c) f) Q"
  by (rule stp_bind[OF stp_tp[OF tp_rec[OF analyzeExpr_typed[OF assms(1,2)] assms(3)] analyzeExpr_only_bag] assms(4)])
    (use assms(5) in auto)

lemma stp_lookup:
  "(\<And>x. growing (f x)) \<Longrightarrow> (\<And>s. map_option binding_of s = visible \<Gamma> x \<Longrightarrow> stp \<rho> \<Gamma> (f s) Q) \<Longrightarrow>
    stp \<rho> \<Gamma> (State_Monad.bind (lookupValue x) f) Q"
  by (rule stp_bind[OF stp_tp[OF tp_lookup leaf_only_bag(4)]]) auto

lemmas st_growing = ex_growing scope_quiet[THEN quiet_growing] def_quiet[THEN quiet_growing]
  arr_quiet[THEN quiet_growing] validate_quiet[THEN quiet_growing] declareLocal_quiet[THEN quiet_growing]
  leaf_stmt_quiet[THEN quiet_growing] flow_quiet[THEN quiet_growing] mergeIf_quiet[THEN quiet_growing]
  only_bag_growing[OF analyzeCallExpr_only_bag[OF rec_only_bag_analyzeExpr]] index_growing


section \<open>Scopes\<close>

lemma stp_modify: "(\<And>st. env_of st = \<Gamma> \<Longrightarrow> env_of (f st) = \<Gamma>' \<and> an_currentReturnType (f st) = an_currentReturnType st) \<Longrightarrow>
    stp \<rho> \<Gamma> (modifyA f) (\<lambda>_ \<Gamma>1. \<Gamma>1 = \<Gamma>')"
  by (auto simp: stp_def intro!: cwp_modify)

lemma stp_push: "stp \<rho> \<Gamma> pushScope (\<lambda>_ \<Gamma>'. \<Gamma>' = enter \<Gamma>)"
  unfolding pushScope_def by (rule stp_modify) (auto simp: env_of_def enter_def)

lemma forgetBinding_same: "env_same st (fold forgetBinding ids st)"
proof (induction ids arbitrary: st)
  case (Cons i ids)
  have "env_same st (forgetBinding i st)" by (simp add: env_same_def forgetBinding_def env_of_def)
  then show ?case using es.R_trans[OF _ Cons] by simp
qed (simp add: env_same_refl)

lemma env_of_tl:
  "env_of (st\<lparr>an_scopeBindingIds := ids, an_scopes := tl (an_scopes st)\<rparr>) = leave (env_of st)"
  by (simp add: env_of_def leave_def map_tl)

lemma stp_pop: "stp \<rho> \<Gamma> popScope (\<lambda>_ \<Gamma>'. \<Gamma>' = leave \<Gamma>)"
  unfolding popScope_def
proof (rule stp_modify)
  fix st assume st: "env_of st = \<Gamma>"
  have "env_same st (fold forgetBinding (hd (an_scopeBindingIds st)) st)" by (rule forgetBinding_same)
  then show "env_of (let st' = fold forgetBinding (hd (an_scopeBindingIds st)) st
      in st'\<lparr>an_scopeBindingIds := tl (an_scopeBindingIds st'), an_scopes := tl (an_scopes st')\<rparr>) = leave \<Gamma> \<and>
    an_currentReturnType (let st' = fold forgetBinding (hd (an_scopeBindingIds st)) st
      in st'\<lparr>an_scopeBindingIds := tl (an_scopeBindingIds st'), an_scopes := tl (an_scopes st')\<rparr>) =
      an_currentReturnType st"
    using st by (simp add: env_same_def Let_def env_of_tl)
qed

lemma stp_declare:
  assumes "en_scopes \<Gamma> \<noteq> []"
  shows "stp \<rho> \<Gamma> (declareLocal x sp t m) (\<lambda>_ \<Gamma>'. fresh \<Gamma> x \<and> \<Gamma>' = bind_local \<Gamma> x t m)"
  unfolding stp_def
proof (intro allI impI)
  fix st assume st: "env_of st = \<Gamma> \<and> an_currentReturnType st = \<rho>"
  then obtain sc scs where s: "an_scopes st = sc # scs" using assms by (cases "an_scopes st") (auto simp: env_of_def)
  have f: "fresh \<Gamma> x \<longleftrightarrow> map_of sc x = None" using st s by (auto simp: fresh_def env_of_def map_of_map)
  show "cwp (declareLocal x sp t m) (\<lambda>_ st'. an_currentReturnType st' = \<rho> \<and>
      fresh \<Gamma> x \<and> env_of st' = bind_local \<Gamma> x t m) st"
  proof (cases "map_of sc x")
    case (Some v)
    then show ?thesis
      by (simp add: declareLocal_def cwp_def getsA_def errorA_def noteA_def modifyA_def clean_def s)
  next
    case None
    then show ?thesis using st s f
      by (simp add: declareLocal_def cwp_def getsA_def modifyA_def)
        (auto simp: env_of_def bind_local_def local_binding_def binding_of_def)
  qed
qed

lemma validate_same: "state_io_rel env_same (validateFixedArrayDecl t sp)" "state_io_rel env_same (validatePointerDecl t sp)"
  unfolding validateFixedArrayDecl_def validatePointerDecl_def by (intro es_rules)+

lemma stp_validate:
  "stp \<rho> \<Gamma> (do { validateFixedArrayDecl t sp; validatePointerDecl t sp }) (\<lambda>_ \<Gamma>'. \<Gamma>' = \<Gamma> \<and> declarable t)"
proof (rule stp_bind[where P = "\<lambda>_ \<Gamma>'. \<Gamma>' = \<Gamma> \<and>
    (Type_isFixedArray t \<longrightarrow> 0 \<notin> set (t_arrayDimensions t) \<and> t_kind t \<notin> {Void, Str, Invalid})"])
  show "stp \<rho> \<Gamma> (validateFixedArrayDecl t sp) (\<lambda>_ \<Gamma>'. \<Gamma>' = \<Gamma> \<and>
    (Type_isFixedArray t \<longrightarrow> 0 \<notin> set (t_arrayDimensions t) \<and> t_kind t \<notin> {Void, Str, Invalid}))"
    unfolding validateFixedArrayDecl_def
    by (intro stp_if stp_return stp_check_last stp_error) auto
qed (unfold validatePointerDecl_def, auto intro!: st_growing stp_return stp_check_last simp: declarable_def)


section \<open>Leaf statements\<close>

text \<open>\<open>checked \<rho> \<Gamma> s m\<close>: a run of \<open>m\<close> without an error shows that \<open>s\<close> is well typed, and leaves
  the environment of the typing.\<close>

definition checked :: "Type \<Rightarrow> env \<Rightarrow> Stmt \<Rightarrow> 'a analysis \<Rightarrow> bool" where
  "checked \<rho> \<Gamma> s m \<longleftrightarrow> stp \<rho> \<Gamma> m (\<lambda>_ \<Gamma>'. checks \<rho> \<Gamma> s \<Gamma>' \<and> env_known \<Gamma>' \<and>
     length (en_scopes \<Gamma>') = length (en_scopes \<Gamma>))"

lemma checked_leaf: "stp \<rho> \<Gamma> m (\<lambda>_ \<Gamma>'. \<Gamma>' = \<Gamma> \<and> checks \<rho> \<Gamma> s \<Gamma>) \<Longrightarrow> env_known \<Gamma> \<Longrightarrow> checked \<rho> \<Gamma> s m"
  unfolding checked_def by (erule stp_mono) auto

lemma checked_then: "checked \<rho> \<Gamma> s m \<Longrightarrow> checked \<rho> \<Gamma> s (do { m; returnA v })"
  unfolding checked_def by (erule stp_bind) (auto intro: stp_return st_growing)

lemma stp_reject: "stp \<rho> \<Gamma> (rejectAssign sp m v) P"
  unfolding rejectAssign_def by (rule stp_error_then) (intro st_growing)

lemma condition_typed:
  assumes "env_known \<Gamma>" "grouped e"
  shows "stp \<rho> \<Gamma> (analyzeCondition e label) (\<lambda>_ \<Gamma>'. \<Gamma>' = \<Gamma> \<and> (\<exists>t. typed \<Gamma> e t \<and> canBeCondition t))"
  unfolding analyzeCondition_def
  by (rule stp_expr[OF assms], simp, intro st_growing, rule stp_check_last) (auto simp: ok_info_def)

lemma return_checked:
  assumes "env_known \<Gamma>" "pred_option grouped v" "known \<rho>"
  shows "checked \<rho> \<Gamma> (ReturnStmt sp v) (analyzeReturn sp v)"
proof (rule checked_leaf)
  have g: "stp \<rho> \<Gamma> (getsA an_currentReturnType) (\<lambda>r \<Gamma>'. \<Gamma>' = \<Gamma> \<and> r = \<rho>)"
    by (auto simp: stp_def intro!: cwp_gets)
  have saw: "state_io_rel env_same (modifyA (\<lambda>st. st\<lparr>an_sawReturnValue := True\<rparr>))"
    "growing (modifyA (\<lambda>st. st\<lparr>an_sawReturnValue := True\<rparr>))"
    by (rule modifyA_rel, simp add: env_same_def env_of_def bag_grows_def)+
  show "stp \<rho> \<Gamma> (analyzeReturn sp v) (\<lambda>_ \<Gamma>'. \<Gamma>' = \<Gamma> \<and> checks \<rho> \<Gamma> (ReturnStmt sp v) \<Gamma>)"
  proof (cases v)
    case None
    then show ?thesis unfolding analyzeReturn_def
      by (intro stp_bind[OF g]) (auto intro!: stp_check_last st_growing saw c_return_void)
  next
    case (Some e)
    then have e: "grouped e" using assms(2) by simp
    show ?thesis unfolding analyzeReturn_def Some option.case
    proof (rule stp_bind[OF g], intro st_growing saw)
      fix r \<Gamma>' assume r: "\<Gamma>' = \<Gamma> \<and> r = \<rho>"
      show "stp \<rho> \<Gamma>' (if Type_isVoid r then do {
           errorA (expr_span e) ''`void` function cannot return a value'';
           analyzeExpr e None Ctx_Normal;
           returnA () }
         else do {
           modifyA (\<lambda>st. st\<lparr>an_sawReturnValue := True\<rparr>);
           info \<leftarrow> analyzeExpr e (Some r) Ctx_Normal;
           whenA (\<not> sameType r (ei_type info))
             (errorA (expr_span e) (''cannot return value of type `'' @ typeName (ei_type info) @
                ''` from function returning `'' @ typeName r @ ''`'')) })
         (\<lambda>_ \<Gamma>'. \<Gamma>' = \<Gamma> \<and> checks \<rho> \<Gamma> (ReturnStmt sp (Some e)) \<Gamma>)"
        unfolding conjunct1[OF r] conjunct2[OF r]
        by (rule stp_if, intro stp_error_then st_growing, rule stp_skip[OF saw(1)], intro st_growing,
            rule stp_expr[OF assms(1) e], simp add: assms(3), intro st_growing, rule stp_check_last)
          (use assms(3) in \<open>auto simp: ok_info_def sameType_known intro: c_return\<close>)
    qed
  qed
qed (rule assms)

lemma known_bind_local: "env_known \<Gamma> \<Longrightarrow> known t \<Longrightarrow> en_scopes \<Gamma> \<noteq> [] \<Longrightarrow> env_known (bind_local \<Gamma> x t m)"
  by (cases "en_scopes \<Gamma>") (auto simp: env_known_def bind_local_def local_binding_def)

lemma length_bind_local: "en_scopes \<Gamma> \<noteq> [] \<Longrightarrow> length (en_scopes (bind_local \<Gamma> x t m)) = length (en_scopes \<Gamma>)"
  by (cases "en_scopes \<Gamma>") (auto simp: bind_local_def)


lemma let_growing: "growing (analyzeLet sp m x nsp ty init)"
  by (rule quiet_growing[OF analyzeLet_quiet])

lemma stp_declared:
  assumes "en_scopes \<Gamma> \<noteq> []" "\<And>bid. growing (f bid)"
    "\<And>bid. fresh \<Gamma> x \<Longrightarrow> stp \<rho> (bind_local \<Gamma> x t m) (f bid) Q"
  shows "stp \<rho> \<Gamma> (State_Monad.bind (declareLocal x sp t m) f) Q"
  by (rule stp_bind[OF stp_declare[OF assms(1)] assms(2)]) (use assms(3) in auto)

lemma stp_validated:
  assumes "\<And>x. growing (f x)" "declarable t \<Longrightarrow> stp \<rho> \<Gamma> (f ()) Q"
  shows "stp \<rho> \<Gamma> (do { validateFixedArrayDecl t sp; x \<leftarrow> validatePointerDecl t sp; f x }) Q"
  unfolding bind_assoc[symmetric]
  by (rule stp_bind[OF stp_validate]) (use assms in auto)

text \<open>The last steps of a \<open>let\<close>: the name is declared, and what follows keeps the environment.\<close>

lemma stp_bound:
  assumes \<Gamma>: "env_known \<Gamma>" "en_scopes \<Gamma> \<noteq> []" and t: "known t"
    and s: "fresh \<Gamma> x \<Longrightarrow> checks \<rho> \<Gamma> s (bind_local \<Gamma> x t m)"
    and f: "\<And>bid. growing (f bid)" "\<And>bid. state_io_rel env_same (f bid)"
  shows "checked \<rho> \<Gamma> s (State_Monad.bind (declareLocal x sp t m) f)"
  unfolding checked_def
  by (rule stp_declared[OF \<Gamma>(2) f(1)], rule stp_mono[OF stp_same[OF f(2)]])
    (use s known_bind_local[OF \<Gamma>(1) t \<Gamma>(2)] length_bind_local[OF \<Gamma>(2)] in auto)

lemma uninitialized_checked:
  assumes \<Gamma>: "env_known \<Gamma>" "en_scopes \<Gamma> \<noteq> []" and s: "hasExplicitTypeSyntax ty \<Longrightarrow> type_shape ty"
    and d: "hasExplicitTypeSyntax ty \<Longrightarrow> t = typeFromSyntax ty \<and> declarable t \<and> \<not> (Type_isPointer t \<and> m)"
  shows "checked \<rho> \<Gamma> (LetStmt sp m x nsp ty None)
    (analyzeUninitializedLet sp m x nsp (hasExplicitTypeSyntax ty) t tsp)"
  unfolding checked_def analyzeUninitializedLet_def
proof (rule stp_if, rule stp_error, rule stp_if, rule stp_error, unfold checked_def[symmetric])
  assume m: "\<not> \<not> m" and e: "\<not> \<not> hasExplicitTypeSyntax ty"
  have t: "t = typeFromSyntax ty" "declarable t" "\<not> Type_isPointer t" "known t"
    using d s e m by (auto intro: known_typeFromSyntax)
  have "checks \<rho> \<Gamma> (LetStmt sp m x nsp ty None) (bind_local \<Gamma> x t True)" if "fresh \<Gamma> x"
    using c_let_later[of ty \<Gamma> x \<rho> sp nsp] that t e m by simp
  then show "checked \<rho> \<Gamma> (LetStmt sp m x nsp ty None) (do {
        bid \<leftarrow> declareLocal x nsp t True;
        if Type_isFixedArray t then
          whenA (bid \<noteq> 0) (do {
            initArrayElemTrackingForBinding bid t tsp;
            rememberDefAssignReason bid nsp ''binding declared here without an initializer'' })
        else rememberDefAssignReason bid nsp ''binding declared here without an initializer'' })"
    by (intro stp_bound[OF \<Gamma> t(4)] st_growing es_rules arr_same def_same)
qed

lemma let_parts_growing:
  "growing (checkInitializer h m x nsp e t u)" "growing (declareInitialized x nsp t m)"
  "growing (analyzeUninitializedLet sp m x nsp h t tsp)"
  unfolding checkInitializer_def declareInitialized_def analyzeUninitializedLet_def by (intro st_growing)+

lemma checkInitializer_ok:
  assumes "ok_info \<Gamma> e i" "hasExplicitTypeSyntax ty \<Longrightarrow> type_shape ty" "t = let_type_of ty (ei_type i)"
    "hasExplicitTypeSyntax ty \<Longrightarrow> declarable t \<and> \<not> (Type_isPointer t \<and> m)"
  shows "stp \<rho> \<Gamma> (checkInitializer (hasExplicitTypeSyntax ty) m x nsp e t (ei_type i))
    (\<lambda>_ \<Gamma>'. \<Gamma>' = \<Gamma> \<and> declarable t \<and> \<not> (Type_isPointer t \<and> m) \<and>
       (\<not> hasExplicitTypeSyntax ty \<longrightarrow> \<not> Type_isVoid t) \<and> typed \<Gamma> e t)"
  unfolding checkInitializer_def
proof (rule stp_if)
  assume "\<not> hasExplicitTypeSyntax ty"
  then show "stp \<rho> \<Gamma> (do {
      whenA (Type_isVoid t \<or> Type_isInvalid t) (errorA (expr_span e) m1);
      validateFixedArrayDecl t (expr_span e);
      validatePointerDecl t (expr_span e);
      whenA (Type_isPointer t \<and> m) (errorA nsp m2) })
    (\<lambda>_ \<Gamma>'. \<Gamma>' = \<Gamma> \<and> declarable t \<and> \<not> (Type_isPointer t \<and> m) \<and>
       (\<not> hasExplicitTypeSyntax ty \<longrightarrow> \<not> Type_isVoid t) \<and> typed \<Gamma> e t)" for m1 m2
    using assms(1,3)
    by (intro stp_check stp_validated stp_check_last st_growing) (auto simp: ok_info_def let_type_of_def)
next
  assume "\<not> \<not> hasExplicitTypeSyntax ty"
  then show "stp \<rho> \<Gamma> (whenA (\<not> sameType t (ei_type i)) (errorA (expr_span e) m1))
    (\<lambda>_ \<Gamma>'. \<Gamma>' = \<Gamma> \<and> declarable t \<and> \<not> (Type_isPointer t \<and> m) \<and>
       (\<not> hasExplicitTypeSyntax ty \<longrightarrow> \<not> Type_isVoid t) \<and> typed \<Gamma> e t)" for m1
    using assms known_typeFromSyntax[of ty]
    by (intro stp_check_last) (auto simp: ok_info_def let_type_of_def sameType_known)
qed

lemma let_checked:
  assumes \<Gamma>: "env_known \<Gamma>" "en_scopes \<Gamma> \<noteq> []" and s: "stmt_shape (LetStmt sp m x nsp ty init)"
  shows "checked \<rho> \<Gamma> (LetStmt sp m x nsp ty init) (analyzeLet sp m x nsp ty init)"
proof -
  let ?h = "hasExplicitTypeSyntax ty" and ?d = "if hasExplicitTypeSyntax ty then typeFromSyntax ty else invalidType"
  have shape: "?h \<Longrightarrow> type_shape ty" using s by simp
  have uninit: "checked \<rho> \<Gamma> (LetStmt sp m x nsp ty init) (analyzeUninitializedLet sp m x nsp ?h ?d (ts_span ty))"
    if "init = None" "?h \<Longrightarrow> declarable ?d \<and> \<not> (Type_isPointer ?d \<and> m)"
    unfolding that(1) by (rule uninitialized_checked[OF \<Gamma> shape]) (use that in auto)
  have init: "checked \<rho> \<Gamma> (LetStmt sp m x nsp ty init) (do {
       info \<leftarrow> analyzeExpr e (if ?h then Some ?d else None) Ctx_Normal;
       checkInitializer ?h m x nsp e (if ?h then ?d else ei_type info) (ei_type info);
       declareInitialized x nsp (if ?h then ?d else ei_type info) m })"
    if e: "init = Some e" and d: "?h \<Longrightarrow> declarable ?d \<and> \<not> (Type_isPointer ?d \<and> m)" for e
    unfolding checked_def
  proof (rule stp_expr[OF \<Gamma>(1)])
    fix i assume i: "ok_info \<Gamma> e i"
    let ?t = "if ?h then ?d else ei_type i"
    have t: "?t = let_type_of ty (ei_type i)" "known ?t"
      using i shape by (auto simp: let_type_of_def ok_info_def intro: known_typeFromSyntax)
    show "stp \<rho> \<Gamma> (do {
         checkInitializer ?h m x nsp e ?t (ei_type i);
         declareInitialized x nsp ?t m }) (\<lambda>_ \<Gamma>'. checks \<rho> \<Gamma> (LetStmt sp m x nsp ty init) \<Gamma>' \<and> env_known \<Gamma>' \<and>
       length (en_scopes \<Gamma>') = length (en_scopes \<Gamma>))"
    proof (rule stp_bind[OF checkInitializer_ok[OF i shape t(1)]], assumption)
      fix u \<Gamma>' assume a: "\<Gamma>' = \<Gamma> \<and> declarable ?t \<and> \<not> (Type_isPointer ?t \<and> m) \<and>
         (\<not> ?h \<longrightarrow> \<not> Type_isVoid ?t) \<and> typed \<Gamma> e ?t"
      have "checks \<rho> \<Gamma> (LetStmt sp m x nsp ty (Some e)) (bind_local \<Gamma> x ?t m)" if "fresh \<Gamma> x"
        by (rule c_let) (use a that in \<open>auto simp: let_type_of_def\<close>)
      then show "stp \<rho> \<Gamma>' (declareInitialized x nsp ?t m)
        (\<lambda>_ \<Gamma>'. checks \<rho> \<Gamma> (LetStmt sp m x nsp ty init) \<Gamma>' \<and> env_known \<Gamma>' \<and>
          length (en_scopes \<Gamma>') = length (en_scopes \<Gamma>))"
        unfolding conjunct1[OF a] declareInitialized_def e
        by (unfold checked_def[symmetric], intro stp_bound[OF \<Gamma> t(2)] st_growing es_rules def_same arr_same)
    qed (use d in \<open>auto intro: let_parts_growing\<close>)
  qed (use s e shape in \<open>auto intro: known_typeFromSyntax st_growing let_parts_growing\<close>)
  have rest: "checked \<rho> \<Gamma> (LetStmt sp m x nsp ty init) (case init of
       None \<Rightarrow> analyzeUninitializedLet sp m x nsp ?h ?d (ts_span ty)
     | Some e \<Rightarrow> do {
         info \<leftarrow> analyzeExpr e (if ?h then Some ?d else None) Ctx_Normal;
         checkInitializer ?h m x nsp e (if ?h then ?d else ei_type info) (ei_type info);
         declareInitialized x nsp (if ?h then ?d else ei_type info) m })"
    if "?h \<Longrightarrow> declarable ?d \<and> \<not> (Type_isPointer ?d \<and> m)"
    using uninit init that by (auto split: option.split)
  have valid: "stp \<rho> \<Gamma> (whenA ?h (do {
       validateFixedArrayDecl ?d (ts_span ty);
       validatePointerDecl ?d (ts_span ty);
       whenA (Type_isPointer ?d \<and> m) (errorA (ts_span ty) e) }))
      (\<lambda>_ \<Gamma>'. \<Gamma>' = \<Gamma> \<and> (?h \<longrightarrow> declarable ?d \<and> \<not> (Type_isPointer ?d \<and> m)))" for e
    by (intro stp_when stp_validated stp_check_last st_growing) auto
  show ?thesis unfolding checked_def analyzeLet_def Let_def
    by (rule stp_bind[OF valid], intro st_growing let_parts_growing)
      (use rest in \<open>auto simp: checked_def\<close>)
qed


section \<open>Assignments\<close>

lemma name_assign_checked:
  assumes \<Gamma>: "env_known \<Gamma>" and v: "grouped v"
  shows "checked \<rho> \<Gamma> (AssignStmt sp (NameExpr nsp x) v) (analyzeNameAssign nsp x v)"
proof (rule checked_leaf[OF _ \<Gamma>])
  show "stp \<rho> \<Gamma> (analyzeNameAssign nsp x v)
      (\<lambda>_ \<Gamma>'. \<Gamma>' = \<Gamma> \<and> checks \<rho> \<Gamma> (AssignStmt sp (NameExpr nsp x) v) \<Gamma>)"
    unfolding analyzeNameAssign_def
  proof (rule stp_lookup)
    fix s assume s: "map_option binding_of s = visible \<Gamma> x"
    show "stp \<rho> \<Gamma> (case s of
       None \<Rightarrow> rejectAssign nsp (''undefined local `'' @ x @ ''`'') v
     | Some s \<Rightarrow> do {
         whenA (\<not> vs_isMutable s)
           (errorA nsp (''cannot assign to immutable binding `'' @ x @ ''`''));
         info \<leftarrow> analyzeExpr v (Some (vs_type s)) Ctx_Normal;
         whenA (\<not> sameType (vs_type s) (ei_type info))
           (errorA (expr_span v) (''cannot assign value of type `'' @ typeName (ei_type info) @
              ''` to `'' @ x @ ''` of type `'' @ typeName (vs_type s) @ ''`''));
         markDefiniteAssigned (vs_bindingId s) })
      (\<lambda>_ \<Gamma>'. \<Gamma>' = \<Gamma> \<and> checks \<rho> \<Gamma> (AssignStmt sp (NameExpr nsp x) v) \<Gamma>)"
    proof (cases s)
      case (Some b)
      then have b: "visible \<Gamma> x = Some (binding_of b)" using s by simp
      have k: "known (vs_type b)" using known_visible[OF \<Gamma> b] by (simp add: binding_of_def)
      have c: "checks \<rho> \<Gamma> (AssignStmt sp (NameExpr nsp x) v) \<Gamma>" if "vs_isMutable b" "typed \<Gamma> v (vs_type b)"
        by (rule c_assign_name[OF b]) (use that in \<open>simp_all add: binding_of_def\<close>)
      show ?thesis unfolding Some option.case
        by (rule stp_check, intro st_growing, rule stp_expr[OF \<Gamma> v], simp add: k, intro st_growing,
            rule stp_check, intro st_growing, rule stp_mono[OF stp_same[OF def_same(2)]])
          (use c k in \<open>auto simp: ok_info_def sameType_known\<close>)
    qed (simp add: stp_reject)
  qed (intro st_growing)
qed

lemma chain_full:
  "index_chain \<Gamma> t is u \<Longrightarrow> length is = length (t_arrayDimensions t) \<Longrightarrow> \<not> Type_isFixedArray u"
proof (induction "is" arbitrary: t)
  case (Cons i "is")
  then show ?case using Cons.IH[of "Type_afterIndex t"] length_after[of t] by simp
qed (simp add: Type_isFixedArray_def)

lemma stp_indices:
  assumes \<Gamma>: "env_known \<Gamma>" and "list_all grouped is" "Type_isFixedArray t" "length is \<le> length (t_arrayDimensions t)"
  shows "stp \<rho> \<Gamma> (analyzeIndices analyzeExpr w t is) (\<lambda>(infos, u) \<Gamma>'. \<Gamma>' = \<Gamma> \<and> index_chain \<Gamma> t is u)"
proof -
  have "tp \<Gamma> (analyzeIndices analyzeExpr w t is) (\<lambda>(infos, u). index_chain \<Gamma> t is u)"
    by (rule indices_typed) (use assms analyzeExpr_typed[OF \<Gamma>] in \<open>auto simp: list_all_iff\<close>)
  from stp_tp[OF this analyzeIndices_only_bag[OF rec_only_bag_analyzeExpr]] show ?thesis
    by (rule stp_mono) auto
qed

lemma index_assign_checked:
  assumes \<Gamma>: "env_known \<Gamma>" and v: "grouped v" and target: "grouped (IndexExpr isp base i)"
  shows "checked \<rho> \<Gamma> (AssignStmt sp (IndexExpr isp base i) v) (analyzeIndexAssign (IndexExpr isp base i) v)"
    (is "checked _ _ ?s _")
proof (rule checked_leaf[OF _ \<Gamma>])
  show "stp \<rho> \<Gamma> (analyzeIndexAssign (IndexExpr isp base i) v) (\<lambda>_ \<Gamma>'. \<Gamma>' = \<Gamma> \<and> checks \<rho> \<Gamma> ?s \<Gamma>)"
  proof (cases "peelIndexedNameChain (IndexExpr isp base i)")
    case p: (Some chain)
    note is_grouped = chain_grouped[OF p target]
    show ?thesis unfolding analyzeIndexAssign_def p option.case
    proof (rule stp_lookup)
      fix s assume s: "map_option binding_of s = visible \<Gamma> (chain_rootName chain)"
      show "stp \<rho> \<Gamma> (case s of
            None \<Rightarrow> rejectAssign (chain_rootSpan chain)
              (''undefined local `'' @ chain_rootName chain @ ''`'') v
          | Some s \<Rightarrow>
              if \<not> vs_isMutable s then
                rejectAssign (chain_rootSpan chain) (''cannot assign through immutable array binding `'' @
                  chain_rootName chain @ ''`'') v
              else if \<not> Type_isFixedArray (vs_type s) then
                rejectAssign (chain_rootSpan chain) ''indexed assignment requires an array local'' v
              else if length (chain_indices chain) \<noteq> length (t_arrayDimensions (vs_type s)) then
                rejectAssign (expr_span (IndexExpr isp base i)) (''indexed assignment must store through a scalar element '' @
                  ''of `'' @ typeName (vs_type s) @ ''`'') v
              else do {
                (idxInfos, elem) \<leftarrow>
                  analyzeIndices analyzeExpr (vs_type s) (vs_type s) (chain_indices chain);
                info \<leftarrow> analyzeExpr v (Some elem) Ctx_Normal;
                whenA (\<not> sameType elem (ei_type info))
                  (errorA (expr_span v) (''cannot assign value of type `'' @ typeName (ei_type info) @
                     ''` to element type `'' @ typeName elem @ ''`''));
                whenA (\<not> vs_isConst s)
                  (noteIndexedStoreToLocal (vs_bindingId s) (vs_type s) idxInfos (chain_indices chain)) })
        (\<lambda>_ \<Gamma>'. \<Gamma>' = \<Gamma> \<and> checks \<rho> \<Gamma> ?s \<Gamma>)"
      proof (cases s)
        case (Some b)
        then have b: "visible \<Gamma> (chain_rootName chain) = Some (binding_of b)" using s by simp
        have k: "known (vs_type b)" using known_visible[OF \<Gamma> b] by (simp add: binding_of_def)
        have c: "checks \<rho> \<Gamma> ?s \<Gamma>"
          if "vs_isMutable b" "index_chain \<Gamma> (vs_type b) (chain_indices chain) u" "typed \<Gamma> v u"
            "length (chain_indices chain) = length (t_arrayDimensions (vs_type b))" for u
          by (rule c_assign_element[OF p b _ chain_typed[OF p b, of u] chain_full])
            (use that in \<open>simp_all add: binding_of_def\<close>)
        have last: "stp \<rho> \<Gamma> (do {
            info \<leftarrow> analyzeExpr v (Some u) Ctx_Normal;
            whenA (\<not> sameType u (ei_type info)) (errorA (expr_span v) (m info));
            whenA (\<not> vs_isConst b) (noteIndexedStoreToLocal (vs_bindingId b) (vs_type b) infos (chain_indices chain)) })
            (\<lambda>_ \<Gamma>'. \<Gamma>' = \<Gamma> \<and> checks \<rho> \<Gamma> ?s \<Gamma>)"
          if "vs_isMutable b" "index_chain \<Gamma> (vs_type b) (chain_indices chain) u"
            "length (chain_indices chain) = length (t_arrayDimensions (vs_type b))" for infos u m
          by (rule stp_expr[OF \<Gamma> v], simp add: known_chain[OF that(2) k], intro st_growing, rule stp_check,
              intro st_growing, rule stp_mono[OF stp_same], intro es_rules arr_same)
            (use c that known_chain[OF that(2) k] in \<open>auto simp: ok_info_def sameType_known\<close>)
        show ?thesis unfolding Some option.case
          by (rule stp_if, rule stp_reject, rule stp_if, rule stp_reject, rule stp_if, rule stp_reject,
              rule stp_bind[OF stp_indices[OF \<Gamma> is_grouped]])
            (auto intro!: st_growing last)
      qed (simp add: stp_reject)
    qed (intro st_growing)
  qed (simp add: analyzeIndexAssign_def stp_reject)
qed

lemma deref_assign_checked:
  assumes \<Gamma>: "env_known \<Gamma>" and v: "grouped v" and p: "grouped p"
  shows "checked \<rho> \<Gamma> (AssignStmt sp (UnaryExpr usp Star p) v) (analyzeDerefAssign p v)"
proof (rule checked_leaf[OF _ \<Gamma>])
  show "stp \<rho> \<Gamma> (analyzeDerefAssign p v) (\<lambda>_ \<Gamma>'. \<Gamma>' = \<Gamma> \<and> checks \<rho> \<Gamma> (AssignStmt sp (UnaryExpr usp Star p) v) \<Gamma>)"
    unfolding analyzeDerefAssign_def Let_def
    by (rule stp_expr[OF \<Gamma> p], simp, intro st_growing, rule stp_if, rule stp_reject, rule stp_expr[OF \<Gamma> v])
      (auto simp: ok_info_def sameType_known intro!: st_growing stp_check_last c_assign_pointee)
qed

lemma assign_checked:
  assumes \<Gamma>: "env_known \<Gamma>" and s: "stmt_shape (AssignStmt sp target v)"
  shows "checked \<rho> \<Gamma> (AssignStmt sp target v) (analyzeAssign target v)"
proof -
  have r: "checked \<rho> \<Gamma> s (rejectTarget target v)" for s
    unfolding checked_def rejectTarget_def by (rule stp_reject)
  show ?thesis using r s name_assign_checked[OF \<Gamma>] index_assign_checked[OF \<Gamma>] deref_assign_checked[OF \<Gamma>]
    by (cases target) (auto simp: analyzeAssign_def)
qed

lemma call_checked:
  assumes \<Gamma>: "env_known \<Gamma>" and s: "stmt_shape (CallStmt sp csp callee es)"
  shows "checked \<rho> \<Gamma> (CallStmt sp csp callee es) (analyzeCallStmt sp csp callee es)"
proof (rule checked_leaf[OF _ \<Gamma>])
  have "tp \<Gamma> (analyzeCallExpr analyzeExpr csp callee es) (ok_info \<Gamma> (CallExpr csp callee es))"
    by (rule call_typed[OF \<Gamma>]) (use s analyzeExpr_typed[OF \<Gamma>] in \<open>auto simp: list_all_iff\<close>)
  note call = stp_tp[OF this analyzeCallExpr_only_bag[OF rec_only_bag_analyzeExpr]]
  have void: "t = builtinScalar Void" if "Type_isVoid t" for t :: Type
    using that by (cases t) (auto simp: Type_isVoid_def builtinScalar_def mk_type_def)
  show "stp \<rho> \<Gamma> (analyzeCallStmt sp csp callee es) (\<lambda>_ \<Gamma>'. \<Gamma>' = \<Gamma> \<and> checks \<rho> \<Gamma> (CallStmt sp csp callee es) \<Gamma>)"
    unfolding analyzeCallStmt_def
    by (rule stp_bind[OF call], intro st_growing)
      (auto simp: ok_info_def known_valid dest!: void intro!: stp_check_last c_call)
qed


section \<open>All statements\<close>

lemma known_enter: "env_known (enter \<Gamma>) = env_known \<Gamma>"
  by (simp add: env_known_def enter_def)

lemma known_leave: "env_known \<Gamma> \<Longrightarrow> env_known (leave \<Gamma>)"
  by (cases "en_scopes \<Gamma>") (auto simp: env_known_def leave_def)

lemma length_scopes: "length (en_scopes (enter \<Gamma>)) = Suc (length (en_scopes \<Gamma>))"
  "length (en_scopes (leave \<Gamma>)) = length (en_scopes \<Gamma>) - 1"
  by (simp_all add: enter_def leave_def)

text \<open>What holds of the environments between the steps of a statement.\<close>

definition env_ok :: "nat \<Rightarrow> env \<Rightarrow> bool" where
  "env_ok n \<Gamma> \<longleftrightarrow> env_known \<Gamma> \<and> length (en_scopes \<Gamma>) = n"

definition sound_for :: "Type \<Rightarrow> nat \<Rightarrow> Stmt \<Rightarrow> bool" where
  "sound_for \<rho> n s \<longleftrightarrow> growing (analyzeStmt s) \<and>
     (\<forall>\<Gamma>. env_ok n \<Gamma> \<longrightarrow> stp \<rho> \<Gamma> (analyzeStmt s) (\<lambda>_ \<Gamma>'. env_ok n \<Gamma>' \<and> checks \<rho> \<Gamma> s \<Gamma>'))"

lemma env_ok_enter: "env_ok n \<Gamma> \<Longrightarrow> env_ok (Suc n) (enter \<Gamma>)"
  by (simp add: env_ok_def known_enter length_scopes)

lemma env_ok_leave: "env_ok (Suc n) \<Gamma> \<Longrightarrow> env_ok n (leave \<Gamma>)"
  by (simp add: env_ok_def known_leave length_scopes)

lemma checked_leaf_stmt:
  assumes "checked \<rho> \<Gamma> s m" "env_ok n \<Gamma>"
  shows "stp \<rho> \<Gamma> (do { m; returnA v }) (\<lambda>_ \<Gamma>'. env_ok n \<Gamma>' \<and> checks \<rho> \<Gamma> s \<Gamma>')"
  by (rule stp_bind[OF assms(1)[unfolded checked_def]])
    (use assms(2) in \<open>auto simp: env_ok_def intro: st_growing stp_return\<close>)

lemma list_sound:
  assumes "\<And>s. s \<in> set ss \<Longrightarrow> sound_for \<rho> n s" "env_ok n \<Gamma>"
  shows "stp \<rho> \<Gamma> (traverse_list analyzeStmt ss) (\<lambda>_ \<Gamma>'. env_ok n \<Gamma>' \<and> checks_list \<rho> \<Gamma> ss \<Gamma>')"
  using assms
proof (induction ss arbitrary: \<Gamma>)
  case (Cons s ss)
  have g: "growing (traverse_list analyzeStmt ss)"
    using Cons.prems(1) by (intro st_growing) (simp add: sound_for_def)
  have "stp \<rho> \<Gamma> (analyzeStmt s) (\<lambda>_ \<Gamma>'. env_ok n \<Gamma>' \<and> checks \<rho> \<Gamma> s \<Gamma>')"
    using Cons.prems by (simp add: sound_for_def)
  then show ?case unfolding traverse_list.simps
    by (rule stp_bind) (auto intro!: st_growing g stp_bind[OF Cons.IH] Cons.prems(1) stp_return c_cons)
qed (simp add: stp_return c_nil)

lemma opt_sound:
  assumes "\<And>s. v = Some s \<Longrightarrow> sound_for \<rho> n s" "env_ok n \<Gamma>"
  shows "stp \<rho> \<Gamma> (case v of None \<Rightarrow> returnA b | Some s \<Rightarrow> analyzeStmt s)
      (\<lambda>_ \<Gamma>'. env_ok n \<Gamma>' \<and> checks_opt \<rho> \<Gamma> v \<Gamma>')"
  using assms
  by (auto simp: sound_for_def split: option.split intro!: stp_return c_none st_growing elim!: allE stp_mono intro: c_some)

lemma opt_growing:
  "(\<And>s. v = Some s \<Longrightarrow> sound_for \<rho> n s) \<Longrightarrow> growing (case v of None \<Rightarrow> returnA b | Some s \<Rightarrow> analyzeStmt s)"
  by (auto simp: sound_for_def split: option.split intro: st_growing)

lemma block_sound:
  assumes "\<And>s. s \<in> set ss \<Longrightarrow> sound_for \<rho> (Suc n) s" "env_ok n \<Gamma>"
  shows "stp \<rho> \<Gamma> (analyzeBlock analyzeStmt ss) (\<lambda>_ \<Gamma>'. env_ok n \<Gamma>' \<and> checks \<rho> \<Gamma> (BlockStmt sp ss) \<Gamma>')"
proof -
  have g: "growing (traverse_list analyzeStmt ss)"
    using assms(1) by (intro st_growing) (simp add: sound_for_def)
  show ?thesis unfolding analyzeBlock_def
    by (rule stp_bind[OF stp_push], intro st_growing g, hypsubst, rule stp_bind[OF list_sound[OF assms(1)]],
        assumption, rule env_ok_enter[OF assms(2)], intro st_growing, rule stp_bind[OF stp_pop], intro st_growing)
      (auto intro!: stp_return env_ok_leave c_block)
qed


lemma plain_same:
  "state_io_rel env_same (modifyA (\<lambda>st. st\<lparr>an_loopDepth := h st\<rparr>))"
  "state_io_rel env_same (modifyA (\<lambda>st. st\<lparr>an_inForStepClause := b\<rparr>))"
  "state_io_rel env_same (getsA f)"
  by (intro es_rules; simp add: env_same_def env_of_def)+

lemma plain_growing:
  "growing (modifyA (\<lambda>st. st\<lparr>an_loopDepth := h st\<rparr>))" "growing (modifyA (\<lambda>st. st\<lparr>an_inForStepClause := b\<rparr>))"
  by (rule modifyA_rel, simp add: bag_grows_def)+

lemma child_sound:
  "sound_for \<rho> n t \<Longrightarrow> env_ok n \<Gamma> \<Longrightarrow>
    stp \<rho> \<Gamma> (analyzeChild analyzeStmt (Some t)) (\<lambda>_ \<Gamma>'. env_ok n \<Gamma>' \<and> checks \<rho> \<Gamma> t \<Gamma>')"
  "sound_for \<rho> n t \<Longrightarrow> growing (analyzeChild analyzeStmt (Some t))"
  by (simp_all add: sound_for_def analyzeChild_def)

lemma stp_skips:
  "state_io_rel env_same m \<Longrightarrow> P v \<Gamma> \<Longrightarrow> stp \<rho> \<Gamma> (do { m; returnA v }) P"
  by (rule stp_skip) (auto intro: st_growing stp_return)

lemma if_sound:
  assumes e: "grouped e" and t: "sound_for \<rho> n t" and el: "\<And>s. el = Some s \<Longrightarrow> sound_for \<rho> n s" and \<Gamma>: "env_ok n \<Gamma>"
  shows "stp \<rho> \<Gamma> (analyzeIf analyzeStmt sp e (Some t) el)
    (\<lambda>_ \<Gamma>'. env_ok n \<Gamma>' \<and> checks \<rho> \<Gamma> (IfStmt sp e (Some t) el) \<Gamma>')"
proof -
  note g = child_sound(2)[OF t] opt_growing[OF el, where b = False, simplified]
  have k: "env_known \<Gamma>" using \<Gamma> by (simp add: env_ok_def)
  have last: "stp \<rho> \<Gamma>1 (do {
      elseReturns \<leftarrow> (case el of None \<Rightarrow> returnA False | Some s \<Rightarrow> analyzeStmt s);
      afterElse \<leftarrow> getFlow;
      mergeIf sp f0 f1 afterElse h b elseReturns;
      returnA (h \<and> b \<and> elseReturns) })
      (\<lambda>_ \<Gamma>'. env_ok n \<Gamma>' \<and> checks \<rho> \<Gamma> (IfStmt sp e (Some t) el) \<Gamma>')"
    if c: "\<exists>tc. typed \<Gamma> e tc \<and> canBeCondition tc" and "env_ok n \<Gamma>1 \<and> checks \<rho> \<Gamma> t \<Gamma>1" for \<Gamma>1 f0 f1 h b
    by (rule stp_bind[OF opt_sound[OF el]], assumption, use that in blast, intro st_growing,
        rule stp_skip[OF flow_same(1)], intro st_growing, rule stp_skips[OF mergeIf_same])
      (use that c_if in blast)
  show ?thesis unfolding analyzeIf_def
    by (rule stp_bind[OF condition_typed[OF k e]], intro st_growing g, assumption, elim conjE, hypsubst,
        rule stp_skip[OF flow_same(1)], intro st_growing g, assumption, rule stp_bind[OF child_sound(1)[OF t \<Gamma>]],
        intro st_growing g, assumption, rule stp_skip[OF flow_same(1)], intro st_growing g, assumption,
        rule stp_skip[OF flow_same(2)], intro st_growing g, assumption, rule last)
qed

lemma while_sound:
  assumes e: "grouped e" and t: "sound_for \<rho> n t" and \<Gamma>: "env_ok n \<Gamma>"
  shows "stp \<rho> \<Gamma> (analyzeWhile analyzeStmt sp e (Some t))
    (\<lambda>_ \<Gamma>'. env_ok n \<Gamma>' \<and> checks \<rho> \<Gamma> (WhileStmt sp e (Some t)) \<Gamma>')"
proof -
  note g = child_sound(2)[OF t] plain_growing
  have k: "env_known \<Gamma>" using \<Gamma> by (simp add: env_ok_def)
  have last: "stp \<rho> \<Gamma>1 (do {
      modifyA (\<lambda>st. st\<lparr>an_loopDepth := an_loopDepth st - 1\<rparr>);
      afterBody \<leftarrow> getsA an_definiteAssign;
      setFlow saved;
      noteLoopDefAssignLosses sp (fl_def saved) afterBody;
      returnA False }) (\<lambda>_ \<Gamma>'. env_ok n \<Gamma>' \<and> checks \<rho> \<Gamma> (WhileStmt sp e (Some t)) \<Gamma>')"
    if "\<exists>tc. typed \<Gamma> e tc \<and> canBeCondition tc" "env_ok n \<Gamma>1 \<and> checks \<rho> \<Gamma> t \<Gamma>1" for \<Gamma>1 saved
    by (rule stp_skip[OF plain_same(1)], intro st_growing, rule stp_skip[OF plain_same(3)], intro st_growing,
        rule stp_skip[OF flow_same(2)], intro st_growing, rule stp_skips[OF flow_same(4)])
      (use that c_while in blast)
  show ?thesis unfolding analyzeWhile_def
    by (rule stp_skip[OF flow_same(1)], intro st_growing g, rule stp_bind[OF condition_typed[OF k e]],
        intro st_growing g, elim conjE, hypsubst, rule stp_skip[OF plain_same(1)], intro st_growing g,
        rule stp_bind[OF child_sound(1)[OF t \<Gamma>]], intro st_growing g, rule last)
qed


lemma step_growing:
  assumes "\<And>s. step = Some s \<Longrightarrow> sound_for \<rho> n s"
  shows "growing (case step of
        None \<Rightarrow> returnA ()
      | Some s \<Rightarrow> do {
          modifyA (\<lambda>st. st\<lparr>an_inForStepClause := True\<rparr>);
          analyzeStmt s;
          modifyA (\<lambda>st. st\<lparr>an_inForStepClause := False\<rparr>) })"
  using assms by (auto simp: sound_for_def split: option.split intro!: st_growing plain_growing)

lemma step_sound:
  assumes st: "\<And>s. step = Some s \<Longrightarrow> sound_for \<rho> n s" and \<Gamma>: "env_ok n \<Gamma>"
  shows "stp \<rho> \<Gamma> (case step of
        None \<Rightarrow> returnA ()
      | Some s \<Rightarrow> do {
          modifyA (\<lambda>st. st\<lparr>an_inForStepClause := True\<rparr>);
          analyzeStmt s;
          modifyA (\<lambda>st. st\<lparr>an_inForStepClause := False\<rparr>) })
    (\<lambda>_ \<Gamma>'. env_ok n \<Gamma>' \<and> checks_opt \<rho> \<Gamma> step \<Gamma>')"
proof (cases step)
  case (Some s)
  have s: "growing (analyzeStmt s)" "stp \<rho> \<Gamma> (analyzeStmt s) (\<lambda>_ \<Gamma>'. env_ok n \<Gamma>' \<and> checks \<rho> \<Gamma> s \<Gamma>')"
    using st[OF Some] \<Gamma> by (simp_all add: sound_for_def)
  show ?thesis unfolding Some option.case
    by (rule stp_skip[OF plain_same(2)], intro st_growing plain_growing s, rule stp_bind[OF s(2)],
        intro plain_growing, rule stp_mono[OF stp_same[OF plain_same(2)]]) (auto intro: c_some)
qed (use \<Gamma> in \<open>auto intro: stp_return c_none\<close>)

lemma for_sound:
  assumes init: "\<And>s. init = Some s \<Longrightarrow> sound_for \<rho> (Suc n) s" and c: "pred_option grouped c"
    and t: "sound_for \<rho> (Suc n) t" and st: "\<And>s. step = Some s \<Longrightarrow> sound_for \<rho> (Suc n) s" and \<Gamma>: "env_ok n \<Gamma>"
  shows "stp \<rho> \<Gamma> (analyzeFor analyzeStmt sp init c step (Some t))
    (\<lambda>_ \<Gamma>'. env_ok n \<Gamma>' \<and> checks \<rho> \<Gamma> (ForStmt sp init c step (Some t)) \<Gamma>')"
proof -
  note g = child_sound(2)[OF t] plain_growing opt_growing[OF init, where b = False, simplified] step_growing[OF st]
  have cond: "stp \<rho> \<Gamma>1 (case c of None \<Rightarrow> returnA () | Some e \<Rightarrow> analyzeCondition e l)
      (\<lambda>_ \<Gamma>'. \<Gamma>' = \<Gamma>1 \<and> (case c of None \<Rightarrow> True | Some e \<Rightarrow> \<exists>t. typed \<Gamma>1 e t \<and> canBeCondition t))"
    if "env_ok (Suc n) \<Gamma>1" for \<Gamma>1 l
    using c condition_typed[of \<Gamma>1 _ \<rho> l] that by (auto simp: env_ok_def split: option.split intro!: stp_return)
  have last: "stp \<rho> \<Gamma>3 (do {
     modifyA (\<lambda>st. st\<lparr>an_loopDepth := an_loopDepth st - 1\<rparr>);
     afterBody \<leftarrow> getsA an_definiteAssign;
     setFlow afterInit;
     noteLoopDefAssignLosses sp (fl_def afterInit) afterBody;
     popScope;
     returnA False }) (\<lambda>_ \<Gamma>'. env_ok n \<Gamma>' \<and> checks \<rho> \<Gamma> (ForStmt sp init c step (Some t)) \<Gamma>')"
    if "checks_opt \<rho> (enter \<Gamma>) init \<Gamma>1" "case c of None \<Rightarrow> True | Some e \<Rightarrow> \<exists>t. typed \<Gamma>1 e t \<and> canBeCondition t"
      "checks \<rho> \<Gamma>1 t \<Gamma>2" "checks_opt \<rho> \<Gamma>2 step \<Gamma>3" "env_ok (Suc n) \<Gamma>3" for \<Gamma>1 \<Gamma>2 \<Gamma>3 afterInit
    by (rule stp_skip[OF plain_same(1)], intro st_growing, rule stp_skip[OF plain_same(3)], intro st_growing,
        rule stp_skip[OF flow_same(2)], intro st_growing, rule stp_skip[OF flow_same(4)], intro st_growing,
        rule stp_bind[OF stp_pop], intro st_growing, rule stp_return)
      (use that env_ok_leave c_for[OF that(1-4)] in auto)
  show ?thesis unfolding analyzeFor_def
    by (rule stp_bind[OF stp_push], intro st_growing g, (assumption+)?, hypsubst,
        rule stp_bind[OF opt_sound[OF init env_ok_enter[OF \<Gamma>]]], assumption, intro st_growing g, (assumption+)?,
        elim conjE, rule stp_skip[OF flow_same(1)], intro st_growing g, (assumption+)?,
        rule stp_bind[OF cond], assumption, intro st_growing g, (assumption+)?, elim conjE, hypsubst,
        rule stp_skip[OF plain_same(1)], intro st_growing g, (assumption+)?,
        rule stp_bind[OF child_sound(1)[OF t]], assumption, intro st_growing g, (assumption+)?, elim conjE,
        rule stp_bind[OF step_sound[OF st]], assumption, assumption, intro st_growing g, elim conjE, rule last)
qed

lemma analyzeStmt_sound:
  assumes \<rho>: "known \<rho>"
  shows "stmt_complete s \<Longrightarrow> stmt_shape s \<Longrightarrow> n \<noteq> 0 \<Longrightarrow> sound_for \<rho> n s"
proof (induction s arbitrary: n rule: analyzeStmt.induct)
  case (1 s)
  have c: "sound_for \<rho> k x" if "size x < size s" "stmt_complete x" "stmt_shape x" "k \<noteq> 0" for x k
    using 1(1) that by blast
  have "stp \<rho> \<Gamma> (stmtStep analyzeStmt s) (\<lambda>_ \<Gamma>'. env_ok n \<Gamma>' \<and> checks \<rho> \<Gamma> s \<Gamma>')" if \<Gamma>: "env_ok n \<Gamma>" for \<Gamma>
  proof -
    have k: "env_known \<Gamma>" "en_scopes \<Gamma> \<noteq> []" using \<Gamma> 1(4) by (auto simp: env_ok_def)
    note leaf = checked_leaf_stmt[OF _ \<Gamma>]
    show ?thesis
    proof (cases s)
      case (BlockStmt sp ss)
      have "sound_for \<rho> (Suc n) x" if "x \<in> set ss" for x
        by (rule c) (use that BlockStmt 1(2,3) size_elem[OF that] in \<open>auto simp: list_all_iff\<close>)
      then show ?thesis unfolding BlockStmt stmtStep_def Stmt.case by (rule block_sound[OF _ \<Gamma>])
    next
      case (LetStmt sp m x nsp t init)
      then show ?thesis using leaf[OF let_checked[OF k]] 1(3) by (simp only: stmtStep_def Stmt.case neverReturns_def)
    next
      case (AssignStmt sp target v)
      then show ?thesis using leaf[OF assign_checked[OF k(1)]] 1(3) by (simp only: stmtStep_def Stmt.case neverReturns_def)
    next
      case (ReturnStmt sp v)
      then show ?thesis using leaf[OF return_checked[OF k(1) _ \<rho>]] 1(3) by (simp add: stmtStep_def)
    next
      case (IfStmt sp e t el)
      then obtain t' where t: "t = Some t'" using 1(2) by (auto split: option.splits)
      show ?thesis unfolding IfStmt stmtStep_def Stmt.case t
        by (rule if_sound[OF _ c c \<Gamma>]) (use IfStmt t 1 in auto)
    next
      case (WhileStmt sp e body)
      then obtain b where b: "body = Some b" using 1(2) by (auto split: option.splits)
      show ?thesis unfolding WhileStmt stmtStep_def Stmt.case b
        by (rule while_sound[OF _ c \<Gamma>]) (use WhileStmt b 1 in auto)
    next
      case (ForStmt sp init e st body)
      then obtain b where b: "body = Some b" using 1(2) by (auto split: option.splits)
      show ?thesis unfolding ForStmt stmtStep_def Stmt.case b
        by (rule for_sound[OF c _ c c \<Gamma>]) (use ForStmt b 1 in auto)
    next
      case (CallStmt sp csp callee es)
      then show ?thesis using leaf[OF call_checked[OF k(1)]] 1(3) by (simp only: stmtStep_def Stmt.case neverReturns_def)
    next
      case (BreakStmt sp)
      have "checked \<rho> \<Gamma> s (analyzeBreak sp)" unfolding BreakStmt analyzeBreak_def
        by (rule checked_leaf[OF _ k(1)], rule stp_skip[OF plain_same(3)], intro st_growing, rule stp_check_last)
          (simp add: c_break)
      from leaf[OF this] show ?thesis by (simp add: BreakStmt stmtStep_def neverReturns_def)
    next
      case (ContinueStmt sp)
      have "checked \<rho> \<Gamma> s (analyzeContinue sp)" unfolding ContinueStmt analyzeContinue_def
        by (rule checked_leaf[OF _ k(1)], rule stp_skip[OF plain_same(3)], intro st_growing,
            rule stp_skip[OF plain_same(3)], intro st_growing, rule stp_if, rule stp_error, rule stp_check_last)
          (simp add: c_continue)
      from leaf[OF this] show ?thesis by (simp add: ContinueStmt stmtStep_def neverReturns_def)
    qed
  qed
  then show ?case unfolding sound_for_def
    using quiet_growing[OF analyzeStmt_quiet[OF 1(2)]] by (subst (2) analyzeStmt_unfold) blast
qed

end
