(* ===== verification/TypingUnit.thy ===== *)
theory TypingUnit
  imports TypingStmts
begin

text \<open>
  Soundness for declarations and whole files: the tables the analyser collects are the environment
  of the file, names are declared once, and every item is well typed in that environment.
\<close>

section \<open>The tables\<close>

lemma stp_cwp:
  assumes "\<And>\<rho> \<Gamma>. stp \<rho> \<Gamma> m (\<lambda>x _. P x)" "state_io_rel only_bag m"
  shows "cwp m (\<lambda>x st'. only_bag st st' \<and> P x) st"
proof -
  have "cwp m (\<lambda>x st'. P x) st" using assms(1)[of "an_currentReturnType st" "env_of st"]
    by (auto simp: stp_def elim!: allE[where x = st] cwp_mono)
  then show ?thesis by (rule cwp_rel_mono[OF _ assms(2)]) simp
qed

lemma validate_only_bag: "state_io_rel only_bag (validateFixedArrayDecl t sp)" "state_io_rel only_bag (validatePointerDecl t sp)"
  unfolding validateFixedArrayDecl_def validatePointerDecl_def by (intro ob_rules)+

text \<open>The three checks of a declared type that may not be a pointer.\<close>

lemma declared_type:
  "cwp (do { validateFixedArrayDecl t sp; validatePointerDecl t sp; whenA (Type_isPointer t) (errorA sp' m) })
     (\<lambda>_ st'. only_bag st st' \<and> simple_declarable t) st"
  by (rule stp_cwp, rule stp_validated, intro st_growing, rule stp_check_last)
    (auto simp: simple_declarable_def intro!: ob_rules validate_only_bag)

lemma collectParameter_only_bag: "state_io_rel only_bag (collectParameter p)"
  unfolding collectParameter_def Let_def by (intro ob_rules validate_only_bag)

lemma parameter_collected:
  "cwp (collectParameter p) (\<lambda>t st'. only_bag st st' \<and> t = parameter_type p \<and> simple_declarable t) st"
  unfolding collectParameter_def Let_def
  by (rule stp_cwp, rule stp_validated, intro st_growing, rule stp_check, intro st_growing, rule stp_return)
    (auto simp: simple_declarable_def parameter_type_def intro!: ob_rules validate_only_bag)

lemma parameters_collected:
  "cwp (traverse_list collectParameter ps)
     (\<lambda>ts st'. only_bag st st' \<and> ts = map parameter_type ps \<and> list_all simple_declarable ts) st"
proof -
  have "cwp (traverse_list collectParameter ps)
     (\<lambda>ts st'. only_bag st st' \<and> list_all2 (\<lambda>p t. t = parameter_type p \<and> simple_declarable t) ps ts) st"
    by (rule cwp_traverse, rule only_bag_growing[OF collectParameter_only_bag],
        rule cwp_mono[OF parameter_collected]) (auto simp: only_bag_refl intro: only_bag_trans)
  then show ?thesis
    by (rule cwp_mono) (auto simp: list_all2_conv_all_nth list_all_length intro: nth_equalityI)
qed

lemma topLevel_declared:
  "cwp (declareTopLevel name sp) (\<lambda>_ st'. Mapping.lookup (an_topLevelNames st) name = None \<and>
     st' = st\<lparr>an_topLevelNames := Mapping.update name sp (an_topLevelNames st)\<rparr>) st"
proof (cases "Mapping.lookup (an_topLevelNames st) name")
  case None
  then show ?thesis by (simp add: declareTopLevel_def cwp_def getsA_def modifyA_def)
next
  case (Some p)
  then show ?thesis by (simp add: declareTopLevel_def cwp_def getsA_def modifyA_def errorA_def noteA_def clean_def)
qed

text \<open>What collecting the items \<open>is\<close> establishes.\<close>

fun item_declared :: "Item \<Rightarrow> bool" where
  "item_declared (FunctionDecl sp name nsp ps rt bsp body) \<longleftrightarrow>
     builtin_signature name = None \<and> list_all (\<lambda>p. simple_declarable (parameter_type p)) ps \<and>
     simple_declarable (typeFromSyntax rt)"
| "item_declared (ConstDecl sp name nsp t init) \<longleftrightarrow> simple_declarable (typeFromSyntax t)"

definition collected :: "TranslationUnit \<Rightarrow> analyzer \<Rightarrow> bool" where
  "collected is st \<longleftrightarrow> env_of st = unit_env is \<and>
     (\<forall>n. Mapping.lookup (an_topLevelNames st) n \<noteq> None \<longleftrightarrow> n \<in> item_name ` set is) \<and>
     distinct (map item_name is) \<and> list_all item_declared is"

lemma collected_bag: "only_bag st st' \<Longrightarrow> collected is st \<Longrightarrow> collected is st'"
  unfolding collected_def using env_of_only_bag[of st st']
  by (metis (no_types, lifting) analyzer.select_convs(4) analyzer.surjective analyzer.update_convs(1) only_bag_def)

lemma names_filter:
  "map_of (List.map_filter item_signature is) n \<noteq> None \<Longrightarrow> n \<in> item_name ` set is"
  "map_of (List.map_filter item_constant is) n \<noteq> None \<Longrightarrow> n \<in> item_name ` set is"
proof (induction "is")
  case (Cons i "is")
  { case 1 with Cons show ?case by (cases i) (auto simp: List.map_filter_simps split: if_splits) next
    case 2 with Cons show ?case by (cases i) (auto simp: List.map_filter_simps split: if_splits) }
qed (auto simp: List.map_filter_simps)


lemma unit_env_snoc_function:
  assumes "builtin_signature name = None" "name \<notin> item_name ` set is"
  shows "unit_env (is @ [FunctionDecl sp name nsp ps rt bsp body]) = (unit_env is)\<lparr>en_functions := (en_functions (unit_env is))
    (name \<mapsto> \<lparr>sg_parameters = map parameter_type ps, sg_return = typeFromSyntax rt, sg_builtin = False\<rparr>)\<rparr>"
proof -
  have "map_of (List.map_filter item_signature is) name = None" using names_filter(1)[of "is" name] assms(2) by blast
  then show ?thesis using assms(1)
    by (auto simp: unit_env_def List.map_filter_def map_of_append map_add_def fun_eq_iff split: option.split)
qed

lemma unit_env_snoc_const:
  assumes "name \<notin> item_name ` set is"
  shows "unit_env (is @ [ConstDecl sp name nsp t init]) = (unit_env is)\<lparr>en_globals := (en_globals (unit_env is))
    (name \<mapsto> \<lparr>b_type = typeFromSyntax t, b_mutable = False, b_const = True\<rparr>)\<rparr>"
proof -
  have "map_of (List.map_filter item_constant is) name = None" using names_filter(2)[of "is" name] assms by blast
  then show ?thesis
    by (auto simp: unit_env_def List.map_filter_def map_of_append map_add_def fun_eq_iff split: option.split)
qed

lemma env_of_update:
  "env_of (st\<lparr>an_functions := Mapping.update f s (an_functions st)\<rparr>) =
     (env_of st)\<lparr>en_functions := (en_functions (env_of st))(f \<mapsto> signature_of s)\<rparr>"
  "env_of (st\<lparr>an_globals := Mapping.update x v (an_globals st)\<rparr>) =
     (env_of st)\<lparr>en_globals := (en_globals (env_of st))(x \<mapsto> binding_of v)\<rparr>"
  "env_of (st\<lparr>an_topLevelNames := m\<rparr>) = env_of st"
  by (auto simp: env_of_def fun_eq_iff lookup_update')

lemma collect_growing: "growing (declareTopLevel name sp)" "growing (collectParameter p)" "growing (collectItem i)"
proof -
  show "growing (declareTopLevel name sp)" "growing (collectParameter p)" "growing (collectItem i)"
    using collect_sound(1)[of name sp] collect_sound(2)[of p] collectItem_sound[of i]
    by (auto simp: state_io_rel_def sound_step_def bag_grows_def)
qed

lemma topLevel_only_bag: "only_bag st st' \<Longrightarrow> an_topLevelNames st' = an_topLevelNames st"
  unfolding only_bag_def by (metis analyzer.select_convs(4) analyzer.surjective analyzer.update_convs(1))

lemma collected_snoc:
  assumes "collected is st" "item_name i \<notin> item_name ` set is" "item_declared i" "env_of st' = unit_env (is @ [i])"
    "an_topLevelNames st' = Mapping.update (item_name i) sp (an_topLevelNames st)"
  shows "collected (is @ [i]) st'"
  using assms unfolding collected_def by (auto simp: lookup_update')

lemma const_collected:
  assumes "collected is st"
  shows "cwp (collectConst name nsp t) (\<lambda>_. collected (is @ [ConstDecl sp name nsp t init])) st"
proof -
  have p: "growing (modifyA (\<lambda>st. st\<lparr>an_globals := f st\<rparr>))" for f
    by (rule modifyA_rel) (simp add: bag_grows_def)
  let ?v = "\<lparr>vs_type = typeFromSyntax t, vs_isMutable = False, vs_isConst = True, vs_nameSpan = nsp, vs_bindingId = 0\<rparr>"
  let ?st1 = "st\<lparr>an_topLevelNames := Mapping.update name nsp (an_topLevelNames st)\<rparr>"
  have fin: "collected (is @ [ConstDecl sp name nsp t init]) (st2\<lparr>an_globals := Mapping.update name ?v (an_globals st2)\<rparr>)"
    if "Mapping.lookup (an_topLevelNames st) name = None" "simple_declarable (typeFromSyntax t)" "only_bag ?st1 st2" for st2
  proof -
    have n: "name \<notin> item_name ` set is" using that(1) assms unfolding collected_def by metis
    have e: "env_of st2 = unit_env is" using env_of_only_bag[OF that(3)] assms by (simp add: env_of_update collected_def)
    show ?thesis
      by (rule collected_snoc[OF assms])
        (simp_all add: n env_of_update e unit_env_snoc_const[OF n] binding_of_def that(2) topLevel_only_bag[OF that(3)])
  qed
  have "cwp (do {
      declareTopLevel name nsp;
      do { validateFixedArrayDecl (typeFromSyntax t) (ts_span t); validatePointerDecl (typeFromSyntax t) (ts_span t);
        whenA (Type_isPointer (typeFromSyntax t)) (errorA (ts_span t) ''module const pointers are not implemented yet'') };
      modifyA (\<lambda>st. st\<lparr>an_globals := Mapping.update name ?v (an_globals st)\<rparr>) })
    (\<lambda>_. collected (is @ [ConstDecl sp name nsp t init])) st"
    by (rule cwp_bind, intro st_growing p, rule cwp_mono[OF topLevel_declared], elim conjE, hypsubst,
        rule cwp_bind, intro p, rule cwp_mono[OF declared_type], rule cwp_modify) (use fin in blast)
  then show ?thesis by (simp add: collectConst_def Let_def)
qed


lemma builtin_lookup:
  assumes "collected is st" "n \<notin> item_name ` set is"
  shows "(case Mapping.lookup (an_functions st) n of None \<Rightarrow> False | Some f \<Rightarrow> fs_isBuiltin f) \<longleftrightarrow>
    builtin_signature n \<noteq> None"
proof -
  have "en_functions (unit_env is) n = map_option signature_of (Mapping.lookup (an_functions st) n)"
    using assms(1) by (simp add: collected_def env_of_def flip: env.select_convs(1)) (metis env.select_convs(1))
  moreover have "map_of (List.map_filter item_signature is) n = None" using names_filter(1) assms(2) by blast
  ultimately show ?thesis
    by (cases "Mapping.lookup (an_functions st) n")
      (auto simp: unit_env_def signature_of_def builtin_signature_def split: option.splits)
qed

lemma function_collected:
  assumes "collected is st"
  shows "cwp (collectFunction name nsp ps rt) (\<lambda>_. collected (is @ [FunctionDecl sp name nsp ps rt bsp body])) st"
proof -
  have p: "growing (modifyA (\<lambda>st. st\<lparr>an_functions := f st\<rparr>))" for f
    by (rule modifyA_rel) (simp add: bag_grows_def)
  note g = st_growing p collect_growing
  let ?v = "\<lambda>pts. \<lparr>fs_nameSpan = nsp, fs_parameterTypes = pts, fs_returnType = typeFromSyntax rt, fs_isBuiltin = False\<rparr>"
  let ?st1 = "st\<lparr>an_topLevelNames := Mapping.update name nsp (an_topLevelNames st)\<rparr>"
  let ?done = "collected (is @ [FunctionDecl sp name nsp ps rt bsp body])"
  have n: "name \<notin> item_name ` set is" if "Mapping.lookup (an_topLevelNames st) name = None"
    using that assms unfolding collected_def by metis
  have b: "(case Mapping.lookup (an_functions ?st1) name of None \<Rightarrow> False | Some f \<Rightarrow> fs_isBuiltin f) \<longleftrightarrow>
      builtin_signature name \<noteq> None" if "Mapping.lookup (an_topLevelNames st) name = None"
    using builtin_lookup[OF assms n[OF that]] by simp
  have fin: "?done (st2\<lparr>an_functions := Mapping.update name (?v (map parameter_type ps)) (an_functions st2)\<rparr>)"
    if l: "Mapping.lookup (an_topLevelNames st) name = None" and bi: "builtin_signature name = None"
      and t: "simple_declarable (typeFromSyntax rt)" "list_all simple_declarable (map parameter_type ps)"
      and st2: "only_bag ?st1 st2" for st2
  proof -
    have e: "env_of st2 = unit_env is" using env_of_only_bag[OF st2] assms by (simp add: env_of_update collected_def)
    show ?thesis
      by (rule collected_snoc[OF assms])
        (use t in \<open>simp_all add: n[OF l] env_of_update e unit_env_snoc_function[OF bi n[OF l]] signature_of_def bi
           topLevel_only_bag[OF st2] list_all_length\<close>)
  qed
  have rest: "cwp (do {
      parameterTypes \<leftarrow> traverse_list collectParameter ps;
      do { validateFixedArrayDecl (typeFromSyntax rt) (ts_span rt); validatePointerDecl (typeFromSyntax rt) (ts_span rt);
        whenA (Type_isPointer (typeFromSyntax rt)) (errorA (ts_span rt) ''pointer return types are not implemented yet'') };
      modifyA (\<lambda>st. st\<lparr>an_functions := Mapping.update name (?v parameterTypes) (an_functions st)\<rparr>) })
    (\<lambda>_. ?done) ?st1"
    if "Mapping.lookup (an_topLevelNames st) name = None" "builtin_signature name = None"
    by (rule cwp_bind, intro g, rule cwp_mono[OF parameters_collected], elim conjE, hypsubst,
        rule cwp_bind, intro g, rule cwp_mono[OF declared_type], elim conjE, rule cwp_modify, rule fin[OF that])
      (auto intro: only_bag_trans)
  have "cwp (do {
      declareTopLevel name nsp;
      functions \<leftarrow> getsA an_functions;
      if (case Mapping.lookup functions name of None \<Rightarrow> False | Some f \<Rightarrow> fs_isBuiltin f) then
        errorA nsp (''cannot redefine built-in function `'' @ name @ ''`'')
      else do {
        parameterTypes \<leftarrow> traverse_list collectParameter ps;
        do { validateFixedArrayDecl (typeFromSyntax rt) (ts_span rt); validatePointerDecl (typeFromSyntax rt) (ts_span rt);
          whenA (Type_isPointer (typeFromSyntax rt)) (errorA (ts_span rt) ''pointer return types are not implemented yet'') };
        modifyA (\<lambda>st. st\<lparr>an_functions := Mapping.update name (?v parameterTypes) (an_functions st)\<rparr>) } })
    (\<lambda>_. ?done) st"
    by (rule cwp_bind, intro g, rule cwp_mono[OF topLevel_declared], elim conjE, hypsubst,
        rule cwp_bind, intro g, rule cwp_gets,
        rule cwp_if, rule cwp_error, rule rest, assumption) (use b in blast)
  then show ?thesis by (simp only: collectFunction_def Let_def bind_assoc)
qed


lemma items_collected:
  "collected pre st \<Longrightarrow> cwp (traverse_list collectItem is) (\<lambda>_. collected (pre @ is)) st"
proof (induction "is" arbitrary: pre st)
  case (Cons i "is")
  have i: "cwp (collectItem i) (\<lambda>_. collected (pre @ [i])) st"
    using Cons.prems by (cases i) (simp_all add: function_collected const_collected)
  show ?case unfolding traverse_list.simps
    by (rule cwp_bind, intro gr.keep_rules collect_growing, rule cwp_mono[OF i], rule cwp_bind, intro gr.keep_rules,
        rule cwp_mono[OF Cons.IH], assumption) (simp add: cwp_return)
qed (simp add: cwp_return)

lemma builtins_collected:
  "cwp installBuiltins (\<lambda>_. collected []) (AnalyzerImpl_new bag)"
proof -
  have "Mapping.lookup (fold (\<lambda>(name, f). Mapping.update name f) builtinTable Mapping.empty) f =
      map_of builtinTable f" for f
    by (simp add: builtinTable_def lookup_update')
  moreover have "fs_isBuiltin s" if "map_of builtinTable f = Some s" for f s
    using map_of_SomeD[OF that] by (auto simp: builtinTable_def builtinFunction_def)
  ultimately show ?thesis
    unfolding installBuiltins_def
    by (intro cwp_modify)
      (auto simp: collected_def AnalyzerImpl_new_def env_of_def unit_env_def fun_eq_iff signature_of_def
        builtin_signature_def List.map_filter_def split: option.split)
qed

lemma main_validated:
  "cwp validateMainIfPresent (\<lambda>_ st'. only_bag st st' \<and>
     (\<forall>m. Mapping.lookup (an_functions st) ''main'' = Some m \<longrightarrow>
        main_signature (fs_parameterTypes m) (fs_returnType m))) st"
proof -
  have "cwp (case Mapping.lookup (an_functions st) ''main'' of
       None \<Rightarrow> returnA ()
     | Some main \<Rightarrow> do {
         whenA (fs_parameterTypes main \<noteq> []) (errorA (fs_nameSpan main) m1);
         whenA (\<not> Type_isVoid (fs_returnType main) \<and>
             (Type_isFixedArray (fs_returnType main) \<or> t_kind (fs_returnType main) \<noteq> I32))
           (errorA (fs_nameSpan main) m2) })
     (\<lambda>_ st'. \<forall>m. Mapping.lookup (an_functions st) ''main'' = Some m \<longrightarrow>
        main_signature (fs_parameterTypes m) (fs_returnType m)) st" for m1 m2
    by (rule cwp_option, rule cwp_return, simp, intro cwp_bind st_growing cwp_when_error)
      (auto simp: main_signature_def)
  then have "cwp validateMainIfPresent (\<lambda>_ st'. \<forall>m. Mapping.lookup (an_functions st) ''main'' = Some m \<longrightarrow>
        main_signature (fs_parameterTypes m) (fs_returnType m)) st"
    unfolding validateMainIfPresent_def by (intro cwp_bind st_growing cwp_gets)
  moreover have "state_io_rel only_bag validateMainIfPresent"
    unfolding validateMainIfPresent_def by (intro ob_rules)
  ultimately show ?thesis by (rule cwp_rel_mono) simp
qed

section \<open>Bodies\<close>

lemma checks_decls:
  "checks \<rho> \<Gamma> s \<Gamma>' \<Longrightarrow> en_functions \<Gamma>' = en_functions \<Gamma> \<and> en_globals \<Gamma>' = en_globals \<Gamma>"
  "checks_list \<rho> \<Gamma>1 ss \<Gamma>1' \<Longrightarrow> en_functions \<Gamma>1' = en_functions \<Gamma>1 \<and> en_globals \<Gamma>1' = en_globals \<Gamma>1"
  "checks_opt \<rho> \<Gamma>2 so \<Gamma>2' \<Longrightarrow> en_functions \<Gamma>2' = en_functions \<Gamma>2 \<and> en_globals \<Gamma>2' = en_globals \<Gamma>2"
  by (induction rule: checks_checks_list_checks_opt.inducts) (auto simp: enter_def leave_def bind_local_def)

lemma parameter_growing: "growing (declareParameter p)"
  unfolding declareParameter_def by (intro st_growing)

lemma parameters_declared:
  assumes "env_ok (Suc n) \<Gamma>" "list_all (\<lambda>p. type_shape (pr_type p)) ps"
  shows "stp \<rho> \<Gamma> (traverse_list declareParameter ps) (\<lambda>_ \<Gamma>'. env_ok (Suc n) \<Gamma>' \<and> distinct (map pr_name ps) \<and>
    list_all (\<lambda>p. fresh \<Gamma> (pr_name p)) ps \<and>
    \<Gamma>' = foldl (\<lambda>\<Gamma> p. bind_local \<Gamma> (pr_name p) (parameter_type p) False) \<Gamma> ps)"
  using assms
proof (induction ps arbitrary: \<Gamma>)
  case (Cons p ps)
  let ?\<Gamma>1 = "bind_local \<Gamma> (pr_name p) (parameter_type p) False"
  have ne: "en_scopes \<Gamma> \<noteq> []" using Cons.prems(1) by (auto simp: env_ok_def)
  have ok: "env_ok (Suc n) ?\<Gamma>1"
    using Cons.prems ne known_bind_local[of \<Gamma> "parameter_type p"] known_typeFromSyntax[of "pr_type p"]
    by (simp add: env_ok_def length_bind_local parameter_type_def)
  have f: "fresh ?\<Gamma>1 x \<longleftrightarrow> x \<noteq> pr_name p \<and> fresh \<Gamma> x" for x
    by (simp add: fresh_def bind_local_def)
  have one: "stp \<rho> \<Gamma> (declareParameter p) (\<lambda>_ \<Gamma>'. fresh \<Gamma> (pr_name p) \<and> \<Gamma>' = ?\<Gamma>1)"
    unfolding declareParameter_def parameter_type_def
    by (rule stp_declared[OF ne], intro st_growing, rule stp_mono[OF stp_same[OF def_same(2)]]) simp
  show ?case unfolding traverse_list.simps
    by (rule stp_bind[OF one], intro gr.keep_rules parameter_growing, elim conjE, hypsubst,
        rule stp_bind[OF Cons.IH[OF ok]], use Cons.prems in simp, intro gr.keep_rules, rule stp_return)
      (auto simp: f list_all_iff)
qed (simp add: stp_return)

lemma function_body_typed:
  assumes \<Gamma>: "env_known \<Gamma>" "en_scopes \<Gamma> = []" and st: "env_of st = \<Gamma>"
    and i: "item_shape (FunctionDecl sp name nsp ps rt bsp body)" "stmt_complete (BlockStmt bsp body)"
  shows "cwp (analyzeFunction name nsp ps rt (BlockStmt bsp body))
    (\<lambda>_ st'. env_of st' = \<Gamma> \<and> distinct (map pr_name ps) \<and>
       (\<exists>\<Gamma>'. checks (typeFromSyntax rt) (parameters_env \<Gamma> ps) (BlockStmt bsp body) \<Gamma>')) st"
proof -
  let ?\<rho> = "typeFromSyntax rt"
  have k: "known ?\<rho>" using i(1) by (simp add: known_typeFromSyntax)
  have body: "sound_for ?\<rho> (Suc 0) (BlockStmt bsp body)"
    by (rule analyzeStmt_sound[OF k i(2)]) (use i(1) in auto)
  have g: "growing (analyzeStmt (BlockStmt bsp body))" using body by (simp add: sound_for_def)
  have g': "growing (resetFunctionState t)" for t
    unfolding resetFunctionState_def by (rule modifyA_rel) (simp add: bag_grows_def)
  have ok: "env_ok (Suc 0) (enter \<Gamma>)" using \<Gamma> by (simp add: env_ok_def known_enter length_scopes)
  have last: "stp ?\<rho> \<Gamma>1 (do { whenA b (errorA nsp m); popScope }) (\<lambda>_ \<Gamma>'. \<Gamma>' = \<Gamma> \<and> distinct (map pr_name ps) \<and>
       (\<exists>\<Gamma>'. checks ?\<rho> (parameters_env \<Gamma> ps) (BlockStmt bsp body) \<Gamma>'))"
    if "distinct (map pr_name ps)" "checks ?\<rho> (parameters_env \<Gamma> ps) (BlockStmt bsp body) \<Gamma>1"
      "env_ok (Suc 0) \<Gamma>1" for \<Gamma>1 b m
  proof -
    have d: "en_functions (foldl (\<lambda>\<Gamma> p. bind_local \<Gamma> (pr_name p) (parameter_type p) False) \<Gamma>0 qs) = en_functions \<Gamma>0 \<and>
        en_globals (foldl (\<lambda>\<Gamma> p. bind_local \<Gamma> (pr_name p) (parameter_type p) False) \<Gamma>0 qs) = en_globals \<Gamma>0"
      for \<Gamma>0 and qs :: "ParameterSyntax list" by (induction qs arbitrary: \<Gamma>0) (auto simp: bind_local_def)
    have "leave \<Gamma>1 = \<Gamma>"
      using checks_decls(1)[OF that(2)] that(3) \<Gamma>(2) d[of "enter \<Gamma>" ps]
      by (cases "en_scopes \<Gamma>1") (auto simp: env_ok_def parameters_env_def leave_def enter_def intro!: env.equality)
    then show ?thesis
      by (intro stp_check st_growing, intro stp_mono[OF stp_pop]) (use that in auto)
  qed
  have "stp ?\<rho> \<Gamma> (do {
     pushScope;
     traverse_list declareParameter ps;
     allPathsReturn \<leftarrow> analyzeStmt (BlockStmt bsp body);
     whenA (\<not> Type_isVoid ?\<rho> \<and> \<not> allPathsReturn) (errorA nsp m);
     popScope }) (\<lambda>_ \<Gamma>'. \<Gamma>' = \<Gamma> \<and> distinct (map pr_name ps) \<and>
       (\<exists>\<Gamma>'. checks ?\<rho> (parameters_env \<Gamma> ps) (BlockStmt bsp body) \<Gamma>'))" for m
    by (rule stp_bind[OF stp_push], intro st_growing parameter_growing g, hypsubst,
        rule stp_bind[OF parameters_declared[OF ok]], use i(1) in simp, intro st_growing g, elim conjE,
        rule stp_bind[OF body[unfolded sound_for_def, THEN conjunct2, rule_format]], assumption, intro st_growing,
        elim conjE, rule last) (simp_all add: parameters_env_def)
  note run = this
  have reset: "env_of (st\<lparr>an_currentReturnType := \<rho>, an_sawReturnValue := False, an_scopes := [], an_definiteAssign := {},
     an_defAssignReasons := Mapping.empty, an_scopeBindingIds := [], an_nextBindingId := 1\<rparr>) = \<Gamma>" for \<rho>
    using st \<Gamma>(2) by (auto simp: env_of_def)
  show ?thesis unfolding analyzeFunction_def Let_def
    by (rule cwp_bind, intro st_growing parameter_growing g, unfold resetFunctionState_def, rule cwp_modify,
        rule cwp_mono[OF run[unfolded stp_def, rule_format]]) (simp_all add: reset del: One_nat_def)
qed

lemma const_typed:
  assumes \<Gamma>: "env_known \<Gamma>" and st: "env_of st = \<Gamma>" and i: "item_shape (ConstDecl sp name nsp t init)"
  shows "cwp (analyzeConstDecl name t init)
    (\<lambda>_ st'. env_of st' = \<Gamma> \<and> typed \<Gamma> init (typeFromSyntax t) \<and> constant_expr \<Gamma> init) st"
proof -
  have k: "known (typeFromSyntax t)" "grouped init" using i by (simp_all add: known_typeFromSyntax)
  have "tp \<Gamma> (analyzeConstDecl name t init) (\<lambda>_. typed \<Gamma> init (typeFromSyntax t) \<and> constant_expr \<Gamma> init)"
    unfolding analyzeConstDecl_def Let_def
    by (rule tp_bind[OF tp_rec[OF analyzeExpr_typed[OF \<Gamma> k(2)]]], simp add: k, intro ex_growing, rule tp_check,
        intro ex_growing, rule tp_check_last) (use k in \<open>auto simp: ok_info_def sameType_known\<close>)
  then show ?thesis using st by (simp add: tp_def)
qed

section \<open>Files\<close>

lemma known_builtin: "builtin_signature f = Some s \<Longrightarrow> known (sg_return s) \<and> list_all known (sg_parameters s)"
  by (auto simp: builtin_signature_def builtinTable_def builtinFunction_def split: if_splits)

lemma unit_env_known: "list_all item_shape unit \<Longrightarrow> env_known (unit_env unit)"
proof -
  assume s: "list_all item_shape unit"
  have "known (b_type b)" if "(x, b) \<in> set (List.map_filter item_constant unit)" for x b
    using that s by (auto simp: List.map_filter_def list_all_iff elim!: item_constant.elims
        intro: known_typeFromSyntax dest!: bspec)
  moreover have "known (sg_return r) \<and> list_all known (sg_parameters r)"
    if "(f, r) \<in> set (List.map_filter item_signature unit)" for f r
    using that s by (auto simp: List.map_filter_def list_all_iff parameter_type_def elim!: item_signature.elims
        intro!: known_typeFromSyntax dest!: bspec)
  ultimately show ?thesis using known_builtin
    by (auto simp: env_known_def unit_env_def split: option.splits dest!: map_of_SomeD)
qed

lemma item_result:
  assumes "env_known \<Gamma>" "en_scopes \<Gamma> = []" "env_of st = \<Gamma>" "item_shape i" "item_complete i"
  shows "cwp (analyzeItem i) (\<lambda>_ st'. env_of st' = \<Gamma> \<and>
    (item_declared i \<longrightarrow> (\<forall>f. item_signature i = Some (''main'', f) \<longrightarrow> main_signature (sg_parameters f) (sg_return f)) \<longrightarrow>
       item_typed \<Gamma> i)) st"
proof (cases i)
  case (FunctionDecl sp name nsp ps rt bsp body)
  then have "stmt_complete (BlockStmt bsp body)" using assms(5) by simp
  from function_body_typed[OF assms(1-3) assms(4)[unfolded FunctionDecl] this]
  show ?thesis unfolding FunctionDecl analyzeItem.simps by (rule cwp_mono) auto
next
  case (ConstDecl sp name nsp t init)
  from const_typed[OF assms(1,3) assms(4)[unfolded ConstDecl]]
  show ?thesis unfolding ConstDecl analyzeItem.simps by (rule cwp_mono) auto
qed

text \<open>The whole run: tables, the signature of \<open>main\<close>, then every item in the same environment.\<close>

lemma item_growing: "item_complete i \<Longrightarrow> growing (analyzeItem i)"
  using analyzeItem_sound[of i] by (auto simp: state_io_rel_def sound_step_def bag_grows_def)

lemma map_of_member:
  assumes "distinct (map item_name is)" "i \<in> set is" "item_signature i = Some (n, f)"
  shows "map_of (List.map_filter item_signature is) n = Some f"
proof -
  have k: "item_signature j = Some (m, g) \<Longrightarrow> item_name j = m" for j m g
    by (cases j) auto
  have "inj_on item_name (set is)" using assms(1) by (simp add: distinct_map)
  then have "g = f" if "(n, g) \<in> set (List.map_filter item_signature is)" for g
  proof -
    from that obtain j where j: "j \<in> set is" "item_signature j = Some (n, g)" by (auto simp: List.map_filter_def)
    then have "item_name j = item_name i" using k assms(3) by simp
    then have "j = i" using inj_onD[OF \<open>inj_on item_name (set is)\<close>] j(1) assms(2) by blast
    then show "g = f" using j(2) assms(3) by simp
  qed
  moreover have "(n, f) \<in> set (List.map_filter item_signature is)"
    using assms(2,3) by (force simp: List.map_filter_def)
  then obtain g where "map_of (List.map_filter item_signature is) n = Some g"
    using weak_map_of_SomeI by fastforce
  ultimately show ?thesis using map_of_SomeD by fastforce
qed

lemma analyzeUnit_typed:
  assumes "list_all item_shape unit" "list_all item_complete unit"
  shows "cwp (analyzeUnit unit) (\<lambda>_ _. unit_typed unit) (AnalyzerImpl_new bag)"
proof -
  let ?\<Gamma> = "unit_env unit"
  have k: "env_known ?\<Gamma>" "en_scopes ?\<Gamma> = []" using unit_env_known[OF assms(1)] by (simp_all add: unit_env_def)
  have items: "cwp (traverse_list analyzeItem unit) (\<lambda>_ _. unit_typed unit) st"
    if c: "collected unit st0" and ob: "only_bag st0 st" and m: "\<forall>m. Mapping.lookup (an_functions st0) ''main'' = Some m \<longrightarrow>
        main_signature (fs_parameterTypes m) (fs_returnType m)" for st0 st
  proof -
    have e: "env_of st = ?\<Gamma>" using c env_of_only_bag[OF ob] by (simp add: collected_def)
    have d: "distinct (map item_name unit)" "list_all item_declared unit" using c by (simp_all add: collected_def)
    have main: "main_signature (sg_parameters f) (sg_return f)"
      if i: "i \<in> set unit" "item_signature i = Some (''main'', f)" for i f
    proof -
      have "en_functions ?\<Gamma> ''main'' = Some f"
        using map_of_member[OF d(1) i] by (simp add: unit_env_def builtin_signature_def builtinTable_def)
      moreover have "en_functions ?\<Gamma> = en_functions (env_of st0)" using c by (simp add: collected_def)
      ultimately have "map_option signature_of (Mapping.lookup (an_functions st0) ''main'') = Some f"
        by (simp add: env_of_def)
      then obtain s where "Mapping.lookup (an_functions st0) ''main'' = Some s" "f = signature_of s" by blast
      then show ?thesis using m by (simp add: signature_of_def)
    qed
    have "cwp (traverse_list analyzeItem unit) (\<lambda>ys st'. env_of st' = ?\<Gamma> \<and> list_all2 (\<lambda>i y. item_typed ?\<Gamma> i) unit ys) st"
    proof (rule cwp_traverse)
      fix i st1 assume i: "i \<in> set unit" "env_of st1 = ?\<Gamma>"
      have "item_shape i" "item_complete i" "item_declared i" using i(1) assms d(2) by (simp_all add: list_all_iff)
      from item_result[OF k i(2) this(1,2)] this(3) main[OF i(1)]
      show "cwp (analyzeItem i) (\<lambda>y st'. env_of st' = ?\<Gamma> \<and> item_typed ?\<Gamma> i) st1"
        by (auto elim!: cwp_mono)
    qed (use assms(2) e item_growing in \<open>auto simp: list_all_iff\<close>)
    then show ?thesis
      by (rule cwp_mono) (auto simp: unit_typed_def d(1) list_all2_conv_all_nth list_all_length)
  qed
  note g = gr.keep_rules collect_growing item_growing
  have g2: "growing validateMainIfPresent"
    using prologue_sound(3) by (auto simp: state_io_rel_def sound_step_def bag_grows_def)
  have g3: "growing (traverse_list analyzeItem unit)" using assms(2) by (intro g) (simp add: list_all_iff)
  show ?thesis unfolding analyzeUnit_def collectItems_def
    apply (rule cwp_bind, intro g g2 g3, rule cwp_mono[OF builtins_collected])
    apply (rule cwp_bind, intro g g2 g3, rule cwp_bind, intro g, rule cwp_mono[OF items_collected], assumption)
    apply (rule cwp_return, simp, rule cwp_bind, intro g g2 g3, rule cwp_mono[OF main_validated], elim conjE)
    apply (rule cwp_bind, intro g, rule cwp_mono[OF items], assumption, assumption, assumption)
    apply (rule cwp_return, simp)
    done
qed

end
