(* ===== verification/Pipeline.thy ===== *)
theory Pipeline
  imports Frontend ReturnPaths TypingUnit
begin

text \<open>
  The front end as \<open>main\<close> runs it for \<open>--check\<close>: lexer, parser, and the semantic analyser when
  the parser reported no error. \<open>accepted src\<close> is the tree of a file that goes through without
  an error; what the analyser establishes is stated of such trees.
\<close>

section \<open>The run\<close>

lemma parseSource_complete:
  "parseSource src bag = Ok (unit, bag') \<Longrightarrow> \<not> hasErrors bag' \<Longrightarrow> list_all item_complete unit"
  by (rule items_spell_complete[OF parseSource_spells])

text \<open>\<open>None\<close> stands for a run that followed a null child of the tree.\<close>

definition checkSource :: "SourceFile \<Rightarrow> DiagnosticBag \<Rightarrow> (TranslationUnit \<times> DiagnosticBag) option result" where
  "checkSource src bag = bindR (parseSource src bag) (\<lambda>(unit, bag').
     if hasErrors bag' then Ok (Some (unit, bag'))
     else Ok (case analyze unit bag' of None \<Rightarrow> None | Some bag'' \<Rightarrow> Some (unit, bag'')))"

definition accepted :: "SourceFile \<Rightarrow> TranslationUnit option" where
  "accepted src = (case checkSource src DiagnosticBag_new of
     Ok (Some (unit, bag)) \<Rightarrow> if hasErrors bag then None else Some unit
   | _ \<Rightarrow> None)"

lemma accepted_run:
  assumes "accepted src = Some unit"
  obtains bag st where "parseSource src DiagnosticBag_new = Ok (unit, bag)" "\<not> hasErrors bag"
    "run_state (analyzeUnit unit) (AnalyzerImpl_new bag) = ((), st)" "clean st" "list_all item_complete unit"
proof -
  obtain bag2 where c: "checkSource src DiagnosticBag_new = Ok (Some (unit, bag2))" "\<not> hasErrors bag2"
    using assms by (auto simp: accepted_def split: result.splits option.splits if_splits)
  obtain bag where p: "parseSource src DiagnosticBag_new = Ok (unit, bag)" "\<not> hasErrors bag"
    "analyze unit bag = Some bag2"
    using c by (auto simp: checkSource_def bindR_eq_Ok split: if_splits option.splits)
  obtain st where r: "run_state (analyzeUnit unit) (AnalyzerImpl_new bag) = ((), st)"
    by (metis old.unit.exhaust surj_pair)
  have "clean st" using p(3) c(2) r by (auto simp: analyze_def clean_def Let_def split: if_splits)
  then show ?thesis using that p(1,2) r parseSource_complete[OF p(1,2)] by blast
qed


section \<open>Control flow\<close>

abbreviation checked_source :: SourceFile where
  "checked_source \<equiv> SourceFile_new ''a'' (''fn g(b: bool) -> bool { let mut c: bool = b; '' @
     ''while (c) { c = false; } if (b) { return true; } return c; }'')"

definition checked_unit :: TranslationUnit where
  "checked_unit =
     (let bool_at = \<lambda>s. \<lparr>ts_kind = Bool, ts_arrayDimensions = [], ts_pointerDepth = 0, ts_span = s\<rparr>
      in [FunctionDecl (mk_span 0 105) ''g'' (mk_span 3 4)
       [\<lparr>pr_name = ''b'', pr_nameSpan = mk_span 5 6, pr_type = bool_at (mk_span 8 12), pr_span = mk_span 5 12\<rparr>]
       (bool_at (mk_span 17 21)) (mk_span 22 105)
       [LetStmt (mk_span 24 44) True ''c'' (mk_span 32 33) (bool_at (mk_span 35 39)) (Some (NameExpr (mk_span 42 43) ''b'')),
        WhileStmt (mk_span 45 69) (NameExpr (mk_span 52 53) ''c'') (Some (BlockStmt (mk_span 55 69)
          [AssignStmt (mk_span 57 67) (NameExpr (mk_span 57 58) ''c'') (BoolLiteralExpr (mk_span 61 66) False)])),
        IfStmt (mk_span 70 93) (NameExpr (mk_span 74 75) ''b'') (Some (BlockStmt (mk_span 77 93)
          [ReturnStmt (mk_span 79 91) (Some (BoolLiteralExpr (mk_span 86 90) True))])) None,
        ReturnStmt (mk_span 94 103) (Some (NameExpr (mk_span 101 102) ''c''))]])"

lemma checked_source_accepted: "accepted checked_source = Some checked_unit"
  by code_simp

text \<open>C7: checking a file always comes to an end without following a null pointer: the analyser
  runs on complete trees only, and diagnostics are only added.\<close>

theorem checkSource_returns:
  "case checkSource src bag of
     OutOfFuel \<Rightarrow> False | Throw e \<Rightarrow> True | Ok None \<Rightarrow> False
   | Ok (Some (unit, bag')) \<Rightarrow> bag_ext bag bag'"
proof (cases "parseSource src bag")
  case (Ok r)
  obtain unit bag1 where p: "parseSource src bag = Ok (unit, bag1)" by (cases r) (simp add: Ok)
  have e: "bag_ext bag bag1" using parseSource_ext[where src = src and bag = bag] p by simp
  show ?thesis
  proof (cases "hasErrors bag1")
    case False
    obtain bag2 where "analyze unit bag1 = Some bag2" "bag_ext bag1 bag2"
      using analyze_complete[OF parseSource_complete[OF p False]] by blast
    then show ?thesis using p e False by (auto simp: checkSource_def intro: bag_ext_trans)
  qed (use p e in \<open>simp add: checkSource_def\<close>)
qed (use parseSource_ext[where src = src and bag = bag] in \<open>simp_all add: checkSource_def\<close>)

lemma accepted_ends_well:
  assumes "accepted src = Some unit"
  shows "list_all ends_well unit"
proof -
  obtain bag st where r: "run_state (analyzeUnit unit) (AnalyzerImpl_new bag) = ((), st)" "clean st"
    "list_all item_complete unit"
    using assms by (rule accepted_run)
  have "cwp (analyzeUnit unit) (\<lambda>_ st'. an_loopDepth st' = 0 \<and> list_all ends_well unit) (AnalyzerImpl_new bag)"
    using analyzeUnit_ends_well[OF r(3)] by (auto simp: at_depth_def AnalyzerImpl_new_def)
  then show ?thesis using r(1,2) by (simp add: cwp_def)
qed

text \<open>C6: in an accepted file no function body falls off its end unless the function is \<open>void\<close>, and
  no \<open>break\<close> or \<open>continue\<close> leaves a function body: whatever the conditions evaluate to, every
  execution of the body that ends does so with a \<open>return\<close>, or at the end of a \<open>void\<close> body.\<close>

theorem accepted_functions_end: "accepted src = Some unit \<Longrightarrow> list_all ends_well unit"
  by (rule accepted_ends_well)

lemma accepted_functions_end_witness: "accepted checked_source = Some checked_unit \<and> list_all ends_well checked_unit"
  using checked_source_accepted accepted_functions_end by blast


section \<open>Typing\<close>

text \<open>Trees that spell their tokens have the shape the analyser's judgements are stated of.\<close>

lemma type_spells_shape: "type_spells t w \<Longrightarrow> type_shape t"
  by (induction rule: type_spells.induct) (auto simp: type_shape_def)

lemma simple_spells_shape: "simple_spells s w \<Longrightarrow> stmt_shape s"
  by (cases s) (auto simp: let_type_def let_init_def dest: type_spells_shape split: option.splits)

lemma step_spells_shape: "step_spells so w \<Longrightarrow> pred_option stmt_shape so"
  by (cases "(so, w)" rule: step_spells.cases) auto

lemma params_spell_shape: "params_spell ps w \<Longrightarrow> list_all (\<lambda>p. type_shape (pr_type p)) ps"
  by (auto simp: params_spell_def list_all2_conv_all_nth list_all_length param_spells_def dest!: type_spells_shape)

lemma spells_shape:
  "stmt_spells s w \<Longrightarrow> stmt_shape s" "block_spells ss w' \<Longrightarrow> list_all stmt_shape ss"
proof (induction rule: stmt_spells_block_spells.inducts)
  case (spells_simple s w)
  then show ?case by (rule simple_spells_shape)
next
  case (spells_for init v1 c v2 step v3 body v sp)
  then show ?case
    by (auto simp: init_spells_def cond_spells_def dest: simple_spells_shape step_spells_shape split: option.splits)
qed auto

lemma items_spell_shape: "items_spell is w \<Longrightarrow> list_all item_shape is"
proof -
  assume "items_spell is w"
  then obtain ws where "list_all2 item_spells is ws" by (auto simp: items_spell_def)
  moreover have "item_spells i w \<Longrightarrow> item_shape i" for i w
    by (cases i) (auto dest: spells_shape(2) params_spell_shape type_spells_shape)
  ultimately show ?thesis by (induction rule: list_all2_induct) auto
qed

lemma accepted_typed:
  assumes "accepted src = Some unit"
  shows "unit_typed unit"
proof -
  obtain bag st where r: "parseSource src DiagnosticBag_new = Ok (unit, bag)" "\<not> hasErrors bag"
    "run_state (analyzeUnit unit) (AnalyzerImpl_new bag) = ((), st)" "clean st" "list_all item_complete unit"
    using assms by (rule accepted_run)
  have "list_all item_shape unit" by (rule items_spell_shape[OF parseSource_spells[OF r(1,2)]])
  from analyzeUnit_typed[OF this r(5), of bag] show ?thesis using r(3,4) by (simp add: cwp_def)
qed

text \<open>C1: every accepted file is well typed.\<close>

theorem accepted_well_typed: "accepted src = Some unit \<Longrightarrow> unit_typed unit"
  by (rule accepted_typed)

lemma accepted_well_typed_witness: "accepted checked_source = Some checked_unit \<and> unit_typed checked_unit"
  using checked_source_accepted accepted_well_typed by blast

end
