(* ===== verification/Ir.thy ===== *)
theory Ir
  imports Ast
begin

text \<open>
  \<open>include/nexc/ir/ir.h\<close> and \<open>src/ir/ir.cpp\<close>: the typed intermediate representation between the
  checked syntax tree and the text back ends. An \<open>Operation\<close> is the record of its flat payload
  and the five child blocks it may own; a null \<open>unique_ptr\<close> is \<open>None\<close>.
\<close>

section \<open>Types\<close>

record IrType =
  it_kind :: BuiltinTypeKind
  it_arrayDimensions :: "64 word list"
  it_pointerDepth :: nat

definition IrType_new :: IrType where
  "IrType_new = \<lparr>it_kind = Invalid, it_arrayDimensions = [], it_pointerDepth = 0\<rparr>"

definition scalar :: "BuiltinTypeKind \<Rightarrow> IrType" where
  "scalar k = IrType_new\<lparr>it_kind := k\<rparr>"

definition IrType_isVoid :: "IrType \<Rightarrow> bool" where
  "IrType_isVoid t \<longleftrightarrow> it_pointerDepth t = 0 \<and> it_arrayDimensions t = [] \<and> it_kind t = Void"

definition IrType_isFixedArray :: "IrType \<Rightarrow> bool" where
  "IrType_isFixedArray t \<longleftrightarrow> it_pointerDepth t = 0 \<and> it_arrayDimensions t \<noteq> []"

definition IrType_isPointer :: "IrType \<Rightarrow> bool" where
  "IrType_isPointer t \<longleftrightarrow> it_pointerDepth t \<noteq> 0"

definition IrType_pointeeType :: "IrType \<Rightarrow> IrType" where
  "IrType_pointeeType t =
     (if it_pointerDepth t \<noteq> 0 then t\<lparr>it_pointerDepth := it_pointerDepth t - 1\<rparr> else t)"

definition IrType_afterIndex :: "IrType \<Rightarrow> IrType" where
  "IrType_afterIndex t =
     (if it_arrayDimensions t \<noteq> [] then t\<lparr>it_arrayDimensions := tl (it_arrayDimensions t)\<rparr> else t)"

definition IrType_elementScalarType :: "IrType \<Rightarrow> IrType" where
  "IrType_elementScalarType t = t\<lparr>it_arrayDimensions := []\<rparr>"

definition IrType_elementType :: "IrType \<Rightarrow> IrType" where
  "IrType_elementType t = IrType_elementScalarType t"

definition IrType_isInteger :: "IrType \<Rightarrow> bool" where
  "IrType_isInteger t \<longleftrightarrow>
     (if IrType_isFixedArray t \<or> IrType_isPointer t then False
      else it_kind t \<in> {I8, I16, I32, I64, U8, U16, U32, U64})"

definition IrType_isFloat :: "IrType \<Rightarrow> bool" where
  "IrType_isFloat t \<longleftrightarrow> \<not> IrType_isFixedArray t \<and> \<not> IrType_isPointer t \<and> it_kind t \<in> {F32, F64}"

lemmas IrType_defs = IrType_isVoid_def IrType_isFixedArray_def IrType_isPointer_def
  IrType_pointeeType_def IrType_afterIndex_def IrType_elementScalarType_def IrType_isInteger_def
  IrType_isFloat_def IrType_new_def scalar_def

section \<open>Operations and blocks\<close>

text \<open>Identifiers are \<open>size_t\<close> counters; a body with 2^64 of them does not fit in memory.\<close>

record ValueRef =
  vr_id :: nat
  vr_type :: IrType

record LocalRef =
  lr_id :: nat

datatype OperationKind =
    Op_Invalid | Op_IntegerLiteral | Op_FloatLiteral | Op_BoolLiteral | Op_StringLiteral
  | Op_LoadLocal | Op_LoadConst | Op_Unary | Op_Binary | Op_ShortCircuitAnd | Op_ShortCircuitOr
  | Op_Call | Op_DeclareLocal | Op_StoreLocal | Op_ArrayLiteral | Op_IndexLoad | Op_IndexStore
  | Op_AddressOfLocal | Op_PointerLoad | Op_PointerStore | Op_If | Op_While | Op_Break | Op_Continue

record OperationData =
  od_kind :: OperationKind
  od_span :: SourceSpan
  od_result :: "ValueRef option"
  od_text :: string
  od_boolValue :: bool
  od_isBuiltin :: bool
  od_isMutable :: bool
  od_op :: TokenKind
  od_local :: LocalRef
  od_value :: "ValueRef option"
  od_left :: "ValueRef option"
  od_right :: "ValueRef option"
  od_condition :: "ValueRef option"
  od_arguments :: "ValueRef list"

text \<open>\<open>Operation{.kind = k, .span = sp}\<close>: every other member has its default.\<close>

definition mk_operation :: "OperationKind \<Rightarrow> SourceSpan \<Rightarrow> OperationData" where
  "mk_operation k sp =
     \<lparr>od_kind = k, od_span = sp, od_result = None, od_text = '''', od_boolValue = False,
      od_isBuiltin = False, od_isMutable = False, od_op = EndOfFile, od_local = \<lparr>lr_id = 0\<rparr>,
      od_value = None, od_left = None, od_right = None, od_condition = None, od_arguments = []\<rparr>"

datatype TerminatorKind =
    Term_None | Term_Return | Term_ReturnValue | Term_ConditionValue | Term_InitValue

record Terminator =
  tm_kind :: TerminatorKind
  tm_span :: SourceSpan
  tm_value :: "ValueRef option"

definition Terminator_none :: Terminator where
  "Terminator_none = \<lparr>tm_kind = Term_None, tm_span = mk_span 0 0, tm_value = None\<rparr>"

datatype Operation =
  Operation (op_data: OperationData)
    (op_conditionBlock: "Block option") (op_thenBlock: "Block option") (op_elseBlock: "Block option")
    (op_bodyBlock: "Block option") (op_stepBlock: "Block option")
and Block = Block (bl_span: SourceSpan) (bl_operations: "Operation list") (bl_terminator: Terminator)

text \<open>An operation that owns no block, and a block that is still empty.\<close>

definition plain_op :: "OperationData \<Rightarrow> Operation" where
  "plain_op d = Operation d None None None None None"

definition Block_new :: "SourceSpan \<Rightarrow> Block" where
  "Block_new sp = Block sp [] Terminator_none"

section \<open>Modules\<close>

datatype LocalKind = Local_Parameter | Local_Local

record Local =
  lo_ref :: LocalRef
  lo_name :: string
  lo_type :: IrType
  lo_isMutable :: bool
  lo_kind :: LocalKind
  lo_span :: SourceSpan

record Parameter =
  pa_name :: string
  pa_type :: IrType
  pa_local :: LocalRef
  pa_span :: SourceSpan

record IrConst =
  ic_name :: string
  ic_type :: IrType
  ic_span :: SourceSpan
  ic_initializer :: Block
  ic_nextValueId :: nat

record IrFunction =
  fn_name :: string
  fn_parameters :: "Parameter list"
  fn_returnType :: IrType
  fn_span :: SourceSpan
  fn_locals :: "Local list"
  fn_body :: Block
  fn_nextValueId :: nat

record Module =
  md_constants :: "IrConst list"
  md_functions :: "IrFunction list"

section \<open>Names\<close>

definition ir_typeName :: "IrType \<Rightarrow> string" where
  "ir_typeName t =
     (if it_arrayDimensions t = [] \<and> it_pointerDepth t = 0 then builtinTypeName (it_kind t)
      else replicate (it_pointerDepth t) (CHR ''*'') @
           wrapDimensions (builtinTypeName (it_kind t)) (it_arrayDimensions t))"

definition callableName :: "string \<Rightarrow> bool \<Rightarrow> string" where
  "callableName name isBuiltin = (if isBuiltin then ''@builtin.'' else ''@'') @ name"

definition valueName :: "ValueRef \<Rightarrow> string" where
  "valueName v = ''%'' @ to_string (vr_id v)"

definition localName :: "LocalRef \<Rightarrow> string" where
  "localName l = ''$'' @ to_string (lr_id l)"

end
