(* ===== verification/IrBuilder.thy ===== *)
theory IrBuilder
  imports Ir
begin

text \<open>
  \<open>src/ir/builder.cpp\<close>: the lowering of a checked syntax tree to the typed representation. The
  members of \<open>TypedIrBuilder\<close> are the record \<open>builder\<close>; a method is a function from the state to
  a result with the next state. The block that \<open>currentBlock_\<close> points to is a member of the
  state while it is being filled; a method that redirects emission puts the outer block back.
\<close>

section \<open>State\<close>

record IrSignature =
  is_parameterTypes :: "IrType list"
  is_returnType :: IrType
  is_isBuiltin :: bool

record IrSymbol =
  sy_type :: IrType
  sy_local :: LocalRef
  sy_isConst :: bool

text \<open>Scopes are kept innermost first.\<close>

record builder =
  bd_functions :: "string \<Rightarrow> IrSignature option"
  bd_constants :: "string \<Rightarrow> IrType option"
  bd_scopes :: "(string \<Rightarrow> IrSymbol option) list"
  bd_currentConst :: "IrConst option"
  bd_currentFunction :: "IrFunction option"
  bd_currentBlock :: "Block option"

definition TypedIrBuilder_new :: builder where
  "TypedIrBuilder_new = \<lparr>bd_functions = (\<lambda>_. None), bd_constants = (\<lambda>_. None), bd_scopes = [],
     bd_currentConst = None, bd_currentFunction = None, bd_currentBlock = None\<rparr>"

type_synonym 'a build = "builder \<Rightarrow> ('a \<times> builder) result"

definition returnB :: "'a \<Rightarrow> 'a build" where
  "returnB x st = Ok (x, st)"

definition bindB :: "'a build \<Rightarrow> ('a \<Rightarrow> 'b build) \<Rightarrow> 'b build" where
  "bindB m f st = bindR (m st) (\<lambda>(x, st'). f x st')"

definition logicError :: "string \<Rightarrow> 'a build" where
  "logicError message st = Throw (LogicError message)"

definition nullB :: "'a build" where
  "nullB st = Throw NullPointer"

text \<open>A \<open>const\<close> method: it reads the state and may throw.\<close>

definition readB :: "(builder \<Rightarrow> 'a result) \<Rightarrow> 'a build" where
  "readB f st = bindR (f st) (\<lambda>x. Ok (x, st))"

section \<open>Names, slots and values\<close>

definition ir_typeFromSyntax :: "TypeSyntax \<Rightarrow> IrType" where
  "ir_typeFromSyntax syntax =
     \<lparr>it_kind = ts_kind syntax, it_arrayDimensions = ts_arrayDimensions syntax, it_pointerDepth = ts_pointerDepth syntax\<rparr>"

fun stripParensExpr :: "Expr \<Rightarrow> Expr" where
  "stripParensExpr (ParenExpr sp inner) = stripParensExpr inner"
| "stripParensExpr e = e"

definition ir_pushScope :: "unit build" where
  "ir_pushScope st = Ok ((), st\<lparr>bd_scopes := (\<lambda>_. None) # bd_scopes st\<rparr>)"

definition ir_popScope :: "unit build" where
  "ir_popScope st = Ok ((), st\<lparr>bd_scopes := tl (bd_scopes st)\<rparr>)"

definition allocateLocal :: "string \<Rightarrow> SourceSpan \<Rightarrow> IrType \<Rightarrow> bool \<Rightarrow> LocalKind \<Rightarrow> LocalRef build" where
  "allocateLocal name span t isMutable kind st =
     (case bd_currentFunction st of
        None \<Rightarrow> Throw (LogicError ''typed IR locals can only be declared in functions'')
      | Some f \<Rightarrow>
          (let ref = \<lparr>lr_id = length (fn_locals f)\<rparr>;
               new = \<lparr>lo_ref = ref, lo_name = name, lo_type = t, lo_isMutable = isMutable, lo_kind = kind, lo_span = span\<rparr>
           in Ok (ref, st\<lparr>bd_currentFunction := Some (f\<lparr>fn_locals := fn_locals f @ [new]\<rparr>)\<rparr>)))"

definition bindLocalName :: "string \<Rightarrow> IrType \<Rightarrow> LocalRef \<Rightarrow> unit build" where
  "bindLocalName name t ref st =
     (case bd_scopes st of
        [] \<Rightarrow> Throw NullPointer
      | sc # scs \<Rightarrow>
          Ok ((), st\<lparr>bd_scopes := sc(name \<mapsto> \<lparr>sy_type = t, sy_local = ref, sy_isConst = False\<rparr>) # scs\<rparr>))"

definition ir_declareLocal :: "string \<Rightarrow> SourceSpan \<Rightarrow> IrType \<Rightarrow> bool \<Rightarrow> LocalKind \<Rightarrow> LocalRef build" where
  "ir_declareLocal name span t isMutable kind =
     bindB (allocateLocal name span t isMutable kind) (\<lambda>ref. bindB (bindLocalName name t ref) (\<lambda>_. returnB ref))"

fun ir_lookupScopes :: "(string \<Rightarrow> IrSymbol option) list \<Rightarrow> string \<Rightarrow> IrSymbol option" where
  "ir_lookupScopes [] name = None"
| "ir_lookupScopes (sc # scs) name = (case sc name of Some s \<Rightarrow> Some s | None \<Rightarrow> ir_lookupScopes scs name)"

definition ir_lookupValue :: "string \<Rightarrow> builder \<Rightarrow> IrSymbol result" where
  "ir_lookupValue name st =
     (case ir_lookupScopes (bd_scopes st) name of
        Some s \<Rightarrow> Ok s
      | None \<Rightarrow>
          (case bd_constants st name of
             Some t \<Rightarrow> Ok \<lparr>sy_type = t, sy_local = \<lparr>lr_id = 0\<rparr>, sy_isConst = True\<rparr>
           | None \<Rightarrow> Throw (LogicError (''typed IR value was not resolved: '' @ name))))"

definition makeValue :: "IrType \<Rightarrow> ValueRef build" where
  "makeValue t st =
     (case bd_currentFunction st of
        Some f \<Rightarrow> Ok (\<lparr>vr_id = fn_nextValueId f, vr_type = t\<rparr>,
          st\<lparr>bd_currentFunction := Some (f\<lparr>fn_nextValueId := fn_nextValueId f + 1\<rparr>)\<rparr>)
      | None \<Rightarrow>
          (case bd_currentConst st of
             Some c \<Rightarrow> Ok (\<lparr>vr_id = ic_nextValueId c, vr_type = t\<rparr>,
               st\<lparr>bd_currentConst := Some (c\<lparr>ic_nextValueId := ic_nextValueId c + 1\<rparr>)\<rparr>)
           | None \<Rightarrow> Throw (LogicError ''typed IR value allocated outside a body'')))"

definition appendOp :: "Operation \<Rightarrow> unit build" where
  "appendOp op st =
     (case bd_currentBlock st of
        None \<Rightarrow> Throw (LogicError ''typed IR operation emitted outside a block'')
      | Some b \<Rightarrow>
          Ok ((), st\<lparr>bd_currentBlock := Some (Block (bl_span b) (bl_operations b @ [op]) (bl_terminator b))\<rparr>))"

definition setTerminator :: "TerminatorKind \<Rightarrow> SourceSpan \<Rightarrow> ValueRef option \<Rightarrow> unit build" where
  "setTerminator k sp v st =
     (case bd_currentBlock st of
        None \<Rightarrow> Throw NullPointer
      | Some b \<Rightarrow>
          Ok ((), st\<lparr>bd_currentBlock := Some (Block (bl_span b) (bl_operations b) \<lparr>tm_kind = k, tm_span = sp, tm_value = v\<rparr>)\<rparr>))"

definition currentReturnType :: "builder \<Rightarrow> IrType result" where
  "currentReturnType st =
     (case bd_currentFunction st of
        None \<Rightarrow> Throw (LogicError ''return type requested outside a function'')
      | Some f \<Rightarrow> Ok (fn_returnType f))"

text \<open>An operation with a result: the value is made, then the operation is appended.\<close>

definition emit :: "IrType \<Rightarrow> OperationData \<Rightarrow> ValueRef build" where
  "emit t d = bindB (makeValue t) (\<lambda>v. bindB (appendOp (plain_op (d\<lparr>od_result := Some v\<rparr>))) (\<lambda>_. returnB v))"

text \<open>Redirects emission into a fresh block and restores the outer one.\<close>

definition withBlock :: "SourceSpan \<Rightarrow> unit build \<Rightarrow> Block build" where
  "withBlock sp m st =
     bindR (m (st\<lparr>bd_currentBlock := Some (Block_new sp)\<rparr>)) (\<lambda>(_, st').
       case bd_currentBlock st' of
         None \<Rightarrow> Throw NullPointer
       | Some b \<Rightarrow> Ok (b, st'\<lparr>bd_currentBlock := bd_currentBlock st\<rparr>))"

section \<open>Types of expressions\<close>

definition comparisonResult :: "TokenKind \<Rightarrow> bool" where
  "comparisonResult op \<longleftrightarrow> op \<in> {Less, LessEqual, Greater, GreaterEqual, EqualEqual, BangEqual}"

fun inferExprType :: "builder \<Rightarrow> Expr \<Rightarrow> IrType option \<Rightarrow> IrType result"
  and inferLiteralType :: "builder \<Rightarrow> Expr list \<Rightarrow> IrType result"
where
  "inferExprType st (IntegerLiteralExpr sp raw) expected = Ok (case expected of None \<Rightarrow> scalar I32 | Some t \<Rightarrow> t)"
| "inferExprType st (FloatLiteralExpr sp raw) expected = Ok (case expected of None \<Rightarrow> scalar F64 | Some t \<Rightarrow> t)"
| "inferExprType st (BoolLiteralExpr sp v) expected = Ok (scalar Bool)"
| "inferExprType st (StringLiteralExpr sp raw) expected = Ok (scalar Str)"
| "inferExprType st (NameExpr sp name) expected = bindR (ir_lookupValue name st) (\<lambda>s. Ok (sy_type s))"
| "inferExprType st (CallExpr sp callee arguments) expected =
     (case callee of
        NameExpr nsp name \<Rightarrow>
          (case bd_functions st name of
             None \<Rightarrow> Throw (LogicError ''typed IR call target was not resolved'')
           | Some s \<Rightarrow> Ok (is_returnType s))
      | _ \<Rightarrow> Throw (LogicError ''typed IR only supports named callees''))"
| "inferExprType st (UnaryExpr sp op operand) expected =
     (if op = Amp then
        (case stripParensExpr operand of
           NameExpr nsp name \<Rightarrow> bindR (ir_lookupValue name st) (\<lambda>s. Ok ((sy_type s)\<lparr>it_pointerDepth := 1\<rparr>))
         | _ \<Rightarrow> Ok IrType_new)
      else if op = Star then bindR (inferExprType st operand None) (\<lambda>t. Ok (IrType_pointeeType t))
      else if op = Bang then Ok (scalar Bool)
      else inferExprType st operand expected)"
| "inferExprType st (BinaryExpr sp left op right) expected =
     (if op = AmpAmp \<or> op = PipePipe \<or> comparisonResult op then Ok (scalar Bool)
      else inferExprType st left expected)"
| "inferExprType st (ArrayLiteralExpr sp elements) expected =
     (case expected of
        Some t \<Rightarrow> if IrType_isFixedArray t then Ok t else inferLiteralType st elements
      | None \<Rightarrow> inferLiteralType st elements)"
| "inferExprType st (IndexExpr sp base index) expected =
     bindR (inferExprType st base None) (\<lambda>t. Ok (IrType_afterIndex t))"
| "inferExprType st (ParenExpr sp inner) expected = inferExprType st inner expected"
| "inferLiteralType st [] = Ok IrType_new"
| "inferLiteralType st (e # es) =
     bindR (inferExprType st e None) (\<lambda>element.
       if IrType_isFixedArray element then
         Ok (element\<lparr>it_arrayDimensions := of_nat (length (e # es)) # it_arrayDimensions element\<rparr>)
       else Ok ((scalar (it_kind element))\<lparr>it_arrayDimensions := [of_nat (length (e # es))]\<rparr>))"

section \<open>Expressions\<close>

definition buildName :: "SourceSpan \<Rightarrow> string \<Rightarrow> ValueRef build" where
  "buildName sp name =
     bindB (readB (ir_lookupValue name)) (\<lambda>symbol.
       emit (sy_type symbol)
         ((mk_operation (if sy_isConst symbol then Op_LoadConst else Op_LoadLocal) sp)
            \<lparr>od_text := name, od_local := sy_local symbol\<rparr>))"

definition appendUnaryBang :: "ValueRef \<Rightarrow> SourceSpan \<Rightarrow> ValueRef build" where
  "appendUnaryBang operand sp =
     emit (scalar Bool) ((mk_operation Op_Unary sp)\<lparr>od_op := Bang, od_value := Some operand\<rparr>)"

definition coerceConditionLikeToBool :: "ValueRef \<Rightarrow> SourceSpan \<Rightarrow> ValueRef build" where
  "coerceConditionLikeToBool v sp =
     (if it_kind (vr_type v) = Bool then returnB v
      else if IrType_isInteger (vr_type v) then
        bindB (appendUnaryBang v sp) (\<lambda>once. appendUnaryBang once sp)
      else logicError ''truthify expected bool or integer operand'')"

definition appendBinary :: "SourceSpan \<Rightarrow> TokenKind \<Rightarrow> ValueRef \<Rightarrow> ValueRef \<Rightarrow> IrType \<Rightarrow> ValueRef build" where
  "appendBinary sp op left right resultType =
     emit resultType ((mk_operation Op_Binary sp)\<lparr>od_op := op, od_left := Some left, od_right := Some right\<rparr>)"

text \<open>The arm of a short circuit that skips the right operand.\<close>

definition skippedArm :: "SourceSpan \<Rightarrow> bool \<Rightarrow> Block build" where
  "skippedArm sp b =
     withBlock sp (bindB (emit (scalar Bool) ((mk_operation Op_BoolLiteral sp)\<lparr>od_boolValue := b\<rparr>)) (\<lambda>v.
       setTerminator Term_ReturnValue sp (Some v)))"

definition buildAddressOf :: "SourceSpan \<Rightarrow> Expr \<Rightarrow> ValueRef build" where
  "buildAddressOf sp operand =
     (case stripParensExpr operand of
        NameExpr nsp name \<Rightarrow>
          bindB (readB (ir_lookupValue name)) (\<lambda>symbol.
            emit ((sy_type symbol)\<lparr>it_pointerDepth := 1\<rparr>)
              ((mk_operation Op_AddressOfLocal sp)\<lparr>od_local := sy_local symbol\<rparr>))
      | _ \<Rightarrow> logicError ''address-of requires a local name in typed IR'')"

text \<open>The chain of indices below an expression, outermost dimension first, and its root.\<close>

lemma size_stripParensExpr: "size (stripParensExpr e) \<le> size e"
  by (induction e rule: stripParensExpr.induct) auto

function peelIndices :: "Expr \<Rightarrow> Expr list \<Rightarrow> Expr \<times> Expr list" where
  "peelIndices e acc =
     (case stripParensExpr e of
        IndexExpr sp base index \<Rightarrow> peelIndices base (index # acc)
      | r \<Rightarrow> (r, acc))"
  by pat_completeness auto
termination
proof (relation "measure (\<lambda>(e, acc). size e)")
  fix e acc sp base index assume "stripParensExpr e = IndexExpr sp base index"
  then show "((base, index # acc), (e, acc)) \<in> measure (\<lambda>(e, acc). size e)"
    using size_stripParensExpr[of e] by simp
qed simp

declare peelIndices.simps [simp del]

lemma size_peelIndices:
  "peelIndices e acc = (root, is) \<Longrightarrow> \<exists>new. is = new @ acc \<and> size root + size_list size new \<le> size e"
proof (induction e acc rule: peelIndices.induct)
  case (1 e acc)
  show ?case
  proof (cases "\<exists>sp base index. stripParensExpr e = IndexExpr sp base index")
    case True
    then obtain sp base index where s: "stripParensExpr e = IndexExpr sp base index" by blast
    with 1(2) have "peelIndices base (index # acc) = (root, is)" by (subst (asm) peelIndices.simps) simp
    from 1(1)[OF s this] obtain new where "is = new @ index # acc" "size root + size_list size new \<le> size base" by blast
    then show ?thesis using size_stripParensExpr[of e] s by (intro exI[of _ "new @ [index]"]) simp
  next
    case False
    then have "(root, is) = (stripParensExpr e, acc)"
      using 1(2) by (subst (asm) peelIndices.simps) (auto split: Expr.splits)
    then show ?thesis using size_stripParensExpr[of e] by simp
  qed
qed

text \<open>
  The methods that recurse take \<open>buildExpr\<close> as an argument; the recursion is tied at the end, guarded
  by the size of the tree. \<open>buildExpr_unfold\<close> shows that the guard never applies.
\<close>

type_synonym build_rec = "Expr \<Rightarrow> IrType option \<Rightarrow> ValueRef build"

fun traverseB :: "('a \<Rightarrow> 'b build) \<Rightarrow> 'a list \<Rightarrow> 'b list build" where
  "traverseB f [] = returnB []"
| "traverseB f (x # xs) = bindB (f x) (\<lambda>y. bindB (traverseB f xs) (\<lambda>ys. returnB (y # ys)))"

definition buildBoolResultBlock :: "build_rec \<Rightarrow> Expr \<Rightarrow> Block build" where
  "buildBoolResultBlock rec e =
     withBlock (expr_span e) (bindB (rec e None) (\<lambda>v. bindB (coerceConditionLikeToBool v (expr_span e)) (\<lambda>b.
       setTerminator Term_ReturnValue (expr_span e) (Some b))))"

definition buildShortCircuitAnd :: "build_rec \<Rightarrow> SourceSpan \<Rightarrow> Expr \<Rightarrow> Expr \<Rightarrow> ValueRef build" where
  "buildShortCircuitAnd rec sp left right =
     bindB (rec left None) (\<lambda>leftVal.
     bindB (skippedArm sp False) (\<lambda>elseBlk.
     bindB (makeValue (scalar Bool)) (\<lambda>result.
     bindB (buildBoolResultBlock rec right) (\<lambda>thenBlk.
     bindB (appendOp (Operation ((mk_operation Op_ShortCircuitAnd sp)\<lparr>od_result := Some result, od_left := Some leftVal\<rparr>)
              None (Some thenBlk) (Some elseBlk) None None)) (\<lambda>_.
     returnB result)))))"

definition buildShortCircuitOr :: "build_rec \<Rightarrow> SourceSpan \<Rightarrow> Expr \<Rightarrow> Expr \<Rightarrow> ValueRef build" where
  "buildShortCircuitOr rec sp left right =
     bindB (rec left None) (\<lambda>leftVal.
     bindB (skippedArm sp True) (\<lambda>thenBlk.
     bindB (makeValue (scalar Bool)) (\<lambda>result.
     bindB (buildBoolResultBlock rec right) (\<lambda>elseBlk.
     bindB (appendOp (Operation ((mk_operation Op_ShortCircuitOr sp)\<lparr>od_result := Some result, od_left := Some leftVal\<rparr>)
              None (Some thenBlk) (Some elseBlk) None None)) (\<lambda>_.
     returnB result)))))"

definition buildBinary :: "build_rec \<Rightarrow> SourceSpan \<Rightarrow> Expr \<Rightarrow> TokenKind \<Rightarrow> Expr \<Rightarrow> IrType option \<Rightarrow> ValueRef build" where
  "buildBinary rec sp left op right expected =
     (if op = AmpAmp \<or> op = PipePipe then
        bindB (readB (\<lambda>st. Ok (bd_currentConst st \<noteq> None))) (\<lambda>inConst.
          if inConst then
            bindB (rec left None) (\<lambda>l. bindB (rec right None) (\<lambda>r.
            bindB (coerceConditionLikeToBool l (expr_span left)) (\<lambda>lb.
            bindB (coerceConditionLikeToBool r (expr_span right)) (\<lambda>rb.
            appendBinary sp op lb rb (scalar Bool)))))
          else if op = AmpAmp then buildShortCircuitAnd rec sp left right
          else buildShortCircuitOr rec sp left right)
      else
        bindB (rec left expected) (\<lambda>l. bindB (rec right (Some (vr_type l))) (\<lambda>r.
        appendBinary sp op l r (if comparisonResult op then scalar Bool else vr_type l))))"

definition buildUnary :: "build_rec \<Rightarrow> SourceSpan \<Rightarrow> TokenKind \<Rightarrow> Expr \<Rightarrow> IrType option \<Rightarrow> ValueRef build" where
  "buildUnary rec sp op operand expected =
     (if op = Amp then buildAddressOf sp operand
      else if op = Star then
        bindB (rec operand expected) (\<lambda>pointer.
          emit (IrType_pointeeType (vr_type pointer)) ((mk_operation Op_PointerLoad sp)\<lparr>od_value := Some pointer\<rparr>))
      else if op = Bang then
        bindB (rec operand None) (\<lambda>v.
          emit (scalar Bool) ((mk_operation Op_Unary sp)\<lparr>od_op := op, od_value := Some v\<rparr>))
      else
        bindB (rec operand expected) (\<lambda>v.
          emit (vr_type v) ((mk_operation Op_Unary sp)\<lparr>od_op := op, od_value := Some v\<rparr>)))"

definition isPrintName :: "string \<Rightarrow> bool" where
  "isPrintName name \<longleftrightarrow> name = ''print'' \<or> name = ''println''"

definition buildCall :: "build_rec \<Rightarrow> SourceSpan \<Rightarrow> Expr \<Rightarrow> Expr list \<Rightarrow> ValueRef option build" where
  "buildCall rec sp callee arguments =
     (case callee of
        NameExpr nsp name \<Rightarrow>
          bindB (readB (\<lambda>st. Ok (bd_functions st name))) (\<lambda>found.
            case found of
              None \<Rightarrow> logicError ''typed IR call target was not resolved''
            | Some s \<Rightarrow>
                if is_isBuiltin s \<and> isPrintName name then
                  bindB (traverseB (\<lambda>e. rec e None) arguments) (\<lambda>args.
                  bindB (appendOp (plain_op ((mk_operation Op_Call sp)
                    \<lparr>od_text := name, od_isBuiltin := True, od_arguments := args\<rparr>))) (\<lambda>_.
                  returnB None))
                else
                  bindB (traverseB (\<lambda>(e, t). rec e (Some t)) (zip arguments (is_parameterTypes s))) (\<lambda>args.
                  let d = (mk_operation Op_Call sp)
                        \<lparr>od_text := name, od_isBuiltin := is_isBuiltin s, od_arguments := args\<rparr>
                  in if \<not> IrType_isVoid (is_returnType s) then
                       bindB (emit (is_returnType s) d) (\<lambda>v. returnB (Some v))
                     else bindB (appendOp (plain_op d)) (\<lambda>_. returnB None)))
      | _ \<Rightarrow> logicError ''typed IR only supports named callees'')"

definition buildArrayLiteral :: "build_rec \<Rightarrow> SourceSpan \<Rightarrow> Expr list \<Rightarrow> IrType option \<Rightarrow> ValueRef build" where
  "buildArrayLiteral rec sp elements expected =
     (case expected of
        Some arrType \<Rightarrow>
          if IrType_isFixedArray arrType then
            bindB (makeValue arrType) (\<lambda>result.
            bindB (traverseB (\<lambda>e. rec e (Some (IrType_afterIndex arrType))) elements) (\<lambda>args.
            bindB (appendOp (plain_op ((mk_operation Op_ArrayLiteral sp)\<lparr>od_result := Some result, od_arguments := args\<rparr>))) (\<lambda>_.
            returnB result)))
          else logicError ''array literal lowering requires a contextual fixed-array type''
      | None \<Rightarrow> logicError ''array literal lowering requires a contextual fixed-array type'')"

definition appendIndexLoad :: "SourceSpan \<Rightarrow> IrType \<Rightarrow> ValueRef \<Rightarrow> ValueRef \<Rightarrow> ValueRef build" where
  "appendIndexLoad sp t base index =
     emit t ((mk_operation Op_IndexLoad sp)\<lparr>od_left := Some base, od_right := Some index\<rparr>)"

text \<open>The loop over all indices but the last: it walks the array and its type.\<close>

fun buildIndexLoads :: "build_rec \<Rightarrow> Expr list \<Rightarrow> ValueRef \<Rightarrow> IrType \<Rightarrow> (ValueRef \<times> IrType) build" where
  "buildIndexLoads rec [] curBase curTy = returnB (curBase, curTy)"
| "buildIndexLoads rec (i # is) curBase curTy =
     bindB (rec i (Some (scalar I32))) (\<lambda>idxv.
     bindB (appendIndexLoad (expr_span i) (IrType_afterIndex curTy) curBase idxv) (\<lambda>next.
     buildIndexLoads rec is next (IrType_afterIndex curTy)))"

definition buildChain :: "build_rec \<Rightarrow> SourceSpan \<Rightarrow> string \<Rightarrow> Expr list \<Rightarrow> (ValueRef \<times> IrType \<times> ValueRef) build" where
  "buildChain rec nsp name indices =
     bindB (readB (ir_lookupValue name)) (\<lambda>sym.
     bindB (buildName nsp name) (\<lambda>root.
     bindB (buildIndexLoads rec (butlast indices) root (sy_type sym)) (\<lambda>(curBase, curTy).
     bindB (rec (last indices) (Some (scalar I32))) (\<lambda>lastIdx.
     returnB (curBase, curTy, lastIdx)))))"

definition buildIndexGeneral :: "build_rec \<Rightarrow> SourceSpan \<Rightarrow> Expr \<Rightarrow> Expr \<Rightarrow> ValueRef build" where
  "buildIndexGeneral rec sp base index =
     bindB (rec base None) (\<lambda>baseVal.
     bindB (rec index (Some (scalar I32))) (\<lambda>indexVal.
       if \<not> IrType_isFixedArray (vr_type baseVal) then logicError ''indexed load base must be a fixed array''
       else appendIndexLoad sp (IrType_afterIndex (vr_type baseVal)) baseVal indexVal))"

definition buildIndex :: "build_rec \<Rightarrow> SourceSpan \<Rightarrow> Expr \<Rightarrow> Expr \<Rightarrow> ValueRef build" where
  "buildIndex rec sp base index =
     (case peelIndices (IndexExpr sp base index) [] of (root, indices) \<Rightarrow>
        case root of
          NameExpr nsp name \<Rightarrow>
            if indices \<noteq> [] then
              bindB (buildChain rec nsp name indices) (\<lambda>(curBase, curTy, lastIdx).
                if \<not> IrType_isFixedArray curTy then logicError ''indexed load chain has too many indices''
                else appendIndexLoad sp (IrType_afterIndex curTy) curBase lastIdx)
            else bindB (readB (ir_lookupValue name)) (\<lambda>_. buildIndexGeneral rec sp base index)
        | _ \<Rightarrow> buildIndexGeneral rec sp base index)"

definition buildLiteral :: "OperationKind \<Rightarrow> SourceSpan \<Rightarrow> string \<Rightarrow> IrType \<Rightarrow> ValueRef build" where
  "buildLiteral k sp raw t = emit t ((mk_operation k sp)\<lparr>od_text := raw\<rparr>)"

definition buildExprStep :: "build_rec \<Rightarrow> build_rec" where
  "buildExprStep rec e expected =
     (case e of
        IntegerLiteralExpr sp raw \<Rightarrow>
          (let t = (case expected of None \<Rightarrow> scalar I32 | Some t \<Rightarrow> t)
           in buildLiteral Op_IntegerLiteral sp raw (if IrType_isInteger t then t else IrType_new))
      | FloatLiteralExpr sp raw \<Rightarrow>
          (let t = (case expected of None \<Rightarrow> scalar F64 | Some t \<Rightarrow> t)
           in buildLiteral Op_FloatLiteral sp raw (if IrType_isFloat t then t else IrType_new))
      | BoolLiteralExpr sp v \<Rightarrow> emit (scalar Bool) ((mk_operation Op_BoolLiteral sp)\<lparr>od_boolValue := v\<rparr>)
      | StringLiteralExpr sp raw \<Rightarrow> buildLiteral Op_StringLiteral sp raw (scalar Str)
      | NameExpr sp name \<Rightarrow> buildName sp name
      | CallExpr sp callee arguments \<Rightarrow>
          bindB (buildCall rec sp callee arguments) (\<lambda>result.
            case result of
              None \<Rightarrow> logicError ''void call used where typed IR value is required''
            | Some v \<Rightarrow> returnB v)
      | UnaryExpr sp op operand \<Rightarrow> buildUnary rec sp op operand expected
      | BinaryExpr sp left op right \<Rightarrow> buildBinary rec sp left op right expected
      | ArrayLiteralExpr sp elements \<Rightarrow> buildArrayLiteral rec sp elements expected
      | IndexExpr sp base index \<Rightarrow> buildIndex rec sp base index
      | ParenExpr sp inner \<Rightarrow> rec inner expected)"

function buildExpr :: build_rec where
  "buildExpr e expected =
     buildExprStep (\<lambda>e' expected'. if size e' < size e then buildExpr e' expected' else nullB) e expected"
  by pat_completeness auto
termination by (relation "measure (\<lambda>(e, expected). size e)") simp_all

declare buildExpr.simps [simp del]

section \<open>Statements\<close>

definition buildLet :: "SourceSpan \<Rightarrow> bool \<Rightarrow> string \<Rightarrow> SourceSpan \<Rightarrow> TypeSyntax \<Rightarrow> Expr option \<Rightarrow> unit build" where
  "buildLet sp isMutable name nameSpan type init =
     bindB (if hasExplicitTypeSyntax type then returnB (ir_typeFromSyntax type)
            else case init of None \<Rightarrow> nullB | Some e \<Rightarrow> readB (\<lambda>st. inferExprType st e None)) (\<lambda>t.
     bindB (case init of None \<Rightarrow> returnB None
            | Some e \<Rightarrow> bindB (buildExpr e (Some t)) (\<lambda>v. returnB (Some v))) (\<lambda>v.
     bindB (allocateLocal name nameSpan t isMutable Local_Local) (\<lambda>ref.
     bindB (bindLocalName name t ref) (\<lambda>_.
     appendOp (plain_op ((mk_operation Op_DeclareLocal sp)\<lparr>od_local := ref, od_isMutable := isMutable, od_value := v\<rparr>))))))"

definition buildAssign :: "SourceSpan \<Rightarrow> Expr \<Rightarrow> Expr \<Rightarrow> unit build" where
  "buildAssign sp target v =
     (case target of
        NameExpr nsp name \<Rightarrow>
          bindB (readB (ir_lookupValue name)) (\<lambda>symbol.
          bindB (buildExpr v (Some (sy_type symbol))) (\<lambda>r.
          appendOp (plain_op ((mk_operation Op_StoreLocal sp)\<lparr>od_local := sy_local symbol, od_value := Some r\<rparr>))))
      | IndexExpr isp base index \<Rightarrow>
          (case peelIndices target [] of (root, indices) \<Rightarrow>
            case root of
              NameExpr nsp name \<Rightarrow>
                if indices = [] then bindB (readB (ir_lookupValue name)) (\<lambda>_. logicError ''indexed assignment missing indices'')
                else
                  bindB (buildChain buildExpr nsp name indices) (\<lambda>(curBase, curTy, lastIdx).
                  bindB (buildExpr v (Some (IrType_elementScalarType curTy))) (\<lambda>stored.
                  appendOp (plain_op ((mk_operation Op_IndexStore sp)
                    \<lparr>od_left := Some curBase, od_right := Some lastIdx, od_value := Some stored\<rparr>))))
            | _ \<Rightarrow> logicError ''indexed assignment must resolve to a local name root in typed IR'')
      | UnaryExpr usp op operand \<Rightarrow>
          if op = Star then
            bindB (buildExpr operand None) (\<lambda>ptr.
            bindB (buildExpr v (Some (IrType_pointeeType (vr_type ptr)))) (\<lambda>stored.
            appendOp (plain_op ((mk_operation Op_PointerStore sp)\<lparr>od_value := Some stored, od_left := Some ptr\<rparr>))))
          else logicError ''unsupported assignment target in typed IR builder''
      | _ \<Rightarrow> logicError ''unsupported assignment target in typed IR builder'')"

definition buildReturn :: "SourceSpan \<Rightarrow> Expr option \<Rightarrow> unit build" where
  "buildReturn sp v =
     (case v of
        None \<Rightarrow> setTerminator Term_Return sp None
      | Some e \<Rightarrow>
          bindB (readB currentReturnType) (\<lambda>t.
          bindB (buildExpr e (Some t)) (\<lambda>r.
          setTerminator Term_ReturnValue sp (Some r))))"

definition buildConditionBlock :: "Expr \<Rightarrow> Block build" where
  "buildConditionBlock condition =
     withBlock (expr_span condition) (bindB (buildExpr condition None) (\<lambda>v.
       setTerminator Term_ConditionValue (expr_span condition) (Some v)))"

definition buildConditionBlockAlwaysTrue :: "SourceSpan \<Rightarrow> Block build" where
  "buildConditionBlockAlwaysTrue sp =
     withBlock sp (bindB (emit (scalar Bool) ((mk_operation Op_BoolLiteral sp)\<lparr>od_boolValue := True\<rparr>)) (\<lambda>v.
       setTerminator Term_ConditionValue sp (Some v)))"

type_synonym build_stmt_rec = "Stmt \<Rightarrow> unit build"

definition hasTerminator :: "builder \<Rightarrow> bool result" where
  "hasTerminator st =
     (case bd_currentBlock st of
        None \<Rightarrow> Throw NullPointer
      | Some b \<Rightarrow> Ok (tm_kind (bl_terminator b) \<noteq> Term_None))"

fun isBreakOrContinue :: "Stmt \<Rightarrow> bool" where
  "isBreakOrContinue (BreakStmt sp) = True"
| "isBreakOrContinue (ContinueStmt sp) = True"
| "isBreakOrContinue _ = False"

text \<open>The loop over the statements of a block: it stops after a terminator and after a jump.\<close>

fun buildStatements :: "build_stmt_rec \<Rightarrow> Stmt list \<Rightarrow> unit build" where
  "buildStatements rec [] = returnB ()"
| "buildStatements rec (s # ss) =
     bindB (rec s) (\<lambda>_.
     bindB (readB hasTerminator) (\<lambda>ended.
       if ended \<or> isBreakOrContinue s then returnB () else buildStatements rec ss))"

definition buildBlockStatements :: "build_stmt_rec \<Rightarrow> Stmt list \<Rightarrow> unit build" where
  "buildBlockStatements rec ss =
     bindB ir_pushScope (\<lambda>_. bindB (buildStatements rec ss) (\<lambda>_. ir_popScope))"

definition buildNestedStatementBlock :: "build_stmt_rec \<Rightarrow> Stmt option \<Rightarrow> Block build" where
  "buildNestedStatementBlock rec so = (case so of None \<Rightarrow> nullB | Some s \<Rightarrow> withBlock (stmt_span s) (rec s))"

definition buildOptionalBlock :: "build_stmt_rec \<Rightarrow> Stmt option \<Rightarrow> Block option build" where
  "buildOptionalBlock rec so =
     (case so of None \<Rightarrow> returnB None
      | Some s \<Rightarrow> bindB (withBlock (stmt_span s) (rec s)) (\<lambda>b. returnB (Some b)))"

definition buildIf :: "build_stmt_rec \<Rightarrow> SourceSpan \<Rightarrow> Expr \<Rightarrow> Stmt option \<Rightarrow> Stmt option \<Rightarrow> unit build" where
  "buildIf rec sp condition thenBranch elseBranch =
     bindB (buildExpr condition None) (\<lambda>c.
     bindB (buildNestedStatementBlock rec thenBranch) (\<lambda>t.
     bindB (buildOptionalBlock rec elseBranch) (\<lambda>e.
     appendOp (Operation ((mk_operation Op_If sp)\<lparr>od_condition := Some c\<rparr>) None (Some t) e None None))))"

definition buildWhile :: "build_stmt_rec \<Rightarrow> SourceSpan \<Rightarrow> Expr \<Rightarrow> Stmt option \<Rightarrow> unit build" where
  "buildWhile rec sp condition body =
     bindB (buildConditionBlock condition) (\<lambda>c.
     bindB (buildNestedStatementBlock rec body) (\<lambda>b.
     appendOp (Operation (mk_operation Op_While sp) (Some c) None None (Some b) None)))"

definition buildForStmt ::
    "build_stmt_rec \<Rightarrow> SourceSpan \<Rightarrow> Stmt option \<Rightarrow> Expr option \<Rightarrow> Stmt option \<Rightarrow> Stmt option \<Rightarrow> unit build" where
  "buildForStmt rec sp init condition step body =
     bindB (case init of None \<Rightarrow> returnB () | Some s \<Rightarrow> rec s) (\<lambda>_.
     bindB (case condition of None \<Rightarrow> buildConditionBlockAlwaysTrue sp | Some e \<Rightarrow> buildConditionBlock e) (\<lambda>c.
     bindB (buildNestedStatementBlock rec body) (\<lambda>b.
     bindB (buildOptionalBlock rec step) (\<lambda>st.
     appendOp (Operation (mk_operation Op_While sp) (Some c) None None (Some b) st)))))"

definition buildStmtStep :: "build_stmt_rec \<Rightarrow> build_stmt_rec" where
  "buildStmtStep rec s =
     (case s of
        BlockStmt sp ss \<Rightarrow> buildBlockStatements rec ss
      | LetStmt sp isMutable name nameSpan type init \<Rightarrow> buildLet sp isMutable name nameSpan type init
      | AssignStmt sp target v \<Rightarrow> buildAssign sp target v
      | ReturnStmt sp v \<Rightarrow> buildReturn sp v
      | IfStmt sp condition thenBranch elseBranch \<Rightarrow> buildIf rec sp condition thenBranch elseBranch
      | WhileStmt sp condition body \<Rightarrow> buildWhile rec sp condition body
      | ForStmt sp init condition step body \<Rightarrow> buildForStmt rec sp init condition step body
      | CallStmt sp callSpan callee arguments \<Rightarrow>
          bindB (buildCall buildExpr callSpan callee arguments) (\<lambda>_. returnB ())
      | BreakStmt sp \<Rightarrow> appendOp (plain_op (mk_operation Op_Break sp))
      | ContinueStmt sp \<Rightarrow> appendOp (plain_op (mk_operation Op_Continue sp)))"

function buildStmt :: build_stmt_rec where
  "buildStmt s = buildStmtStep (\<lambda>s'. if size s' < size s then buildStmt s' else nullB) s"
  by pat_completeness auto
termination by (relation "measure size") simp_all

declare buildStmt.simps [simp del]

section \<open>Declarations\<close>

definition ir_builtins :: "(string \<times> IrSignature) list" where
  "ir_builtins =
     (let f = \<lambda>ps r. \<lparr>is_parameterTypes = ps, is_returnType = r, is_isBuiltin = True\<rparr>
      in [(''print'', f [] (scalar Void)), (''println'', f [] (scalar Void)),
          (''readln'', f [] (scalar Str)), (''parse_i32'', f [scalar Str] (scalar I32)),
          (''parse_u64'', f [scalar Str] (scalar U64)), (''parse_bool'', f [scalar Str] (scalar Bool)),
          (''input_ok'', f [] (scalar Bool))])"

definition ir_installBuiltins :: "unit build" where
  "ir_installBuiltins st =
     Ok ((), st\<lparr>bd_functions := foldl (\<lambda>m (name, f). m(name \<mapsto> f)) (bd_functions st) ir_builtins\<rparr>)"

fun collectTopLevelSymbol :: "Item \<Rightarrow> builder \<Rightarrow> builder" where
  "collectTopLevelSymbol (ConstDecl sp name nameSpan type init) st =
     st\<lparr>bd_constants := (bd_constants st)(name \<mapsto> ir_typeFromSyntax type)\<rparr>"
| "collectTopLevelSymbol (FunctionDecl sp name nameSpan parameters returnType bodySpan body) st =
     st\<lparr>bd_functions := (bd_functions st)(name \<mapsto>
       \<lparr>is_parameterTypes = map (\<lambda>p. ir_typeFromSyntax (pr_type p)) parameters,
        is_returnType = ir_typeFromSyntax returnType, is_isBuiltin = False\<rparr>)\<rparr>"

definition collectTopLevelSymbols :: "TranslationUnit \<Rightarrow> unit build" where
  "collectTopLevelSymbols unit st = Ok ((), foldl (\<lambda>st i. collectTopLevelSymbol i st) st unit)"

definition buildConst :: "SourceSpan \<Rightarrow> string \<Rightarrow> TypeSyntax \<Rightarrow> Expr \<Rightarrow> IrConst build" where
  "buildConst sp name type init st =
     (let t = ir_typeFromSyntax type;
          constant = \<lparr>ic_name = name, ic_type = t, ic_span = sp, ic_initializer = Block_new (expr_span init), ic_nextValueId = 0\<rparr>
      in bindR ((bindB (buildExpr init (Some t)) (\<lambda>v. setTerminator Term_InitValue (expr_span init) (Some v)))
                (st\<lparr>bd_currentConst := Some constant, bd_currentFunction := None,
                    bd_currentBlock := Some (ic_initializer constant), bd_scopes := []\<rparr>)) (\<lambda>(_, st').
           case (bd_currentConst st', bd_currentBlock st') of
             (Some c, Some b) \<Rightarrow>
               Ok (c\<lparr>ic_initializer := b\<rparr>, st'\<lparr>bd_currentBlock := None, bd_currentConst := None\<rparr>)
           | _ \<Rightarrow> Throw NullPointer))"

definition buildParameter :: "ParameterSyntax \<Rightarrow> Parameter build" where
  "buildParameter p =
     (let t = ir_typeFromSyntax (pr_type p)
      in bindB (ir_declareLocal (pr_name p) (pr_nameSpan p) t False Local_Parameter) (\<lambda>local.
         returnB \<lparr>pa_name = pr_name p, pa_type = t, pa_local = local, pa_span = pr_span p\<rparr>))"

definition buildFunction ::
    "SourceSpan \<Rightarrow> string \<Rightarrow> ParameterSyntax list \<Rightarrow> TypeSyntax \<Rightarrow> SourceSpan \<Rightarrow> Stmt list \<Rightarrow> IrFunction build" where
  "buildFunction sp name parameters returnType bodySpan body st =
     (let function = \<lparr>fn_name = name, fn_parameters = [], fn_returnType = ir_typeFromSyntax returnType, fn_span = sp,
            fn_locals = [], fn_body = Block_new bodySpan, fn_nextValueId = 0\<rparr>
      in bindR (bindB ir_pushScope (\<lambda>_. bindB (traverseB buildParameter parameters) (\<lambda>ps.
                bindB (buildBlockStatements buildStmt body) (\<lambda>_. bindB ir_popScope (\<lambda>_. returnB ps))))
                (st\<lparr>bd_currentFunction := Some function, bd_currentConst := None,
                    bd_currentBlock := Some (fn_body function), bd_scopes := []\<rparr>)) (\<lambda>(ps, st').
           case (bd_currentFunction st', bd_currentBlock st') of
             (Some f, Some b) \<Rightarrow>
               Ok (f\<lparr>fn_parameters := ps, fn_body := b\<rparr>, st'\<lparr>bd_currentBlock := None, bd_currentFunction := None\<rparr>)
           | _ \<Rightarrow> Throw NullPointer))"

fun buildItems :: "TranslationUnit \<Rightarrow> Module \<Rightarrow> Module build" where
  "buildItems [] m = returnB m"
| "buildItems (ConstDecl sp name nameSpan type init # is) m =
     bindB (buildConst sp name type init) (\<lambda>c. buildItems is (m\<lparr>md_constants := md_constants m @ [c]\<rparr>))"
| "buildItems (FunctionDecl sp name nameSpan parameters returnType bodySpan body # is) m =
     bindB (buildFunction sp name parameters returnType bodySpan body) (\<lambda>f.
       buildItems is (m\<lparr>md_functions := md_functions m @ [f]\<rparr>))"

definition buildModule :: "TranslationUnit \<Rightarrow> Module build" where
  "buildModule unit =
     bindB ir_installBuiltins (\<lambda>_. bindB (collectTopLevelSymbols unit) (\<lambda>_.
       buildItems unit \<lparr>md_constants = [], md_functions = []\<rparr>))"

definition buildTypedIr :: "TranslationUnit \<Rightarrow> Module result" where
  "buildTypedIr unit = bindR (buildModule unit TypedIrBuilder_new) (\<lambda>(m, _). Ok m)"

end
