(* ===== verification/IrFacts.thy ===== *)
theory IrFacts
  imports IrBuilder
begin

text \<open>
  The recursion of the builder without its guards, and the weakest preconditions of its monad.
\<close>

section \<open>The guard of the recursion never applies\<close>

definition agreeB :: "nat \<Rightarrow> build_rec \<Rightarrow> build_rec \<Rightarrow> bool" where
  "agreeB n f g \<longleftrightarrow> (\<forall>e t. size e < n \<longrightarrow> f e t = g e t)"

lemma agreeB_D: "agreeB n f g \<Longrightarrow> size e < n \<Longrightarrow> f e t = g e t"
  by (simp add: agreeB_def)

lemma size_member: "x \<in> set xs \<Longrightarrow> size x < size_list size xs"
  by (induction xs) auto

lemma traverseB_cong [fundef_cong]:
  "xs = ys \<Longrightarrow> (\<And>x. x \<in> set ys \<Longrightarrow> f x = g x) \<Longrightarrow> traverseB f xs = traverseB g ys"
proof (induction xs arbitrary: ys)
  case (Cons x xs)
  then obtain ys' where "ys = x # ys'" "xs = ys'" by blast
  then show ?case using Cons by auto
qed simp

lemma shortCircuit_cong:
  assumes "agreeB n f g" "size l < n" "size r < n"
  shows "buildShortCircuitAnd f sp l r = buildShortCircuitAnd g sp l r"
    "buildShortCircuitOr f sp l r = buildShortCircuitOr g sp l r"
    "buildBinary f sp l op r t = buildBinary g sp l op r t"
proof -
  have e: "f l t = g l t" "f r t = g r t" for t using assms by (simp_all add: agreeB_D)
  show "buildShortCircuitAnd f sp l r = buildShortCircuitAnd g sp l r"
    "buildShortCircuitOr f sp l r = buildShortCircuitOr g sp l r"
    "buildBinary f sp l op r t = buildBinary g sp l op r t"
    by (simp_all only: buildBinary_def buildShortCircuitAnd_def buildShortCircuitOr_def buildBoolResultBlock_def e)
qed

lemma buildCall_cong:
  assumes "agreeB n f g" "\<And>e. e \<in> set es \<Longrightarrow> size e < n"
  shows "buildCall f sp callee es = buildCall g sp callee es"
proof -
  have "traverseB (\<lambda>e. f e None) es = traverseB (\<lambda>e. g e None) es"
    by (rule traverseB_cong) (use assms in \<open>auto simp: agreeB_D\<close>)
  moreover have "traverseB (\<lambda>(e, t). f e (Some t)) (zip es ts) = traverseB (\<lambda>(e, t). g e (Some t)) (zip es ts)" for ts
    by (rule traverseB_cong) (use assms in \<open>auto simp: agreeB_D dest: set_zip_leftD\<close>)
  ultimately show ?thesis by (simp only: buildCall_def)
qed

lemma buildArrayLiteral_cong:
  assumes "agreeB n f g" "\<And>e. e \<in> set es \<Longrightarrow> size e < n"
  shows "buildArrayLiteral f sp es t = buildArrayLiteral g sp es t"
proof -
  have "traverseB (\<lambda>e. f e u) es = traverseB (\<lambda>e. g e u) es" for u
    by (rule traverseB_cong) (use assms in \<open>auto simp: agreeB_D\<close>)
  then show ?thesis by (cases t) (simp_all add: buildArrayLiteral_def)
qed

lemma buildIndexLoads_cong:
  "agreeB n f g \<Longrightarrow> (\<And>e. e \<in> set is \<Longrightarrow> size e < n) \<Longrightarrow> buildIndexLoads f is b t = buildIndexLoads g is b t"
  by (induction "is" arbitrary: b t) (simp_all add: agreeB_D)

lemma buildChain_cong:
  assumes "agreeB n f g" "\<And>e. e \<in> set is \<Longrightarrow> size e < n" "is \<noteq> []"
  shows "buildChain f nsp name is = buildChain g nsp name is"
proof -
  have "buildIndexLoads f (butlast is) b t = buildIndexLoads g (butlast is) b t" for b t
    by (rule buildIndexLoads_cong[OF assms(1)]) (use assms(2) in \<open>auto dest: in_set_butlastD\<close>)
  then show ?thesis using assms by (simp add: buildChain_def agreeB_D)
qed

lemma size_indices:
  assumes "peelIndices (IndexExpr sp base index) [] = (root, is)" "i \<in> set is"
  shows "size i < size (IndexExpr sp base index)"
proof -
  have "size root + size_list size is \<le> size (IndexExpr sp base index)"
    using size_peelIndices[OF assms(1)] by simp
  then show ?thesis using size_member[OF assms(2)] by linarith
qed

lemma buildIndex_cong:
  assumes "agreeB (size (IndexExpr sp base index)) f g"
  shows "buildIndex f sp base index = buildIndex g sp base index"
proof -
  obtain root "is" where p: "peelIndices (IndexExpr sp base index) [] = (root, is)" by fastforce
  have "buildIndexGeneral f sp base index = buildIndexGeneral g sp base index"
    using assms by (simp add: buildIndexGeneral_def agreeB_D)
  moreover have "buildChain f nsp name is = buildChain g nsp name is" if "is \<noteq> []" for nsp name
    by (rule buildChain_cong[OF assms]) (use size_indices[OF p] that in auto)
  ultimately show ?thesis unfolding buildIndex_def p by (auto split: Expr.splits)
qed

lemma buildExprStep_cong:
  assumes "agreeB (size e) f g"
  shows "buildExprStep f e t = buildExprStep g e t"
proof (cases e)
  case (CallExpr sp callee es)
  have "buildCall f sp callee es = buildCall g sp callee es"
    by (rule buildCall_cong[OF assms]) (use CallExpr in \<open>auto dest: size_member\<close>)
  then show ?thesis using CallExpr by (simp add: buildExprStep_def)
next
  case (ArrayLiteralExpr sp es)
  have "buildArrayLiteral f sp es t = buildArrayLiteral g sp es t"
    by (rule buildArrayLiteral_cong[OF assms]) (use ArrayLiteralExpr in \<open>auto dest: size_member\<close>)
  then show ?thesis using ArrayLiteralExpr by (simp add: buildExprStep_def)
next
  case (IndexExpr sp base index)
  then show ?thesis using buildIndex_cong[OF assms[unfolded IndexExpr]] by (simp add: buildExprStep_def)
next
  case (UnaryExpr sp op operand)
  then show ?thesis using assms by (simp add: buildExprStep_def buildUnary_def agreeB_D)
next
  case (BinaryExpr sp l op r)
  then show ?thesis using shortCircuit_cong(3)[OF assms] by (simp add: buildExprStep_def)
qed (use assms in \<open>simp_all add: buildExprStep_def agreeB_D\<close>)

lemma buildExpr_unfold: "buildExpr e t = buildExprStep buildExpr e t"
  unfolding buildExpr.simps[of e] by (rule buildExprStep_cong) (simp add: agreeB_def)

lemma buildStatements_cong:
  "(\<And>s. s \<in> set ss \<Longrightarrow> f s = g s) \<Longrightarrow> buildStatements f ss = buildStatements g ss"
  by (induction ss) (simp_all cong: if_cong)

lemma buildStmtStep_cong:
  assumes "\<And>s'. size s' < size s \<Longrightarrow> f s' = g s'"
  shows "buildStmtStep f s = buildStmtStep g s"
proof (cases s)
  case (BlockStmt sp ss)
  have "buildStatements f ss = buildStatements g ss"
    by (rule buildStatements_cong, rule assms) (use BlockStmt in \<open>auto dest: size_member\<close>)
  then show ?thesis using BlockStmt by (simp add: buildStmtStep_def buildBlockStatements_def)
qed (use assms in \<open>auto simp: buildStmtStep_def buildIf_def buildWhile_def buildForStmt_def
      buildNestedStatementBlock_def buildOptionalBlock_def split: option.splits intro!: arg_cong2[where f = bindB] ext\<close>)

lemma buildStmt_unfold: "buildStmt s = buildStmtStep buildStmt s"
  unfolding buildStmt.simps[of s] by (rule buildStmtStep_cong) simp

section \<open>Induction\<close>

text \<open>A property of runs that a failing run has is shown for one step of the recursion.\<close>

lemma buildExpr_rule:
  assumes "\<And>rec e t. (\<And>e' t'. P e' t' (rec e' t')) \<Longrightarrow> P e t (buildExprStep rec e t)"
    "\<And>e t. P e t nullB"
  shows "P e t (buildExpr e t)"
  by (induction e t rule: buildExpr.induct) (subst buildExpr.simps, rule assms(1), simp add: assms(2))

lemma buildStmt_rule:
  assumes "\<And>rec s. (\<And>s'. P s' (rec s')) \<Longrightarrow> P s (buildStmtStep rec s)" "\<And>s. P s nullB"
  shows "P s (buildStmt s)"
  by (induction s rule: buildStmt.induct) (subst buildStmt.simps, rule assms(1), simp add: assms(2))

section \<open>Weakest preconditions\<close>

definition wpB :: "'a build \<Rightarrow> ('a \<Rightarrow> builder \<Rightarrow> bool) \<Rightarrow> builder \<Rightarrow> bool" where
  "wpB m Q st \<longleftrightarrow> wpR (m st) (\<lambda>(x, st'). Q x st')"

lemma wpB_return [simp]: "wpB (returnB x) Q = Q x"
  by (rule ext) (simp add: wpB_def returnB_def)

lemma wpB_bind [simp]: "wpB (bindB m f) Q = wpB m (\<lambda>x. wpB (f x) Q)"
  by (rule ext, case_tac "m x") (auto simp: wpB_def bindB_def)

lemma wpB_throw [simp]: "wpB (logicError s) Q st" "wpB nullB Q st"
  by (simp_all add: wpB_def logicError_def nullB_def)

lemma wpB_read [simp]: "wpB (readB f) Q st \<longleftrightarrow> wpR (f st) (\<lambda>x. Q x st)"
  by (cases "f st") (auto simp: wpB_def readB_def)

lemma wpB_mono: "wpB m P st \<Longrightarrow> (\<And>x st'. P x st' \<Longrightarrow> Q x st') \<Longrightarrow> wpB m Q st"
  by (cases "m st") (auto simp: wpB_def)

lemma wpB_conj: "wpB m P st \<Longrightarrow> wpB m Q st \<Longrightarrow> wpB m (\<lambda>x st'. P x st' \<and> Q x st') st"
  by (cases "m st") (auto simp: wpB_def)

lemma wpB_Ok: "wpB m Q st \<Longrightarrow> m st = Ok (x, st') \<Longrightarrow> Q x st'"
  by (simp add: wpB_def)

section \<open>Lookups end\<close>

lemma lookupValue_fuel: "ir_lookupValue name st \<noteq> OutOfFuel"
  by (simp add: ir_lookupValue_def split: option.split)

lemma bindR_fuel: "bindR m f = OutOfFuel \<longleftrightarrow> m = OutOfFuel \<or> (\<exists>x. m = Ok x \<and> f x = OutOfFuel)"
  by (cases m) auto

lemma inferExprType_fuel: "inferExprType st e t \<noteq> OutOfFuel" "inferLiteralType st es \<noteq> OutOfFuel"
  by (induction st e t and st es rule: inferExprType_inferLiteralType.induct)
    (auto simp: bindR_fuel lookupValue_fuel split: Expr.splits option.splits)

end
