(* ===== verification/IrWellformed.thy ===== *)
theory IrWellformed
  imports IrFacts "HOL-Library.Multiset"
begin

text \<open>
  What every module the builder returns satisfies, whatever the tree: operations have the payload
  of their kind, the type of a result is the one the operation computes, every operand is the
  result of an earlier operation of the same block, value identifiers are dense and used once,
  and locals, constants and callees resolve. The judgement \<open>emits\<close> carries it through the builder.
\<close>

section \<open>Well-formed operations\<close>

definition optional :: "'a option \<Rightarrow> 'a list" where
  "optional x = (case x of None \<Rightarrow> [] | Some y \<Rightarrow> [y])"

lemma optional_simps [simp]: "optional None = []" "optional (Some x) = [x]"
  by (simp_all add: optional_def)

lemma in_optional [simp, termination_simp]: "x \<in> set (optional y) \<longleftrightarrow> y = Some x"
  by (cases y) auto

definition op_uses :: "OperationData \<Rightarrow> ValueRef list" where
  "op_uses d = optional (od_value d) @ optional (od_left d) @ optional (od_right d) @
     optional (od_condition d) @ od_arguments d"

definition results :: "Operation list \<Rightarrow> ValueRef list" where
  "results ops = concat (map (\<lambda>op. optional (od_result (op_data op))) ops)"

lemma results_simps [simp]: "results [] = []" "results (op # ops) = optional (od_result (op_data op)) @ results ops"
  "results (ops @ ops') = results ops @ results ops'"
  by (simp_all add: results_def)

text \<open>The identifiers of all values made inside, nested blocks included.\<close>

fun op_ids :: "Operation \<Rightarrow> nat list" and block_ids :: "Block \<Rightarrow> nat list" where
  "op_ids (Operation d c t e b s) = map vr_id (optional (od_result d)) @
     concat (map block_ids (optional c @ optional t @ optional e @ optional b @ optional s))"
| "block_ids (Block sp ops t) = concat (map op_ids ops)"

definition valueKinds :: "OperationKind set" where
  "valueKinds = {Op_IntegerLiteral, Op_FloatLiteral, Op_BoolLiteral, Op_StringLiteral, Op_LoadLocal, Op_LoadConst,
     Op_Unary, Op_Binary, Op_ShortCircuitAnd, Op_ShortCircuitOr, Op_ArrayLiteral, Op_IndexLoad, Op_AddressOfLocal,
     Op_PointerLoad}"

text \<open>The slots that a kind uses are filled, the others are empty.\<close>

definition payload_ok :: "OperationData \<Rightarrow> bool" where
  "payload_ok d \<longleftrightarrow> od_kind d \<noteq> Op_Invalid \<and>
     (od_kind d \<noteq> Op_Call \<longrightarrow> (od_result d \<noteq> None \<longleftrightarrow> od_kind d \<in> valueKinds)) \<and>
     (od_kind d \<noteq> Op_DeclareLocal \<longrightarrow>
        (od_value d \<noteq> None \<longleftrightarrow> od_kind d \<in> {Op_Unary, Op_StoreLocal, Op_IndexStore, Op_PointerLoad, Op_PointerStore})) \<and>
     (od_left d \<noteq> None \<longleftrightarrow> od_kind d \<in> {Op_Binary, Op_ShortCircuitAnd, Op_ShortCircuitOr, Op_IndexLoad, Op_IndexStore, Op_PointerStore}) \<and>
     (od_right d \<noteq> None \<longleftrightarrow> od_kind d \<in> {Op_Binary, Op_IndexLoad, Op_IndexStore}) \<and>
     (od_condition d \<noteq> None \<longleftrightarrow> od_kind d = Op_If) \<and>
     (od_arguments d \<noteq> [] \<longrightarrow> od_kind d \<in> {Op_Call, Op_ArrayLiteral})"

definition arm_ok :: "Block option \<Rightarrow> bool" where
  "arm_ok b \<longleftrightarrow> (case b of None \<Rightarrow> False
     | Some b \<Rightarrow> tm_kind (bl_terminator b) = Term_ReturnValue \<and>
         (case tm_value (bl_terminator b) of None \<Rightarrow> False | Some v \<Rightarrow> it_kind (vr_type v) = Bool))"

definition condition_ok :: "Block option \<Rightarrow> bool" where
  "condition_ok b \<longleftrightarrow> (case b of None \<Rightarrow> False | Some b \<Rightarrow> tm_kind (bl_terminator b) = Term_ConditionValue)"

definition blocks_ok :: "OperationKind \<Rightarrow> Block option \<Rightarrow> Block option \<Rightarrow> Block option \<Rightarrow> Block option \<Rightarrow> Block option \<Rightarrow> bool" where
  "blocks_ok k c t e b s \<longleftrightarrow>
     (if k \<in> {Op_ShortCircuitAnd, Op_ShortCircuitOr} then c = None \<and> arm_ok t \<and> arm_ok e \<and> b = None \<and> s = None
      else if k = Op_If then c = None \<and> t \<noteq> None \<and> b = None \<and> s = None
      else if k = Op_While then condition_ok c \<and> t = None \<and> e = None \<and> b \<noteq> None
      else c = None \<and> t = None \<and> e = None \<and> b = None \<and> s = None)"

text \<open>The tables and the slots an operation may refer to.\<close>

record tables =
  tb_functions :: "string \<Rightarrow> IrSignature option"
  tb_constants :: "string \<Rightarrow> IrType option"

definition slot :: "Local list \<Rightarrow> LocalRef \<Rightarrow> Local option" where
  "slot ls r = (if lr_id r < length ls then Some (ls ! lr_id r) else None)"

definition operand :: "ValueRef option \<Rightarrow> IrType" where
  "operand v = vr_type (the v)"

text \<open>The type of the result, from the operands and the tables.\<close>

definition result_ok :: "tables \<Rightarrow> Local list \<Rightarrow> OperationData \<Rightarrow> bool" where
  "result_ok T ls d \<longleftrightarrow>
     (case od_kind d of
        Op_IntegerLiteral \<Rightarrow> IrType_isInteger (operand (od_result d)) \<or> operand (od_result d) = IrType_new
      | Op_FloatLiteral \<Rightarrow> IrType_isFloat (operand (od_result d)) \<or> operand (od_result d) = IrType_new
      | Op_BoolLiteral \<Rightarrow> operand (od_result d) = scalar Bool
      | Op_StringLiteral \<Rightarrow> operand (od_result d) = scalar Str
      | Op_LoadLocal \<Rightarrow>
          (case slot ls (od_local d) of None \<Rightarrow> False
           | Some l \<Rightarrow> lo_name l = od_text d \<and> operand (od_result d) = lo_type l)
      | Op_LoadConst \<Rightarrow> tb_constants T (od_text d) = Some (operand (od_result d))
      | Op_Unary \<Rightarrow> operand (od_result d) = (if od_op d = Bang then scalar Bool else operand (od_value d))
      | Op_Binary \<Rightarrow> operand (od_result d) =
          (if comparisonResult (od_op d) \<or> od_op d = AmpAmp \<or> od_op d = PipePipe then scalar Bool else operand (od_left d))
      | Op_ShortCircuitAnd \<Rightarrow> operand (od_result d) = scalar Bool
      | Op_ShortCircuitOr \<Rightarrow> operand (od_result d) = scalar Bool
      | Op_Call \<Rightarrow>
          (case tb_functions T (od_text d) of None \<Rightarrow> False
           | Some s \<Rightarrow> od_isBuiltin d = is_isBuiltin s \<and>
               (if is_isBuiltin s \<and> isPrintName (od_text d) \<or> IrType_isVoid (is_returnType s) then od_result d = None
                else map_option vr_type (od_result d) = Some (is_returnType s)) \<and>
               (\<not> (is_isBuiltin s \<and> isPrintName (od_text d)) \<longrightarrow> length (od_arguments d) \<le> length (is_parameterTypes s)))
      | Op_DeclareLocal \<Rightarrow>
          (case slot ls (od_local d) of None \<Rightarrow> False | Some l \<Rightarrow> lo_isMutable l = od_isMutable d \<and> lo_kind l = Local_Local)
      | Op_ArrayLiteral \<Rightarrow> IrType_isFixedArray (operand (od_result d))
      | Op_IndexLoad \<Rightarrow> operand (od_result d) = IrType_afterIndex (operand (od_left d))
      | Op_PointerLoad \<Rightarrow> operand (od_result d) = IrType_pointeeType (operand (od_value d))
      | _ \<Rightarrow> True)"

definition terminator_ok :: "Operation list \<Rightarrow> Terminator \<Rightarrow> bool" where
  "terminator_ok ops t \<longleftrightarrow>
     (tm_value t \<noteq> None \<longleftrightarrow> tm_kind t \<in> {Term_ReturnValue, Term_ConditionValue, Term_InitValue}) \<and>
     set (optional (tm_value t)) \<subseteq> set (results ops)"

text \<open>Operands come from the same block, from above.\<close>

fun ordered :: "ValueRef list \<Rightarrow> Operation list \<Rightarrow> bool" where
  "ordered vs [] \<longleftrightarrow> True"
| "ordered vs (op # ops) \<longleftrightarrow> set (op_uses (op_data op)) \<subseteq> set vs \<and> ordered (vs @ optional (od_result (op_data op))) ops"

fun op_ok :: "tables \<Rightarrow> Local list \<Rightarrow> Operation \<Rightarrow> bool" and block_ok :: "tables \<Rightarrow> Local list \<Rightarrow> Block \<Rightarrow> bool" where
  "op_ok T ls (Operation d c t e b s) \<longleftrightarrow> payload_ok d \<and> result_ok T ls d \<and> blocks_ok (od_kind d) c t e b s \<and>
     list_all (block_ok T ls) (optional c @ optional t @ optional e @ optional b @ optional s)"
| "block_ok T ls (Block sp ops t) \<longleftrightarrow> list_all (op_ok T ls) ops \<and> ordered [] ops \<and> terminator_ok ops t"

section \<open>The state while a body is built\<close>

definition tables_of :: "builder \<Rightarrow> tables" where
  "tables_of st = \<lparr>tb_functions = bd_functions st, tb_constants = bd_constants st\<rparr>"

definition locals_of :: "builder \<Rightarrow> Local list" where
  "locals_of st = (case bd_currentFunction st of None \<Rightarrow> [] | Some f \<Rightarrow> fn_locals f)"

definition next_of :: "builder \<Rightarrow> nat" where
  "next_of st = (case bd_currentFunction st of Some f \<Rightarrow> fn_nextValueId f
     | None \<Rightarrow> (case bd_currentConst st of Some c \<Rightarrow> ic_nextValueId c | None \<Rightarrow> 0))"

definition ops_of :: "builder \<Rightarrow> Operation list" where
  "ops_of st = (case bd_currentBlock st of None \<Rightarrow> [] | Some b \<Rightarrow> bl_operations b)"

definition term_of :: "builder \<Rightarrow> Terminator" where
  "term_of st = (case bd_currentBlock st of None \<Rightarrow> Terminator_none | Some b \<Rightarrow> bl_terminator b)"

text \<open>What of the current bodies never changes: everything but the counters and the slots.\<close>

definition headers :: "builder \<Rightarrow> IrFunction option \<times> IrConst option" where
  "headers st = (map_option (\<lambda>f. f\<lparr>fn_locals := [], fn_nextValueId := 0\<rparr>) (bd_currentFunction st),
     map_option (\<lambda>c. c\<lparr>ic_nextValueId := 0\<rparr>) (bd_currentConst st))"

definition step :: "builder \<Rightarrow> nat multiset \<Rightarrow> builder \<Rightarrow> nat multiset \<Rightarrow> bool" where
  "step st p st' q \<longleftrightarrow> tables_of st' = tables_of st \<and> headers st' = headers st \<and>
     (\<exists>nl. locals_of st' = locals_of st @ nl) \<and> map_option bl_span (bd_currentBlock st') = map_option bl_span (bd_currentBlock st) \<and>
     next_of st \<le> next_of st' \<and>
     (\<exists>new. ops_of st' = ops_of st @ new \<and>
        mset (concat (map op_ids new)) + q = mset [next_of st..<next_of st'] + p)"

definition scopes_ok :: "Local list \<Rightarrow> (string \<Rightarrow> IrSymbol option) list \<Rightarrow> bool" where
  "scopes_ok ls scopes \<longleftrightarrow> (\<forall>sc \<in> set scopes. \<forall>x s. sc x = Some s \<longrightarrow> \<not> sy_isConst s \<and>
     (\<exists>l. slot ls (sy_local s) = Some l \<and> lo_name l = x \<and> lo_type l = sy_type s))"

definition numbered :: "Local list \<Rightarrow> bool" where
  "numbered ls \<longleftrightarrow> map (\<lambda>l. lr_id (lo_ref l)) ls = [0..<length ls]"

definition inv :: "builder \<Rightarrow> bool" where
  "inv st \<longleftrightarrow> scopes_ok (locals_of st) (bd_scopes st) \<and> numbered (locals_of st) \<and>
     list_all (op_ok (tables_of st) (locals_of st)) (ops_of st) \<and> ordered [] (ops_of st) \<and>
     terminator_ok (ops_of st) (term_of st)"

text \<open>The value is the result of an operation of the current block.\<close>

definition made :: "ValueRef \<Rightarrow> builder \<Rightarrow> bool" where
  "made v st \<longleftrightarrow> v \<in> set (results (ops_of st))"

definition emits ::
    "(builder \<Rightarrow> bool) \<Rightarrow> nat multiset \<Rightarrow> 'a build \<Rightarrow> ('a \<Rightarrow> builder \<Rightarrow> bool) \<Rightarrow> ('a \<Rightarrow> nat multiset) \<Rightarrow> bool" where
  "emits P p m Q q \<longleftrightarrow> (\<forall>st. inv st \<longrightarrow> P st \<longrightarrow>
     wpB m (\<lambda>x st'. step st p st' (q x) \<and> inv st' \<and> Q x st') st)"

section \<open>Growing slots and blocks\<close>

lemma slot_append: "slot ls r = Some l \<Longrightarrow> slot (ls @ nl) r = Some l"
  by (auto simp: slot_def nth_append split: if_splits)

lemma result_ok_append: "result_ok T ls d \<Longrightarrow> result_ok T (ls @ nl) d"
  by (cases "od_kind d") (auto simp: result_ok_def slot_append split: option.splits)

lemma op_ok_append:
  "op_ok T ls op \<Longrightarrow> op_ok T (ls @ nl) op" "block_ok T ls b \<Longrightarrow> block_ok T (ls @ nl) b"
  by (induction T ls op and T ls b rule: op_ok_block_ok.induct) (auto simp: list_all_iff result_ok_append)

lemma scopes_ok_append: "scopes_ok ls scopes \<Longrightarrow> scopes_ok (ls @ nl) scopes"
  unfolding scopes_ok_def by (meson slot_append)

lemma ordered_append: "ordered vs (ops @ ops') \<longleftrightarrow> ordered vs ops \<and> ordered (vs @ results ops) ops'"
  by (induction ops arbitrary: vs) auto

lemma terminator_ok_append: "terminator_ok ops t \<Longrightarrow> terminator_ok (ops @ ops') t"
  by (auto simp: terminator_ok_def)

lemma step_refl: "step st p st p"
  by (simp add: step_def)

lemma mset_upt_trans: "i \<le> j \<Longrightarrow> j \<le> k \<Longrightarrow> mset [i..<k] = mset [i..<j] + mset [j..<k]"
  by (metis le_add_diff_inverse mset_append upt_add_eq_append)

lemma step_trans:
  assumes "step st p st1 q" "step st1 (q + r) st2 s" shows "step st (p + r) st2 s"
proof -
  obtain n1 where 1: "ops_of st1 = ops_of st @ n1" "mset (concat (map op_ids n1)) + q = mset [next_of st..<next_of st1] + p"
    using assms(1) by (auto simp: step_def)
  obtain n2 where 2: "ops_of st2 = ops_of st1 @ n2"
      "mset (concat (map op_ids n2)) + s = mset [next_of st1..<next_of st2] + (q + r)"
    using assms(2) by (auto simp: step_def)
  have n: "next_of st \<le> next_of st1" "next_of st1 \<le> next_of st2" using assms by (simp_all add: step_def)
  have "mset (concat (map op_ids (n1 @ n2))) + s =
      mset (concat (map op_ids n1)) + (mset [next_of st1..<next_of st2] + (q + r))"
    using 2(2) by simp
  also have "\<dots> = (mset (concat (map op_ids n1)) + q) + (mset [next_of st1..<next_of st2] + r)"
    by (simp add: add_ac)
  also have "\<dots> = mset [next_of st..<next_of st2] + (p + r)"
    unfolding 1(2) mset_upt_trans[OF n] by (simp add: add_ac)
  finally show ?thesis using assms 1(1) 2(1) unfolding step_def by auto
qed

lemma step_frame: "step st p st1 q \<Longrightarrow> step st (p + r) st1 (q + r)"
  using step_trans[of st p st1 q r st1 "q + r"] step_refl by blast

text \<open>Facts that later steps do not undo.\<close>

definition stable :: "(builder \<Rightarrow> bool) \<Rightarrow> bool" where
  "stable P \<longleftrightarrow> (\<forall>st p st' q. step st p st' q \<longrightarrow> P st \<longrightarrow> P st')"

lemma stable_const: "stable (\<lambda>_. b)"
  by (simp add: stable_def)

lemma stable_conj: "stable P \<Longrightarrow> stable Q \<Longrightarrow> stable (\<lambda>st. P st \<and> Q st)"
  by (auto simp: stable_def)

lemma stable_all: "(\<And>x. stable (P x)) \<Longrightarrow> stable (\<lambda>st. \<forall>x\<in>A. P x st)"
  by (auto simp: stable_def)

lemma stable_All: "(\<And>x. stable (P x)) \<Longrightarrow> stable (\<lambda>st. \<forall>x. P x st)"
  by (auto simp: stable_def)

lemma stable_imp: "stable Q \<Longrightarrow> stable (\<lambda>st. b \<longrightarrow> Q st)"
  by (auto simp: stable_def)

lemma stable_made: "stable (made v)"
  by (auto simp: stable_def step_def made_def)

lemma stable_block: "stable (\<lambda>st. block_ok (tables_of st) (locals_of st) b)"
  by (auto simp: stable_def step_def op_ok_append)

lemma stable_tables: "stable (\<lambda>st. Q (tables_of st))"
  by (simp add: stable_def step_def)

lemma stable_slot: "stable (\<lambda>st. slot (locals_of st) r = Some l)"
  by (auto simp: stable_def step_def slot_append)

lemmas stable_rules = stable_const stable_made stable_block stable_tables stable_slot stable_conj stable_all stable_All stable_imp

section \<open>Rules\<close>

lemma emits_mono:
  assumes "emits P p m Q q" "\<And>st. P' st \<Longrightarrow> P st" "\<And>x st. Q x st \<Longrightarrow> Q' x st"
  shows "emits P' p m Q' q"
  unfolding emits_def
  by (intro allI impI, rule wpB_mono[OF assms(1)[unfolded emits_def, rule_format]]) (use assms(2,3) in auto)

lemma emits_bind:
  assumes "emits P {#} m Q q" "stable P" "\<And>x. emits (\<lambda>st. P st \<and> Q x st) (p + q x) (f x) R r"
  shows "emits P p (bindB m f) R r"
proof -
  have "wpB (f x) (\<lambda>y st2. step st p st2 (r y) \<and> inv st2 \<and> R y st2) st1"
    if st: "P st" "step st {#} st1 (q x)" "inv st1" "Q x st1" for st st1 x
  proof -
    have "P st1" using assms(2) st(1,2) by (auto simp: stable_def)
    then have "wpB (f x) (\<lambda>y st2. step st1 (p + q x) st2 (r y) \<and> inv st2 \<and> R y st2) st1"
      using assms(3)[of x] st(3,4) by (simp add: emits_def)
    then show ?thesis
      by (rule wpB_mono) (use step_trans[OF st(2), of p] in \<open>auto simp: add.commute\<close>)
  qed
  note rest = this
  show ?thesis unfolding emits_def wpB_bind
    by (intro allI impI, rule wpB_mono[OF assms(1)[unfolded emits_def, rule_format]]) (use rest in auto)
qed

lemma emits_return: "(\<And>st. P st \<Longrightarrow> Q x st) \<Longrightarrow> p = q x \<Longrightarrow> emits P p (returnB x) Q q"
  by (simp add: emits_def step_refl)

lemma emits_throw: "emits P p (logicError s) Q q" "emits P p nullB Q q"
  by (simp_all add: emits_def)

lemma emits_if: "(b \<Longrightarrow> emits P p m Q q) \<Longrightarrow> (\<not> b \<Longrightarrow> emits P p n Q q) \<Longrightarrow> emits P p (if b then m else n) Q q"
  by simp

lemma emits_read:
  assumes "\<And>st. inv st \<Longrightarrow> P st \<Longrightarrow> wpR (f st) (\<lambda>x. Q x st)"
  shows "emits P {#} (readB f) Q (\<lambda>_. {#})"
  using assms by (auto simp: emits_def step_refl elim: wpR_mono)

lemma emits_pre: "(\<And>st. inv st \<Longrightarrow> P st \<Longrightarrow> emits (\<lambda>st'. st' = st) p m Q q) \<Longrightarrow> emits P p m Q q"
  by (simp add: emits_def)

section \<open>Primitives\<close>

lemma observe_block [simp]:
  "tables_of (st\<lparr>bd_currentBlock := b\<rparr>) = tables_of st" "locals_of (st\<lparr>bd_currentBlock := b\<rparr>) = locals_of st"
  "next_of (st\<lparr>bd_currentBlock := b\<rparr>) = next_of st" "headers (st\<lparr>bd_currentBlock := b\<rparr>) = headers st"
  "ops_of (st\<lparr>bd_currentBlock := Some b'\<rparr>) = bl_operations b'" "term_of (st\<lparr>bd_currentBlock := Some b'\<rparr>) = bl_terminator b'"
  by (simp_all add: tables_of_def locals_of_def next_of_def ops_of_def term_of_def headers_def split: option.split)

lemma observe_scopes [simp]:
  "tables_of (st\<lparr>bd_scopes := sc\<rparr>) = tables_of st" "locals_of (st\<lparr>bd_scopes := sc\<rparr>) = locals_of st"
  "next_of (st\<lparr>bd_scopes := sc\<rparr>) = next_of st" "headers (st\<lparr>bd_scopes := sc\<rparr>) = headers st"
  "ops_of (st\<lparr>bd_scopes := sc\<rparr>) = ops_of st" "term_of (st\<lparr>bd_scopes := sc\<rparr>) = term_of st"
  by (simp_all add: tables_of_def locals_of_def next_of_def ops_of_def term_of_def headers_def split: option.split)

lemma observe_body [simp]:
  "tables_of (st\<lparr>bd_currentConst := c\<rparr>) = tables_of st" "tables_of (st\<lparr>bd_currentFunction := f\<rparr>) = tables_of st"
  by (simp_all add: tables_of_def)

lemma observe_current: "bd_currentBlock st = Some b \<Longrightarrow> ops_of st = bl_operations b \<and> term_of st = bl_terminator b"
  by (simp add: ops_of_def term_of_def)

lemmas state_defs = tables_of_def locals_of_def next_of_def ops_of_def term_of_def headers_def

lemma emits_makeValue: "emits P {#} (makeValue t) (\<lambda>v st. vr_type v = t) (\<lambda>v. {#vr_id v#})"
  by (auto simp: emits_def wpB_def makeValue_def step_def inv_def state_defs split: option.splits)

definition can_append :: "Operation \<Rightarrow> builder \<Rightarrow> bool" where
  "can_append op st \<longleftrightarrow> op_ok (tables_of st) (locals_of st) op \<and> set (op_uses (op_data op)) \<subseteq> set (results (ops_of st))"

lemma emits_append:
  assumes "\<And>st. P st \<Longrightarrow> can_append op st"
  shows "emits P (mset (op_ids op)) (appendOp op) (\<lambda>_ st. \<forall>v. od_result (op_data op) = Some v \<longrightarrow> made v st) (\<lambda>_. {#})"
proof -
  have "wpB (appendOp op) (\<lambda>x st'. step st (mset (op_ids op)) st' {#} \<and> inv st' \<and>
      (\<forall>v. od_result (op_data op) = Some v \<longrightarrow> made v st')) st" if st: "inv st" "can_append op st" for st
  proof (cases "bd_currentBlock st")
    case None
    then show ?thesis by (simp add: wpB_def appendOp_def)
  next
    case (Some b)
    then show ?thesis using st observe_current[OF Some]
      by (auto simp: wpB_def appendOp_def step_def inv_def can_append_def made_def ordered_append
        intro: terminator_ok_append)
  qed
  then show ?thesis using assms by (auto simp: emits_def)
qed

lemma emits_emit:
  assumes "\<And>st v. P st \<Longrightarrow> vr_type v = t \<Longrightarrow> can_append (plain_op (d\<lparr>od_result := Some v\<rparr>)) st"
    and "stable P"
  shows "emits P {#} (emit t d) (\<lambda>v st. vr_type v = t \<and> made v st) (\<lambda>_. {#})"
  unfolding emit_def
proof (rule emits_bind[OF emits_makeValue assms(2)])
  fix v
  show "emits (\<lambda>st. P st \<and> vr_type v = t) ({#} + {#vr_id v#})
    (bindB (appendOp (plain_op (d\<lparr>od_result := Some v\<rparr>))) (\<lambda>_. returnB v)) (\<lambda>v st. vr_type v = t \<and> made v st) (\<lambda>_. {#})"
  proof (cases "vr_type v = t")
    case True
    have "emits (\<lambda>st. P st \<and> vr_type v = t) (mset (op_ids (plain_op (d\<lparr>od_result := Some v\<rparr>))))
        (bindB (appendOp (plain_op (d\<lparr>od_result := Some v\<rparr>))) (\<lambda>_. returnB v)) (\<lambda>v st. vr_type v = t \<and> made v st) (\<lambda>_. {#})"
      unfolding emits_def
    proof (intro allI impI, elim conjE)
      fix st assume st: "inv st" "P st" "vr_type v = t"
      show "wpB (bindB (appendOp (plain_op (d\<lparr>od_result := Some v\<rparr>))) (\<lambda>_. returnB v))
          (\<lambda>x st'. step st (mset (op_ids (plain_op (d\<lparr>od_result := Some v\<rparr>)))) st' {#} \<and> inv st' \<and> vr_type x = t \<and> made x st') st"
        unfolding wpB_bind
        by (rule wpB_mono[OF emits_append[unfolded emits_def, rule_format, OF assms(1)[where v = v] st(1), of P]])
          (use st in \<open>auto simp: plain_op_def\<close>)
    qed
    then show ?thesis by (simp add: plain_op_def)
  qed (simp add: emits_def)
qed

lemma emits_terminator:
  assumes "\<And>st. P st \<Longrightarrow> \<forall>x. v = Some x \<longrightarrow> made x st"
    "v \<noteq> None \<longleftrightarrow> k \<in> {Term_ReturnValue, Term_ConditionValue, Term_InitValue}"
  shows "emits P {#} (setTerminator k sp v) (\<lambda>_ st. term_of st = \<lparr>tm_kind = k, tm_span = sp, tm_value = v\<rparr>) (\<lambda>_. {#})"
  unfolding emits_def
proof (intro allI impI)
  fix st assume st: "inv st" "P st"
  show "wpB (setTerminator k sp v) (\<lambda>x st'. step st {#} st' {#} \<and> inv st' \<and>
    term_of st' = \<lparr>tm_kind = k, tm_span = sp, tm_value = v\<rparr>) st"
  proof (cases "bd_currentBlock st")
    case (Some b)
    then show ?thesis using st(1) assms(1)[OF st(2)] assms(2) observe_current[OF Some]
      by (auto simp: wpB_def setTerminator_def step_def inv_def made_def terminator_ok_def)
  qed (simp add: wpB_def setTerminator_def)
qed

text \<open>A block is built from an empty one; the outer block is untouched.\<close>

lemma emits_block:
  assumes "emits (\<lambda>_. True) {#} m (\<lambda>_ st. T (term_of st)) (\<lambda>_. {#})"
  shows "emits P {#} (withBlock sp m)
    (\<lambda>b st. block_ok (tables_of st) (locals_of st) b \<and> T (bl_terminator b)) (\<lambda>b. mset (block_ids b))"
  unfolding emits_def
proof (intro allI impI)
  fix st assume st: "inv st"
  let ?st0 = "st\<lparr>bd_currentBlock := Some (Block_new sp)\<rparr>"
  let ?Q = "\<lambda>b st'. step st {#} st' (mset (block_ids b)) \<and> inv st' \<and>
      block_ok (tables_of st') (locals_of st') b \<and> T (bl_terminator b)"
  have "inv ?st0" using st by (simp add: inv_def Block_new_def terminator_ok_def Terminator_none_def)
  then have m: "wpB m (\<lambda>x st1. step ?st0 {#} st1 {#} \<and> inv st1 \<and> T (term_of st1)) ?st0"
    using assms by (auto simp: emits_def)
  have fin: "?Q b (st1\<lparr>bd_currentBlock := bd_currentBlock st\<rparr>)"
    if s: "step ?st0 {#} st1 {#}" "inv st1" "T (term_of st1)" "bd_currentBlock st1 = Some b" for st1 b
  proof -
    let ?st' = "st1\<lparr>bd_currentBlock := bd_currentBlock st\<rparr>"
    obtain ob ot where b: "b = Block ob (ops_of st1) ot" "ot = term_of st1"
      using s(4) by (cases b) (simp add: observe_current)
    obtain nl where nl: "locals_of st1 = locals_of st @ nl" using s(1) by (auto simp: step_def)
    have o: "ops_of ?st' = ops_of st" "term_of ?st' = term_of st" by (simp_all add: ops_of_def term_of_def)
    have "step st {#} ?st' (mset (block_ids b))"
      using s(1) nl b(1) o by (auto simp: step_def Block_new_def)
    moreover have "inv ?st'"
      using st s(2) nl s(1) o op_ok_append(1)[of "tables_of st" "locals_of st" _ nl]
      by (auto simp: inv_def list_all_iff step_def)
    moreover have "block_ok (tables_of ?st') (locals_of ?st') b" using s(2) b by (simp add: inv_def)
    ultimately show ?thesis using s(3) b by simp
  qed
  show "wpB (withBlock sp m) (\<lambda>b st'. step st {#} st' (mset (block_ids b)) \<and> inv st' \<and>
      block_ok (tables_of st') (locals_of st') b \<and> T (bl_terminator b)) st"
    using m fin unfolding wpB_def withBlock_def
    by (cases "m ?st0") (auto split: option.split)
qed

text \<open>Scopes and slots.\<close>

lemma emits_push: "emits P {#} ir_pushScope (\<lambda>_ _. True) (\<lambda>_. {#})"
  by (auto simp: emits_def wpB_def ir_pushScope_def step_def inv_def scopes_ok_def)

lemma emits_pop: "emits P {#} ir_popScope (\<lambda>_ _. True) (\<lambda>_. {#})"
  unfolding emits_def
proof (intro allI impI)
  fix st assume "inv st"
  then have "scopes_ok (locals_of st) (tl (bd_scopes st))"
    by (cases "bd_scopes st") (auto simp: inv_def scopes_ok_def)
  then show "wpB ir_popScope (\<lambda>x st'. step st {#} st' {#} \<and> inv st' \<and> True) st"
    using \<open>inv st\<close> by (simp add: wpB_def ir_popScope_def step_def inv_def)
qed

definition new_slot :: "string \<Rightarrow> IrType \<Rightarrow> bool \<Rightarrow> LocalKind \<Rightarrow> LocalRef \<Rightarrow> Local list \<Rightarrow> bool" where
  "new_slot name t m k ref ls \<longleftrightarrow>
     (\<exists>l. slot ls ref = Some l \<and> lo_name l = name \<and> lo_type l = t \<and> lo_isMutable l = m \<and> lo_kind l = k)"

lemma stable_new_slot: "stable (\<lambda>st. new_slot name t m k ref (locals_of st))"
  unfolding stable_def step_def new_slot_def by (metis slot_append)

lemma emits_allocate:
  "emits P {#} (allocateLocal name sp t m k) (\<lambda>ref st. new_slot name t m k ref (locals_of st)) (\<lambda>_. {#})"
  unfolding emits_def
proof (intro allI impI)
  fix st assume st: "inv st"
  show "wpB (allocateLocal name sp t m k) (\<lambda>ref st'. step st {#} st' {#} \<and> inv st' \<and> new_slot name t m k ref (locals_of st')) st"
  proof (cases "bd_currentFunction st")
    case (Some f)
    let ?l = "\<lparr>lo_ref = \<lparr>lr_id = length (fn_locals f)\<rparr>, lo_name = name, lo_type = t, lo_isMutable = m, lo_kind = k, lo_span = sp\<rparr>"
    let ?st' = "st\<lparr>bd_currentFunction := Some (f\<lparr>fn_locals := fn_locals f @ [?l]\<rparr>)\<rparr>"
    have l: "locals_of st = fn_locals f" "locals_of ?st' = locals_of st @ [?l]" using Some by (simp_all add: locals_of_def)
    have o: "tables_of ?st' = tables_of st" "headers ?st' = headers st" "next_of ?st' = next_of st"
      "ops_of ?st' = ops_of st" "term_of ?st' = term_of st"
      using Some by (simp_all add: state_defs)
    have "inv ?st'"
      using st op_ok_append(1)[of "tables_of st" "locals_of st" _ "[?l]"] scopes_ok_append[of "locals_of st" _ "[?l]"]
      by (auto simp: inv_def l(2) o list_all_iff numbered_def) (simp add: l(1))
    moreover have "step st {#} ?st' {#}" by (simp add: step_def o l)
    moreover have "new_slot name t m k \<lparr>lr_id = length (fn_locals f)\<rparr> (locals_of ?st')"
      using l by (simp add: new_slot_def slot_def)
    ultimately show ?thesis by (simp add: wpB_def allocateLocal_def Some Let_def)
  qed (simp add: wpB_def allocateLocal_def)
qed

lemma emits_bindName:
  assumes "\<And>st. P st \<Longrightarrow> new_slot name t m k ref (locals_of st)"
  shows "emits P {#} (bindLocalName name t ref) (\<lambda>_ _. True) (\<lambda>_. {#})"
  unfolding emits_def
proof (intro allI impI)
  fix st assume st: "inv st" "P st"
  show "wpB (bindLocalName name t ref) (\<lambda>x st'. step st {#} st' {#} \<and> inv st' \<and> True) st"
  proof (cases "bd_scopes st")
    case (Cons sc scs)
    have "scopes_ok (locals_of st) (sc(name \<mapsto> \<lparr>sy_type = t, sy_local = ref, sy_isConst = False\<rparr>) # scs)"
      using st(1) assms[OF st(2)] Cons by (auto simp: inv_def scopes_ok_def new_slot_def)
    then show ?thesis using st(1) by (auto simp: wpB_def bindLocalName_def Cons step_def inv_def)
  qed (simp add: wpB_def bindLocalName_def)
qed

section \<open>Expressions\<close>

lemmas payload_defs = payload_ok_def result_ok_def blocks_ok_def mk_operation_def valueKinds_def op_uses_def operand_def

lemma can_append_plain:
  assumes "payload_ok d" "result_ok (tables_of st) (locals_of st) d" "\<forall>v\<in>set (op_uses d). made v st"
    "od_kind d \<notin> {Op_ShortCircuitAnd, Op_ShortCircuitOr, Op_If, Op_While}"
  shows "can_append (plain_op d) st"
  using assms by (auto simp: can_append_def plain_op_def blocks_ok_def made_def)

definition found :: "string \<Rightarrow> IrSymbol \<Rightarrow> builder \<Rightarrow> bool" where
  "found name s st \<longleftrightarrow>
     (if sy_isConst s then tb_constants (tables_of st) name = Some (sy_type s)
      else \<exists>l. slot (locals_of st) (sy_local s) = Some l \<and> lo_name l = name \<and> lo_type l = sy_type s)"

lemma stable_found: "stable (found name s)"
  unfolding stable_def step_def found_def by (metis slot_append)

lemma ir_lookupScopes_ok:
  "scopes_ok ls scs \<Longrightarrow> ir_lookupScopes scs name = Some s \<Longrightarrow>
    \<not> sy_isConst s \<and> (\<exists>l. slot ls (sy_local s) = Some l \<and> lo_name l = name \<and> lo_type l = sy_type s)"
  by (induction scs) (auto simp: scopes_ok_def split: option.splits)

lemma emits_lookup: "emits P {#} (readB (ir_lookupValue name)) (found name) (\<lambda>_. {#})"
proof (rule emits_read)
  fix st assume "inv st"
  then have "scopes_ok (locals_of st) (bd_scopes st)" by (simp add: inv_def)
  then show "wpR (ir_lookupValue name st) (\<lambda>x. found name x st)"
    using ir_lookupScopes_ok[of "locals_of st" "bd_scopes st" name]
    by (auto simp: ir_lookupValue_def found_def tables_of_def split: option.split)
qed

lemma emits_plain_emit:
  assumes "\<And>v st. P st \<Longrightarrow> vr_type v = t \<Longrightarrow> payload_ok (d\<lparr>od_result := Some v\<rparr>) \<and>
      result_ok (tables_of st) (locals_of st) (d\<lparr>od_result := Some v\<rparr>) \<and> (\<forall>u\<in>set (op_uses d). made u st)"
    "stable P" "od_kind d \<notin> {Op_ShortCircuitAnd, Op_ShortCircuitOr, Op_If, Op_While}"
  shows "emits P {#} (emit t d) (\<lambda>v st. vr_type v = t \<and> made v st) (\<lambda>_. {#})"
proof (rule emits_emit[OF can_append_plain assms(2)])
  show "\<forall>u\<in>set (op_uses (d\<lparr>od_result := Some v\<rparr>)). made u st" if "P st" "vr_type v = t" for v st
    using assms(1)[OF that] by (simp add: op_uses_def)
qed (use assms in auto)

lemma emits_seq:
  assumes "emits P {#} m Q q" "\<And>x. emits (Q x) (p + q x) (f x) R r"
  shows "emits P p (bindB m f) R r"
proof -
  have "wpB (f x) (\<lambda>y st2. step st p st2 (r y) \<and> inv st2 \<and> R y st2) st1"
    if st: "step st {#} st1 (q x)" "inv st1" "Q x st1" for st st1 x
    by (rule wpB_mono[OF assms(2)[unfolded emits_def, rule_format, OF st(2,3)]])
      (use step_trans[OF st(1), of p] in \<open>auto simp: add.commute\<close>)
  note rest = this
  show ?thesis unfolding emits_def wpB_bind
    by (intro allI impI, rule wpB_mono[OF assms(1)[unfolded emits_def, rule_format]]) (use rest in auto)
qed

lemma emits_any: "emits (\<lambda>_. True) p m Q q \<Longrightarrow> emits P p m Q q"
  by (erule emits_mono) simp_all

lemma emits_name_at:
  "emits (\<lambda>st. ir_lookupValue name st = Ok s0) {#} (buildName sp name) (\<lambda>v st. vr_type v = sy_type s0 \<and> made v st) (\<lambda>_. {#})"
  unfolding buildName_def
proof (rule emits_seq[where Q = "\<lambda>s st. s = s0 \<and> found name s st"])
  show "emits (\<lambda>st. ir_lookupValue name st = Ok s0) {#} (readB (ir_lookupValue name)) (\<lambda>s st. s = s0 \<and> found name s st) (\<lambda>_. {#})"
  proof (rule emits_read)
    fix st assume "inv st" "ir_lookupValue name st = Ok s0"
    moreover have "wpR (ir_lookupValue name st) (\<lambda>x. found name x st)"
      using emits_lookup[of "\<lambda>_. True" name] \<open>inv st\<close> wpB_mono unfolding emits_def by fastforce
    ultimately show "wpR (ir_lookupValue name st) (\<lambda>s. s = s0 \<and> found name s st)" by simp
  qed
  fix s
  show "emits (\<lambda>st. s = s0 \<and> found name s st) ({#} + {#}) (emit (sy_type s)
      ((mk_operation (if sy_isConst s then Op_LoadConst else Op_LoadLocal) sp)\<lparr>od_text := name, od_local := sy_local s\<rparr>))
      (\<lambda>v st. vr_type v = sy_type s0 \<and> made v st) (\<lambda>_. {#})"
  proof (cases "s = s0")
    case True
    show ?thesis unfolding True add_0_left
      by (rule emits_plain_emit; (intro stable_conj stable_const stable_found)?) (auto simp: payload_defs found_def)
  qed (simp add: emits_def)
qed

lemma emits_name: "emits P {#} (buildName sp name) made (\<lambda>_. {#})"
proof -
  have "wpB (buildName sp name) (\<lambda>v st'. step st {#} st' {#} \<and> inv st' \<and> made v st') st" if st: "inv st" for st
  proof (cases "ir_lookupValue name st")
    case (Ok s0)
    show ?thesis
      by (rule wpB_mono[OF emits_name_at[unfolded emits_def, rule_format, OF st Ok]]) simp
  qed (use lookupValue_fuel in \<open>simp_all add: buildName_def\<close>)
  then show ?thesis by (simp add: emits_def)
qed

definition rec_emits :: "build_rec \<Rightarrow> bool" where
  "rec_emits rec \<longleftrightarrow> (\<forall>e t P. emits P {#} (rec e t) made (\<lambda>_. {#}))"

lemma rec_emitsD: "rec_emits rec \<Longrightarrow> emits P {#} (rec e t) made (\<lambda>_. {#})"
  by (simp add: rec_emits_def)

lemma emits_bang:
  "(\<And>st. P st \<Longrightarrow> made v st) \<Longrightarrow> stable P \<Longrightarrow>
    emits P {#} (appendUnaryBang v sp) (\<lambda>u st. vr_type u = scalar Bool \<and> made u st) (\<lambda>_. {#})"
  unfolding appendUnaryBang_def by (rule emits_plain_emit) (auto simp: payload_defs)

lemma emits_coerce:
  assumes "\<And>st. P st \<Longrightarrow> made v st" "stable P"
  shows "emits P {#} (coerceConditionLikeToBool v sp) (\<lambda>u st. it_kind (vr_type u) = Bool \<and> made u st) (\<lambda>_. {#})"
  unfolding coerceConditionLikeToBool_def
  by (intro emits_if emits_return emits_throw emits_bind[OF emits_bang[OF assms] assms(2)],
      simp_all add: assms(1) add_0,
      rule emits_mono[OF emits_bang[where P = "made w" for w]])
    (auto simp: IrType_defs stable_made)

lemma emits_traverse:
  assumes "\<And>x P. x \<in> set xs \<Longrightarrow> emits P {#} (f x) made (\<lambda>_. {#})"
  shows "emits P {#} (traverseB f xs) (\<lambda>vs st. length vs = length xs \<and> (\<forall>v\<in>set vs. made v st)) (\<lambda>_. {#})"
  using assms
proof (induction xs arbitrary: P)
  case Nil
  then show ?case by (simp add: emits_return)
next
  case (Cons x xs)
  have "emits (made v) {#} (bindB (traverseB f xs) (\<lambda>ys. returnB (v # ys)))
      (\<lambda>vs st. length vs = length (x # xs) \<and> (\<forall>v\<in>set vs. made v st)) (\<lambda>_. {#})" for v
    by (rule emits_bind[OF Cons.IH stable_made]) (use Cons.prems in \<open>auto intro!: emits_return\<close>)
  then show ?case unfolding traverseB.simps
    by (intro emits_seq[where Q = made and q = "\<lambda>_. {#}"]) (use Cons.prems in simp_all)
qed

lemma emits_fact: "(\<And>st. P st \<Longrightarrow> b) \<Longrightarrow> (b \<Longrightarrow> emits P p m Q q) \<Longrightarrow> emits P p m Q q"
  by (cases b) (auto simp: emits_def)

definition arm_end :: "Terminator \<Rightarrow> bool" where
  "arm_end t \<longleftrightarrow> tm_kind t = Term_ReturnValue \<and>
     (case tm_value t of None \<Rightarrow> False | Some v \<Rightarrow> it_kind (vr_type v) = Bool)"

lemma emits_arm_end:
  assumes "\<And>st. P st \<Longrightarrow> it_kind (vr_type v) = Bool \<and> made v st"
  shows "emits P {#} (setTerminator Term_ReturnValue sp (Some v)) (\<lambda>_ st. arm_end (term_of st)) (\<lambda>_. {#})"
proof (rule emits_fact)
  show "P st \<Longrightarrow> it_kind (vr_type v) = Bool" for st using assms by blast
  assume "it_kind (vr_type v) = Bool"
  then show "emits P {#} (setTerminator Term_ReturnValue sp (Some v)) (\<lambda>_ st. arm_end (term_of st)) (\<lambda>_. {#})"
    by (intro emits_mono[OF emits_terminator[where P = P]]) (use assms in \<open>auto simp: arm_end_def\<close>)
qed

lemma emits_skipped: "emits P {#} (skippedArm sp b) (\<lambda>b st. block_ok (tables_of st) (locals_of st) b \<and> arm_end (bl_terminator b)) (\<lambda>b. mset (block_ids b))"
  unfolding skippedArm_def
  by (rule emits_block, rule emits_seq[OF emits_plain_emit], (auto simp: payload_defs stable_const)[3], unfold add_0_left,
      rule emits_arm_end) (auto simp: IrType_defs)

lemma emits_arm:
  assumes "rec_emits rec"
  shows "emits P {#} (buildBoolResultBlock rec e) (\<lambda>b st. block_ok (tables_of st) (locals_of st) b \<and> arm_end (bl_terminator b)) (\<lambda>b. mset (block_ids b))"
  unfolding buildBoolResultBlock_def
  by (rule emits_block, rule emits_seq[OF rec_emitsD[OF assms]], unfold add_0_left, rule emits_seq[OF emits_coerce], assumption,
      rule stable_made, unfold add_0_left, rule emits_arm_end) auto

lemma emits_shortCircuit:
  assumes "rec_emits rec"
  shows "emits P {#} (buildShortCircuitAnd rec sp l r) made (\<lambda>_. {#})"
    "emits P {#} (buildShortCircuitOr rec sp l r) made (\<lambda>_. {#})"
proof -
  note stab = stable_rules
  have op: "emits (\<lambda>st. (((made v st \<and> block_ok (tables_of st) (locals_of st) a \<and> arm_end (bl_terminator a)) \<and> vr_type w = scalar Bool) \<and>
        block_ok (tables_of st) (locals_of st) b \<and> arm_end (bl_terminator b))) ((mset (block_ids a) + {#vr_id w#}) + mset (block_ids b))
      (bindB (appendOp (Operation ((mk_operation k sp)\<lparr>od_result := Some w, od_left := Some v\<rparr>) None (Some t) (Some e) None None)) (\<lambda>_. returnB w))
      made (\<lambda>_. {#})" if k: "k \<in> {Op_ShortCircuitAnd, Op_ShortCircuitOr}" "(t, e) = (a, b) \<or> (t, e) = (b, a)" for v a b w k t e
  proof -
    let ?op = "Operation ((mk_operation k sp)\<lparr>od_result := Some w, od_left := Some v\<rparr>) None (Some t) (Some e) None None"
    let ?P = "\<lambda>st. (((made v st \<and> block_ok (tables_of st) (locals_of st) a \<and> arm_end (bl_terminator a)) \<and> vr_type w = scalar Bool) \<and>
        block_ok (tables_of st) (locals_of st) b \<and> arm_end (bl_terminator b))"
    have ids: "mset (op_ids ?op) = (mset (block_ids a) + {#vr_id w#}) + mset (block_ids b)"
      using k(2) by (auto simp: mk_operation_def)
    have "can_append ?op st" if "?P st" for st
      using that k by (auto simp: can_append_def payload_defs made_def arm_ok_def arm_end_def)
    from emits_append[of ?P, OF this] have "emits ?P ((mset (block_ids a) + {#vr_id w#}) + mset (block_ids b)) (appendOp ?op)
        (\<lambda>_. made w) (\<lambda>_. {#})"
      unfolding ids by (rule emits_mono) (auto simp: mk_operation_def)
    then show ?thesis unfolding emits_def wpB_bind by simp
  qed
  have frame: "emits P p m Q q \<Longrightarrow> p = p' \<Longrightarrow> emits P p' m Q q" for P p p' and m :: "ValueRef build" and Q q by simp
  show "emits P {#} (buildShortCircuitAnd rec sp l r) made (\<lambda>_. {#})"
    unfolding buildShortCircuitAnd_def
    by (rule emits_seq[OF rec_emitsD[OF assms]], rule emits_bind[OF emits_skipped stable_made],
        rule emits_bind[OF emits_makeValue], intro stab, rule emits_bind[OF emits_arm[OF assms]], intro stab,
        rule frame[OF op]) simp_all
  show "emits P {#} (buildShortCircuitOr rec sp l r) made (\<lambda>_. {#})"
    unfolding buildShortCircuitOr_def
    by (rule emits_seq[OF rec_emitsD[OF assms]], rule emits_bind[OF emits_skipped stable_made],
        rule emits_bind[OF emits_makeValue], intro stab, rule emits_bind[OF emits_arm[OF assms]], intro stab,
        rule frame[OF op]) simp_all
qed

lemma emits_binary_op:
  assumes "\<And>st. P st \<Longrightarrow> made l st \<and> made r st" "stable P"
    "t = (if comparisonResult op \<or> op = AmpAmp \<or> op = PipePipe then scalar Bool else vr_type l)"
  shows "emits P {#} (appendBinary sp op l r t) made (\<lambda>_. {#})"
  unfolding appendBinary_def
  by (rule emits_mono[OF emits_plain_emit[OF _ assms(2)]]) (use assms in \<open>auto simp: payload_defs\<close>)

lemma emits_binary:
  assumes "rec_emits rec" shows "emits P {#} (buildBinary rec sp l op r t) made (\<lambda>_. {#})"
proof -
  note stab = stable_rules
  have const: "emits (\<lambda>_. True) {#} (bindB (rec l None) (\<lambda>l'. bindB (rec r None) (\<lambda>r'.
      bindB (coerceConditionLikeToBool l' (expr_span l)) (\<lambda>lb. bindB (coerceConditionLikeToBool r' (expr_span r)) (\<lambda>rb.
      appendBinary sp op lb rb (scalar Bool)))))) made (\<lambda>_. {#})" if "op = AmpAmp \<or> op = PipePipe"
    by (rule emits_seq[OF rec_emitsD[OF assms]], unfold add_0_left,
        rule emits_bind[OF rec_emitsD[OF assms] stable_made], unfold add_0_left,
        rule emits_bind[OF emits_coerce], (simp; fail), intro stab, intro stab, unfold add_0_left,
        rule emits_bind[OF emits_coerce], (simp; fail), intro stab, intro stab, unfold add_0_left,
        rule emits_binary_op) (use that in \<open>auto intro!: stab\<close>)
  have rest: "emits (\<lambda>_. True) {#} (bindB (rec l t) (\<lambda>l'. bindB (rec r (Some (vr_type l'))) (\<lambda>r'.
      appendBinary sp op l' r' (if comparisonResult op then scalar Bool else vr_type l')))) made (\<lambda>_. {#})"
    if "\<not> (op = AmpAmp \<or> op = PipePipe)"
    by (rule emits_seq[OF rec_emitsD[OF assms]], unfold add_0_left,
        rule emits_bind[OF rec_emitsD[OF assms] stable_made], unfold add_0_left, rule emits_binary_op)
      (use that in \<open>auto intro!: stab\<close>)
  show ?thesis unfolding buildBinary_def
    by (rule emits_any, rule emits_if, rule emits_seq[where Q = "\<lambda>_ _. True" and q = "\<lambda>_. {#}"], rule emits_read, simp,
        unfold add_0_left, rule emits_if, erule const, rule emits_if) (rule emits_shortCircuit[OF assms] | erule rest)+
qed

lemma emits_unary:
  assumes "rec_emits rec" shows "emits P {#} (buildUnary rec sp op e t) made (\<lambda>_. {#})"
proof -
  have address: "emits Q {#} (buildAddressOf sp e) made (\<lambda>_. {#})" for Q
  proof (cases "stripParensExpr e")
    case (NameExpr nsp name)
    show ?thesis unfolding buildAddressOf_def NameExpr Expr.case
      by (rule emits_seq[OF emits_lookup], unfold add_0_left, rule emits_mono[OF emits_plain_emit[where P = "\<lambda>_. True"]])
        (auto simp: payload_defs stable_const)
  qed (simp_all add: buildAddressOf_def emits_throw)
  have op: "emits (made v) {#} (emit u ((mk_operation k sp)\<lparr>od_op := o', od_value := Some v\<rparr>)) made (\<lambda>_. {#})"
    if "(k, u) = (Op_PointerLoad, IrType_pointeeType (vr_type v)) \<or>
      k = Op_Unary \<and> u = (if o' = Bang then scalar Bool else vr_type v)" for k u o' v
    by (rule emits_mono[OF emits_plain_emit[OF _ stable_made]]) (use that in \<open>auto simp: payload_defs\<close>)
  have load: "(mk_operation Op_PointerLoad sp)\<lparr>od_value := v\<rparr> = (mk_operation Op_PointerLoad sp)\<lparr>od_op := EndOfFile, od_value := v\<rparr>" for v
    by (simp add: mk_operation_def)
  show ?thesis unfolding buildUnary_def load
    by (intro emits_if address; rule emits_seq[OF rec_emitsD[OF assms]], unfold add_0_left, rule op) auto
qed

lemma emits_plain_append:
  assumes "\<And>st. P st \<Longrightarrow> payload_ok d \<and> result_ok (tables_of st) (locals_of st) d \<and> (\<forall>v\<in>set (op_uses d). made v st)"
    "od_kind d \<notin> {Op_ShortCircuitAnd, Op_ShortCircuitOr, Op_If, Op_While}" "p = mset (map vr_id (optional (od_result d)))"
  shows "emits P p (appendOp (plain_op d)) (\<lambda>_ st. \<forall>v. od_result d = Some v \<longrightarrow> made v st) (\<lambda>_. {#})"
proof -
  have "mset (op_ids (plain_op d)) = p" using assms(3) by (simp add: plain_op_def)
  moreover have "can_append (plain_op d) st" if "P st" for st
    by (rule can_append_plain) (use assms(1)[OF that] assms(2) in auto)
  ultimately show ?thesis using emits_append[of P "plain_op d"] by (simp add: plain_op_def)
qed

lemma emits_array:
  assumes "rec_emits rec" shows "emits P {#} (buildArrayLiteral rec sp es t) made (\<lambda>_. {#})"
proof -
  have "emits (\<lambda>_. True) {#} (bindB (makeValue a) (\<lambda>result.
      bindB (traverseB (\<lambda>e. rec e (Some (IrType_afterIndex a))) es) (\<lambda>args.
      bindB (appendOp (plain_op ((mk_operation Op_ArrayLiteral sp)\<lparr>od_result := Some result, od_arguments := args\<rparr>))) (\<lambda>_.
      returnB result)))) made (\<lambda>_. {#})" if "IrType_isFixedArray a" for a
  proof (rule emits_seq[OF emits_makeValue], unfold add_0_left)
    fix w
    have last: "emits (\<lambda>st. vr_type w = a \<and> length args = length es \<and> (\<forall>v\<in>set args. made v st)) {#vr_id w#}
      (bindB (appendOp (plain_op ((mk_operation Op_ArrayLiteral sp)\<lparr>od_result := Some w, od_arguments := args\<rparr>))) (\<lambda>_. returnB w))
      made (\<lambda>_. {#})" for args
    proof -
      have "emits (\<lambda>st. vr_type w = a \<and> length args = length es \<and> (\<forall>v\<in>set args. made v st)) {#vr_id w#}
        (appendOp (plain_op ((mk_operation Op_ArrayLiteral sp)\<lparr>od_result := Some w, od_arguments := args\<rparr>))) (\<lambda>_. made w) (\<lambda>_. {#})"
        by (rule emits_mono[OF emits_plain_append[where
              P = "\<lambda>st. vr_type w = a \<and> length args = length es \<and> (\<forall>v\<in>set args. made v st)"]])
          (use that in \<open>auto simp: payload_defs\<close>)
      then show ?thesis by (simp add: emits_def)
    qed
    show "emits (\<lambda>st. vr_type w = a) {#vr_id w#} (bindB (traverseB (\<lambda>e. rec e (Some (IrType_afterIndex a))) es) (\<lambda>args.
      bindB (appendOp (plain_op ((mk_operation Op_ArrayLiteral sp)\<lparr>od_result := Some w, od_arguments := args\<rparr>))) (\<lambda>_.
      returnB w))) made (\<lambda>_. {#})"
      by (rule emits_bind[OF emits_traverse stable_const], rule rec_emitsD[OF assms], unfold add_0_right, rule last)
  qed
  then show ?thesis unfolding buildArrayLiteral_def
    by (intro emits_any[where P = P]) (auto simp: emits_throw split: option.split)
qed

lemma emits_call:
  assumes "rec_emits rec"
  shows "emits P {#} (buildCall rec sp callee es) (\<lambda>r st. \<forall>v. r = Some v \<longrightarrow> made v st) (\<lambda>_. {#})"
proof (cases callee)
  case (NameExpr nsp name)
  have call: "emits (\<lambda>_. True) {#} (bindB (readB (\<lambda>st. Ok (bd_functions st name))) k) R (\<lambda>_. {#})"
    if "\<And>s. emits (\<lambda>st. tb_functions (tables_of st) name = s) {#} (k s) R (\<lambda>_. {#})" for k and R :: "ValueRef option \<Rightarrow> builder \<Rightarrow> bool"
    by (rule emits_seq, rule emits_read, unfold wpR.simps, rule refl, unfold add_0_left, rule emits_mono[OF that])
      (simp_all add: tables_of_def)
  have arguments: "emits P {#} (traverseB (\<lambda>(e, t). rec e (Some t)) (zip es ts))
      (\<lambda>vs st. length vs \<le> length ts \<and> (\<forall>v\<in>set vs. made v st)) (\<lambda>_. {#})" for ts P
    by (rule emits_mono[OF emits_traverse]) (use rec_emitsD[OF assms] in auto)
  show ?thesis unfolding buildCall_def NameExpr Expr.case
  proof (intro emits_any[where P = P] call)
    fix s :: "IrSignature option"
    let ?F = "\<lambda>st. tb_functions (tables_of st) name = s"
    have st: "stable ?F" by (rule stable_tables)
    show "emits ?F {#} (case s of
        None \<Rightarrow> logicError ''typed IR call target was not resolved''
      | Some s \<Rightarrow>
          if is_isBuiltin s \<and> isPrintName name then
            bindB (traverseB (\<lambda>e. rec e None) es) (\<lambda>args.
            bindB (appendOp (plain_op ((mk_operation Op_Call sp)\<lparr>od_text := name, od_isBuiltin := True, od_arguments := args\<rparr>))) (\<lambda>_.
            returnB None))
          else
            bindB (traverseB (\<lambda>(e, t). rec e (Some t)) (zip es (is_parameterTypes s))) (\<lambda>args.
            let d = (mk_operation Op_Call sp)\<lparr>od_text := name, od_isBuiltin := is_isBuiltin s, od_arguments := args\<rparr>
            in if \<not> IrType_isVoid (is_returnType s) then bindB (emit (is_returnType s) d) (\<lambda>v. returnB (Some v))
               else bindB (appendOp (plain_op d)) (\<lambda>_. returnB None)))
      (\<lambda>r st. \<forall>v. r = Some v \<longrightarrow> made v st) (\<lambda>_. {#})"
    proof (cases s)
      case (Some f)
      show ?thesis unfolding Some option.case Let_def
        apply (rule emits_if)
         apply (rule emits_bind[OF emits_traverse st[unfolded Some]], rule rec_emitsD[OF assms], unfold add_0_left)
         apply (rule emits_seq[OF emits_plain_append], (auto simp: payload_defs)[3], rule emits_return, simp, simp)
        apply (rule emits_bind[OF arguments st[unfolded Some]], unfold add_0_left, rule emits_if)
         apply (rule emits_seq[OF emits_plain_emit], (auto simp: payload_defs intro!: stable_rules st[unfolded Some])[3])
         apply (rule emits_return, simp, simp)
        apply (rule emits_seq[OF emits_plain_append], (auto simp: payload_defs)[3], rule emits_return, simp, simp)
        done
    qed (simp add: emits_throw)
  qed
qed (simp_all add: buildCall_def emits_throw)

lemma emits_index_load:
  assumes "\<And>st. P st \<Longrightarrow> made b st \<and> made i st" "stable P"
  shows "emits P {#} (appendIndexLoad sp (IrType_afterIndex (vr_type b)) b i)
    (\<lambda>v st. vr_type v = IrType_afterIndex (vr_type b) \<and> made v st) (\<lambda>_. {#})"
  unfolding appendIndexLoad_def by (rule emits_plain_emit[OF _ assms(2)]) (use assms(1) in \<open>auto simp: payload_defs\<close>)

lemma emits_index_loads:
  assumes "rec_emits rec"
  shows "vr_type b = t \<Longrightarrow> emits (made b) {#} (buildIndexLoads rec is b t) (\<lambda>(b, t) st. made b st \<and> vr_type b = t) (\<lambda>_. {#})"
proof (induction "is" arbitrary: b t)
  case Nil
  then show ?case by (simp add: emits_return)
next
  case (Cons i "is")
  have load: "emits (\<lambda>st. made b st \<and> made idx st) {#} (bindB (appendIndexLoad (expr_span i) (IrType_afterIndex t) b idx) (\<lambda>next.
     buildIndexLoads rec is next (IrType_afterIndex t))) (\<lambda>(b, t) st. made b st \<and> vr_type b = t) (\<lambda>_. {#})" for idx
    unfolding Cons.prems[symmetric]
    by (rule emits_seq[OF emits_index_load], simp, intro stable_rules, unfold add_0_left, rule emits_fact, erule conjunct1,
        rule emits_mono[OF Cons.IH]) auto
  show ?case unfolding buildIndexLoads.simps
    by (rule emits_bind[OF rec_emitsD[OF assms] stable_made], unfold add_0_left, rule load)
qed

lemma emits_chain:
  assumes "rec_emits rec"
  shows "emits P {#} (buildChain rec nsp name is) (\<lambda>(b, t, i) st. made b st \<and> vr_type b = t \<and> made i st) (\<lambda>_. {#})"
proof -
  have tail: "emits (\<lambda>st. vr_type root = t \<and> made root st) {#} (bindB (buildIndexLoads rec js root t) (\<lambda>(b, t).
      bindB (rec e u) (\<lambda>i. returnB (b, t, i)))) (\<lambda>(b, t, i) st. made b st \<and> vr_type b = t \<and> made i st) (\<lambda>_. {#})" for root t js e u
  proof (rule emits_fact)
    assume t: "vr_type root = t"
    let ?R = "\<lambda>(b, t, i) st. made b st \<and> vr_type b = t \<and> made i st"
    have last: "emits (\<lambda>st. made b st \<and> vr_type b = t') {#} (bindB (rec e u) (\<lambda>i. returnB (b, t', i))) ?R (\<lambda>_. {#})" for b t'
      by (rule emits_bind[OF rec_emitsD[OF assms]], intro stable_rules, unfold add_0_left, rule emits_return) auto
    show ?thesis
      by (rule emits_seq[where Q = "\<lambda>(b, t) st. made b st \<and> vr_type b = t" and q = "\<lambda>_. {#}"],
          rule emits_mono[OF emits_index_loads[OF assms t]]) (auto simp: last)
  qed simp
  have "wpB (buildChain rec nsp name is) (\<lambda>x st'. step st {#} st' {#} \<and> inv st' \<and>
      (case x of (b, t, i) \<Rightarrow> made b st' \<and> vr_type b = t \<and> made i st')) st" if st: "inv st" for st
  proof (cases "ir_lookupValue name st")
    case (Ok s0)
    have "emits (\<lambda>st. ir_lookupValue name st = Ok s0) {#} (bindB (buildName nsp name) (\<lambda>root.
       bindB (buildIndexLoads rec (butlast is) root (sy_type s0)) (\<lambda>(curBase, curTy).
       bindB (rec (last is) (Some (scalar I32))) (\<lambda>lastIdx. returnB (curBase, curTy, lastIdx)))))
       (\<lambda>(b, t, i) st. made b st \<and> vr_type b = t \<and> made i st) (\<lambda>_. {#})"
      by (rule emits_seq[OF emits_name_at], unfold add_0_left, rule tail)
    from this[unfolded emits_def, rule_format, OF st Ok] show ?thesis by (simp add: buildChain_def Ok split_beta)
  qed (use lookupValue_fuel in \<open>simp_all add: buildChain_def\<close>)
  then show ?thesis by (simp add: emits_def split_beta)
qed

lemma emits_index_at:
  "\<lbrakk>\<And>st. P st \<Longrightarrow> made b st \<and> vr_type b = t \<and> made i st; stable P\<rbrakk> \<Longrightarrow>
    emits P {#} (appendIndexLoad sp (IrType_afterIndex t) b i) made (\<lambda>_. {#})"
  using emits_index_load[of P b i sp] by (rule_tac emits_fact[where P = P and b = "vr_type b = t"]) (auto elim!: emits_mono)

lemma emits_index:
  assumes "rec_emits rec" shows "emits P {#} (buildIndex rec sp base index) made (\<lambda>_. {#})"
proof -
  have general: "emits Q {#} (buildIndexGeneral rec sp base index) made (\<lambda>_. {#})" for Q
    unfolding buildIndexGeneral_def
    by (rule emits_seq[OF rec_emitsD[OF assms]], unfold add_0_left,
        rule emits_bind[OF rec_emitsD[OF assms] stable_made], unfold add_0_left, intro emits_if emits_throw,
        rule emits_index_at) (auto intro!: stable_rules)
  show ?thesis
  proof (cases "fst (peelIndices (IndexExpr sp base index) [])")
    case (NameExpr nsp name)
    obtain "is" where "is": "peelIndices (IndexExpr sp base index) [] = (NameExpr nsp name, is)"
      using NameExpr by (cases "peelIndices (IndexExpr sp base index) []") simp
    show ?thesis unfolding buildIndex_def "is" prod.case Expr.case
      by (rule emits_if, rule emits_seq[OF emits_chain[OF assms]], unfold add_0_left, simp only: split_beta, intro emits_if emits_throw,
          rule emits_index_at, auto intro!: stable_rules simp: split_beta)[1]
        (rule emits_seq[OF emits_lookup], unfold add_0_left, rule general)
  qed (simp_all add: buildIndex_def general split_beta)
qed

lemma emits_literal:
  assumes "k \<in> {Op_IntegerLiteral, Op_FloatLiteral, Op_StringLiteral}"
    "k = Op_IntegerLiteral \<longrightarrow> IrType_isInteger t \<or> t = IrType_new" "k = Op_FloatLiteral \<longrightarrow> IrType_isFloat t \<or> t = IrType_new"
    "k = Op_StringLiteral \<longrightarrow> t = scalar Str"
  shows "emits P {#} (buildLiteral k sp raw t) made (\<lambda>_. {#})"
  unfolding buildLiteral_def
  by (rule emits_any, rule emits_mono[OF emits_plain_emit]) (use assms in \<open>auto simp: payload_defs stable_const\<close>)

lemma emits_step:
  assumes "rec_emits rec" shows "emits P {#} (buildExprStep rec e t) made (\<lambda>_. {#})"
proof (cases e)
  case (BoolLiteralExpr sp v)
  show ?thesis unfolding buildExprStep_def BoolLiteralExpr Expr.case
    by (rule emits_any, rule emits_mono[OF emits_plain_emit]) (auto simp: payload_defs stable_const)
next
  case (CallExpr sp callee es)
  have r: "emits (\<lambda>st. \<forall>v. r = Some v \<longrightarrow> made v st) {#} (case r of None \<Rightarrow> logicError s | Some v \<Rightarrow> returnB v) made (\<lambda>_. {#})" for r s
    by (auto intro: emits_throw emits_return split: option.split)
  show ?thesis unfolding buildExprStep_def CallExpr Expr.case
    by (rule emits_seq[OF emits_call[OF assms]], unfold add_0_left, rule r)
qed (use assms in \<open>simp_all add: buildExprStep_def Let_def emits_literal emits_name emits_unary emits_binary emits_array emits_index
      rec_emitsD[OF assms]\<close>)

lemma emits_expr: "emits P {#} (buildExpr e t) made (\<lambda>_. {#})"
proof -
  have "\<forall>P. emits P {#} (buildExpr e t) made (\<lambda>_. {#})"
    by (rule buildExpr_rule[where P = "\<lambda>e t m. \<forall>P. emits P {#} m made (\<lambda>_. {#})"])
      (auto intro: emits_step emits_throw simp: rec_emits_def)
  then show ?thesis by blast
qed

lemma rec_emits_expr: "rec_emits buildExpr"
  by (simp add: rec_emits_def emits_expr)

section \<open>Statements\<close>

abbreviation builds :: "unit build \<Rightarrow> bool" where
  "builds m \<equiv> emits (\<lambda>_. True) {#} m (\<lambda>_ _. True) (\<lambda>_. {#})"

lemma builds_append:
  assumes "\<And>st. P st \<Longrightarrow> payload_ok d \<and> result_ok (tables_of st) (locals_of st) d \<and> (\<forall>v\<in>set (op_uses d). made v st)"
    "od_kind d \<notin> {Op_ShortCircuitAnd, Op_ShortCircuitOr, Op_If, Op_While}" "od_result d = None"
  shows "emits P {#} (appendOp (plain_op d)) (\<lambda>_ _. True) (\<lambda>_. {#})"
  by (rule emits_mono[OF emits_plain_append[where P = P]]) (use assms in auto)

lemma emits_read_any:
  assumes "\<And>st. f st \<noteq> OutOfFuel" shows "emits P {#} (readB f) (\<lambda>_ _. True) (\<lambda>_. {#})"
proof (rule emits_read)
  fix st show "wpR (f st) (\<lambda>x. True)" using assms[of st] by (cases "f st") simp_all
qed

lemma builds_let: "builds (buildLet sp m name nsp ty init)"
proof -
  have last: "emits (\<lambda>st. ((True \<and> True) \<and> (\<forall>u. v = Some u \<longrightarrow> made u st)) \<and> new_slot name t m Local_Local ref (locals_of st)) {#}
      (bindB (bindLocalName name t ref) (\<lambda>_. appendOp (plain_op ((mk_operation Op_DeclareLocal sp)
        \<lparr>od_local := ref, od_isMutable := m, od_value := v\<rparr>)))) (\<lambda>_ _. True) (\<lambda>_. {#})" for v t ref
    by (rule emits_bind[OF emits_bindName], erule conjunct2, intro stable_rules stable_new_slot,
        unfold add_0_left, rule builds_append) (auto simp: payload_defs new_slot_def split: option.split)
  have init: "emits (\<lambda>st. True \<and> True) {#} (case init of None \<Rightarrow> returnB None
      | Some e \<Rightarrow> bindB (buildExpr e (Some t)) (\<lambda>v. returnB (Some v))) (\<lambda>v st. \<forall>u. v = Some u \<longrightarrow> made u st) (\<lambda>_. {#})" for t
    by (auto split: option.split intro!: emits_return emits_seq[OF emits_expr])
  show ?thesis unfolding buildLet_def
    apply (rule emits_bind[where Q = "\<lambda>_ _. True" and q = "\<lambda>_. {#}"])
      apply (auto split: option.split intro!: emits_return emits_throw emits_read_any simp: inferExprType_fuel)[1]
     apply (rule stable_const, unfold add_0_left)
    apply (rule emits_bind[OF init], intro stable_rules, unfold add_0_left)
    apply (rule emits_bind[OF emits_allocate], intro stable_rules, unfold add_0_left)
    apply (rule last)
    done
qed

lemma builds_assign: "builds (buildAssign sp target v)"
proof -
  have name: "builds (bindB (readB (ir_lookupValue name)) (\<lambda>symbol. bindB (buildExpr v (Some (sy_type symbol))) (\<lambda>r.
      appendOp (plain_op ((mk_operation Op_StoreLocal sp)\<lparr>od_local := sy_local symbol, od_value := Some r\<rparr>)))))" for name
    by (rule emits_seq[OF emits_lookup], unfold add_0_left, rule emits_seq[OF emits_expr], unfold add_0_left, rule builds_append)
      (auto simp: payload_defs)
  have pointee: "builds (bindB (buildExpr p None) (\<lambda>ptr. bindB (buildExpr v (Some (IrType_pointeeType (vr_type ptr)))) (\<lambda>stored.
      appendOp (plain_op ((mk_operation Op_PointerStore sp)\<lparr>od_value := Some stored, od_left := Some ptr\<rparr>)))))" for p
    by (rule emits_seq[OF emits_expr], unfold add_0_left, rule emits_bind[OF emits_expr stable_made], unfold add_0_left,
        rule builds_append) (auto simp: payload_defs)
  have element: "builds (bindB (buildChain buildExpr nsp name is) (\<lambda>(b, t, i).
      bindB (buildExpr v (Some (IrType_elementScalarType t))) (\<lambda>stored.
      appendOp (plain_op ((mk_operation Op_IndexStore sp)\<lparr>od_left := Some b, od_right := Some i, od_value := Some stored\<rparr>)))))" for nsp name "is"
  proof -
    have "emits (\<lambda>st. made b st \<and> vr_type b = t \<and> made i st) {#} (bindB (buildExpr v (Some (IrType_elementScalarType t))) (\<lambda>stored.
      appendOp (plain_op ((mk_operation Op_IndexStore sp)\<lparr>od_left := Some b, od_right := Some i, od_value := Some stored\<rparr>))))
      (\<lambda>_ _. True) (\<lambda>_. {#})" for b t i
      by (rule emits_bind[OF emits_expr], intro stable_rules, unfold add_0_left, rule builds_append) (auto simp: payload_defs)
    then show ?thesis by (intro emits_seq[OF emits_chain[OF rec_emits_expr]]) (auto split: prod.split)
  qed
  have "builds (case peelIndices target [] of (root, indices) \<Rightarrow>
            case root of
              NameExpr nsp name \<Rightarrow>
                if indices = [] then bindB (readB (ir_lookupValue name)) (\<lambda>_. logicError ''indexed assignment missing indices'')
                else
                  bindB (buildChain buildExpr nsp name indices) (\<lambda>(curBase, curTy, lastIdx).
                  bindB (buildExpr v (Some (IrType_elementScalarType curTy))) (\<lambda>stored.
                  appendOp (plain_op ((mk_operation Op_IndexStore sp)
                    \<lparr>od_left := Some curBase, od_right := Some lastIdx, od_value := Some stored\<rparr>))))
            | _ \<Rightarrow> logicError ''indexed assignment must resolve to a local name root in typed IR'')"
    by (auto split: prod.split Expr.split intro!: emits_throw element emits_if emits_seq[OF emits_lookup])
  then show ?thesis unfolding buildAssign_def
    by (cases target) (auto intro!: emits_throw name pointee)
qed

lemma emits_return_stmt: "builds (buildReturn sp v)"
proof (cases v)
  case None
  show ?thesis unfolding None buildReturn_def option.case
    by (rule emits_mono[OF emits_terminator[where P = "\<lambda>_. True"]]) auto
next
  case (Some e)
  have "currentReturnType st \<noteq> OutOfFuel" for st by (simp add: currentReturnType_def split: option.split)
  then show ?thesis unfolding Some buildReturn_def option.case
    by (intro emits_seq[OF emits_read_any], assumption)
      (unfold add_0_left, rule emits_seq[OF emits_expr], unfold add_0_left, rule emits_mono[OF emits_terminator[where P = "made x" for x]], auto)
qed

lemma builds_condition:
  "emits P {#} (buildConditionBlock e) (\<lambda>b st. block_ok (tables_of st) (locals_of st) b \<and> tm_kind (bl_terminator b) = Term_ConditionValue)
     (\<lambda>b. mset (block_ids b))"
  "emits P {#} (buildConditionBlockAlwaysTrue sp) (\<lambda>b st. block_ok (tables_of st) (locals_of st) b \<and> tm_kind (bl_terminator b) = Term_ConditionValue)
     (\<lambda>b. mset (block_ids b))"
proof -
  have t: "emits (made v) {#} (setTerminator Term_ConditionValue sp (Some v)) (\<lambda>_ st. tm_kind (term_of st) = Term_ConditionValue) (\<lambda>_. {#})" for v sp
    by (rule emits_mono[OF emits_terminator[where P = "made v"]]) auto
  show "emits P {#} (buildConditionBlock e) (\<lambda>b st. block_ok (tables_of st) (locals_of st) b \<and> tm_kind (bl_terminator b) = Term_ConditionValue)
     (\<lambda>b. mset (block_ids b))"
    unfolding buildConditionBlock_def by (rule emits_block, rule emits_seq[OF emits_expr], unfold add_0_left, rule t)
  show "emits P {#} (buildConditionBlockAlwaysTrue sp) (\<lambda>b st. block_ok (tables_of st) (locals_of st) b \<and> tm_kind (bl_terminator b) = Term_ConditionValue)
     (\<lambda>b. mset (block_ids b))"
    unfolding buildConditionBlockAlwaysTrue_def
    by (rule emits_block, rule emits_seq[OF emits_plain_emit], (auto simp: payload_defs stable_const)[3], unfold add_0_left,
        rule emits_mono[OF t]) auto
qed

lemma builds_seq: "builds m \<Longrightarrow> builds (f ()) \<Longrightarrow> builds (bindB m f)"
  by (rule emits_seq[where Q = "\<lambda>_ _. True" and q = "\<lambda>_. {#}"]) simp_all

lemma emits_plain_block:
  assumes "builds m"
  shows "emits P {#} (withBlock sp m) (\<lambda>b st. block_ok (tables_of st) (locals_of st) b) (\<lambda>b. mset (block_ids b))"
  using emits_block[where T = "\<lambda>_. True", OF assms, of P sp] by simp

lemma emits_nested:
  assumes "\<And>s. builds (rec s)"
  shows "emits P {#} (buildNestedStatementBlock rec so) (\<lambda>b st. block_ok (tables_of st) (locals_of st) b) (\<lambda>b. mset (block_ids b))"
  by (cases so) (simp_all add: buildNestedStatementBlock_def emits_throw emits_plain_block[OF assms])

lemma emits_optional_block:
  assumes "\<And>s. builds (rec s)"
  shows "emits P {#} (buildOptionalBlock rec so) (\<lambda>b st. \<forall>x. b = Some x \<longrightarrow> block_ok (tables_of st) (locals_of st) x)
    (\<lambda>b. mset (concat (map block_ids (optional b))))"
  by (cases so) (auto simp: buildOptionalBlock_def intro!: emits_return emits_seq[OF emits_plain_block[OF assms]])

lemma builds_append_op:
  "(\<And>st. P st \<Longrightarrow> can_append op st) \<Longrightarrow> od_result (op_data op) = None \<Longrightarrow> p = mset (op_ids op) \<Longrightarrow>
    emits P p (appendOp op) (\<lambda>_ _. True) (\<lambda>_. {#})"
  using emits_append[of P op] by (auto elim!: emits_mono)

lemma builds_statements: "(\<And>s. builds (rec s)) \<Longrightarrow> builds (buildStatements rec ss)"
proof (induction ss)
  case (Cons s ss)
  have "hasTerminator st \<noteq> OutOfFuel" for st by (simp add: hasTerminator_def split: option.split)
  then show ?case unfolding buildStatements.simps
    by (intro builds_seq Cons emits_seq[OF emits_read_any]) (simp_all add: emits_return Cons)
qed (simp add: emits_return)

lemma builds_block: "(\<And>s. builds (rec s)) \<Longrightarrow> builds (buildBlockStatements rec ss)"
  unfolding buildBlockStatements_def by (intro builds_seq builds_statements emits_push emits_pop)

lemma builds_if: assumes "\<And>s. builds (rec s)" shows "builds (buildIf rec sp c t e)"
  unfolding buildIf_def
  by (rule emits_seq[OF emits_expr], unfold add_0_left, rule emits_bind[OF emits_nested[OF assms] stable_made],
      rule emits_bind[OF emits_optional_block[OF assms]], intro stable_rules, rule builds_append_op)
    (auto simp: can_append_def payload_defs made_def ac_simps list_all_iff)

lemma builds_while: assumes "\<And>s. builds (rec s)" shows "builds (buildWhile rec sp c b)"
  unfolding buildWhile_def
  by (rule emits_seq[OF builds_condition(1)], unfold add_0_left, rule emits_bind[OF emits_nested[OF assms]], intro stable_rules,
      rule builds_append_op)
    (auto simp: can_append_def payload_defs made_def condition_ok_def)

lemma builds_for: assumes "\<And>s. builds (rec s)" shows "builds (buildForStmt rec sp init c st b)"
proof -
  let ?Q = "\<lambda>b st. block_ok (tables_of st) (locals_of st) b \<and> tm_kind (bl_terminator b) = Term_ConditionValue"
  have c: "emits P {#} (case c of None \<Rightarrow> buildConditionBlockAlwaysTrue sp | Some e \<Rightarrow> buildConditionBlock e) ?Q (\<lambda>b. mset (block_ids b))" for P
    by (simp add: builds_condition split: option.split)
  show ?thesis unfolding buildForStmt_def
    by (rule builds_seq, (simp add: assms emits_return split: option.split; fail),
        rule emits_seq[OF c], unfold add_0_left, rule emits_bind[OF emits_nested[OF assms]], intro stable_rules,
        rule emits_bind[OF emits_optional_block[OF assms]], intro stable_rules, rule builds_append_op)
      (auto simp: can_append_def payload_defs made_def condition_ok_def ac_simps list_all_iff)
qed

lemma builds_stmt: "builds (buildStmt s)"
proof (rule buildStmt_rule[where P = "\<lambda>s m. builds m"])
  fix rec :: build_stmt_rec and s assume r: "\<And>s'. builds (rec s')"
  show "builds (buildStmtStep rec s)"
  proof (cases s)
    case (CallStmt sp csp callee es)
    show ?thesis unfolding buildStmtStep_def CallStmt Stmt.case
      by (rule emits_seq[OF emits_call[OF rec_emits_expr]]) (simp add: emits_return)
  qed (auto simp: buildStmtStep_def builds_block[OF r] builds_let builds_assign emits_return_stmt builds_if[OF r] builds_while[OF r]
      builds_for[OF r] payload_defs intro!: builds_append)
qed (rule emits_throw)

section \<open>Modules\<close>

definition parameter_ok :: "Local list \<Rightarrow> Parameter \<Rightarrow> bool" where
  "parameter_ok ls p \<longleftrightarrow> new_slot (pa_name p) (pa_type p) False Local_Parameter (pa_local p) ls"

definition function_ok :: "tables \<Rightarrow> IrFunction \<Rightarrow> bool" where
  "function_ok T f \<longleftrightarrow> block_ok T (fn_locals f) (fn_body f) \<and>
     mset (block_ids (fn_body f)) = mset [0..<fn_nextValueId f] \<and> numbered (fn_locals f) \<and>
     list_all (parameter_ok (fn_locals f)) (fn_parameters f)"

definition const_ok :: "tables \<Rightarrow> IrConst \<Rightarrow> bool" where
  "const_ok T c \<longleftrightarrow> block_ok T [] (ic_initializer c) \<and>
     mset (block_ids (ic_initializer c)) = mset [0..<ic_nextValueId c] \<and>
     tm_kind (bl_terminator (ic_initializer c)) = Term_InitValue"

definition module_ok :: "tables \<Rightarrow> Module \<Rightarrow> bool" where
  "module_ok T m \<longleftrightarrow> list_all (const_ok T) (md_constants m) \<and> list_all (function_ok T) (md_functions m)"

definition unit_tables :: "TranslationUnit \<Rightarrow> tables" where
  "unit_tables unit =
     (case bindB ir_installBuiltins (\<lambda>_. collectTopLevelSymbols unit) TypedIrBuilder_new of
        Ok (_, st) \<Rightarrow> tables_of st | _ \<Rightarrow> \<lparr>tb_functions = (\<lambda>_. None), tb_constants = (\<lambda>_. None)\<rparr>)"

lemma const_built:
  "wpB (buildConst sp name type init) (\<lambda>c st'. tables_of st' = tables_of st \<and> const_ok (tables_of st) c) st"
proof -
  let ?t = "ir_typeFromSyntax type"
  let ?c = "\<lparr>ic_name = name, ic_type = ?t, ic_span = sp, ic_initializer = Block_new (expr_span init), ic_nextValueId = 0\<rparr>"
  let ?st0 = "st\<lparr>bd_currentConst := Some ?c, bd_currentFunction := None, bd_currentBlock := Some (Block_new (expr_span init)), bd_scopes := []\<rparr>"
  let ?m = "bindB (buildExpr init (Some ?t)) (\<lambda>v. setTerminator Term_InitValue (expr_span init) (Some v))"
  have "emits (\<lambda>_. True) {#} ?m (\<lambda>_ st. tm_kind (term_of st) = Term_InitValue) (\<lambda>_. {#})"
    by (rule emits_seq[OF emits_expr], unfold add_0_left, rule emits_mono[OF emits_terminator[where P = "made x" for x]]) auto
  moreover have "inv ?st0"
    by (simp add: inv_def state_defs Block_new_def terminator_ok_def Terminator_none_def scopes_ok_def numbered_def)
  ultimately have m: "wpB ?m (\<lambda>_ st'. step ?st0 {#} st' {#} \<and> inv st' \<and> tm_kind (term_of st') = Term_InitValue) ?st0"
    by (simp add: emits_def)
  have fin: "tables_of st' = tables_of st \<and> const_ok (tables_of st) (c\<lparr>ic_initializer := b\<rparr>)"
    if "step ?st0 {#} st' {#}" "inv st'" "tm_kind (term_of st') = Term_InitValue" "bd_currentConst st' = Some c"
      "bd_currentBlock st' = Some b" for st' c b
  proof -
    have f: "bd_currentFunction st' = None" using that(1) by (auto simp: step_def headers_def)
    have l: "locals_of st' = []" "next_of st' = ic_nextValueId c" using f that(4) by (simp_all add: state_defs)
    note cur = observe_current[OF that(5)]
    obtain bsp where b: "b = Block bsp (ops_of st') (term_of st')" using cur by (cases b) simp
    have "tables_of st' = tables_of st" using that(1) by (simp add: step_def tables_of_def)
    moreover have "mset (block_ids b) = mset [0..<ic_nextValueId c]"
      using that(1) b l(2) by (auto simp: step_def ops_of_def next_of_def Block_new_def)
    ultimately show ?thesis using that(2,3) b l(1) by (simp add: const_ok_def inv_def)
  qed
  then show ?thesis using m unfolding wpB_def buildConst_def Let_def
    by (cases "?m ?st0") (auto split: option.split)
qed

text \<open>What a lowered function keeps of its declaration.\<close>

definition same_parameter :: "ParameterSyntax \<Rightarrow> Parameter \<Rightarrow> bool" where
  "same_parameter p q \<longleftrightarrow> pa_name q = pr_name p \<and> pa_type q = ir_typeFromSyntax (pr_type p) \<and> pa_span q = pr_span p"

definition same_header :: "SourceSpan \<Rightarrow> string \<Rightarrow> ParameterSyntax list \<Rightarrow> TypeSyntax \<Rightarrow> IrFunction \<Rightarrow> bool" where
  "same_header sp name ps rt f \<longleftrightarrow> fn_span f = sp \<and> fn_name f = name \<and> fn_returnType f = ir_typeFromSyntax rt \<and>
     list_all2 same_parameter ps (fn_parameters f)"

definition lowered_parameters :: "ParameterSyntax list \<Rightarrow> Local list \<Rightarrow> Parameter list \<Rightarrow> bool" where
  "lowered_parameters ps ls qs \<longleftrightarrow> list_all2 same_parameter ps qs \<and> list_all (parameter_ok ls) qs"

lemma stable_parameters: "stable (\<lambda>st. lowered_parameters ps (locals_of st) qs)"
  unfolding lowered_parameters_def list_all_iff parameter_ok_def by (intro stable_rules stable_new_slot)

lemma emits_parameters:
  "emits P {#} (traverseB buildParameter ps) (\<lambda>qs st. lowered_parameters ps (locals_of st) qs) (\<lambda>_. {#})"
proof (induction ps arbitrary: P)
  case Nil
  then show ?case by (simp add: emits_return lowered_parameters_def)
next
  case (Cons p ps)
  have one: "emits P {#} (buildParameter p) (\<lambda>q st. same_parameter p q \<and> parameter_ok (locals_of st) q) (\<lambda>_. {#})" for P
    unfolding buildParameter_def Let_def ir_declareLocal_def
    by (rule emits_seq[where Q = "\<lambda>ref st. new_slot (pr_name p) (ir_typeFromSyntax (pr_type p)) False Local_Parameter ref (locals_of st)"
          and q = "\<lambda>_. {#}"],
        rule emits_seq[OF emits_allocate], unfold add_0_left, rule emits_bind[OF emits_bindName], assumption, rule stable_new_slot,
        unfold add_0_left, rule emits_return, simp, simp, rule emits_return)
      (auto simp: parameter_ok_def same_parameter_def)
  have st: "stable (\<lambda>st. same_parameter p q \<and> parameter_ok (locals_of st) q)" for q
    unfolding parameter_ok_def by (intro stable_rules stable_new_slot)
  show ?case unfolding traverseB.simps
    by (rule emits_seq[OF one], unfold add_0_left, rule emits_bind[OF Cons.IH st], unfold add_0_left, rule emits_return) (auto simp: lowered_parameters_def)
qed

lemma function_built:
  "wpB (buildFunction sp name ps rt bsp body) (\<lambda>f st'. tables_of st' = tables_of st \<and>
     function_ok (tables_of st) f \<and> same_header sp name ps rt f) st"
proof -
  let ?f = "\<lparr>fn_name = name, fn_parameters = [], fn_returnType = ir_typeFromSyntax rt, fn_span = sp,
            fn_locals = [], fn_body = Block_new bsp, fn_nextValueId = 0\<rparr>"
  let ?st0 = "st\<lparr>bd_currentFunction := Some ?f, bd_currentConst := None, bd_currentBlock := Some (Block_new bsp), bd_scopes := []\<rparr>"
  let ?m = "bindB ir_pushScope (\<lambda>_. bindB (traverseB buildParameter ps) (\<lambda>ps.
                bindB (buildBlockStatements buildStmt body) (\<lambda>_. bindB ir_popScope (\<lambda>_. returnB ps))))"
  have "emits (\<lambda>_. True) {#} ?m (\<lambda>qs st. lowered_parameters ps (locals_of st) qs) (\<lambda>_. {#})"
    by (rule emits_seq[OF emits_push], unfold add_0_left, rule emits_seq[OF emits_parameters], unfold add_0_left,
        rule emits_bind[OF emits_any[OF builds_block[OF builds_stmt]] stable_parameters], unfold add_0_left,
        rule emits_bind[OF emits_pop], intro stable_rules stable_parameters, unfold add_0_left, rule emits_return) auto
  moreover have "inv ?st0"
    by (simp add: inv_def state_defs Block_new_def terminator_ok_def Terminator_none_def scopes_ok_def numbered_def)
  ultimately have m: "wpB ?m (\<lambda>qs st'. step ?st0 {#} st' {#} \<and> inv st' \<and> lowered_parameters ps (locals_of st') qs) ?st0"
    by (simp add: emits_def)
  have fin: "tables_of st' = tables_of st \<and> function_ok (tables_of st) (f\<lparr>fn_parameters := qs, fn_body := b\<rparr>) \<and>
      same_header sp name ps rt (f\<lparr>fn_parameters := qs, fn_body := b\<rparr>)"
    if "step ?st0 {#} st' {#}" "inv st'" "lowered_parameters ps (locals_of st') qs" "bd_currentFunction st' = Some f"
      "bd_currentBlock st' = Some b" for st' f b qs
  proof -
    have l: "locals_of st' = fn_locals f" "next_of st' = fn_nextValueId f" using that(4) by (simp_all add: state_defs)
    note cur = observe_current[OF that(5)]
    obtain bsp where b: "b = Block bsp (ops_of st') (term_of st')" using cur by (cases b) simp
    have "tables_of st' = tables_of st" using that(1) by (simp add: step_def tables_of_def)
    moreover have "mset (block_ids b) = mset [0..<fn_nextValueId f]"
      using that(1) b l(2) by (auto simp: step_def ops_of_def next_of_def Block_new_def)
    moreover have "fn_span f = sp \<and> fn_name f = name \<and> fn_returnType f = ir_typeFromSyntax rt"
      using that(1,4) by (cases f) (auto simp: step_def headers_def)
    ultimately show ?thesis using that(2,3) b l(1)
      by (simp add: function_ok_def inv_def same_header_def lowered_parameters_def)
  qed
  then show ?thesis using m unfolding wpB_def buildFunction_def Let_def
    by (cases "?m ?st0") (auto split: option.split)
qed

lemma items_built:
  "module_ok (tables_of st) m \<Longrightarrow> wpB (buildItems is m) (\<lambda>m' st'. module_ok (tables_of st) m') st"
proof (induction "is" arbitrary: m st)
  case (Cons i "is")
  have c: "wpB (buildItems is (m\<lparr>md_constants := md_constants m @ [c]\<rparr>)) (\<lambda>m' _. module_ok (tables_of st) m') st'"
    if "tables_of st' = tables_of st" "const_ok (tables_of st) c" for c st'
    using Cons.IH[of st' "m\<lparr>md_constants := md_constants m @ [c]\<rparr>"] that Cons.prems by (simp add: module_ok_def)
  have f: "wpB (buildItems is (m\<lparr>md_functions := md_functions m @ [f]\<rparr>)) (\<lambda>m' _. module_ok (tables_of st) m') st'"
    if "tables_of st' = tables_of st" "function_ok (tables_of st) f" for f st'
    using Cons.IH[of st' "m\<lparr>md_functions := md_functions m @ [f]\<rparr>"] that Cons.prems by (simp add: module_ok_def)
  show ?case
    by (cases i) (auto intro: wpB_mono[OF const_built] wpB_mono[OF function_built] c f)
qed simp

lemma module_built: "wpR (buildTypedIr unit) (module_ok (unit_tables unit))"
proof -
  obtain st where st: "bindB ir_installBuiltins (\<lambda>_. collectTopLevelSymbols unit) TypedIrBuilder_new = Ok ((), st)"
    by (auto simp: bindB_def ir_installBuiltins_def collectTopLevelSymbols_def)
  have "wpB (buildItems unit \<lparr>md_constants = [], md_functions = []\<rparr>) (\<lambda>m' _. module_ok (tables_of st) m') st"
    by (rule items_built) (simp add: module_ok_def)
  moreover have "buildModule unit TypedIrBuilder_new = buildItems unit \<lparr>md_constants = [], md_functions = []\<rparr> st"
    using st by (auto simp: buildModule_def bindB_def ir_installBuiltins_def collectTopLevelSymbols_def)
  ultimately show ?thesis
    by (cases "buildItems unit \<lparr>md_constants = [], md_functions = []\<rparr> st")
      (auto simp: wpB_def buildTypedIr_def unit_tables_def st)
qed

end
