(* ===== verification/IrTraces.thy ===== *)
theory IrTraces
  imports IrFacts ReturnPaths
begin

text \<open>
  What an execution does, in order, on both sides of the lowering: reads of names and of array
  elements, dereferences, calls, tests, declarations and stores. \<open>traces s tr c\<close>: some execution of
  the statement \<open>s\<close> does \<open>tr\<close> and completes as \<open>c\<close>, the outcome of a test being left open;
  \<open>block_runs\<close> is the same for a block of the typed representation, as \<open>ir.h\<close> describes it.
\<close>

section \<open>The source\<close>

datatype event =
    Read SourceSpan string
  | Calls SourceSpan string
  | Dereference SourceSpan
  | Element
  | Test bool
  | Declare SourceSpan
  | Store SourceSpan

definition seqs :: "event list set \<Rightarrow> event list set \<Rightarrow> event list set" where
  "seqs A B = {a @ b | a b. a \<in> A \<and> b \<in> B}"

lemma seqs_simps [simp]: "seqs {[]} A = A" "seqs A {[]} = A" "seqs (seqs A B) C = seqs A (seqs B C)"
  by (auto simp: seqs_def) (metis append.assoc)+

lemma in_seqs: "tr \<in> seqs A B \<longleftrightarrow> (\<exists>a b. tr = a @ b \<and> a \<in> A \<and> b \<in> B)"
  by (auto simp: seqs_def)

text \<open>Expressions are evaluated from left to right; \<open>&&\<close> and \<open>||\<close> may skip their right operand.\<close>

fun evals :: "Expr \<Rightarrow> event list set" and evals_list :: "Expr list \<Rightarrow> event list set" where
  "evals (NameExpr sp x) = {[Read sp x]}"
| "evals (CallExpr sp callee es) =
     (case callee of NameExpr nsp f \<Rightarrow> seqs (evals_list es) {[Calls sp f]} | _ \<Rightarrow> {})"
| "evals (UnaryExpr sp op e) =
     (if op = Amp then {[]} else if op = Star then seqs (evals e) {[Dereference sp]} else evals e)"
| "evals (BinaryExpr sp l op r) =
     (if op = AmpAmp then seqs (evals l) (insert [Test False] (seqs {[Test True]} (evals r)))
      else if op = PipePipe then seqs (evals l) (insert [Test True] (seqs {[Test False]} (evals r)))
      else seqs (evals l) (evals r))"
| "evals (ParenExpr sp e) = evals e"
| "evals (ArrayLiteralExpr sp es) = evals_list es"
| "evals (IndexExpr sp base i) = seqs (evals base) (seqs (evals i) {[Element]})"
| "evals _ = {[]}"
| "evals_list [] = {[]}"
| "evals_list (e # es) = seqs (evals e) (evals_list es)"

text \<open>What happens before a store: the place, then the value.\<close>

fun stores :: "Expr \<Rightarrow> Expr \<Rightarrow> event list set" where
  "stores (IndexExpr sp base i) v = seqs (evals base) (seqs (evals i) (evals v))"
| "stores (UnaryExpr sp op p) v = seqs (evals p) (evals v)"
| "stores _ v = evals v"

text \<open>The outcomes of a loop test: an omitted condition and \<open>true\<close> cannot fail, \<open>false\<close> cannot succeed.\<close>

definition loop_test :: "Expr option \<Rightarrow> bool \<Rightarrow> bool" where
  "loop_test c b \<longleftrightarrow>
     (case c of None \<Rightarrow> b
      | Some e \<Rightarrow> (case stripParensExpr e of BoolLiteralExpr sp v \<Rightarrow> b = v | _ \<Rightarrow> True))"

definition condition_traces :: "Expr option \<Rightarrow> event list set" where
  "condition_traces c = (case c of None \<Rightarrow> {[]} | Some e \<Rightarrow> evals e)"

inductive traces :: "Stmt \<Rightarrow> event list \<Rightarrow> completion \<Rightarrow> bool"
  and traces_list :: "Stmt list \<Rightarrow> event list \<Rightarrow> completion \<Rightarrow> bool"
  and loop_traces :: "Expr option \<Rightarrow> Stmt \<Rightarrow> Stmt option \<Rightarrow> event list \<Rightarrow> completion \<Rightarrow> bool"
where
  tr_let_later: "traces (LetStmt sp m name nsp t None) [Declare sp] Falls"
| tr_let: "tr \<in> evals e \<Longrightarrow> traces (LetStmt sp m name nsp t (Some e)) (tr @ [Declare sp]) Falls"
| tr_assign: "tr \<in> stores target v \<Longrightarrow> traces (AssignStmt sp target v) (tr @ [Store sp]) Falls"
| tr_call: "tr \<in> evals (CallExpr csp callee es) \<Longrightarrow> traces (CallStmt sp csp callee es) tr Falls"
| tr_return_void: "traces (ReturnStmt sp None) [] Returns"
| tr_return: "tr \<in> evals e \<Longrightarrow> traces (ReturnStmt sp (Some e)) tr Returns"
| tr_break: "traces (BreakStmt sp) [] Breaks"
| tr_continue: "traces (ContinueStmt sp) [] Continues"
| tr_block: "traces_list ss tr c \<Longrightarrow> traces (BlockStmt sp ss) tr c"
| tr_then: "te \<in> evals e \<Longrightarrow> traces t tr c \<Longrightarrow> traces (IfStmt sp e (Some t) el) (te @ Test True # tr) c"
| tr_else: "te \<in> evals e \<Longrightarrow> traces el tr c \<Longrightarrow> traces (IfStmt sp e t (Some el)) (te @ Test False # tr) c"
| tr_skip: "te \<in> evals e \<Longrightarrow> traces (IfStmt sp e t None) (te @ [Test False]) Falls"
| tr_while: "loop_traces (Some e) body None tr c \<Longrightarrow> traces (WhileStmt sp e (Some body)) tr c"
| tr_for: "loop_traces e body step tr c \<Longrightarrow> traces (ForStmt sp None e step (Some body)) tr c"
| tr_for_init: "traces init ti Falls \<Longrightarrow> loop_traces e body step tr c \<Longrightarrow>
    traces (ForStmt sp (Some init) e step (Some body)) (ti @ tr) c"
| tr_nil: "traces_list [] [] Falls"
| tr_stop: "traces s tr c \<Longrightarrow> c \<noteq> Falls \<Longrightarrow> traces_list (s # ss) tr c"
| tr_next: "traces s tr1 Falls \<Longrightarrow> traces_list ss tr2 c \<Longrightarrow> traces_list (s # ss) (tr1 @ tr2) c"
| lt_exit: "tc \<in> condition_traces e \<Longrightarrow> loop_test e False \<Longrightarrow> loop_traces e body step (tc @ [Test False]) Falls"
| lt_break: "tc \<in> condition_traces e \<Longrightarrow> loop_test e True \<Longrightarrow> traces body tb Breaks \<Longrightarrow>
    loop_traces e body step (tc @ Test True # tb) Falls"
| lt_return: "tc \<in> condition_traces e \<Longrightarrow> loop_test e True \<Longrightarrow> traces body tb Returns \<Longrightarrow>
    loop_traces e body step (tc @ Test True # tb) Returns"
| lt_again: "tc \<in> condition_traces e \<Longrightarrow> loop_test e True \<Longrightarrow> traces body tb c1 \<Longrightarrow> c1 = Falls \<or> c1 = Continues \<Longrightarrow>
    loop_traces e body None tr c \<Longrightarrow> loop_traces e body None (tc @ Test True # tb @ tr) c"
| lt_step: "tc \<in> condition_traces e \<Longrightarrow> loop_test e True \<Longrightarrow> traces body tb c1 \<Longrightarrow> c1 = Falls \<or> c1 = Continues \<Longrightarrow>
    traces s ts Falls \<Longrightarrow> loop_traces e body (Some s) tr c \<Longrightarrow>
    loop_traces e body (Some s) (tc @ Test True # tb @ ts @ tr) c"

section \<open>The typed representation\<close>

definition silentKinds :: "OperationKind set" where
  "silentKinds = {Op_IntegerLiteral, Op_FloatLiteral, Op_BoolLiteral, Op_StringLiteral, Op_Unary, Op_Binary,
     Op_ArrayLiteral, Op_AddressOfLocal}"

text \<open>The event of an operation without blocks.\<close>

definition op_event :: "OperationData \<Rightarrow> event list option" where
  "op_event d =
     (if od_kind d \<in> silentKinds then Some []
      else if od_kind d = Op_LoadLocal \<or> od_kind d = Op_LoadConst then Some [Read (od_span d) (od_text d)]
      else if od_kind d = Op_Call then Some [Calls (od_span d) (od_text d)]
      else if od_kind d = Op_PointerLoad then Some [Dereference (od_span d)]
      else if od_kind d = Op_IndexLoad then Some [Element]
      else if od_kind d = Op_DeclareLocal then Some [Declare (od_span d)]
      else if od_kind d \<in> {Op_StoreLocal, Op_IndexStore, Op_PointerStore} then Some [Store (od_span d)]
      else None)"

text \<open>A condition block that is one literal has that outcome.\<close>

definition block_test :: "Block \<Rightarrow> bool \<Rightarrow> bool" where
  "block_test b v \<longleftrightarrow>
     (case bl_operations b of
        [op] \<Rightarrow> od_kind (op_data op) = Op_BoolLiteral \<longrightarrow> v = od_boolValue (op_data op)
      | _ \<Rightarrow> True)"

inductive op_runs :: "Operation \<Rightarrow> event list \<Rightarrow> completion \<Rightarrow> bool"
  and ops_run :: "Operation list \<Rightarrow> event list \<Rightarrow> completion \<Rightarrow> bool"
  and block_runs :: "Block \<Rightarrow> event list \<Rightarrow> completion \<Rightarrow> bool"
  and loop_runs :: "Block \<Rightarrow> Block \<Rightarrow> Block option \<Rightarrow> event list \<Rightarrow> completion \<Rightarrow> bool"
where
  op_plain: "op_event d = Some tr \<Longrightarrow> op_runs (Operation d c t e b s) tr Falls"
| op_break: "od_kind d = Op_Break \<Longrightarrow> op_runs (Operation d c t e b s) [] Breaks"
| op_continue: "od_kind d = Op_Continue \<Longrightarrow> op_runs (Operation d c t e b s) [] Continues"
| op_arm_then: "od_kind d \<in> {Op_ShortCircuitAnd, Op_ShortCircuitOr} \<Longrightarrow> ops_run (bl_operations t) tr Falls \<Longrightarrow>
    op_runs (Operation d c (Some t) e b s) (Test True # tr) Falls"
| op_arm_else: "od_kind d \<in> {Op_ShortCircuitAnd, Op_ShortCircuitOr} \<Longrightarrow> ops_run (bl_operations e) tr Falls \<Longrightarrow>
    op_runs (Operation d c t (Some e) b s) (Test False # tr) Falls"
| op_then: "od_kind d = Op_If \<Longrightarrow> block_runs t tr k \<Longrightarrow> op_runs (Operation d c (Some t) e b s) (Test True # tr) k"
| op_else: "od_kind d = Op_If \<Longrightarrow> block_runs e tr k \<Longrightarrow> op_runs (Operation d c t (Some e) b s) (Test False # tr) k"
| op_skip: "od_kind d = Op_If \<Longrightarrow> op_runs (Operation d c t None b s) [Test False] Falls"
| op_while: "od_kind d = Op_While \<Longrightarrow> loop_runs c b s tr k \<Longrightarrow> op_runs (Operation d (Some c) t e (Some b) s) tr k"
| ops_nil: "ops_run [] [] Falls"
| ops_stop: "op_runs op tr k \<Longrightarrow> k \<noteq> Falls \<Longrightarrow> ops_run (op # ops) tr k"
| ops_next: "op_runs op tr1 Falls \<Longrightarrow> ops_run ops tr2 k \<Longrightarrow> ops_run (op # ops) (tr1 @ tr2) k"
| block_jump: "ops_run ops tr k \<Longrightarrow> k \<noteq> Falls \<Longrightarrow> block_runs (Block sp ops t) tr k"
| block_end: "ops_run ops tr Falls \<Longrightarrow>
    block_runs (Block sp ops t) tr (if tm_kind t \<in> {Term_Return, Term_ReturnValue} then Returns else Falls)"
| lr_exit: "ops_run (bl_operations c) tc Falls \<Longrightarrow> block_test c False \<Longrightarrow> loop_runs c b s (tc @ [Test False]) Falls"
| lr_break: "ops_run (bl_operations c) tc Falls \<Longrightarrow> block_test c True \<Longrightarrow> block_runs b tb Breaks \<Longrightarrow>
    loop_runs c b s (tc @ Test True # tb) Falls"
| lr_return: "ops_run (bl_operations c) tc Falls \<Longrightarrow> block_test c True \<Longrightarrow> block_runs b tb Returns \<Longrightarrow>
    loop_runs c b s (tc @ Test True # tb) Returns"
| lr_again: "ops_run (bl_operations c) tc Falls \<Longrightarrow> block_test c True \<Longrightarrow> block_runs b tb k1 \<Longrightarrow> k1 = Falls \<or> k1 = Continues \<Longrightarrow>
    loop_runs c b None tr k \<Longrightarrow> loop_runs c b None (tc @ Test True # tb @ tr) k"
| lr_step: "ops_run (bl_operations c) tc Falls \<Longrightarrow> block_test c True \<Longrightarrow> block_runs b tb k1 \<Longrightarrow> k1 = Falls \<or> k1 = Continues \<Longrightarrow>
    block_runs s ts Falls \<Longrightarrow> loop_runs c b (Some s) tr k \<Longrightarrow>
    loop_runs c b (Some s) (tc @ Test True # tb @ ts @ tr) k"

inductive_simps op_runs_simps: "op_runs (Operation d c t e b s) tr k"
inductive_simps ops_run_Nil [simp]: "ops_run [] tr k"
inductive_simps ops_run_Cons: "ops_run (op # ops) tr k"
inductive_simps block_runs_simps: "block_runs (Block sp ops t) tr k"
inductive_simps traces_list_Nil [simp]: "traces_list [] tr c"
inductive_simps traces_list_Cons: "traces_list (s # ss) tr c"

inductive_simps traces_simps:
  "traces (LetStmt sp m name nsp t init) tr c" "traces (AssignStmt sp target v) tr c" "traces (CallStmt sp csp callee es) tr c"
  "traces (ReturnStmt sp v) tr c" "traces (BreakStmt sp) tr c" "traces (ContinueStmt sp) tr c" "traces (BlockStmt sp ss) tr c"
  "traces (IfStmt sp e t el) tr c" "traces (WhileStmt sp e body) tr c" "traces (ForStmt sp init e step body) tr c"

end
