(* ===== verification/IrTraceExprs.thy ===== *)
theory IrTraceExprs
  imports IrTraces
begin

text \<open>Lowered expressions do what the source does.\<close>

section \<open>Straight-line operations\<close>

lemma ops_run_append:
  "ops_run (a @ b) tr k \<longleftrightarrow> (k \<noteq> Falls \<and> ops_run a tr k) \<or> (\<exists>t1 t2. tr = t1 @ t2 \<and> ops_run a t1 Falls \<and> ops_run b t2 k)"
proof (induction a arbitrary: tr)
  case (Cons op a)
  show ?case
  proof
    assume "ops_run ((op # a) @ b) tr k"
    then consider "op_runs op tr k" "k \<noteq> Falls" | t1 t2 where "tr = t1 @ t2" "op_runs op t1 Falls" "ops_run (a @ b) t2 k"
      unfolding append_Cons ops_run_Cons by blast
    then show "(k \<noteq> Falls \<and> ops_run (op # a) tr k) \<or> (\<exists>t1 t2. tr = t1 @ t2 \<and> ops_run (op # a) t1 Falls \<and> ops_run b t2 k)"
    proof cases
      case 2
      from 2(3)[unfolded Cons.IH] show ?thesis
      proof (elim disjE exE conjE)
        fix u1 u2 assume "t2 = u1 @ u2" "ops_run a u1 Falls" "ops_run b u2 k"
        then show ?thesis using 2 by (intro disjI2 exI[of _ "t1 @ u1"] exI[of _ u2]) (simp add: ops_next)
      qed (use 2 in \<open>simp add: ops_next\<close>)
    qed (simp add: ops_stop)
  next
    assume "(k \<noteq> Falls \<and> ops_run (op # a) tr k) \<or> (\<exists>t1 t2. tr = t1 @ t2 \<and> ops_run (op # a) t1 Falls \<and> ops_run b t2 k)"
    then show "ops_run ((op # a) @ b) tr k"
    proof (elim disjE exE conjE)
      fix t1 t2 assume t: "tr = t1 @ t2" "ops_run (op # a) t1 Falls" "ops_run b t2 k"
      from t(2) obtain u1 u2 where "t1 = u1 @ u2" "op_runs op u1 Falls" "ops_run a u2 Falls" unfolding ops_run_Cons by blast
      then show ?thesis using t Cons.IH[of "u2 @ t2"] ops_next[of op u1 "a @ b" "u2 @ t2" k] by auto
    next
      assume t: "k \<noteq> Falls" "ops_run (op # a) tr k"
      show ?thesis using t(2)[unfolded ops_run_Cons] t(1) Cons.IH by (auto intro: ops_stop ops_next)
    qed
  qed
qed auto

text \<open>The operations always fall through, after one of the traces.\<close>

definition straight :: "Operation list \<Rightarrow> event list set \<Rightarrow> bool" where
  "straight ops A \<longleftrightarrow> (\<forall>tr k. ops_run ops tr k \<longleftrightarrow> k = Falls \<and> tr \<in> A)"

lemma straight_Nil: "straight [] {[]}"
  by (auto simp: straight_def)

lemma straight_append: "straight a A \<Longrightarrow> straight b B \<Longrightarrow> straight (a @ b) (seqs A B)"
  by (auto simp: straight_def ops_run_append in_seqs)

lemma straight_plain: "op_event d = Some tr \<Longrightarrow> straight [plain_op d] {tr}"
  by (auto simp: straight_def ops_run_Cons plain_op_def op_runs_simps op_event_def silentKinds_def split: if_splits)

lemma straight_shortCircuit:
  assumes "k \<in> {Op_ShortCircuitAnd, Op_ShortCircuitOr}" "straight (bl_operations t) A" "straight (bl_operations e) B" "od_kind d = k"
  shows "straight [Operation d None (Some t) (Some e) None None] (seqs {[Test True]} A \<union> seqs {[Test False]} B)"
  using assms by (auto simp: straight_def ops_run_Cons op_runs_simps op_event_def silentKinds_def in_seqs)

section \<open>The judgement\<close>

definition ctx :: "(string \<Rightarrow> IrSignature option) \<Rightarrow> builder \<Rightarrow> bool" where
  "ctx F st \<longleftrightarrow> bd_currentConst st = None \<and> bd_functions st = F"

definition appended :: "builder \<Rightarrow> builder \<Rightarrow> Operation list \<Rightarrow> bool" where
  "appended st st' new \<longleftrightarrow>
     (case bd_currentBlock st of None \<Rightarrow> new = [] \<and> bd_currentBlock st' = None
      | Some b \<Rightarrow> bd_currentBlock st' = Some (Block (bl_span b) (bl_operations b @ new) (bl_terminator b)))"

definition tail_ok :: "Operation list \<Rightarrow> bool" where
  "tail_ok new \<longleftrightarrow> new \<noteq> [] \<and> od_kind (op_data (last new)) \<noteq> Op_BoolLiteral"

text \<open>\<open>m\<close> appends operations that do \<open>A\<close>; with the flag, the last of them is no \<open>bool\<close> literal.\<close>

definition does :: "(string \<Rightarrow> IrSignature option) \<Rightarrow> 'a build \<Rightarrow> event list set \<Rightarrow> bool \<Rightarrow> bool" where
  "does F m A l \<longleftrightarrow> (\<forall>st. ctx F st \<longrightarrow>
     wpB m (\<lambda>_ st'. ctx F st' \<and> (\<exists>new. appended st st' new \<and> straight new A \<and> (l \<longrightarrow> tail_ok new))) st)"

text \<open>\<open>m\<close> returns something with \<open>Q\<close>, a finished block mostly, and leaves the current block alone.\<close>

definition arm :: "(string \<Rightarrow> IrSignature option) \<Rightarrow> 'a build \<Rightarrow> ('a \<Rightarrow> bool) \<Rightarrow> bool" where
  "arm F m Q \<longleftrightarrow> (\<forall>st. ctx F st \<longrightarrow> wpB m (\<lambda>b st'. ctx F st' \<and> bd_currentBlock st' = bd_currentBlock st \<and> Q b) st)"

lemma appended_refl: "appended st st []"
  by (simp add: appended_def split: option.split)

lemma appended_trans: "appended st st1 a \<Longrightarrow> appended st1 st2 b \<Longrightarrow> appended st st2 (a @ b)"
  by (auto simp: appended_def split: option.splits)

lemma appended_same: "bd_currentBlock st' = bd_currentBlock st \<Longrightarrow> appended st st' []"
  by (cases "bd_currentBlock st") (auto simp: appended_def)

lemma does_bind:
  assumes "does F m A a" "\<And>x. does F (f x) B b"
  shows "does F (bindB m f) (seqs A B) b"
  unfolding does_def wpB_bind
proof (intro allI impI, rule wpB_mono[OF assms(1)[unfolded does_def, rule_format]], assumption, elim conjE exE)
  fix st x st1 n1 assume 1: "ctx F st1" "appended st st1 n1" "straight n1 A"
  show "wpB (f x) (\<lambda>_ st'. ctx F st' \<and> (\<exists>new. appended st st' new \<and> straight new (seqs A B) \<and> (b \<longrightarrow> tail_ok new))) st1"
  proof (rule wpB_mono[OF assms(2)[unfolded does_def, rule_format, OF 1(1)]], elim conjE exE, intro conjI)
    fix y st2 n2 assume 2: "appended st1 st2 n2" "straight n2 B" "b \<longrightarrow> tail_ok n2"
    have "b \<longrightarrow> tail_ok (n1 @ n2)" using 2(3) by (auto simp: tail_ok_def)
    then show "\<exists>new. appended st st2 new \<and> straight new (seqs A B) \<and> (b \<longrightarrow> tail_ok new)"
      using appended_trans[OF 1(2) 2(1)] straight_append[OF 1(3) 2(2)] by blast
  qed
qed

lemma does_return: "does F (returnB x) {[]} False"
  using straight_Nil appended_refl by (auto simp: does_def)

lemma does_return_after: "does F m A l \<Longrightarrow> does F (bindB m (\<lambda>x. returnB (g x))) A l"
  by (simp add: does_def)

lemma does_return_or_throw:
  assumes "does F m A l" "\<And>x. (\<exists>y. f x = returnB y) \<or> (\<exists>z. f x = logicError z)" shows "does F (bindB m f) A l"
  unfolding does_def wpB_bind
proof (intro allI impI, rule wpB_mono[OF assms(1)[unfolded does_def, rule_format]], assumption)
  fix st :: builder and x st1
  assume "ctx F st1 \<and> (\<exists>new. appended st st1 new \<and> straight new A \<and> (l \<longrightarrow> tail_ok new))"
  then show "wpB (f x) (\<lambda>_ st'. ctx F st' \<and> (\<exists>new. appended st st' new \<and> straight new A \<and> (l \<longrightarrow> tail_ok new))) st1"
    using assms(2)[of x] by auto
qed

lemma does_throw [simp]: "does F (logicError s) A l" "does F nullB A l"
  by (simp_all add: does_def)

lemma does_weaken: "does F m A l \<Longrightarrow> A = B \<Longrightarrow> (k \<longrightarrow> l) \<Longrightarrow> does F m B k"
  unfolding does_def by (fastforce elim: wpB_mono)

lemma does_read: "(\<And>st. f st \<noteq> OutOfFuel) \<Longrightarrow> does F (readB f) {[]} False"
proof -
  assume f: "\<And>st. f st \<noteq> OutOfFuel"
  have "wpR (f st) (\<lambda>x. ctx F st)" if "ctx F st" for st using f[of st] that by (cases "f st") auto
  then have "wpR (f st) (\<lambda>x. ctx F st \<and> (\<exists>new. appended st st new \<and> straight new {[]} \<and> (False \<longrightarrow> tail_ok new)))"
    if "ctx F st" for st
    by (rule wpR_mono) (use that straight_Nil appended_refl in blast)+
  then show ?thesis by (simp add: does_def)
qed

lemma does_makeValue: "does F (makeValue t) {[]} False"
  using straight_Nil by (auto simp: does_def wpB_def makeValue_def ctx_def intro!: exI[of _ "[]"] appended_same split: option.split)

lemma does_append:
  "straight [op] A \<Longrightarrow> (l \<longrightarrow> od_kind (op_data op) \<noteq> Op_BoolLiteral) \<Longrightarrow> does F (appendOp op) A l"
  by (auto simp: does_def wpB_def appendOp_def ctx_def appended_def tail_ok_def split: option.split)

lemma does_emit:
  assumes "\<And>v. op_event (d\<lparr>od_result := Some v\<rparr>) = Some tr" "l \<longrightarrow> od_kind d \<noteq> Op_BoolLiteral"
  shows "does F (emit t d) {tr} l"
proof -
  have "does F (bindB (appendOp (plain_op (d\<lparr>od_result := Some v\<rparr>))) (\<lambda>_. returnB v)) {tr} l" for v
    by (rule does_return_after, rule does_append[OF straight_plain[OF assms(1)]]) (use assms(2) in \<open>simp add: plain_op_def\<close>)
  from does_bind[OF does_makeValue this] show ?thesis by (simp add: emit_def)
qed

lemma does_bind0:
  "does F m {[]} a \<Longrightarrow> (\<And>x. does F (f x) B b) \<Longrightarrow> does F (bindB m f) B b"
  using does_bind[of F m "{[]}" a f B b] by simp

lemma does_bind_return: "does F m A a \<Longrightarrow> (\<And>x. does F (f x) {[]} b) \<Longrightarrow> does F (bindB m f) A b"
  using does_bind[of F m A a f "{[]}" b] by simp

lemma arm_block:
  assumes "does F m A l"
  shows "arm F (withBlock sp (bindB m (\<lambda>x. setTerminator k sp' (g x))))
    (\<lambda>b. straight (bl_operations b) A \<and> (l \<longrightarrow> tail_ok (bl_operations b)))"
  unfolding arm_def
proof (intro allI impI)
  fix st assume st: "ctx F st"
  let ?st0 = "st\<lparr>bd_currentBlock := Some (Block_new sp)\<rparr>"
  have "ctx F ?st0" using st by (simp add: ctx_def)
  from assms[unfolded does_def, rule_format, OF this]
  show "wpB (withBlock sp (bindB m (\<lambda>x. setTerminator k sp' (g x)))) (\<lambda>b st'. ctx F st' \<and>
     bd_currentBlock st' = bd_currentBlock st \<and> straight (bl_operations b) A \<and> (l \<longrightarrow> tail_ok (bl_operations b))) st"
    unfolding wpB_def withBlock_def bindB_def
    by (cases "m ?st0") (auto simp: appended_def Block_new_def setTerminator_def ctx_def)
qed

lemma does_arm:
  assumes "arm F m Q" "\<And>b. Q b \<Longrightarrow> does F (f b) B l"
  shows "does F (bindB m f) B l"
  unfolding does_def wpB_bind
proof (intro allI impI, rule wpB_mono[OF assms(1)[unfolded arm_def, rule_format]], assumption, elim conjE)
  fix st st1 :: builder and b assume 1: "ctx F st1" "bd_currentBlock st1 = bd_currentBlock st" "Q b"
  have "appended st st1 []" by (rule appended_same[OF 1(2)])
  then have a: "appended st1 st2 n \<Longrightarrow> appended st st2 n" for st2 n using appended_trans by fastforce
  show "wpB (f b) (\<lambda>_ st'. ctx F st' \<and> (\<exists>new. appended st st' new \<and> straight new B \<and> (l \<longrightarrow> tail_ok new))) st1"
    by (rule wpB_mono[OF assms(2)[OF 1(3), unfolded does_def, rule_format, OF 1(1)]]) (use a in blast)
qed

section \<open>Expressions\<close>

text \<open>Calls pass as many arguments as the callee has parameters; the two printing built-ins take any.\<close>

fun arities :: "(string \<Rightarrow> IrSignature option) \<Rightarrow> Expr \<Rightarrow> bool" where
  "arities F (CallExpr sp callee es) \<longleftrightarrow> list_all (arities F) es \<and>
     (case callee of
        NameExpr nsp f \<Rightarrow>
          (case F f of
             None \<Rightarrow> True
           | Some s \<Rightarrow> is_isBuiltin s \<and> isPrintName f \<or> length es = length (is_parameterTypes s))
      | _ \<Rightarrow> True)"
| "arities F (UnaryExpr sp op e) \<longleftrightarrow> arities F e"
| "arities F (BinaryExpr sp l op r) \<longleftrightarrow> arities F l \<and> arities F r"
| "arities F (ParenExpr sp e) \<longleftrightarrow> arities F e"
| "arities F (ArrayLiteralExpr sp es) \<longleftrightarrow> list_all (arities F) es"
| "arities F (IndexExpr sp base i) \<longleftrightarrow> arities F base \<and> arities F i"
| "arities F _ \<longleftrightarrow> True"

definition is_bool_literal :: "Expr \<Rightarrow> bool" where
  "is_bool_literal e \<longleftrightarrow> (case stripParensExpr e of BoolLiteralExpr sp v \<Rightarrow> True | _ \<Rightarrow> False)"

definition rec_does :: "(string \<Rightarrow> IrSignature option) \<Rightarrow> build_rec \<Rightarrow> bool" where
  "rec_does F rec \<longleftrightarrow> (\<forall>e t. arities F e \<longrightarrow> does F (rec e t) (evals e) (\<not> is_bool_literal e))"

lemma rec_doesD: "rec_does F rec \<Longrightarrow> arities F e \<Longrightarrow> does F (rec e t) (evals e) False"
  unfolding rec_does_def by (blast intro: does_weaken)

lemmas event_defs = op_event_def silentKinds_def mk_operation_def

lemma does_name: "does F (buildName sp x) {[Read sp x]} True"
  unfolding buildName_def by (rule does_bind0[OF does_read[OF lookupValue_fuel]], rule does_emit) (auto simp: event_defs)

lemma does_coerce: "does F (coerceConditionLikeToBool v sp) {[]} False"
  unfolding coerceConditionLikeToBool_def appendUnaryBang_def
  by (auto intro!: does_return does_bind0[where a = False] does_emit simp: event_defs)

lemma bindB_assoc: "bindB (bindB m f) g = bindB m (\<lambda>x. bindB (f x) g)"
  by (rule ext, case_tac "m x") (auto simp: bindB_def)

lemma arm_skipped: "arm F (skippedArm sp v) (\<lambda>b. straight (bl_operations b) {[]})"
  using arm_block[OF does_emit[where tr = "[]" and l = False and t = "scalar Bool" and F = F and
      d = "(mk_operation Op_BoolLiteral sp)\<lparr>od_boolValue := v\<rparr>"], of sp Term_ReturnValue sp Some]
  by (simp add: event_defs skippedArm_def)

lemma arm_result:
  assumes "rec_does F rec" "arities F e" shows "arm F (buildBoolResultBlock rec e) (\<lambda>b. straight (bl_operations b) (evals e))"
proof -
  have "does F (bindB (rec e None) (\<lambda>v. coerceConditionLikeToBool v (expr_span e))) (evals e) False"
    by (rule does_bind_return[OF rec_doesD[OF assms] does_coerce])
  from arm_block[OF this, of "expr_span e" Term_ReturnValue "expr_span e" Some]
  have "arm F (withBlock (expr_span e) (bindB (bindB (rec e None) (\<lambda>v. coerceConditionLikeToBool v (expr_span e))) (\<lambda>x.
      setTerminator Term_ReturnValue (expr_span e) (Some x)))) (\<lambda>b. straight (bl_operations b) (evals e))" by simp
  then show ?thesis by (simp add: buildBoolResultBlock_def bindB_assoc)
qed

lemma does_logical:
  assumes "rec_does F rec" "arities F l" "arities F r"
  shows "does F (buildShortCircuitAnd rec sp l r) (seqs (evals l) (insert [Test False] (seqs {[Test True]} (evals r)))) True"
    "does F (buildShortCircuitOr rec sp l r) (seqs (evals l) (insert [Test True] (seqs {[Test False]} (evals r)))) True"
proof -
  have e: "seqs {[Test True]} A \<union> seqs {[Test False]} {[]} = insert [Test False] (seqs {[Test True]} A)"
    "seqs {[Test True]} {[]} \<union> seqs {[Test False]} A = insert [Test True] (seqs {[Test False]} A)" for A by auto
  have op: "does F (bindB (appendOp (Operation ((mk_operation k sp)\<lparr>od_result := Some w, od_left := Some v\<rparr>) None (Some t) (Some el) None None))
      (\<lambda>_. returnB w)) (seqs {[Test True]} A \<union> seqs {[Test False]} B) True"
    if "k = Op_ShortCircuitAnd \<or> k = Op_ShortCircuitOr" "straight (bl_operations t) A" "straight (bl_operations el) B" for k w v t el A B
    by (rule does_return_after, rule does_append, rule straight_shortCircuit[where k = k])
      (use that in \<open>auto simp: mk_operation_def\<close>)
  show "does F (buildShortCircuitAnd rec sp l r) (seqs (evals l) (insert [Test False] (seqs {[Test True]} (evals r)))) True"
    unfolding buildShortCircuitAnd_def e[symmetric]
    by (rule does_bind[OF rec_doesD[OF assms(1,2)]], rule does_arm[OF arm_skipped], rule does_bind0[OF does_makeValue],
        rule does_arm[OF arm_result[OF assms(1,3)]], rule op) simp_all
  show "does F (buildShortCircuitOr rec sp l r) (seqs (evals l) (insert [Test True] (seqs {[Test False]} (evals r)))) True"
    unfolding buildShortCircuitOr_def e[symmetric]
    by (rule does_bind[OF rec_doesD[OF assms(1,2)]], rule does_arm[OF arm_skipped], rule does_bind0[OF does_makeValue],
        rule does_arm[OF arm_result[OF assms(1,3)]], rule op) simp_all
qed

lemma does_binary:
  assumes "rec_does F rec" "arities F l" "arities F r"
  shows "does F (buildBinary rec sp l op r t) (evals (BinaryExpr sp l op r)) True"
proof -
  have last: "does F (appendBinary sp op a b u) {[]} True" for a b u
    unfolding appendBinary_def by (rule does_emit) (auto simp: event_defs)
  have logic: "does F (bindB (readB (\<lambda>st. Ok (bd_currentConst st \<noteq> None))) (\<lambda>inConst. if inConst then g else h)) A True"
    if "does F h A True" for g h :: "ValueRef build" and A
    using that unfolding does_def ctx_def by simp
  consider "op = AmpAmp" | "op = PipePipe" | "\<not> (op = AmpAmp \<or> op = PipePipe)" by blast
  then show ?thesis
  proof cases
    case 3
    have "does F (bindB (rec l t) (\<lambda>a. bindB (rec r (Some (vr_type a))) (\<lambda>b. appendBinary sp op a b (u a)))) (seqs (evals l) (evals r)) True" for u
      by (rule does_bind[OF rec_doesD[OF assms(1,2)]], rule does_bind_return[OF rec_doesD[OF assms(1,3)]], rule last)
    then show ?thesis using 3 by (simp add: buildBinary_def)
  qed (simp_all only: buildBinary_def simp_thms if_True if_False evals.simps logic[OF does_logical(1)[OF assms]]
      logic[OF does_logical(2)[OF assms]] TokenKind.distinct)
qed

lemma does_unary:
  assumes "rec_does F rec" "arities F e" shows "does F (buildUnary rec sp op e t) (evals (UnaryExpr sp op e)) True"
proof -
  have a: "does F (buildAddressOf sp e) {[]} True"
    unfolding buildAddressOf_def
    by (auto split: Expr.split intro!: does_bind0[OF does_read[OF lookupValue_fuel]] does_emit simp: event_defs)
  show ?thesis unfolding buildUnary_def
    by (auto simp: a event_defs intro!: does_bind[OF rec_doesD[OF assms]] does_bind_return[OF rec_doesD[OF assms]] does_emit)
qed

lemma does_traverse:
  "(\<And>x. x \<in> set xs \<Longrightarrow> does F (f x) (evals (g x)) False) \<Longrightarrow> does F (traverseB f xs) (evals_list (map g xs)) False"
proof (induction xs)
  case (Cons x xs)
  have "does F (f x) (evals (g x)) False" "does F (traverseB f xs) (evals_list (map g xs)) False" using Cons by simp_all
  then show ?case by (auto intro!: does_bind does_return_after)
qed (simp add: does_return)

lemma does_call:
  assumes "rec_does F rec" "arities F (CallExpr sp callee es)"
  shows "does F (buildCall rec sp callee es) (evals (CallExpr sp callee es)) True"
proof (cases callee)
  case (NameExpr nsp f)
  have lookup: "does F (bindB (readB (\<lambda>st. Ok (bd_functions st f))) k) A l" if "does F (k (F f)) A l"
    for k :: "_ \<Rightarrow> ValueRef option build" and A l
    using that unfolding does_def ctx_def by simp
  have es: "e \<in> set es \<Longrightarrow> arities F e" for e using assms(2) by (simp add: list_all_iff)
  have args: "does F (traverseB (\<lambda>e. rec e None) es) (evals_list es) False"
    using does_traverse[of es F "\<lambda>e. rec e None" id] rec_doesD[OF assms(1)] es by simp
  have typed: "does F (traverseB (\<lambda>(e, t). rec e (Some t)) (zip es ts)) (evals_list es) False" if "length es = length ts" for ts
  proof -
    have "does F (traverseB (\<lambda>(e, t). rec e (Some t)) (zip es ts)) (evals_list (map fst (zip es ts))) False"
      by (rule does_traverse) (use rec_doesD[OF assms(1)] es in \<open>auto dest: set_zip_leftD\<close>)
    then show ?thesis using that by simp
  qed
  have call: "does F (appendOp (plain_op ((mk_operation Op_Call sp)\<lparr>od_text := f, od_isBuiltin := bi, od_arguments := as\<rparr>))) {[Calls sp f]} True" for bi as
    by (rule does_append[OF straight_plain]) (auto simp: event_defs plain_op_def)
  have result: "does F (emit t ((mk_operation Op_Call sp)\<lparr>od_text := f, od_isBuiltin := bi, od_arguments := as\<rparr>)) {[Calls sp f]} True" for t bi as
    by (rule does_emit) (auto simp: event_defs)
  show ?thesis
  proof (cases "F f")
    case (Some s)
    have l: "is_isBuiltin s \<and> isPrintName f \<or> length es = length (is_parameterTypes s)" using assms(2) NameExpr Some by simp
    show ?thesis unfolding buildCall_def NameExpr Expr.case evals.simps
      by (rule lookup, unfold Some option.case Let_def)
        (use l in \<open>auto intro!: does_bind[OF args] does_bind[OF typed] does_return_after call result\<close>)
  qed (simp add: buildCall_def NameExpr lookup)
qed (simp_all add: buildCall_def)

lemma does_array:
  assumes "rec_does F rec" "list_all (arities F) es"
  shows "does F (buildArrayLiteral rec sp es t) (evals_list es) True"
proof -
  have args: "does F (traverseB (\<lambda>e. rec e u) es) (evals_list es) False" for u
    using does_traverse[of es F "\<lambda>e. rec e u" id] rec_doesD[OF assms(1)] assms(2) by (simp add: list_all_iff)
  have lit: "does F (appendOp (plain_op ((mk_operation Op_ArrayLiteral sp)\<lparr>od_result := Some w, od_arguments := as\<rparr>))) {[]} True" for w as
    by (rule does_append[OF straight_plain]) (auto simp: event_defs plain_op_def)
  have "does F (bindB (makeValue ty) (\<lambda>w. bindB (traverseB (\<lambda>e. rec e u) es) (\<lambda>as. bindB (appendOp (plain_op
      ((mk_operation Op_ArrayLiteral sp)\<lparr>od_result := Some w, od_arguments := as\<rparr>))) (\<lambda>_. returnB w)))) (evals_list es) True" for ty u
    by (rule does_bind0[OF does_makeValue], rule does_bind_return[OF args], rule does_return_after[OF lit])
  then show ?thesis by (simp add: buildArrayLiteral_def split: option.split)
qed

section \<open>Chains of indices\<close>

primrec index_events :: "Expr list \<Rightarrow> event list set" where
  "index_events [] = {[]}"
| "index_events (i # is) = seqs (evals i) (seqs {[Element]} (index_events is))"

lemma index_events_snoc: "index_events (is @ [i]) = seqs (index_events is) (seqs (evals i) {[Element]})"
  by (induction "is") simp_all

lemma index_events_split: "is \<noteq> [] \<Longrightarrow> index_events is = seqs (index_events (butlast is)) (seqs (evals (last is)) {[Element]})"
  using index_events_snoc[of "butlast is" "last is"] by simp

lemma evals_strip: "evals (stripParensExpr e) = evals e"
  by (induction e rule: stripParensExpr.induct) simp_all

lemma arities_strip: "arities F (stripParensExpr e) = arities F e"
  by (induction e rule: stripParensExpr.induct) simp_all

lemma peelIndices_evals:
  "peelIndices e acc = (root, is) \<Longrightarrow> \<exists>new. is = new @ acc \<and> evals e = seqs (evals root) (index_events new) \<and>
     (arities F e \<longrightarrow> arities F root \<and> list_all (arities F) new)"
proof (induction e acc rule: peelIndices.induct)
  case (1 e acc)
  show ?case
  proof (cases "\<exists>sp base index. stripParensExpr e = IndexExpr sp base index")
    case True
    then obtain sp base index where s: "stripParensExpr e = IndexExpr sp base index" by blast
    with 1(2) have "peelIndices base (index # acc) = (root, is)" by (subst (asm) peelIndices.simps) simp
    from 1(1)[OF s this] obtain new where new: "is = new @ index # acc" "evals base = seqs (evals root) (index_events new)"
      "arities F base \<longrightarrow> arities F root \<and> list_all (arities F) new" by blast
    then show ?thesis using evals_strip[of e] arities_strip[of F e]
      by (intro exI[of _ "new @ [index]"]) (auto simp: s index_events_snoc)
  next
    case False
    then have "(root, is) = (stripParensExpr e, acc)"
      using 1(2) by (subst (asm) peelIndices.simps) (auto split: Expr.splits)
    then show ?thesis using evals_strip[of e] arities_strip[of F e] by simp
  qed
qed

lemma does_indexLoad: "does F (appendIndexLoad sp t b i) {[Element]} True"
  unfolding appendIndexLoad_def by (rule does_emit) (auto simp: event_defs)

lemma does_indexLoads:
  "rec_does F rec \<Longrightarrow> list_all (arities F) is \<Longrightarrow> does F (buildIndexLoads rec is b t) (index_events is) False"
proof (induction "is" arbitrary: b t)
  case (Cons i "is")
  have i: "does F (rec i u) (evals i) False" for u using rec_doesD[OF Cons.prems(1)] Cons.prems(2) by simp
  have l: "does F (buildIndexLoads rec is b t) (index_events is) False" for b t using Cons by simp
  show ?case unfolding buildIndexLoads.simps index_events.simps by (rule does_bind[OF i does_bind[OF does_indexLoad l]])
qed (simp add: does_return)

lemma does_chain:
  assumes "rec_does F rec" "list_all (arities F) is" "is \<noteq> []"
  shows "does F (buildChain rec nsp x is) (seqs {[Read nsp x]} (seqs (index_events (butlast is)) (evals (last is)))) False"
proof -
  have loads: "does F (buildIndexLoads rec (butlast is) b t) (index_events (butlast is)) False" for b t
    by (rule does_indexLoads[OF assms(1)]) (use assms(2) in \<open>auto simp: list_all_iff dest: in_set_butlastD\<close>)
  have last: "does F (rec (last is) u) (evals (last is)) False" for u
    using rec_doesD[OF assms(1)] assms(2,3) by (simp add: list_all_iff)
  have tail: "does F (bindB (rec (last is) u) (\<lambda>i. returnB (b, t, i))) (evals (last is)) False" for u b t
    by (rule does_return_after[OF last])
  show ?thesis unfolding buildChain_def
    by (rule does_bind0[OF does_read[OF lookupValue_fuel] does_bind[OF does_name does_bind[OF loads]]])
      (simp add: tail split: prod.split)
qed

lemma does_indexGeneral:
  assumes "rec_does F rec" "arities F base" "arities F i"
  shows "does F (buildIndexGeneral rec sp base i) (evals (IndexExpr sp base i)) True"
proof -
  have l: "does F (if c then logicError z else appendIndexLoad sp t b v) {[Element]} True" for c z t b v
    by (simp add: does_indexLoad)
  show ?thesis unfolding buildIndexGeneral_def evals.simps
    by (rule does_bind[OF rec_doesD[OF assms(1,2)] does_bind[OF rec_doesD[OF assms(1,3)] l]])
qed

lemma does_index:
  assumes "rec_does F rec" "arities F (IndexExpr sp base i)"
  shows "does F (buildIndex rec sp base i) (evals (IndexExpr sp base i)) True"
proof -
  obtain root "is" where p: "peelIndices (IndexExpr sp base i) [] = (root, is)" by fastforce
  have g: "does F (buildIndexGeneral rec sp base i) (evals (IndexExpr sp base i)) True"
    by (rule does_indexGeneral[OF assms(1)]) (use assms(2) in simp_all)
  show ?thesis
  proof (cases "\<exists>nsp x. root = NameExpr nsp x \<and> is \<noteq> []")
    case True
    then obtain nsp x where r: "root = NameExpr nsp x" "is \<noteq> []" by blast
    have e: "evals (IndexExpr sp base i) = seqs {[Read nsp x]} (index_events is)" "list_all (arities F) is"
      using peelIndices_evals[OF p, of F] assms(2) r by auto
    have k: "does F (case v of (b, t, j) \<Rightarrow> if \<not> IrType_isFixedArray t then logicError z
        else appendIndexLoad sp (IrType_afterIndex t) b j) {[Element]} True" for v z
      by (simp add: does_indexLoad split: prod.split)
    have "does F (buildIndex rec sp base i)
        (seqs (seqs {[Read nsp x]} (seqs (index_events (butlast is)) (evals (last is)))) {[Element]}) True"
      unfolding buildIndex_def p by (simp add: r del: seqs_simps) (rule does_bind[OF does_chain[OF assms(1) e(2) r(2)] k])
    then show ?thesis unfolding e(1) index_events_split[OF r(2)] by simp
  qed (auto simp: buildIndex_def p g intro!: does_bind0[OF does_read[OF lookupValue_fuel]] split: Expr.split simp del: evals.simps)
qed

lemma does_literal: "k \<in> silentKinds \<Longrightarrow> k \<noteq> Op_BoolLiteral \<Longrightarrow> does F (buildLiteral k sp raw t) {[]} True"
  unfolding buildLiteral_def by (rule does_emit) (simp_all add: op_event_def mk_operation_def)

lemma does_step:
  assumes "rec_does F rec" "arities F e"
  shows "does F (buildExprStep rec e t) (evals e) (\<not> is_bool_literal e)"
proof (cases e)
  case (CallExpr sp callee es)
  have "does F (bindB (buildCall rec sp callee es) (case_option (logicError z) returnB)) (evals e) True" for z
    by (rule does_return_or_throw) (use does_call[OF assms(1)] assms(2) CallExpr in \<open>auto split: option.split simp del: evals.simps\<close>)
  then show ?thesis unfolding CallExpr buildExprStep_def Expr.case by (rule does_weaken[OF _ refl]) simp
next
  case (ParenExpr sp e')
  then show ?thesis using assms by (simp add: buildExprStep_def rec_does_def is_bool_literal_def)
next
  case (NameExpr sp x)
  then show ?thesis by (simp add: buildExprStep_def is_bool_literal_def does_name del: evals.simps) (simp add: does_name)
next
  case (UnaryExpr sp op e')
  then show ?thesis using does_unary[OF assms(1)] assms(2) by (simp add: buildExprStep_def is_bool_literal_def del: evals.simps)
next
  case (BinaryExpr sp l op r)
  then show ?thesis using does_binary[OF assms(1)] assms(2) by (simp add: buildExprStep_def is_bool_literal_def del: evals.simps)
next
  case (ArrayLiteralExpr sp es)
  then show ?thesis using does_array[OF assms(1)] assms(2) by (simp add: buildExprStep_def is_bool_literal_def)
next
  case (IndexExpr sp base i)
  then show ?thesis using does_index[OF assms(1)] assms(2) by (simp add: buildExprStep_def is_bool_literal_def del: evals.simps arities.simps)
next
  case (BoolLiteralExpr sp v)
  then show ?thesis by (auto simp: buildExprStep_def is_bool_literal_def event_defs intro!: does_emit)
qed (simp_all add: buildExprStep_def is_bool_literal_def Let_def does_literal silentKinds_def)

lemma does_buildExpr: "arities F e \<Longrightarrow> does F (buildExpr e t) (evals e) (\<not> is_bool_literal e)"
proof (rule buildExpr_rule[where P = "\<lambda>e t m. arities F e \<longrightarrow> does F m (evals e) (\<not> is_bool_literal e)", THEN mp])
  show "arities F e \<longrightarrow> does F (buildExprStep rec e t) (evals e) (\<not> is_bool_literal e)"
    if "\<And>e' t'. arities F e' \<longrightarrow> does F (rec e' t') (evals e') (\<not> is_bool_literal e')" for rec e t
    using does_step[of F rec e t] that by (simp add: rec_does_def)
qed simp_all

lemma buildExpr_bool_literal:
  "stripParensExpr e = BoolLiteralExpr sp v \<Longrightarrow> buildExpr e t = emit (scalar Bool) ((mk_operation Op_BoolLiteral sp)\<lparr>od_boolValue := v\<rparr>)"
  by (induction e rule: stripParensExpr.induct) (simp_all add: buildExpr_unfold buildExprStep_def)

end
