(* ===== verification/IrTraceStmts.thy ===== *)
theory IrTraceStmts
  imports IrTraceExprs
begin

text \<open>Lowered statements and bodies do what the source does.\<close>

section \<open>Bookkeeping steps\<close>

definition silent :: "'a build \<Rightarrow> bool" where
  "silent m \<longleftrightarrow> (\<forall>st. wpB m (\<lambda>_ st'. bd_currentConst st' = bd_currentConst st \<and> bd_functions st' = bd_functions st \<and>
     bd_currentBlock st' = bd_currentBlock st) st)"

lemma silent_steps:
  "silent (allocateLocal x sp t m k)" "silent (bindLocalName x t r)" "silent ir_pushScope" "silent ir_popScope" "silent (returnB v)"
  by (auto simp: silent_def wpB_def allocateLocal_def bindLocalName_def ir_pushScope_def ir_popScope_def returnB_def Let_def
      split: option.split list.split)

lemma silent_bind: "silent m \<Longrightarrow> (\<And>x. silent (f x)) \<Longrightarrow> silent (bindB m f)"
  unfolding silent_def wpB_bind by (fastforce elim: wpB_mono)

lemma silent_parameters: "silent (traverseB buildParameter ps)"
proof (induction ps)
  case (Cons p ps)
  have "silent (buildParameter p)"
    by (auto simp: buildParameter_def ir_declareLocal_def Let_def intro!: silent_bind silent_steps)
  then show ?case using Cons by (auto intro!: silent_bind silent_steps)
qed (simp add: silent_steps)

lemma does_silent: "silent m \<Longrightarrow> does F m {[]} False"
  unfolding does_def silent_def ctx_def using straight_Nil appended_same by (fastforce elim!: wpB_mono)

section \<open>The judgement\<close>

definition open_ends :: "Terminator \<Rightarrow> bool" where
  "open_ends t \<longleftrightarrow> tm_kind t \<in> {Term_None, Term_Return, Term_ReturnValue}"

definition block_does :: "(event list \<Rightarrow> completion \<Rightarrow> bool) \<Rightarrow> Block \<Rightarrow> bool" where
  "block_does R b \<longleftrightarrow> (\<forall>tr k. block_runs b tr k \<longleftrightarrow> R tr k)"

text \<open>From an unfinished block, \<open>m\<close> appends operations and perhaps a terminator that together do \<open>R\<close>.\<close>

definition sdoes :: "(string \<Rightarrow> IrSignature option) \<Rightarrow> 'a build \<Rightarrow> (event list \<Rightarrow> completion \<Rightarrow> bool) \<Rightarrow> bool" where
  "sdoes F m R \<longleftrightarrow> (\<forall>st b. ctx F st \<longrightarrow> bd_currentBlock st = Some b \<longrightarrow> tm_kind (bl_terminator b) = Term_None \<longrightarrow>
     wpB m (\<lambda>_ st'. ctx F st' \<and> (\<exists>new t. bd_currentBlock st' = Some (Block (bl_span b) (bl_operations b @ new) t) \<and>
       open_ends t \<and> block_does R (Block (bl_span b) new t))) st)"

lemma block_runs_open: "tm_kind t = Term_None \<Longrightarrow> block_runs (Block sp ops t) tr k \<longleftrightarrow> ops_run ops tr k"
  by (auto simp: block_runs_simps)

lemma block_runs_span: "block_runs (Block sp ops t) tr k = block_runs (Block sp' ops t) tr k"
  by (auto simp: block_runs_simps)

lemma block_runs_append:
  "block_runs (Block sp (a @ b) t) tr k \<longleftrightarrow>
     (k \<noteq> Falls \<and> ops_run a tr k) \<or> (\<exists>t1 t2. tr = t1 @ t2 \<and> ops_run a t1 Falls \<and> block_runs (Block sp b t) t2 k)"
  unfolding block_runs_simps ops_run_append by auto

lemma sdoes_throw [simp]: "sdoes F (logicError s) R" "sdoes F nullB R"
  by (simp_all add: sdoes_def)

lemma sdoesI:
  assumes "\<And>st b. ctx F st \<Longrightarrow> bd_currentBlock st = Some b \<Longrightarrow> tm_kind (bl_terminator b) = Term_None \<Longrightarrow>
     wpB m (\<lambda>_ st'. ctx F st' \<and> (\<exists>new t. bd_currentBlock st' = Some (Block (bl_span b) (bl_operations b @ new) t) \<and>
       open_ends t \<and> block_does R (Block (bl_span b) new t))) st"
  shows "sdoes F m R"
  using assms unfolding sdoes_def by blast

lemma sdoesD:
  assumes "sdoes F m R" "ctx F st" "bd_currentBlock st = Some b" "tm_kind (bl_terminator b) = Term_None"
    "\<And>x st' new t. ctx F st' \<Longrightarrow> bd_currentBlock st' = Some (Block (bl_span b) (bl_operations b @ new) t) \<Longrightarrow> open_ends t \<Longrightarrow>
       block_does R (Block (bl_span b) new t) \<Longrightarrow> Q x st'"
  shows "wpB m Q st"
  by (rule wpB_mono[OF assms(1)[unfolded sdoes_def, rule_format, OF assms(2-4)]]) (use assms(5) in blast)

lemma sdoes_weaken: "sdoes F m R \<Longrightarrow> (\<And>tr k. R tr k \<longleftrightarrow> S tr k) \<Longrightarrow> sdoes F m S"
  by (simp add: sdoes_def block_does_def)

text \<open>Expressions in front of a statement.\<close>

lemma sdoes_after:
  assumes m: "does F m A l" and f: "\<And>x. sdoes F (f x) R"
  shows "sdoes F (bindB m f) (\<lambda>tr k. \<exists>a b. tr = a @ b \<and> a \<in> A \<and> R b k)"
proof (rule sdoesI, unfold wpB_bind)
  fix st b assume st: "ctx F st" "bd_currentBlock st = Some b" "tm_kind (bl_terminator b) = Term_None"
  let ?R = "\<lambda>tr k. \<exists>a b. tr = a @ b \<and> a \<in> A \<and> R b k"
  show "wpB m (\<lambda>x. wpB (f x) (\<lambda>_ st'. ctx F st' \<and> (\<exists>new t. bd_currentBlock st' = Some (Block (bl_span b) (bl_operations b @ new) t) \<and>
       open_ends t \<and> block_does ?R (Block (bl_span b) new t)))) st"
  proof (rule wpB_mono[OF m[unfolded does_def, rule_format, OF st(1)]], elim conjE exE)
    fix x st1 n1 assume 1: "ctx F st1" "appended st st1 n1" "straight n1 A"
    then have b1: "bd_currentBlock st1 = Some (Block (bl_span b) (bl_operations b @ n1) (bl_terminator b))"
      using st(2) by (simp add: appended_def)
    show "wpB (f x) (\<lambda>_ st'. ctx F st' \<and> (\<exists>new t. bd_currentBlock st' = Some (Block (bl_span b) (bl_operations b @ new) t) \<and>
       open_ends t \<and> block_does ?R (Block (bl_span b) new t))) st1"
    proof (rule sdoesD[OF f 1(1) b1], simp add: st(3), intro conjI)
      fix st2 n2 t
      assume 2: "bd_currentBlock st2 = Some (Block (bl_span (Block (bl_span b) (bl_operations b @ n1) (bl_terminator b)))
          (bl_operations (Block (bl_span b) (bl_operations b @ n1) (bl_terminator b)) @ n2) t)" "open_ends t"
        "block_does R (Block (bl_span (Block (bl_span b) (bl_operations b @ n1) (bl_terminator b))) n2 t)"
      have "block_does ?R (Block (bl_span b) (n1 @ n2) t)"
        using 1(3) 2(3) by (auto simp: block_does_def block_runs_append straight_def)
      then show "\<exists>new t. bd_currentBlock st2 = Some (Block (bl_span b) (bl_operations b @ new) t) \<and>
          open_ends t \<and> block_does ?R (Block (bl_span b) new t)"
        using 2 by (intro exI[of _ "n1 @ n2"] exI[of _ t]) simp
    qed simp
  qed
qed

lemma sdoes_after0: "does F m {[]} l \<Longrightarrow> (\<And>x. sdoes F (f x) R) \<Longrightarrow> sdoes F (bindB m f) R"
  by (rule sdoes_weaken[OF sdoes_after]) auto

lemma sdoes_straight: "does F m A l \<Longrightarrow> sdoes F m (\<lambda>tr k. k = Falls \<and> tr \<in> A)"
proof (rule sdoesI)
  fix st b assume m: "does F m A l" and st: "ctx F st" "bd_currentBlock st = Some b" "tm_kind (bl_terminator b) = Term_None"
  show "wpB m (\<lambda>_ st'. ctx F st' \<and> (\<exists>new t. bd_currentBlock st' = Some (Block (bl_span b) (bl_operations b @ new) t) \<and>
       open_ends t \<and> block_does (\<lambda>tr k. k = Falls \<and> tr \<in> A) (Block (bl_span b) new t))) st"
    by (rule wpB_mono[OF m[unfolded does_def, rule_format, OF st(1)]])
      (use st in \<open>auto simp: appended_def block_does_def block_runs_open straight_def open_ends_def\<close>)
qed

lemma sdoes_append: "sdoes F (appendOp op) (op_runs op)"
proof -
  have "ops_run [op] tr k \<longleftrightarrow> op_runs op tr k" for tr k by (cases "k = Falls") (auto simp: ops_run_Cons)
  then show ?thesis
    by (auto simp: sdoes_def wpB_def appendOp_def ctx_def open_ends_def block_does_def block_runs_open)
qed

lemma sdoes_return:
  assumes "k = Term_Return \<or> k = Term_ReturnValue"
  shows "sdoes F (setTerminator k sp v) (\<lambda>tr c. tr = [] \<and> c = Returns)"
  using assms
  by (auto simp: sdoes_def wpB_def setTerminator_def ctx_def open_ends_def block_does_def block_runs_simps intro!: exI[of _ "[]"])

text \<open>A block of its own.\<close>

lemma arm_nested: "sdoes F m R \<Longrightarrow> arm F (withBlock sp m) (block_does R)"
  unfolding arm_def
proof (intro allI impI)
  fix st assume m: "sdoes F m R" and st: "ctx F st"
  let ?st0 = "st\<lparr>bd_currentBlock := Some (Block_new sp)\<rparr>"
  have "ctx F ?st0" using st by (simp add: ctx_def)
  from m[unfolded sdoes_def, rule_format, OF this, of "Block_new sp"]
  show "wpB (withBlock sp m) (\<lambda>b st'. ctx F st' \<and> bd_currentBlock st' = bd_currentBlock st \<and> block_does R b) st"
    unfolding wpB_def withBlock_def
    by (cases "m ?st0") (auto simp: Block_new_def Terminator_none_def ctx_def block_does_def)
qed

lemma sdoes_arm:
  assumes "arm F m Q" "\<And>b. Q b \<Longrightarrow> sdoes F (f b) R" shows "sdoes F (bindB m f) R"
proof (rule sdoesI, unfold wpB_bind)
  fix st b assume st: "ctx F st" "bd_currentBlock st = Some b" "tm_kind (bl_terminator b) = Term_None"
  show "wpB m (\<lambda>x. wpB (f x) (\<lambda>_ st'. ctx F st' \<and> (\<exists>new t. bd_currentBlock st' = Some (Block (bl_span b) (bl_operations b @ new) t) \<and>
       open_ends t \<and> block_does R (Block (bl_span b) new t)))) st"
    by (rule wpB_mono[OF assms(1)[unfolded arm_def, rule_format, OF st(1)]])
      (use st assms(2)[unfolded sdoes_def] in auto)
qed

section \<open>Loops\<close>

definition tests :: "Expr option \<Rightarrow> Block \<Rightarrow> bool" where
  "tests e c \<longleftrightarrow> straight (bl_operations c) (condition_traces e) \<and> (\<forall>v. block_test c v \<longleftrightarrow> loop_test e v)"

lemma loop_lowered:
  assumes "tests e c" "block_does (traces body) b" "rel_option (\<lambda>s. block_does (traces s)) step st"
  shows "loop_runs c b st tr k \<longleftrightarrow> loop_traces e body step tr k"
proof -
  have c: "ops_run (bl_operations c) tc Falls \<longleftrightarrow> tc \<in> condition_traces e" "block_test c v \<longleftrightarrow> loop_test e v" for tc v
    using assms(1) by (auto simp: tests_def straight_def)
  have b: "block_runs b tr k \<longleftrightarrow> traces body tr k" for tr k using assms(2) by (simp add: block_does_def)
  have s: "step = Some s \<Longrightarrow> st = Some sb \<Longrightarrow> block_runs sb tr k \<longleftrightarrow> traces s tr k" for s sb tr k
    using assms(3) by (simp add: block_does_def)
  have o: "(st = None) = (step = None)" using assms(3) by (cases step; cases st) auto
  note intro = lt_exit lt_break lt_return lt_again lt_step
  have forth: "loop_runs c' b' st' tr k \<Longrightarrow> c' = c \<Longrightarrow> b' = b \<Longrightarrow> st' = st \<Longrightarrow> loop_traces e body step tr k" for c' b' st' tr k
  proof (induction c' b' st' tr k rule: op_runs_ops_run_block_runs_loop_runs.inducts(4)
      [where ?P1.0 = "\<lambda>_ _ _. True" and ?P2.0 = "\<lambda>_ _ _. True" and ?P3.0 = "\<lambda>_ _ _. True"])
    case (lr_step c' tc b' tb k1 sb ts tr k)
    then obtain s' where step: "step = Some s'" using o by (cases step) auto
    have ts: "traces s' ts Falls" using s[OF step] lr_step by auto
    show ?case
      unfolding step by (rule lt_step[rotated 4]) (use lr_step c b step ts in auto)
  qed (use c b o in \<open>auto intro: intro\<close>)
  have conv: "loop_traces e' body' step' tr k \<Longrightarrow> e' = e \<Longrightarrow> body' = body \<Longrightarrow> step' = step \<Longrightarrow> loop_runs c b st tr k" for e' body' step' tr k
  proof (induction e' body' step' tr k rule: traces_traces_list_loop_traces.inducts(3)
      [where ?P1.0 = "\<lambda>_ _ _. True" and ?P2.0 = "\<lambda>_ _ _. True"])
    case (lt_step tc e1 body1 tb c1 s' ts tr1 k1)
    then obtain sb where st: "st = Some sb" using o by (cases st) auto
    have ts: "block_runs sb ts Falls" using s[OF _ st] lt_step by auto
    show ?case
      unfolding st by (rule lr_step[rotated 4]) (use lt_step c b st ts in auto)
  qed (use c b o in \<open>auto intro: lr_exit lr_break lr_return lr_again\<close>)
  show "loop_runs c b st tr k \<longleftrightarrow> loop_traces e body step tr k" using forth conv by blast
qed

lemma arm_condition:
  assumes "arities F e" shows "arm F (buildConditionBlock e) (tests (Some e))"
proof (cases "is_bool_literal e")
  case False
  have "loop_test (Some e) v" for v using False by (auto simp: loop_test_def is_bool_literal_def split: Expr.split)
  moreover have "tail_ok (bl_operations b) \<Longrightarrow> block_test b v" for b v
    by (auto simp: tail_ok_def block_test_def split: list.split)
  moreover have "does F (buildExpr e None) (evals e) True" using does_buildExpr[OF assms] False by simp
  from arm_block[OF this, of "expr_span e" Term_ConditionValue "expr_span e" Some]
  have "arm F (buildConditionBlock e) (\<lambda>b. straight (bl_operations b) (evals e) \<and> tail_ok (bl_operations b))"
    by (simp add: buildConditionBlock_def)
  ultimately show ?thesis by (auto simp: arm_def tests_def condition_traces_def elim!: wpB_mono)
next
  case True
  then obtain sp v where s: "stripParensExpr e = BoolLiteralExpr sp v" by (auto simp: is_bool_literal_def split: Expr.splits)
  have "evals e = {[]}" using evals_strip[of e] s by simp
  then show ?thesis
    by (auto simp: arm_def wpB_def buildConditionBlock_def buildExpr_bool_literal[OF s] withBlock_def emit_def makeValue_def
        bindB_def appendOp_def setTerminator_def returnB_def ctx_def Block_new_def tests_def condition_traces_def loop_test_def s
        block_test_def straight_def ops_run_Cons plain_op_def op_runs_simps event_defs split: option.split)
qed

lemma arm_always: "arm F (buildConditionBlockAlwaysTrue sp) (tests None)"
  by (auto simp: arm_def wpB_def buildConditionBlockAlwaysTrue_def withBlock_def emit_def makeValue_def
        bindB_def appendOp_def setTerminator_def returnB_def ctx_def Block_new_def tests_def condition_traces_def loop_test_def
        block_test_def straight_def ops_run_Cons plain_op_def op_runs_simps event_defs split: option.split)

section \<open>Statements\<close>

text \<open>The clauses of a \<open>for\<close> are declarations, assignments and calls.\<close>

fun is_clause :: "Stmt \<Rightarrow> bool" where
  "is_clause (LetStmt sp m name nsp t init) \<longleftrightarrow> True"
| "is_clause (AssignStmt sp target v) \<longleftrightarrow> True"
| "is_clause (CallStmt sp csp callee es) \<longleftrightarrow> True"
| "is_clause _ \<longleftrightarrow> False"

fun lowerable :: "(string \<Rightarrow> IrSignature option) \<Rightarrow> Stmt \<Rightarrow> bool" where
  "lowerable F (BlockStmt sp ss) \<longleftrightarrow> list_all (lowerable F) ss"
| "lowerable F (LetStmt sp m name nsp t init) \<longleftrightarrow> pred_option (arities F) init"
| "lowerable F (AssignStmt sp target v) \<longleftrightarrow> arities F target \<and> arities F v"
| "lowerable F (ReturnStmt sp v) \<longleftrightarrow> pred_option (arities F) v"
| "lowerable F (IfStmt sp e t el) \<longleftrightarrow> arities F e \<and> pred_option (lowerable F) t \<and> pred_option (lowerable F) el"
| "lowerable F (WhileStmt sp e body) \<longleftrightarrow> arities F e \<and> pred_option (lowerable F) body"
| "lowerable F (ForStmt sp init e step body) \<longleftrightarrow> pred_option is_clause init \<and> pred_option (lowerable F) init \<and>
     pred_option (arities F) e \<and> pred_option (lowerable F) step \<and> pred_option (lowerable F) body"
| "lowerable F (CallStmt sp csp callee es) \<longleftrightarrow> arities F (CallExpr csp callee es)"
| "lowerable F _ \<longleftrightarrow> True"

lemma does_let:
  assumes "pred_option (arities F) init"
  shows "does F (buildLet sp m x nsp ty init) {tr. traces (LetStmt sp m x nsp ty init) tr Falls} False"
proof -
  let ?A = "case init of None \<Rightarrow> {[]} | Some e \<Rightarrow> evals e"
  have t: "does F (if hasExplicitTypeSyntax ty then returnB (ir_typeFromSyntax ty)
            else case init of None \<Rightarrow> nullB | Some e \<Rightarrow> readB (\<lambda>st. inferExprType st e None)) {[]} False"
    by (auto intro!: does_return does_read inferExprType_fuel split: option.split)
  have v: "does F (case init of None \<Rightarrow> returnB None | Some e \<Rightarrow> bindB (buildExpr e (Some t)) (\<lambda>v. returnB (Some v))) ?A False" for t
    using does_weaken[OF does_buildExpr refl] assms by (auto intro!: does_return does_return_after split: option.split)
  have d: "does F (appendOp (plain_op ((mk_operation Op_DeclareLocal sp)\<lparr>od_local := r, od_isMutable := m, od_value := v\<rparr>)))
      {[Declare sp]} False" for r v
    by (rule does_append[OF straight_plain]) (auto simp: event_defs)
  have "does F (buildLet sp m x nsp ty init) (seqs ?A {[Declare sp]}) False"
    unfolding buildLet_def
    by (intro does_bind0[OF t] does_bind[OF v] does_bind0[OF does_silent] silent_steps d)
  moreover have "seqs ?A {[Declare sp]} = {tr. traces (LetStmt sp m x nsp ty init) tr Falls}"
    by (auto simp: traces_simps in_seqs split: option.split)
  ultimately show ?thesis by simp
qed

lemma does_assign:
  assumes "arities F target" "arities F v"
  shows "does F (buildAssign sp target v) {tr. traces (AssignStmt sp target v) tr Falls} False"
proof -
  have v: "does F (buildExpr v t) (evals v) False" for t using does_weaken[OF does_buildExpr[OF assms(2)] refl] by blast
  have rec: "rec_does F buildExpr" unfolding rec_does_def using does_buildExpr by blast
  have op: "does F (appendOp (plain_op d)) {[Store sp]} False" if "od_kind d \<in> {Op_StoreLocal, Op_IndexStore, Op_PointerStore}" "od_span d = sp" for d
    by (rule does_append[OF straight_plain]) (use that in \<open>auto simp: event_defs\<close>)
  have "does F (buildAssign sp target v) (seqs (stores target v) {[Store sp]}) False"
  proof (cases target)
    case (NameExpr nsp x)
    show ?thesis unfolding NameExpr buildAssign_def Expr.case stores.simps
      by (rule does_bind0[OF does_read[OF lookupValue_fuel] does_bind[OF v op]]) (simp_all add: mk_operation_def)
  next
    case (UnaryExpr usp q p)
    have p: "does F (buildExpr p t) (evals p) False" for t
      using does_weaken[OF does_buildExpr refl] assms(1) UnaryExpr by simp
    have "does F (bindB (buildExpr p None) (\<lambda>ptr. bindB (buildExpr v (Some (IrType_pointeeType (vr_type ptr)))) (\<lambda>stored.
        appendOp (plain_op ((mk_operation Op_PointerStore sp)\<lparr>od_value := Some stored, od_left := Some ptr\<rparr>)))))
        (seqs (evals p) (seqs (evals v) {[Store sp]})) False"
      by (rule does_bind[OF p does_bind[OF v op]]; simp add: mk_operation_def)
    then show ?thesis by (cases "q = Star") (simp_all add: UnaryExpr buildAssign_def)
  next
    case (IndexExpr isp base i)
    obtain root "is" where p: "peelIndices target [] = (root, is)" by fastforce
    show ?thesis
    proof (cases "\<exists>nsp x. root = NameExpr nsp x \<and> is \<noteq> []")
      case True
      then obtain nsp x where r: "root = NameExpr nsp x" "is \<noteq> []" by blast
      obtain root' is' where q: "peelIndices base [i] = (root', is')" by fastforce
      from peelIndices_evals[OF q, of F] obtain new where n: "is' = new @ [i]" "evals base = seqs (evals root') (index_events new)" by blast
      have "root' = root \<and> is' = is" using p q unfolding IndexExpr by (subst (asm) peelIndices.simps) simp
      then have e: "seqs (seqs {[Read nsp x]} (seqs (index_events (butlast is)) (evals (last is)))) B = seqs (evals base) (seqs (evals i) B)" for B
        using n r by auto
      have "list_all (arities F) is" using peelIndices_evals[OF p, of F] assms(1) by auto
      from does_chain[OF rec this r(2)]
      have c: "does F (buildChain buildExpr nsp x is) (seqs {[Read nsp x]} (seqs (index_events (butlast is)) (evals (last is)))) False" .
      have k: "does F (case w of (curBase, curTy, lastIdx) \<Rightarrow>
          bindB (buildExpr v (Some (IrType_elementScalarType curTy))) (\<lambda>stored. appendOp (plain_op ((mk_operation Op_IndexStore sp)
            \<lparr>od_left := Some curBase, od_right := Some lastIdx, od_value := Some stored\<rparr>)))) (seqs (evals v) {[Store sp]}) False" for w
        by (cases w, simp only: prod.case) (rule does_bind[OF v op]; simp add: mk_operation_def)
      have "does F (buildAssign sp target v) (seqs (evals base) (seqs (evals i) (seqs (evals v) {[Store sp]}))) False"
        using does_bind[OF c k] r(2) unfolding seqs_simps(3) e[unfolded seqs_simps(3)]
        by (simp add: buildAssign_def IndexExpr p[unfolded IndexExpr] r(1))
      then show ?thesis by (simp add: IndexExpr)
    qed (auto simp: buildAssign_def IndexExpr p[unfolded IndexExpr] intro!: does_bind0[OF does_read[OF lookupValue_fuel]] split: Expr.split)
  qed (simp_all add: buildAssign_def)
  moreover have "seqs (stores target v) {[Store sp]} = {tr. traces (AssignStmt sp target v) tr Falls}"
    by (auto simp: traces_simps in_seqs)
  ultimately show ?thesis by simp
qed

lemma does_call_stmt:
  assumes "arities F (CallExpr csp callee es)"
  shows "does F (bindB (buildCall buildExpr csp callee es) (\<lambda>_. returnB ())) {tr. traces (CallStmt sp csp callee es) tr Falls} False"
proof -
  have "rec_does F buildExpr" unfolding rec_does_def using does_buildExpr by blast
  from does_weaken[OF does_call[OF this assms] refl]
  have "does F (buildCall buildExpr csp callee es) (evals (CallExpr csp callee es)) False" by simp
  moreover have "evals (CallExpr csp callee es) = {tr. traces (CallStmt sp csp callee es) tr Falls}"
    by (auto simp: traces_simps)
  ultimately show ?thesis using does_return_after by fastforce
qed

lemma does_clause: "is_clause s \<Longrightarrow> lowerable F s \<Longrightarrow> does F (buildStmtStep rec s) {tr. traces s tr Falls} False"
  by (cases s) (simp_all add: buildStmtStep_def does_let does_assign does_call_stmt del: arities.simps)

lemma clause_falls: "is_clause s \<Longrightarrow> traces s tr c \<Longrightarrow> c = Falls"
  by (cases s) (auto simp: traces_simps)

definition rec_sdoes :: "(string \<Rightarrow> IrSignature option) \<Rightarrow> build_stmt_rec \<Rightarrow> bool" where
  "rec_sdoes F rec \<longleftrightarrow> (\<forall>s. lowerable F s \<longrightarrow> sdoes F (rec s) (traces s) \<and>
     (is_clause s \<longrightarrow> does F (rec s) {tr. traces s tr Falls} False))"

lemma sdoes_return_stmt:
  assumes "pred_option (arities F) v" shows "sdoes F (buildReturn sp v) (traces (ReturnStmt sp v))"
proof (cases v)
  case None
  show ?thesis unfolding None buildReturn_def option.case
    by (rule sdoes_weaken[OF sdoes_return]) (simp_all add: traces_simps)
next
  case (Some e)
  have e: "does F (buildExpr e t) (evals e) False" for t using does_weaken[OF does_buildExpr refl] assms Some by auto
  have r: "does F (readB currentReturnType) {[]} False"
    by (rule does_read) (simp add: currentReturnType_def split: option.split)
  show ?thesis unfolding Some buildReturn_def option.case
    by (rule sdoes_after0[OF r], rule sdoes_weaken[OF sdoes_after[OF e sdoes_return]]) (auto simp: traces_simps)
qed

text \<open>Once a terminator is set, or after a jump, nothing more is lowered, and nothing more runs.\<close>

lemma never_falls:
  assumes "block_does R (Block sp new t)" "tm_kind t \<noteq> Term_None" "open_ends t" shows "\<not> R tr Falls"
proof
  assume "R tr Falls"
  then have "block_runs (Block sp new t) tr Falls" using assms(1) by (simp add: block_does_def)
  then show False using assms(2,3) by (auto simp: block_runs_simps open_ends_def)
qed

lemma jump_never_falls: "isBreakOrContinue s \<Longrightarrow> \<not> traces s tr Falls"
  by (cases s) (auto simp: traces_simps)

lemma wp_hasTerminator:
  "bd_currentBlock st = Some b \<Longrightarrow> wpB (readB hasTerminator) Q st \<longleftrightarrow> Q (tm_kind (bl_terminator b) \<noteq> Term_None) st"
  by (simp add: hasTerminator_def)

lemma sdoes_statements:
  "rec_sdoes F rec \<Longrightarrow> list_all (lowerable F) ss \<Longrightarrow> sdoes F (buildStatements rec ss) (traces_list ss)"
proof (induction ss)
  case Nil
  show ?case unfolding buildStatements.simps by (rule sdoes_weaken[OF sdoes_straight[OF does_return]]) auto
next
  case (Cons s ss)
  have s: "sdoes F (rec s) (traces s)" and ss: "sdoes F (buildStatements rec ss) (traces_list ss)"
    using Cons by (auto simp: rec_sdoes_def)
  show ?case unfolding buildStatements.simps
  proof (rule sdoesI, unfold wpB_bind)
    fix st b assume st: "ctx F st" "bd_currentBlock st = Some b" "tm_kind (bl_terminator b) = Term_None"
    let ?goal = "\<lambda>_ st'. ctx F st' \<and> (\<exists>new t. bd_currentBlock st' = Some (Block (bl_span b) (bl_operations b @ new) t) \<and>
       open_ends t \<and> block_does (traces_list (s # ss)) (Block (bl_span b) new t))"
    show "wpB (rec s) (\<lambda>x. wpB (readB hasTerminator) (\<lambda>ended. wpB (if ended \<or> isBreakOrContinue s then returnB ()
        else buildStatements rec ss) ?goal)) st"
    proof (rule sdoesD[OF s st])
      fix x :: unit and st1 n1 t1
      assume 1: "ctx F st1" "bd_currentBlock st1 = Some (Block (bl_span b) (bl_operations b @ n1) t1)" "open_ends t1"
        "block_does (traces s) (Block (bl_span b) n1 t1)"
      have stop: "block_does (traces_list (s # ss)) (Block (bl_span b) n1 t1)" if "\<And>tr. \<not> traces s tr Falls"
        using 1(4) that by (auto simp: block_does_def traces_list_Cons)
      have more: "wpB (buildStatements rec ss) ?goal st1" if "tm_kind t1 = Term_None"
      proof (rule sdoesD[OF ss 1(1,2)], simp add: that)
        fix y :: unit and st2 n2 t2
        assume 2: "ctx F st2" "bd_currentBlock st2 = Some (Block (bl_span (Block (bl_span b) (bl_operations b @ n1) t1))
            (bl_operations (Block (bl_span b) (bl_operations b @ n1) t1) @ n2) t2)" "open_ends t2"
          "block_does (traces_list ss) (Block (bl_span (Block (bl_span b) (bl_operations b @ n1) t1)) n2 t2)"
        have "block_does (traces_list (s # ss)) (Block (bl_span b) (n1 @ n2) t2)"
          using 1(4) 2(4) by (auto simp: block_does_def block_runs_append block_runs_open[OF that] traces_list_Cons)
        then show "?goal y st2" using 2 by (intro conjI exI[of _ "n1 @ n2"] exI[of _ t2]) simp_all
      qed
      show "wpB (readB hasTerminator) (\<lambda>ended. wpB (if ended \<or> isBreakOrContinue s then returnB ()
        else buildStatements rec ss) ?goal) st1"
      proof (cases "tm_kind t1 \<noteq> Term_None \<or> isBreakOrContinue s")
        case True
        then have "block_does (traces_list (s # ss)) (Block (bl_span b) n1 t1)"
          using stop never_falls[OF 1(4)] 1(3) jump_never_falls by blast
        then show ?thesis unfolding wp_hasTerminator[OF 1(2)] using True 1 by auto
      next
        case False
        then show ?thesis unfolding wp_hasTerminator[OF 1(2)] using more by simp
      qed
    qed
  qed
qed

lemma sdoes_then_silent:
  assumes "sdoes F m R" "\<And>x. silent (f x)" shows "sdoes F (bindB m f) R"
proof (rule sdoesI, unfold wpB_bind)
  fix st b assume st: "ctx F st" "bd_currentBlock st = Some b" "tm_kind (bl_terminator b) = Term_None"
  show "wpB m (\<lambda>x. wpB (f x) (\<lambda>_ st'. ctx F st' \<and> (\<exists>new t. bd_currentBlock st' =
      Some (Block (bl_span b) (bl_operations b @ new) t) \<and> open_ends t \<and> block_does R (Block (bl_span b) new t)))) st"
    by (rule sdoesD[OF assms(1) st], rule wpB_mono[OF assms(2)[unfolded silent_def, rule_format]]) (auto simp: ctx_def)
qed

lemma sdoes_block:
  assumes "rec_sdoes F rec" "list_all (lowerable F) ss" shows "sdoes F (buildBlockStatements rec ss) (traces_list ss)"
  unfolding buildBlockStatements_def
  by (rule sdoes_after0[OF does_silent[OF silent_steps(3)] sdoes_then_silent[OF sdoes_statements[OF assms] silent_steps(4)]])

lemma arm_statement:
  "rec_sdoes F rec \<Longrightarrow> pred_option (lowerable F) so \<Longrightarrow>
     arm F (buildNestedStatementBlock rec so) (\<lambda>b. \<exists>s. so = Some s \<and> block_does (traces s) b)"
  by (cases so) (auto simp: buildNestedStatementBlock_def rec_sdoes_def arm_def intro: arm_nested[unfolded arm_def, rule_format])

lemma arm_optional:
  assumes "rec_sdoes F rec" "pred_option (lowerable F) so"
  shows "arm F (buildOptionalBlock rec so) (\<lambda>b. rel_option (\<lambda>s. block_does (traces s)) so b)"
proof (cases so)
  case (Some s)
  have "arm F (withBlock (stmt_span s) (rec s)) (block_does (traces s))"
    by (rule arm_nested) (use assms Some in \<open>simp add: rec_sdoes_def\<close>)
  then show ?thesis by (simp add: Some buildOptionalBlock_def arm_def)
qed (simp add: buildOptionalBlock_def arm_def)

lemma sdoes_if:
  assumes "rec_sdoes F rec" "lowerable F (IfStmt sp e t el)" shows "sdoes F (buildIf rec sp e t el) (traces (IfStmt sp e t el))"
proof -
  have e: "does F (buildExpr e None) (evals e) False" using does_weaken[OF does_buildExpr refl] assms(2) by simp
  have t: "arm F (buildNestedStatementBlock rec t) (\<lambda>b. \<exists>s. t = Some s \<and> block_does (traces s) b)"
    by (rule arm_statement[OF assms(1)]) (use assms(2) in simp)
  have el: "arm F (buildOptionalBlock rec el) (\<lambda>b. rel_option (\<lambda>s. block_does (traces s)) el b)"
    by (rule arm_optional[OF assms(1)]) (use assms(2) in simp)
  let ?R = "\<lambda>tr k. (\<exists>s tr'. t = Some s \<and> tr = Test True # tr' \<and> traces s tr' k) \<or>
     (\<exists>s tr'. el = Some s \<and> tr = Test False # tr' \<and> traces s tr' k) \<or> (el = None \<and> tr = [Test False] \<and> k = Falls)"
  have op: "sdoes F (appendOp (Operation ((mk_operation Op_If sp)\<lparr>od_condition := Some c\<rparr>) None (Some tb) eb None None)) ?R"
    if "\<exists>s. t = Some s \<and> block_does (traces s) tb" "rel_option (\<lambda>s. block_does (traces s)) el eb" for c tb eb
    by (rule sdoes_weaken[OF sdoes_append])
      (use that in \<open>cases el; cases eb; auto simp: op_runs_simps event_defs block_does_def\<close>)
  have "sdoes F (buildIf rec sp e t el) (\<lambda>tr k. \<exists>a b. tr = a @ b \<and> a \<in> evals e \<and> ?R b k)"
    unfolding buildIf_def by (rule sdoes_after[OF e], rule sdoes_arm[OF t], rule sdoes_arm[OF el], rule op)
  then show ?thesis by (rule sdoes_weaken) (unfold traces_simps, blast)
qed

text \<open>Both loops become the same operation.\<close>

lemma sdoes_loop:
  assumes "rec_sdoes F rec" "pred_option (lowerable F) body" "pred_option (lowerable F) step" "arm F m (tests e)"
  shows "sdoes F (bindB m (\<lambda>c. bindB (buildNestedStatementBlock rec body) (\<lambda>b. bindB (buildOptionalBlock rec step) (\<lambda>st.
     appendOp (Operation (mk_operation Op_While sp) (Some c) None None (Some b) st)))))
     (\<lambda>tr k. \<exists>s. body = Some s \<and> loop_traces e s step tr k)"
proof (rule sdoes_arm[OF assms(4)], rule sdoes_arm[OF arm_statement[OF assms(1,2)]], rule sdoes_arm[OF arm_optional[OF assms(1,3)]])
  fix c b st assume "tests e c" "\<exists>s. body = Some s \<and> block_does (traces s) b" "rel_option (\<lambda>s. block_does (traces s)) step st"
  then obtain s where s: "body = Some s" "\<And>tr k. loop_runs c b st tr k \<longleftrightarrow> loop_traces e s step tr k"
    using loop_lowered by blast
  show "sdoes F (appendOp (Operation (mk_operation Op_While sp) (Some c) None None (Some b) st))
      (\<lambda>tr k. \<exists>s. body = Some s \<and> loop_traces e s step tr k)"
    by (rule sdoes_weaken[OF sdoes_append]) (auto simp: op_runs_simps event_defs s)
qed

lemma bindB_returnB: "bindB (returnB x) f = f x"
  by (rule ext) (simp add: bindB_def returnB_def)

lemma sdoes_while:
  assumes "rec_sdoes F rec" "lowerable F (WhileStmt sp e body)" shows "sdoes F (buildWhile rec sp e body) (traces (WhileStmt sp e body))"
proof -
  have c: "arm F (buildConditionBlock e) (tests (Some e))" by (rule arm_condition) (use assms(2) in simp)
  have "sdoes F (buildWhile rec sp e body) (\<lambda>tr k. \<exists>s. body = Some s \<and> loop_traces (Some e) s None tr k)"
    using sdoes_loop[OF assms(1) _ _ c, of body None sp] assms(2) by (simp add: buildWhile_def buildOptionalBlock_def bindB_returnB)
  then show ?thesis by (rule sdoes_weaken) (auto simp: traces_simps)
qed

lemma sdoes_for:
  assumes "rec_sdoes F rec" "lowerable F (ForStmt sp init e step body)"
  shows "sdoes F (buildForStmt rec sp init e step body) (traces (ForStmt sp init e step body))"
proof -
  let ?A = "case init of None \<Rightarrow> {[]} | Some s \<Rightarrow> {tr. traces s tr Falls}"
  have i: "does F (case init of None \<Rightarrow> returnB () | Some s \<Rightarrow> rec s) ?A False"
    using assms by (auto simp: rec_sdoes_def does_return split: option.split)
  have c: "arm F (case e of None \<Rightarrow> buildConditionBlockAlwaysTrue sp | Some e \<Rightarrow> buildConditionBlock e) (tests e)"
    using arm_condition arm_always assms(2) by (auto split: option.split)
  have "sdoes F (buildForStmt rec sp init e step body)
      (\<lambda>tr k. \<exists>a b. tr = a @ b \<and> a \<in> ?A \<and> (\<exists>s. body = Some s \<and> loop_traces e s step b k))"
    unfolding buildForStmt_def by (rule sdoes_after[OF i], rule sdoes_loop[OF assms(1) _ _ c]) (use assms(2) in simp_all)
  then show ?thesis by (rule sdoes_weaken) (auto simp: traces_simps split: option.split)
qed

lemma sdoes_step:
  assumes "rec_sdoes F rec" "lowerable F s" shows "sdoes F (buildStmtStep rec s) (traces s)"
proof -
  have clause: "sdoes F (buildStmtStep rec s) (traces s)" if "is_clause s"
    using sdoes_weaken[OF sdoes_straight[OF does_clause[OF that assms(2)]]] clause_falls[OF that] by blast
  show ?thesis
  proof (cases s)
    case (BlockStmt sp ss)
    show ?thesis unfolding BlockStmt buildStmtStep_def Stmt.case
      by (rule sdoes_weaken[OF sdoes_block[OF assms(1)]]) (use assms(2) BlockStmt in \<open>auto simp: traces_simps\<close>)
  next
    case (BreakStmt sp)
    show ?thesis unfolding BreakStmt buildStmtStep_def Stmt.case
      by (rule sdoes_weaken[OF sdoes_append]) (auto simp: traces_simps plain_op_def op_runs_simps event_defs)
  next
    case (ContinueStmt sp)
    show ?thesis unfolding ContinueStmt buildStmtStep_def Stmt.case
      by (rule sdoes_weaken[OF sdoes_append]) (auto simp: traces_simps plain_op_def op_runs_simps event_defs)
  qed (use clause assms sdoes_if sdoes_while sdoes_for sdoes_return_stmt in \<open>simp_all add: buildStmtStep_def\<close>)
qed

lemma rec_sdoes_stmt: "rec_sdoes F buildStmt"
proof -
  have "lowerable F s \<longrightarrow> sdoes F (buildStmt s) (traces s) \<and> (is_clause s \<longrightarrow> does F (buildStmt s) {tr. traces s tr Falls} False)" for s
    by (rule buildStmt_rule) (simp_all add: sdoes_step does_clause rec_sdoes_def)
  then show ?thesis by (simp add: rec_sdoes_def)
qed

end
