(* ===== verification/IrRefines.thy ===== *)
theory IrRefines
  imports Pipeline IrWellformed IrTraceStmts
begin

text \<open>
  Lowering an accepted file: every function of the module has the name, the parameters and the
  result type of its declaration, and its blocks do exactly what its statements do.
\<close>

section \<open>Functions and modules\<close>

lemma function_lowered:
  assumes "list_all (lowerable (bd_functions st)) body"
  shows "wpB (buildFunction sp name ps rt bsp body) (\<lambda>f st'. block_does (traces_list body) (fn_body f)) st"
proof -
  let ?f = "\<lparr>fn_name = name, fn_parameters = [], fn_returnType = ir_typeFromSyntax rt, fn_span = sp,
            fn_locals = [], fn_body = Block_new bsp, fn_nextValueId = 0\<rparr>"
  let ?st0 = "st\<lparr>bd_currentFunction := Some ?f, bd_currentConst := None, bd_currentBlock := Some (Block_new bsp), bd_scopes := []\<rparr>"
  let ?m = "bindB ir_pushScope (\<lambda>_. bindB (traverseB buildParameter ps) (\<lambda>ps.
                bindB (buildBlockStatements buildStmt body) (\<lambda>_. bindB ir_popScope (\<lambda>_. returnB ps))))"
  let ?F = "bd_functions st"
  have "sdoes ?F ?m (traces_list body)"
    by (rule sdoes_after0[OF does_silent[OF silent_steps(3)]], rule sdoes_after0[OF does_silent[OF silent_parameters]],
        rule sdoes_then_silent[OF sdoes_block[OF rec_sdoes_stmt assms]], intro silent_bind silent_steps)
  from sdoesD[OF this, of ?st0 "Block_new bsp" "\<lambda>_ st'. \<forall>b. bd_currentBlock st' = Some b \<longrightarrow> block_does (traces_list body) b"]
  have "wpB ?m (\<lambda>_ st'. \<forall>b. bd_currentBlock st' = Some b \<longrightarrow> block_does (traces_list body) b) ?st0"
    by (simp add: ctx_def Block_new_def Terminator_none_def block_does_def)
  then show ?thesis unfolding wpB_def buildFunction_def Let_def
    by (cases "?m ?st0") (auto split: option.split)
qed

fun is_function :: "Item \<Rightarrow> bool" where
  "is_function (FunctionDecl sp name nsp ps rt bsp body) \<longleftrightarrow> True"
| "is_function (ConstDecl sp name nsp t init) \<longleftrightarrow> False"

fun implements :: "Item \<Rightarrow> IrFunction \<Rightarrow> bool" where
  "implements (FunctionDecl sp name nsp ps rt bsp body) f \<longleftrightarrow>
     same_header sp name ps rt f \<and> (\<forall>tr c. block_runs (fn_body f) tr c \<longleftrightarrow> traces_list body tr c)"
| "implements (ConstDecl sp name nsp t init) f \<longleftrightarrow> False"

fun item_lowerable :: "(string \<Rightarrow> IrSignature option) \<Rightarrow> Item \<Rightarrow> bool" where
  "item_lowerable F (FunctionDecl sp name nsp ps rt bsp body) \<longleftrightarrow> list_all (lowerable F) body"
| "item_lowerable F (ConstDecl sp name nsp t init) \<longleftrightarrow> True"

lemma items_lowered:
  "list_all (item_lowerable (bd_functions st)) is \<Longrightarrow>
     wpB (buildItems is m) (\<lambda>m' _. \<exists>new. md_functions m' = md_functions m @ new \<and>
       list_all2 implements (filter is_function is) new) st"
proof (induction "is" arbitrary: m st)
  case (Cons i "is")
  show ?case
  proof (cases i)
    case (ConstDecl sp name nsp t init)
    have "wpB (buildItems is (m\<lparr>md_constants := md_constants m @ [c]\<rparr>)) (\<lambda>m' _. \<exists>new. md_functions m' = md_functions m @ new \<and>
       list_all2 implements (filter is_function is) new) st'" if "tables_of st' = tables_of st" for c st'
      using Cons.IH[of st' "m\<lparr>md_constants := md_constants m @ [c]\<rparr>"] that Cons.prems by (simp add: tables_of_def)
    then show ?thesis unfolding ConstDecl buildItems.simps wpB_bind by (auto intro: wpB_mono[OF const_built])
  next
    case (FunctionDecl sp name nsp ps rt bsp body)
    have l: "list_all (lowerable (bd_functions st)) body" using Cons.prems FunctionDecl by simp
    have "wpB (buildItems is (m\<lparr>md_functions := md_functions m @ [f]\<rparr>)) (\<lambda>m' _. \<exists>new. md_functions m' = md_functions m @ new \<and>
       list_all2 implements (filter is_function (i # is)) new) st'"
      if "tables_of st' = tables_of st" "same_header sp name ps rt f" "block_does (traces_list body) (fn_body f)" for f st'
    proof (rule wpB_mono[OF Cons.IH[of st' "m\<lparr>md_functions := md_functions m @ [f]\<rparr>"]])
      show "list_all (item_lowerable (bd_functions st')) is" using that(1) Cons.prems by (simp add: tables_of_def)
    next
      fix m' st2 assume "\<exists>new. md_functions m' = md_functions (m\<lparr>md_functions := md_functions m @ [f]\<rparr>) @ new \<and>
        list_all2 implements (filter is_function is) new"
      then obtain new where "md_functions m' = md_functions m @ f # new" "list_all2 implements (filter is_function is) new" by auto
      then show "\<exists>new. md_functions m' = md_functions m @ new \<and> list_all2 implements (filter is_function (i # is)) new"
        using that by (intro exI[of _ "f # new"]) (simp add: FunctionDecl block_does_def)
    qed
    then show ?thesis unfolding FunctionDecl buildItems.simps wpB_bind
      by (auto intro: wpB_mono[OF wpB_conj[OF function_built function_lowered[OF l]]])
  qed
qed simp

abbreviation unit_functions :: "TranslationUnit \<Rightarrow> string \<Rightarrow> IrSignature option" where
  "unit_functions unit \<equiv> tb_functions (unit_tables unit)"

lemma module_lowered:
  assumes "list_all (item_lowerable (unit_functions unit)) unit"
  shows "wpR (buildTypedIr unit) (\<lambda>m. list_all2 implements (filter is_function unit) (md_functions m))"
proof -
  obtain st where st: "bindB ir_installBuiltins (\<lambda>_. collectTopLevelSymbols unit) TypedIrBuilder_new = Ok ((), st)"
    by (auto simp: bindB_def ir_installBuiltins_def collectTopLevelSymbols_def)
  have "bd_functions st = unit_functions unit" by (simp add: unit_tables_def st tables_of_def)
  from items_lowered[of st unit "\<lparr>md_constants = [], md_functions = []\<rparr>"] assms[folded this]
  have "wpB (buildItems unit \<lparr>md_constants = [], md_functions = []\<rparr>) (\<lambda>m' _. list_all2 implements (filter is_function unit) (md_functions m')) st"
    by simp
  moreover have "buildModule unit TypedIrBuilder_new = buildItems unit \<lparr>md_constants = [], md_functions = []\<rparr> st"
    using st by (auto simp: buildModule_def bindB_def ir_installBuiltins_def collectTopLevelSymbols_def)
  ultimately show ?thesis
    by (cases "buildItems unit \<lparr>md_constants = [], md_functions = []\<rparr> st") (auto simp: wpB_def buildTypedIr_def)
qed

section \<open>Accepted files\<close>

text \<open>The two tables of functions agree on accepted files.\<close>

definition same_arities :: "(string \<Rightarrow> signature option) \<Rightarrow> (string \<Rightarrow> IrSignature option) \<Rightarrow> bool" where
  "same_arities E F \<longleftrightarrow> (\<forall>f s. E f = Some s \<longrightarrow> (\<exists>s'. F f = Some s' \<and> length (is_parameterTypes s') = length (sg_parameters s) \<and>
     is_isBuiltin s' = sg_builtin s))"

lemma same_aritiesD:
  "E f = Some s \<Longrightarrow> same_arities E F \<Longrightarrow> \<exists>s'. F f = Some s' \<and> length (is_parameterTypes s') = length (sg_parameters s) \<and>
     is_isBuiltin s' = sg_builtin s"
  by (simp add: same_arities_def)

lemma arities_strip_const: "arities F (stripParensConst e) = arities F e"
  by (induction e rule: stripParensConst.induct) simp_all

lemma typed_arities: "typed \<Gamma> e t \<Longrightarrow> same_arities (en_functions \<Gamma>) F \<Longrightarrow> arities F e"
proof (induction rule: typed.induct)
  case (t_address e nsp x b sp)
  then show ?case using arities_strip_const[of F e] by simp
qed (auto dest!: same_aritiesD simp: list_all_iff list_all2_conv_all_nth in_set_conv_nth is_print_def isPrintName_def split: option.split)

lemma checks_functions:
  "checks \<rho> \<Gamma> s \<Gamma>' \<Longrightarrow> en_functions \<Gamma>' = en_functions \<Gamma>"
  "checks_list \<rho> \<Gamma> ss \<Gamma>' \<Longrightarrow> en_functions \<Gamma>' = en_functions \<Gamma>"
  "checks_opt \<rho> \<Gamma> so \<Gamma>' \<Longrightarrow> en_functions \<Gamma>' = en_functions \<Gamma>"
  by (induction rule: checks_checks_list_checks_opt.inducts)
    (auto simp: enter_def leave_def bind_local_def split: list.split)

text \<open>The parser builds \<open>for\<close> statements from clauses.\<close>

fun for_clauses :: "Stmt \<Rightarrow> bool" where
  "for_clauses (BlockStmt sp ss) \<longleftrightarrow> list_all for_clauses ss"
| "for_clauses (IfStmt sp e t el) \<longleftrightarrow> pred_option for_clauses t \<and> pred_option for_clauses el"
| "for_clauses (WhileStmt sp e body) \<longleftrightarrow> pred_option for_clauses body"
| "for_clauses (ForStmt sp init e inc body) \<longleftrightarrow> pred_option is_clause init \<and> pred_option is_clause inc \<and> pred_option for_clauses body"
| "for_clauses _ \<longleftrightarrow> True"

lemma clause_clauses: "is_clause s \<Longrightarrow> for_clauses s"
  by (cases s) auto

lemma step_spells_clause: "step_spells so w \<Longrightarrow> pred_option is_clause so"
  by (cases "(so, w)" rule: step_spells.cases) auto

lemma init_spells_clause: "init_spells so w \<Longrightarrow> pred_option is_clause so"
  by (auto simp: init_spells_def split: option.splits elim: expression_stmt.elims is_let.elims)

lemma spells_clauses:
  "stmt_spells s w \<Longrightarrow> for_clauses s" "block_spells ss w' \<Longrightarrow> list_all for_clauses ss"
proof (induction rule: stmt_spells_block_spells.inducts)
  case (spells_simple s w)
  then show ?case by (cases s) auto
qed (auto dest: init_spells_clause step_spells_clause)

lemma checks_lowerable:
  "checks \<rho> \<Gamma> s \<Gamma>' \<Longrightarrow> same_arities (en_functions \<Gamma>) F \<Longrightarrow> for_clauses s \<Longrightarrow> lowerable F s"
  "checks_list \<rho> \<Gamma> ss \<Gamma>' \<Longrightarrow> same_arities (en_functions \<Gamma>) F \<Longrightarrow> list_all for_clauses ss \<Longrightarrow> list_all (lowerable F) ss"
  "checks_opt \<rho> \<Gamma> so \<Gamma>' \<Longrightarrow> same_arities (en_functions \<Gamma>) F \<Longrightarrow> pred_option for_clauses so \<Longrightarrow> pred_option (lowerable F) so"
proof (induction rule: checks_checks_list_checks_opt.inducts)
  case (c_assign_element isp base i chain \<Gamma> b t v sp)
  then show ?case using typed_arities by (simp del: arities.simps)
next
  case (c_for \<Gamma> init \<Gamma>1 c s \<Gamma>2 inc \<Gamma>3 sp)
  have f: "en_functions \<Gamma>1 = en_functions \<Gamma>" "en_functions \<Gamma>2 = en_functions \<Gamma>"
    using checks_functions(3)[OF \<open>checks_opt \<rho> (enter \<Gamma>) init \<Gamma>1\<close>] checks_functions(1)[OF \<open>checks \<rho> \<Gamma>1 s \<Gamma>2\<close>] by (simp_all add: enter_def)
  have cl: "pred_option for_clauses init" "pred_option for_clauses inc"
    using c_for.prems(2) clause_clauses by (auto simp: option.pred_set)
  have "pred_option (arities F) c" using c_for.hyps typed_arities f c_for.prems(1) by (auto split: option.splits)
  then show ?case using c_for f cl by (simp add: enter_def)
qed (auto simp: enter_def bind_local_def option.pred_set split: list.splits dest: typed_arities checks_functions)

lemma parameters_functions: "en_functions (parameters_env \<Gamma> ps) = en_functions \<Gamma>"
proof -
  have "en_functions (foldl (\<lambda>\<Gamma> p. bind_local \<Gamma> (pr_name p) (parameter_type p) False) \<Gamma>' ps) = en_functions \<Gamma>'" for \<Gamma>'
    by (induction ps arbitrary: \<Gamma>') (simp_all add: bind_local_def split: list.split)
  then show ?thesis by (simp add: parameters_env_def enter_def)
qed

lemma collected_others:
  "\<forall>i\<in>set is. is_function i \<longrightarrow> item_name i \<noteq> name \<Longrightarrow> bd_functions (foldl (\<lambda>st i. collectTopLevelSymbol i st) st is) name = bd_functions st name"
proof (induction "is" arbitrary: st)
  case (Cons i "is")
  then show ?case by (cases i) auto
qed simp

lemma collected_function:
  "distinct (map item_name is) \<Longrightarrow> FunctionDecl sp name nsp ps rt bsp body \<in> set is \<Longrightarrow>
     bd_functions (foldl (\<lambda>st i. collectTopLevelSymbol i st) st is) name =
       Some \<lparr>is_parameterTypes = map (\<lambda>p. ir_typeFromSyntax (pr_type p)) ps, is_returnType = ir_typeFromSyntax rt, is_isBuiltin = False\<rparr>"
proof (induction "is" arbitrary: st)
  case (Cons i "is")
  show ?case
  proof (cases "i = FunctionDecl sp name nsp ps rt bsp body")
    case True
    have "\<forall>i\<in>set is. is_function i \<longrightarrow> item_name i \<noteq> name" using Cons.prems(1) True by force
    then show ?thesis by (simp add: True collected_others)
  next
    case False
    then show ?thesis using Cons by simp
  qed
qed simp

lemma collected_tables:
  "unit_functions unit = bd_functions (foldl (\<lambda>st i. collectTopLevelSymbol i st)
     (TypedIrBuilder_new\<lparr>bd_functions := foldl (\<lambda>m (name, f). m(name \<mapsto> f)) (bd_functions TypedIrBuilder_new) ir_builtins\<rparr>) unit)"
  by (simp add: unit_tables_def bindB_def ir_installBuiltins_def collectTopLevelSymbols_def tables_of_def)

lemma item_signature_iff:
  "item_signature i = Some (f, s) \<longleftrightarrow> (\<exists>sp nsp ps rt bsp body. i = FunctionDecl sp f nsp ps rt bsp body \<and>
     s = \<lparr>sg_parameters = map parameter_type ps, sg_return = typeFromSyntax rt, sg_builtin = False\<rparr>)"
  by (cases i) auto

lemma builtins_agree:
  "builtin_signature f = Some s \<Longrightarrow> \<exists>s'. foldl (\<lambda>m (name, f). m(name \<mapsto> f)) (\<lambda>_. None) ir_builtins f = Some s' \<and>
     length (is_parameterTypes s') = length (sg_parameters s) \<and> is_isBuiltin s' = sg_builtin s"
  by (auto simp: builtin_signature_def builtinTable_def builtinFunction_def ir_builtins_def Let_def split: if_splits)

lemma unit_tables_same:
  assumes "unit_typed unit" shows "same_arities (en_functions (unit_env unit)) (unit_functions unit)"
  unfolding same_arities_def
proof (intro allI impI)
  fix f s assume s: "en_functions (unit_env unit) f = Some s"
  have d: "distinct (map item_name unit)" and t: "list_all (item_typed (unit_env unit)) unit"
    using assms by (auto simp: unit_typed_def)
  show "\<exists>s'. unit_functions unit f = Some s' \<and> length (is_parameterTypes s') = length (sg_parameters s) \<and> is_isBuiltin s' = sg_builtin s"
  proof (cases "builtin_signature f")
    case (Some b)
    have "\<forall>i\<in>set unit. is_function i \<longrightarrow> item_name i \<noteq> f"
    proof (intro ballI impI)
      fix i assume i: "i \<in> set unit" "is_function i"
      have "item_typed (unit_env unit) i" using t i(1) by (simp add: list_all_iff)
      then show "item_name i \<noteq> f" using i(2) Some by (cases i) auto
    qed
    then have "unit_functions unit f = foldl (\<lambda>m (name, f). m(name \<mapsto> f)) (\<lambda>_. None) ir_builtins f"
      by (simp add: collected_tables collected_others TypedIrBuilder_new_def)
    moreover have "s = b" using s Some by (simp add: unit_env_def)
    ultimately show ?thesis using builtins_agree[OF Some] by simp
  next
    case None
    then have "map_of (List.map_filter item_signature unit) f = Some s" using s by (simp add: unit_env_def)
    then have "(f, s) \<in> set (List.map_filter item_signature unit)" by (rule map_of_SomeD)
    then obtain sp nsp ps rt bsp body where i: "FunctionDecl sp f nsp ps rt bsp body \<in> set unit"
      "s = \<lparr>sg_parameters = map parameter_type ps, sg_return = typeFromSyntax rt, sg_builtin = False\<rparr>"
      by (auto simp: List.map_filter_def item_signature_iff)
    show ?thesis unfolding collected_tables collected_function[OF d i(1)] by (simp add: i(2))
  qed
qed

lemma accepted_lowerable:
  assumes "accepted src = Some unit" "unit_typed unit" shows "list_all (item_lowerable (unit_functions unit)) unit"
proof -
  obtain bag st where p: "parseSource src DiagnosticBag_new = Ok (unit, bag)" "\<not> hasErrors bag"
    using accepted_run[OF assms(1)] by blast
  obtain ws where ws: "list_all2 item_spells unit ws" using parseSource_spells[OF p] by (auto simp: items_spell_def)
  have cl: "for_clauses (BlockStmt bsp body)" if "FunctionDecl sp name nsp ps rt bsp body \<in> set unit" for sp name nsp ps rt bsp body
    using that ws spells_clauses(2) by (auto simp: list_all2_conv_all_nth in_set_conv_nth) (metis item_spells.simps(1))
  show ?thesis unfolding list_all_iff
  proof
    fix i assume i: "i \<in> set unit"
    show "item_lowerable (unit_functions unit) i"
    proof (cases i)
      case (FunctionDecl sp name nsp ps rt bsp body)
      obtain \<Gamma> where "checks (typeFromSyntax rt) (parameters_env (unit_env unit) ps) (BlockStmt bsp body) \<Gamma>"
        using assms(2) i FunctionDecl unfolding unit_typed_def list_all_iff by (metis item_typed.simps(1))
      moreover have "en_functions (parameters_env (unit_env unit) ps) = en_functions (unit_env unit)"
        by (rule parameters_functions)
      ultimately show ?thesis
        using checks_lowerable(1) unit_tables_same[OF assms(2)] cl i FunctionDecl by fastforce
    qed simp
  qed
qed

section \<open>Properties\<close>


lemma checked_unit_built: "\<exists>m. buildTypedIr checked_unit = Ok m \<and> length (md_functions m) = 1"
proof -
  have "case buildTypedIr checked_unit of Ok m \<Rightarrow> length (md_functions m) = 1 | _ \<Rightarrow> False" by code_simp
  then show ?thesis by (simp split: result.splits)
qed


text \<open>Forgetting the events gives the executions of \<open>ReturnPaths\<close>.\<close>

lemma traces_runs:
  "traces s tr c \<Longrightarrow> runs s c"
  "traces_list ss tr' c' \<Longrightarrow> runs_list ss c'"
  "loop_traces e body inc tr'' c'' \<Longrightarrow> loops body inc c''"
  by (induction rule: traces_traces_list_loop_traces.inducts) (auto intro: runs_runs_list_loops.intros)

text \<open>C4: no function of the module lowered from an accepted file runs past its last block unless it
  returns nothing, and none is left by a stray \<open>break\<close> or \<open>continue\<close>.\<close>

theorem lowered_functions_end:
  assumes "accepted src = Some unit" "buildTypedIr unit = Ok m"
  shows "\<forall>f\<in>set (md_functions m). \<forall>tr c. block_runs (fn_body f) tr c \<longrightarrow>
     c = Returns \<or> c = Falls \<and> IrType_isVoid (fn_returnType f)"
proof (intro ballI allI impI)
  fix f tr c assume f: "f \<in> set (md_functions m)" and r: "block_runs (fn_body f) tr c"
  have "list_all2 implements (filter is_function unit) (md_functions m)"
    using module_lowered[OF accepted_lowerable[OF assms(1) accepted_typed[OF assms(1)]]] assms(2) by simp
  then obtain i where i: "i \<in> set unit" "implements i f"
    using f by (auto simp: list_all2_conv_all_nth in_set_conv_nth[of f]) (metis filter_is_subset nth_mem subsetD)
  obtain sp name nsp ps rt bsp body where d: "i = FunctionDecl sp name nsp ps rt bsp body" using i(2) by (auto elim: implements.elims)
  have "ends_well i" using accepted_ends_well[OF assms(1)] i(1) by (simp add: list_all_iff)
  moreover have "runs_list body c" using r i(2) traces_runs(2) by (auto simp: d)
  ultimately have "c = Returns \<or> c = Falls \<and> Type_isVoid (typeFromSyntax rt)" by (simp add: ends_well_def d)
  moreover have "fn_returnType f = ir_typeFromSyntax rt" using i(2) by (simp add: d same_header_def)
  moreover have "IrType_isVoid (ir_typeFromSyntax rt) = Type_isVoid (typeFromSyntax rt)"
    by (simp add: IrType_isVoid_def Type_isVoid_def ir_typeFromSyntax_def typeFromSyntax_def mk_type_def)
  ultimately show "c = Returns \<or> c = Falls \<and> IrType_isVoid (fn_returnType f)" by simp
qed

lemma lowered_functions_end_witness:
  "\<exists>m. accepted checked_source = Some checked_unit \<and> buildTypedIr checked_unit = Ok m \<and> length (md_functions m) = 1 \<and>
     (\<forall>f\<in>set (md_functions m). \<forall>tr c. block_runs (fn_body f) tr c \<longrightarrow> c = Returns \<or> c = Falls \<and> IrType_isVoid (fn_returnType f))"
  using checked_unit_built checked_source_accepted lowered_functions_end by blast

end
