(* ===== verification/IrDump.thy ===== *)
theory IrDump
  imports Ir
begin

text \<open>
  \<open>src/ir/dump.cpp\<close>: the text of a module for \<open>--dump-ir\<close>. A method of \<open>ModuleDumper\<close> is a
  function of the indentation to the text it writes; an operation whose payload is not the one
  its kind promises makes it throw, and what was written before is not modelled.
\<close>

section \<open>Helpers\<close>

definition ir_line :: "nat \<Rightarrow> string \<Rightarrow> string" where
  "ir_line indent s = replicate indent (CHR '' '') @ s @ [CHR 0x0A]"

fun joinR :: "string result list \<Rightarrow> string result" where
  "joinR [] = Ok []"
| "joinR (m # ms) = bindR m (\<lambda>s. bindR (joinR ms) (\<lambda>t. Ok (s @ t)))"

definition requiredValue :: "ValueRef option \<Rightarrow> ValueRef result" where
  "requiredValue v =
     (case v of None \<Rightarrow> Throw (LogicError ''typed IR dump expected a value'') | Some v \<Rightarrow> Ok v)"

text \<open>\<open>valueName(requiredValue(v))\<close>.\<close>

definition requiredName :: "ValueRef option \<Rightarrow> string result" where
  "requiredName v = bindR (requiredValue v) (\<lambda>v. Ok (valueName v))"

text \<open>One line, put together from pieces that may throw.\<close>

definition lineR :: "nat \<Rightarrow> string result list \<Rightarrow> string result" where
  "lineR indent parts = bindR (joinR parts) (\<lambda>s. Ok (ir_line indent s))"

definition resultPrefix :: "OperationData \<Rightarrow> string result" where
  "resultPrefix d =
     bindR (requiredValue (od_result d)) (\<lambda>v. Ok (valueName v @ '': '' @ ir_typeName (vr_type v) @ '' = ''))"

definition argumentNames :: "ValueRef list \<Rightarrow> string" where
  "argumentNames args =
     (case args of [] \<Rightarrow> [] | a # as \<Rightarrow> valueName a @ concat (map (\<lambda>v. '', '' @ valueName v) as))"

section \<open>Operations\<close>

text \<open>The operations that are one line.\<close>

definition dumpCall :: "nat \<Rightarrow> OperationData \<Rightarrow> string result" where
  "dumpCall n d =
     lineR n [if od_result d \<noteq> None then resultPrefix d else Ok [],
       Ok (''Call '' @ callableName (od_text d) (od_isBuiltin d) @ ''('' @ argumentNames (od_arguments d) @ '')'')]"

definition dumpPlain :: "nat \<Rightarrow> OperationData \<Rightarrow> string result" where
  "dumpPlain n d =
     (case od_kind d of
        Op_IntegerLiteral \<Rightarrow> lineR n [resultPrefix d, Ok (''IntegerLiteral '' @ od_text d)]
      | Op_FloatLiteral \<Rightarrow> lineR n [resultPrefix d, Ok (''FloatLiteral '' @ od_text d)]
      | Op_BoolLiteral \<Rightarrow> lineR n [resultPrefix d, Ok (''BoolLiteral '' @ (if od_boolValue d then ''true'' else ''false''))]
      | Op_StringLiteral \<Rightarrow> lineR n [resultPrefix d, Ok (''StringLiteral '' @ od_text d)]
      | Op_LoadLocal \<Rightarrow> lineR n [resultPrefix d, Ok (''LoadLocal '' @ localName (od_local d))]
      | Op_LoadConst \<Rightarrow> lineR n [resultPrefix d, Ok (''LoadConst '' @ callableName (od_text d) False)]
      | Op_Unary \<Rightarrow>
          lineR n [resultPrefix d, Ok (''Unary '' @ tokenKindName (od_op d) @ '' ''), requiredName (od_value d)]
      | Op_Binary \<Rightarrow>
          lineR n [resultPrefix d, Ok (''Binary '' @ tokenKindName (od_op d) @ '' ''), requiredName (od_left d), Ok '', '',
            requiredName (od_right d)]
      | Op_Call \<Rightarrow> dumpCall n d
      | Op_DeclareLocal \<Rightarrow>
          lineR n [Ok (''DeclareLocal '' @ localName (od_local d) @ (if od_isMutable d then '' mutable'' else [])),
            if od_value d \<noteq> None then joinR [Ok '' = '', requiredName (od_value d)] else Ok '' (uninitialized)'']
      | Op_StoreLocal \<Rightarrow> lineR n [Ok (''StoreLocal '' @ localName (od_local d) @ '' = ''), requiredName (od_value d)]
      | Op_ArrayLiteral \<Rightarrow> lineR n [resultPrefix d, Ok (''ArrayLiteral'' @ argumentNames (od_arguments d))]
      | Op_IndexLoad \<Rightarrow>
          lineR n [resultPrefix d, Ok ''IndexLoad '', requiredName (od_left d), Ok ''['', requiredName (od_right d), Ok '']'']
      | Op_IndexStore \<Rightarrow>
          lineR n [Ok ''IndexStore '', requiredName (od_left d), Ok ''['', requiredName (od_right d), Ok ''] = '',
            requiredName (od_value d)]
      | Op_AddressOfLocal \<Rightarrow> lineR n [resultPrefix d, Ok (''AddressOfLocal '' @ localName (od_local d))]
      | Op_PointerLoad \<Rightarrow> lineR n [resultPrefix d, Ok ''PointerLoad '', requiredName (od_value d)]
      | Op_PointerStore \<Rightarrow>
          lineR n [Ok ''PointerStore '', requiredName (od_left d), Ok '' = '', requiredName (od_value d)]
      | Op_Break \<Rightarrow> lineR n [Ok ''Break'']
      | Op_Continue \<Rightarrow> lineR n [Ok ''Continue'']
      | _ \<Rightarrow> Throw (LogicError ''typed IR dump encountered an invalid operation''))"

definition dumpTerminator :: "nat \<Rightarrow> Terminator \<Rightarrow> string result" where
  "dumpTerminator n t =
     (case tm_kind t of
        Term_None \<Rightarrow> Ok []
      | Term_Return \<Rightarrow> lineR n [Ok ''Return'']
      | Term_ReturnValue \<Rightarrow> lineR n [Ok ''ReturnValue '', requiredName (tm_value t)]
      | Term_ConditionValue \<Rightarrow> lineR n [Ok ''ConditionValue '', requiredName (tm_value t)]
      | Term_InitValue \<Rightarrow> lineR n [Ok ''InitValue '', requiredName (tm_value t)])"

text \<open>A child block under its heading.\<close>

definition child :: "nat \<Rightarrow> string \<Rightarrow> (nat \<Rightarrow> 'b \<Rightarrow> string result) \<Rightarrow> 'b option \<Rightarrow> string result" where
  "child n heading dump b =
     joinR [Ok (ir_line n heading),
       case b of None \<Rightarrow> Throw (LogicError ''typed IR dump expected a block'') | Some b \<Rightarrow> dump (n + 2) b]"

definition optionalChild :: "nat \<Rightarrow> string \<Rightarrow> (nat \<Rightarrow> 'b \<Rightarrow> string result) \<Rightarrow> 'b option \<Rightarrow> string result" where
  "optionalChild n heading dump b = (case b of None \<Rightarrow> Ok [] | Some _ \<Rightarrow> child n heading dump b)"

lemma child_cong [fundef_cong]:
  assumes "n = n'" "heading = heading'" "b = b'" "\<And>m x. b' = Some x \<Longrightarrow> dump m x = dump' m x"
  shows "child n heading dump b = child n' heading' dump' b'"
  using assms by (auto simp: child_def split: option.splits)

lemma optionalChild_cong [fundef_cong]:
  assumes "n = n'" "heading = heading'" "b = b'" "\<And>m x. b' = Some x \<Longrightarrow> dump m x = dump' m x"
  shows "optionalChild n heading dump b = optionalChild n' heading' dump' b'"
  using assms by (auto simp: child_def optionalChild_def split: option.splits)

fun dumpOperation :: "nat \<Rightarrow> Operation \<Rightarrow> string result"
  and dumpBlock :: "nat \<Rightarrow> Block \<Rightarrow> string result"
where
  "dumpOperation n (Operation d c t e b s) =
     (if od_kind d = Op_ShortCircuitAnd \<or> od_kind d = Op_ShortCircuitOr then
        joinR [lineR n [resultPrefix d,
                 Ok (if od_kind d = Op_ShortCircuitAnd then ''ShortCircuitAnd '' else ''ShortCircuitOr ''),
                 requiredName (od_left d)],
               child (n + 2) ''Then'' dumpBlock t, child (n + 2) ''Else'' dumpBlock e]
      else if od_kind d = Op_If then
        joinR [lineR n [Ok ''If '', requiredName (od_condition d)],
               child (n + 2) ''Then'' dumpBlock t, optionalChild (n + 2) ''Else'' dumpBlock e]
      else if od_kind d = Op_While then
        joinR [Ok (ir_line n ''While''),
               child (n + 2) ''Condition'' dumpBlock c, child (n + 2) ''Body'' dumpBlock b,
               optionalChild (n + 2) ''Step'' dumpBlock s]
      else dumpPlain n d)"
| "dumpBlock n (Block sp ops t) =
     joinR [Ok (ir_line n ''Block''), joinR (map (dumpOperation (n + 2)) ops), dumpTerminator (n + 2) t]"

section \<open>Modules\<close>

definition dumpConst :: "nat \<Rightarrow> IrConst \<Rightarrow> string result" where
  "dumpConst n c =
     joinR [Ok (ir_line n (''Const '' @ callableName (ic_name c) False @ '': '' @ ir_typeName (ic_type c))),
       dumpBlock (n + 2) (ic_initializer c)]"

definition localLine :: "Local \<Rightarrow> string" where
  "localLine l =
     localName (lo_ref l) @ '' '' @ lo_name l @ '': '' @ ir_typeName (lo_type l) @
     (if lo_kind l = Local_Parameter then '' parameter'' else if lo_isMutable l then '' mutable'' else [])"

definition dumpLocals :: "nat \<Rightarrow> IrFunction \<Rightarrow> string" where
  "dumpLocals n f =
     (if fn_locals f = [] then []
      else ir_line n ''Locals'' @ concat (map (\<lambda>l. ir_line (n + 2) (localLine l)) (fn_locals f)))"

definition parameterText :: "Parameter \<Rightarrow> string" where
  "parameterText p = localName (pa_local p) @ '' '' @ pa_name p @ '': '' @ ir_typeName (pa_type p)"

definition functionHeader :: "IrFunction \<Rightarrow> string" where
  "functionHeader f =
     ''Function '' @ callableName (fn_name f) False @ ''('' @
     (case map parameterText (fn_parameters f) of [] \<Rightarrow> [] | p # ps \<Rightarrow> p @ concat (map (\<lambda>t. '', '' @ t) ps)) @
     '') -> '' @ ir_typeName (fn_returnType f)"

definition dumpFunction :: "nat \<Rightarrow> IrFunction \<Rightarrow> string result" where
  "dumpFunction n f =
     joinR [Ok (ir_line n (functionHeader f)), Ok (dumpLocals (n + 2) f), dumpBlock (n + 2) (fn_body f)]"

definition dumpModule :: "Module \<Rightarrow> string result" where
  "dumpModule m =
     joinR [Ok (ir_line 0 ''Module''), joinR (map (dumpConst 2) (md_constants m)),
       joinR (map (dumpFunction 2) (md_functions m))]"

end
