(* ===== verification/IrDumpProps.thy ===== *)
theory IrDumpProps
  imports IrDump IrWellformed
begin

text \<open>
  The dump of a module that the builder returned: the payload checks of \<open>dump.cpp\<close> never fail.
\<close>

section \<open>Defined pieces\<close>

definition prints :: "string result \<Rightarrow> bool" where
  "prints m \<longleftrightarrow> (\<exists>s. m = Ok s)"

lemma prints_Ok [simp]: "prints (Ok s)" "\<not> prints (Throw e)"
  by (simp_all add: prints_def)

lemma prints_join [simp]: "prints (joinR ms) \<longleftrightarrow> list_all prints ms"
  by (induction ms) (auto simp: prints_def bindR_eq_Ok)

declare joinR.simps [simp del]

lemma prints_line [simp]: "prints (lineR n ms) \<longleftrightarrow> list_all prints ms"
  using prints_join[of ms] by (auto simp: lineR_def prints_def bindR_eq_Ok)

lemma prints_required [simp]: "prints (requiredName v) \<longleftrightarrow> v \<noteq> None" "prints (resultPrefix d) \<longleftrightarrow> od_result d \<noteq> None"
  by (auto simp: requiredName_def resultPrefix_def requiredValue_def prints_def split: option.split)

lemma prints_plain:
  assumes "payload_ok d" "od_kind d \<notin> {Op_ShortCircuitAnd, Op_ShortCircuitOr, Op_If, Op_While}"
  shows "prints (dumpPlain n d)"
  using assms by (cases "od_kind d") (auto simp: dumpPlain_def dumpCall_def payload_ok_def valueKinds_def)

lemma prints_terminator: "terminator_ok ops t \<Longrightarrow> prints (dumpTerminator n t)"
  by (cases "tm_kind t") (auto simp: dumpTerminator_def terminator_ok_def)

lemma prints_child:
  "prints (child n s f b) \<longleftrightarrow> (case b of None \<Rightarrow> False | Some b \<Rightarrow> prints (f (n + 2) b))"
  "prints (optionalChild n s f b) \<longleftrightarrow> (case b of None \<Rightarrow> True | Some b \<Rightarrow> prints (f (n + 2) b))"
  by (auto simp: child_def optionalChild_def split: option.split)

lemma prints_block:
  "op_ok T ls op \<Longrightarrow> prints (dumpOperation n op)" "block_ok T ls b \<Longrightarrow> prints (dumpBlock n b)"
proof (induction T ls op and T ls b arbitrary: n and n rule: op_ok_block_ok.induct)
  case (1 T ls d c t e b s)
  from 1(2) have p: "payload_ok d" and bl: "blocks_ok (od_kind d) c t e b s" by simp_all
  have r: "prints (dumpBlock n x)" if "c = Some x \<or> t = Some x \<or> e = Some x \<or> b = Some x \<or> s = Some x" for x n
  proof -
    have x: "x \<in> set (optional c @ optional t @ optional e @ optional b @ optional s)"
      using that by (simp only: set_append Un_iff in_optional)
    have l: "list_all (block_ok T ls) (optional c @ optional t @ optional e @ optional b @ optional s)"
      using 1(2) by (simp only: op_ok.simps)
    have "block_ok T ls x" using l x unfolding list_all_iff by (rule bspec)
    then show ?thesis by (rule 1(1)[OF x])
  qed
  consider "od_kind d \<in> {Op_ShortCircuitAnd, Op_ShortCircuitOr}" | "od_kind d = Op_If" | "od_kind d = Op_While"
    | "od_kind d \<notin> {Op_ShortCircuitAnd, Op_ShortCircuitOr, Op_If, Op_While}" by blast
  then show ?case
  proof cases
    case 1
    then obtain x y where te: "t = Some x" "e = Some y" using bl by (auto simp: blocks_ok_def arm_ok_def split: option.splits)
    have "prints (dumpBlock m x)" "prints (dumpBlock m y)" for m using r te by blast+
    moreover have "od_kind d = Op_ShortCircuitAnd \<or> od_kind d = Op_ShortCircuitOr" using 1 by simp
    then have "od_result d \<noteq> None \<and> od_left d \<noteq> None"
      by (elim disjE) (use p in \<open>simp_all add: payload_ok_def valueKinds_def\<close>)
    ultimately show ?thesis using 1 te by (simp add: prints_child)
  next
    case 2
    then obtain x where t: "t = Some x" using bl by (auto simp: blocks_ok_def)
    have "prints (dumpBlock m x)" "e = Some y \<Longrightarrow> prints (dumpBlock m y)" for m y using r t by blast+
    moreover have "od_condition d \<noteq> None" using 2 p by (simp add: payload_ok_def)
    ultimately show ?thesis using 2 t by (simp add: prints_child split: option.split)
  next
    case 3
    then obtain x y where cb: "c = Some x" "b = Some y" using bl by (auto simp: blocks_ok_def condition_ok_def split: option.splits)
    have "prints (dumpBlock m x)" "prints (dumpBlock m y)" "s = Some z \<Longrightarrow> prints (dumpBlock m z)" for m z using r cb by blast+
    then show ?thesis using 3 cb by (simp add: prints_child split: option.split)
  next
    case 4
    then show ?thesis using prints_plain[OF p] by simp
  qed
next
  case (2 T ls sp ops t)
  then show ?case by (auto simp: list_all_iff prints_terminator)
qed

lemma prints_module: "module_ok T m \<Longrightarrow> prints (dumpModule m)"
  by (auto simp: module_ok_def dumpModule_def dumpConst_def dumpFunction_def const_ok_def function_ok_def list_all_iff
    intro: prints_block)

section \<open>Properties\<close>

definition sample_unit :: TranslationUnit where
  "sample_unit =
     (let sp = mk_span 0 0; t = \<lparr>ts_kind = Bool, ts_arrayDimensions = [], ts_pointerDepth = 0, ts_span = sp\<rparr>;
          x = NameExpr sp ''x''; y = NameExpr sp ''y''
      in [ConstDecl sp ''k'' sp t (BoolLiteralExpr sp True),
          FunctionDecl sp ''f'' sp [\<lparr>pr_name = ''x'', pr_nameSpan = sp, pr_type = t, pr_span = sp\<rparr>] t sp
            [LetStmt sp True ''y'' sp (t\<lparr>ts_kind := Invalid\<rparr>) (Some (BinaryExpr sp x AmpAmp (NameExpr sp ''k''))),
             WhileStmt sp y (Some (BlockStmt sp [AssignStmt sp y (CallExpr sp (NameExpr sp ''f'') [BoolLiteralExpr sp False])])),
             ReturnStmt sp (Some (UnaryExpr sp Bang y))]])"

lemma sample_builds: "\<exists>m. buildTypedIr sample_unit = Ok m \<and> length (md_functions m) = 1 \<and> length (md_constants m) = 1"
proof -
  have "case buildTypedIr sample_unit of Ok m \<Rightarrow> length (md_functions m) = 1 \<and> length (md_constants m) = 1 | _ \<Rightarrow> False"
    by code_simp
  then show ?thesis by (simp split: result.splits)
qed

text \<open>C3: a module that the builder returns is well formed: every operation has exactly the payload of its kind,
  every result the type that the operation computes, every operand is the result of an earlier operation of the
  same block, the value identifiers of a body are \<open>0, 1, 2, \<dots>\<close> each used once, and loads, constants and callees
  name slots, constants and functions that exist with that type.\<close>

theorem buildTypedIr_wellformed:
  assumes "buildTypedIr unit = Ok m"
  shows "module_ok (unit_tables unit) m"
  using module_built[of unit] assms by simp

lemma buildTypedIr_wellformed_witness:
  "\<exists>m. buildTypedIr sample_unit = Ok m \<and> length (md_functions m) = 1 \<and> module_ok (unit_tables sample_unit) m"
  using sample_builds buildTypedIr_wellformed by blast

text \<open>C15: the dump of a module that the builder returned is always defined: none of the checks in the dumper fails.\<close>

theorem dumpModule_defined:
  assumes "buildTypedIr unit = Ok m"
  shows "\<exists>s. dumpModule m = Ok s"
  using module_built[of unit] assms prints_module[of "unit_tables unit" m] by (simp add: prints_def)

lemma dumpModule_defined_witness:
  "\<exists>m s. buildTypedIr sample_unit = Ok m \<and> dumpModule m = Ok s"
  using sample_builds dumpModule_defined by blast

end
