(* ===== verification/StringDecodeProps.thy ===== *)
theory StringDecodeProps
  imports StringDecode
begin

text \<open>
  String literals and format strings against their grammars: decoding undoes escaping, every
  literal the lexer accepts decodes, and a format string is accepted exactly when it is literal
  text without an open brace interleaved with well-formed placeholders.
\<close>

section \<open>Escapes\<close>

text \<open>The reference: structural recursion over the bytes between the quotes.\<close>

fun unescape :: "string \<Rightarrow> string option" where
  "unescape [] = Some []"
| "unescape [c] = (if c = backslash then None else Some [c])"
| "unescape (c # e # s) =
     (if c = backslash
      then (case escapeChar e of None \<Rightarrow> None | Some x \<Rightarrow> map_option ((#) x) (unescape s))
      else map_option ((#) c) (unescape (e # s)))"

definition escape_of :: "char \<Rightarrow> string" where
  "escape_of c =
     (if c = dquote then [backslash, dquote] else if c = backslash then [backslash, backslash]
      else if c = newline then [backslash, CHR ''n''] else if c = CHR 0x09 then [backslash, CHR ''t'']
      else if c = CHR 0x0D then [backslash, CHR ''r''] else [c])"

definition quoted :: "string \<Rightarrow> string" where
  "quoted b = dquote # b @ [dquote]"

lemma quoted_nth:
  "i < length b \<Longrightarrow> quoted b ! Suc i = b ! i"
  "length (quoted b) = length b + 2"
  by (simp_all add: quoted_def nth_append)

lemma decodeLoop_unescape:
  "case unescape (drop i b) of
     Some s \<Rightarrow> decodeLoop (quoted b) (Suc i) out = Inr (out @ s)
   | None \<Rightarrow> \<exists>e. decodeLoop (quoted b) (Suc i) out = Inl e"
proof (induction "length b - i" arbitrary: i out rule: less_induct)
  case less
  show ?case
  proof (cases "i < length b")
    case False
    then show ?thesis by (subst decodeLoop.simps) (simp add: quoted_nth)
  next
    case True
    show ?thesis
    proof (cases "b ! i = backslash")
      case False
      have "unescape (drop i b) = map_option ((#) (b ! i)) (unescape (drop (Suc i) b))"
        using True False by (cases "drop (Suc i) b") (simp_all add: nth_drop_Cons)
      then show ?thesis
        using True False less[of "Suc i" "out @ [b ! i]"] decodeLoop.simps[of "quoted b" "Suc i" out]
        by (auto simp: quoted_nth split: option.splits)
    next
      case bs: True
      show ?thesis
      proof (cases "Suc i < length b")
        case False
        with True have "drop i b = [b ! i]" by (simp add: nth_drop_Cons)
        then show ?thesis using bs True False decodeLoop.simps[of "quoted b" "Suc i" out]
          by (simp add: quoted_nth)
      next
        case two: True
        have d: "drop i b = b ! i # b ! Suc i # drop (Suc (Suc i)) b"
          using two True by (simp add: nth_drop_Cons)
        show ?thesis
          using True bs two less[of "Suc (Suc i)" "out @ [the (escapeChar (b ! Suc i))]"]
            decodeLoop.simps[of "quoted b" "Suc i" out] unfolding d
          by (auto simp: quoted_nth split: option.splits)
      qed
    qed
  qed
qed

lemma decode_quoted:
  "unescape b = Some s \<Longrightarrow> decodeStringLiteralContent (quoted b) = Inr s"
  "unescape b = None \<Longrightarrow> \<exists>e. decodeStringLiteralContent (quoted b) = Inl e"
  using decodeLoop_unescape[of b 0 "[]"]
  by (auto simp: decodeStringLiteralContent_def quoted_def split: option.splits)

lemma unescape_escape_of: "unescape (escape_of c @ s) = map_option ((#) c) (unescape s)"
  by (cases s) (auto simp: escape_of_def escapeChar_def)

lemma unescape_encoded: "unescape (concat (map escape_of s)) = Some s"
  by (induction s) (simp_all add: unescape_escape_of)

lemma escapeChar_isEscape: "isEscape e \<longleftrightarrow> escapeChar e \<noteq> None"
  by (simp add: isEscape_def escapeChar_def)

lemma string_body_unescape: "string_body b \<Longrightarrow> unescape b \<noteq> None"
proof (induction rule: string_body.induct)
  case (body_char c s)
  then show ?case by (cases s) auto
qed (auto simp: escapeChar_isEscape)

lemma string_body_append: "string_body a \<Longrightarrow> string_body b \<Longrightarrow> string_body (a @ b)"
  by (induction rule: string_body.induct) (auto intro: string_body.intros)

lemma string_body_encoded: "string_body (concat (map escape_of s))"
proof (induction s)
  case (Cons c s)
  have "string_body (escape_of c)"
    by (auto simp: escape_of_def isEscape_def intro!: string_body.intros)
  with Cons show ?case by (simp add: string_body_append)
qed (simp add: body_nil)

section \<open>Placeholders\<close>

text \<open>What spells a hole.\<close>

definition hole_spelling :: "FormatHole \<Rightarrow> string \<Rightarrow> bool" where
  "hole_spelling h s \<longleftrightarrow>
     (case hole_kind h of
        Default \<Rightarrow> s = ''{}'' \<and> hole_precision h = None
      | HexLower \<Rightarrow> s = ''{:x}'' \<and> hole_precision h = None
      | HexUpper \<Rightarrow> s = ''{:X}'' \<and> hole_precision h = None
      | Binary \<Rightarrow> s = ''{:b}'' \<and> hole_precision h = None
      | FloatFixed \<Rightarrow>
          (\<exists>ds. digits ds \<and> digits_value 10 ds \<le> 18 \<and> hole_precision h = Some (digits_value 10 ds) \<and>
             (s = ''{:.'' @ ds @ ''}'' \<or> s = ''{:.'' @ ds @ ''f}'')))"

fun render_format :: "string list \<Rightarrow> string list \<Rightarrow> string" where
  "render_format (l # ls) (h # hs) = l @ h @ render_format ls hs"
| "render_format ls hs = concat ls"

definition format_grammar :: "string \<Rightarrow> FormatParts \<Rightarrow> bool" where
  "format_grammar s parts \<longleftrightarrow>
     length (fp_literals parts) = Suc (length (fp_holes parts)) \<and>
     list_all (\<lambda>l. CHR ''{'' \<notin> set l) (fp_literals parts) \<and>
     (\<exists>hs. list_all2 hole_spelling (fp_holes parts) hs \<and> s = render_format (fp_literals parts) hs)"

lemma is_digit_10: "is_digit 10 c = isDecimalDigit c"
  by (auto simp: is_digit_def digit_val_def isDecimalDigit_def code_def Let_def less_eq_char_def)

lemma digitRunEnd_run:
  assumes "drop i s = ds @ c # rest" "list_all isDecimalDigit ds" "\<not> isDecimalDigit c"
  shows "digitRunEnd s i = i + length ds"
  using assms by (simp add: digitRunEnd_def list_all_iff takeWhile_append2)

text \<open>The precision branch over the text after \<open>{:.\<close>: digits, an optional \<open>f\<close>, a brace.\<close>

lemma from_chars_digits:
  assumes "ds \<noteq> []" "list_all isDecimalDigit ds"
  shows "from_chars 10 n ds =
    (if digits_value 10 ds < n then FC_ok (digits_value 10 ds) (length ds) else FC_result_out_of_range)"
proof -
  have all: "takeWhile (is_digit 10) ds = ds"
    using assms by (simp add: is_digit_10 list_all_iff takeWhile_eq_all_conv)
  show ?thesis using assms unfolding from_chars_def all Let_def by simp
qed

lemma parsePrecision_eq:
  assumes split: "drop k s = ds @ r" and ds: "list_all isDecimalDigit ds"
    and stop: "r = [] \<or> \<not> isDecimalDigit (hd r)" and k: "k \<le> length s"
  shows "parsePrecision s k =
    (if ds = [] then Precision_error ''invalid format string: expected precision digits after `{:.`''
     else
       let r' = (if r \<noteq> [] \<and> hd r = CHR ''f'' then tl r else r)
       in if r' \<noteq> [] \<and> hd r' = CHR ''}'' then
            if digits_value 10 ds > 18
            then Precision_error ''invalid format string: float precision must be an integer from 0 to 18''
            else Precision (digits_value 10 ds) (length s - length r')
          else Precision_none)"
proof -
  let ?m = "k + length ds"
  have s: "s = take k s @ ds @ r" using split by (metis append_take_drop_id)
  have cursor: "digitRunEnd s k = ?m"
    using split ds stop
    by (cases r) (auto simp: digitRunEnd_def list_all_iff takeWhile_append2 takeWhile_eq_all_conv[THEN iffD2])
  have len: "length s = ?m + length r" using k by (subst s) simp
  have at_r: "s ! (?m + j) = r ! j" for j
    using k by (subst s) (simp add: nth_append)
  have sub: "substr s k (length ds) = ds" by (simp add: substr_def split)
  have last_digit: "s ! (?m - 1) \<noteq> CHR ''f''" if "ds \<noteq> []"
  proof -
    have "s ! (?m - 1) = last ds"
      using k that by (subst s) (simp add: nth_append last_conv_nth, cases "length ds", auto)
    moreover have "isDecimalDigit (last ds)" using ds that by (simp add: list_all_iff)
    ultimately show ?thesis by (auto simp: isDecimalDigit_def)
  qed
  show ?thesis
  proof (cases "ds = []")
    case True
    then show ?thesis using cursor by (simp add: parsePrecision_def)
  next
    case False
    have fc: "from_chars 10 (2 ^ 32) ds =
        (if digits_value 10 ds < 2 ^ 32 then FC_ok (digits_value 10 ds) (length ds)
         else FC_result_out_of_range)"
      using False ds by (rule from_chars_digits)
    show ?thesis
    proof (cases r)
      case Nil
      then show ?thesis using False cursor len by (simp add: parsePrecision_def)
    next
      case (Cons c r1)
      have c: "s ! ?m = c" using at_r[of 0] Cons by simp
      show ?thesis
      proof (cases "c = CHR ''f''")
        case True
        then show ?thesis
          using False cursor len Cons c at_r[of 1] sub fc
          by (cases r1) (auto simp: parsePrecision_def Let_def)
      next
        case no_f: False
        then show ?thesis
          using False cursor len Cons c sub fc last_digit
          by (auto simp: parsePrecision_def Let_def)
      qed
    qed
  qed
qed

text \<open>A placeholder against its spelling, in both directions.\<close>

lemma at_drop:
  assumes "drop i s = t" "t \<noteq> []"
  shows "s ! (i + k) = t ! k" "length s = i + length t" "drop (i + k) s = drop k t"
  using assms by (auto simp: add.commute)

lemma hole_eqI: "hole_kind h = k \<Longrightarrow> hole_precision h = p \<Longrightarrow> h = \<lparr>hole_kind = k, hole_precision = p\<rparr>"
  by simp

lemma parseHole_precision:
  assumes t: "drop i s = ''{:.'' @ ds @ r" and ds: "digits ds"
    and r: "r = ''}'' @ rest \<or> r = ''f}'' @ rest" and v: "digits_value 10 ds \<le> 18"
  shows "parseHole s i =
    Inr (\<lparr>hole_kind = FloatFixed, hole_precision = Some (digits_value 10 ds)\<rparr>, length s - length rest)"
proof -
  have ne: "''{:.'' @ ds @ r \<noteq> []" by simp
  note at_t = at_drop[OF t ne]
  have len: "length s = i + 3 + length ds + length r" using at_t(2) by simp
  have "drop (i + 3) s = ds @ r" using at_t(3)[of 3] by simp
  then have pp: "parsePrecision s (i + 3) = Precision (digits_value 10 ds) (length s - Suc (length rest))"
    using r ds v len parsePrecision_eq[of "i + 3" s ds r]
    by (auto simp: digits_def isDecimalDigit_def)
  have "s ! (i + 1) = CHR '':''" "s ! (i + 2) = CHR ''.''" "i + 3 < length s"
    using at_t(1)[of 1] at_t(1)[of 2] len r by auto
  then show ?thesis using pp len r by (auto simp: parseHole_def)
qed

lemma parseHole_complete:
  assumes t: "drop i s = sp @ rest" and sp: "hole_spelling h sp"
  shows "parseHole s i = Inr (h, i + length sp)"
proof (cases "hole_kind h = FloatFixed")
  case True
  then obtain ds where ds: "digits ds" "digits_value 10 ds \<le> 18"
    "hole_precision h = Some (digits_value 10 ds)" "sp = ''{:.'' @ ds @ ''}'' \<or> sp = ''{:.'' @ ds @ ''f}''"
    using sp by (auto simp: hole_spelling_def)
  have "h = \<lparr>hole_kind = FloatFixed, hole_precision = Some (digits_value 10 ds)\<rparr>"
    using True ds by (intro hole_eqI) auto
  moreover have "sp @ rest \<noteq> []" using ds by auto
  then have "length s - length rest = i + length sp" using at_drop(2)[OF t] by simp
  ultimately show ?thesis
    using parseHole_precision[of i s ds "''}'' @ rest" rest] parseHole_precision[of i s ds "''f}'' @ rest" rest] ds t
    by auto
next
  case False
  then have forms: "sp = ''{}'' \<and> h = \<lparr>hole_kind = Default, hole_precision = None\<rparr> \<or>
    sp = ''{:x}'' \<and> h = \<lparr>hole_kind = HexLower, hole_precision = None\<rparr> \<or>
    sp = ''{:X}'' \<and> h = \<lparr>hole_kind = HexUpper, hole_precision = None\<rparr> \<or>
    sp = ''{:b}'' \<and> h = \<lparr>hole_kind = Binary, hole_precision = None\<rparr>"
    using sp by (cases "hole_kind h") (auto simp: hole_spelling_def intro: hole_eqI)
  then have ne: "sp @ rest \<noteq> []" by auto
  note at_t = at_drop[OF t ne]
  have len: "length s = i + length sp + length rest" using at_t(2) by simp
  show ?thesis
    using forms at_t(1)[of 1] at_t(1)[of 2] at_t(1)[of 3] len
    by (auto simp: parseHole_def parseSimpleHole_def holeKindOf_def)
qed

lemma parseSimpleHole_sound:
  assumes i: "i < length s" "s ! i = CHR ''{''" and p: "parseSimpleHole s i = Inr h"
  shows "\<exists>sp. hole_spelling h sp \<and> drop i s = sp @ drop (i + 4) s \<and> i + 4 \<le> length s"
proof -
  have len: "i + 3 < length s" and k: "holeKindOf (s ! (i + 2)) \<noteq> Default"
    and at_s: "s ! (i + 1) = CHR '':''" "s ! (i + 3) = CHR ''}''"
    and h: "h = \<lparr>hole_kind = holeKindOf (s ! (i + 2)), hole_precision = None\<rparr>"
    using p by (auto simp: parseSimpleHole_def split: if_splits)
  have "drop i s = s ! i # s ! (i + 1) # s ! (i + 2) # s ! (i + 3) # drop (i + 4) s"
    using len by (simp add: nth_drop_Cons numeral_eq_Suc)
  then have "drop i s = ([CHR ''{'', CHR '':'', s ! (i + 2), CHR ''}'']) @ drop (i + 4) s"
    using i at_s by simp
  moreover have "hole_spelling h ([CHR ''{'', CHR '':'', s ! (i + 2), CHR ''}''])"
    using k by (auto simp: h hole_spelling_def holeKindOf_def split: if_splits)
  ultimately show ?thesis using len by fastforce
qed

lemma parseHole_sound:
  assumes i: "i < length s" "s ! i = CHR ''{''" and p: "parseHole s i = Inr (h, j)"
  shows "\<exists>sp. hole_spelling h sp \<and> drop i s = sp @ drop j s \<and> j \<le> length s"
proof -
  consider (plain) "i + 1 < length s" "s ! (i + 1) = CHR ''}''" "j = i + 2"
      "h = \<lparr>hole_kind = Default, hole_precision = None\<rparr>"
    | (simple) "parseSimpleHole s i = Inr h" "j = i + 4"
    | (fixed) v c where "parsePrecision s (i + 3) = Precision v c" "j = c + 1" "i + 3 < length s"
        "s ! (i + 1) = CHR '':''" "s ! (i + 2) = CHR ''.''"
        "h = \<lparr>hole_kind = FloatFixed, hole_precision = Some v\<rparr>"
    using p by (cases "parseSimpleHole s i")
      (auto simp: parseHole_def Let_def split: if_splits precision_result.splits)
  then show ?thesis
  proof cases
    case plain
    then have "drop i s = ''{}'' @ drop j s" using i by (simp add: nth_drop_Cons)
    then show ?thesis using plain by (intro exI[of _ "''{}''"]) (simp add: hole_spelling_def)
  next
    case simple
    then show ?thesis using parseSimpleHole_sound[OF i] by simp
  next
    case fixed
    let ?t = "drop (i + 3) s"
    define ds where "ds = takeWhile isDecimalDigit ?t"
    define r where "r = dropWhile isDecimalDigit ?t"
    define r' where "r' = (if r \<noteq> [] \<and> hd r = CHR ''f'' then tl r else r)"
    have ds: "list_all isDecimalDigit ds" by (auto simp: ds_def list_all_iff dest: set_takeWhileD)
    have split: "?t = ds @ r" by (simp add: ds_def r_def)
    have stop: "r = [] \<or> \<not> isDecimalDigit (hd r)" unfolding r_def by (metis hd_dropWhile)
    have "i + 3 \<le> length s" using fixed by simp
    from parsePrecision_eq[OF split ds stop this] fixed(1)
    have r': "ds \<noteq> []" "r' \<noteq> []" "hd r' = CHR ''}''" "digits_value 10 ds \<le> 18"
      "v = digits_value 10 ds" "c = length s - length r'"
      unfolding Let_def r'_def[symmetric] by (auto split: if_splits)
    have len: "length s = i + 3 + length ds + length r" using split fixed(3)
      by (metis add.assoc length_append length_drop le_add_diff_inverse less_imp_le)
    have "drop i s = s ! i # s ! (i + 1) # s ! (i + 2) # ?t"
      using fixed(3) by (simp add: nth_drop_Cons numeral_eq_Suc)
    then have t: "drop i s = ''{:.'' @ ds @ r" using i fixed split by simp
    have r_form: "r = ''}'' @ tl r' \<or> r = ''f}'' @ tl r'"
      using r' unfolding r'_def by (cases r; cases "tl r") (auto split: if_splits)
    define sp where "sp = ''{:.'' @ ds @ (if r = ''}'' @ tl r' then ''}'' else ''f}'')"
    have whole: "drop i s = sp @ tl r'" unfolding sp_def using t r_form by auto
    have lr: "length r' \<le> length r" "0 < length r'" using r' by (auto simp: r'_def)
    have j: "j = length s - length (tl r')" 
      using fixed(2) r'(6) len lr unfolding length_tl by linarith
    have "length s = i + length (sp @ tl r')" using whole i by (metis length_drop le_add_diff_inverse less_imp_le)
    then have "j = i + length sp" "j \<le> length s" using j by simp_all
    moreover have "drop (length sp) (drop i s) = tl r'" using whole by simp
    ultimately have "drop j s = tl r'" by (simp add: add.commute)
    moreover have "hole_spelling h sp"
      unfolding sp_def using fixed r' ds by (auto simp: hole_spelling_def digits_def)
    ultimately show ?thesis using whole \<open>j \<le> length s\<close> by (intro exI[of _ sp]) simp
  qed
qed

section \<open>Format strings\<close>

definition fmt :: "string \<Rightarrow> string list \<Rightarrow> FormatHole list \<Rightarrow> bool" where
  "fmt t ls holes \<longleftrightarrow>
     length ls = Suc (length holes) \<and> list_all (\<lambda>l. CHR ''{'' \<notin> set l) ls \<and>
     (\<exists>hs. list_all2 hole_spelling holes hs \<and> t = render_format ls hs)"

lemma format_grammar_fmt: "format_grammar s parts \<longleftrightarrow> fmt s (fp_literals parts) (fp_holes parts)"
  by (simp add: format_grammar_def fmt_def)

lemma hole_spelling_brace: "hole_spelling h sp \<Longrightarrow> \<exists>r. sp = CHR ''{'' # r"
  by (auto simp: hole_spelling_def split: FormatHoleKind.splits)

lemma fmt_last: "fmt t ls [] \<longleftrightarrow> ls = [t] \<and> CHR ''{'' \<notin> set t"
  by (auto simp: fmt_def length_Suc_conv)

lemma fmt_hole:
  "fmt t ls (h # holes) \<longleftrightarrow>
     (\<exists>l sp rest ls'. ls = l # ls' \<and> CHR ''{'' \<notin> set l \<and> t = l @ sp @ rest \<and>
        hole_spelling h sp \<and> fmt rest ls' holes)" (is "_ = ?rhs")
proof
  assume "fmt t ls (h # holes)"
  then obtain l ls' sp hs where "ls = l # ls'" "list_all2 hole_spelling holes hs" "hole_spelling h sp"
    "t = render_format (l # ls') (sp # hs)" "length ls' = Suc (length holes)"
    "list_all (\<lambda>l. CHR ''{'' \<notin> set l) (l # ls')"
    by (auto simp: fmt_def list_all2_Cons1 length_Suc_conv)
  then show ?rhs
    by (intro exI[of _ l] exI[of _ sp] exI[of _ "render_format ls' hs"] exI[of _ ls'])
      (auto simp: fmt_def)
next
  assume ?rhs
  then obtain l sp rest ls' hs where *: "ls = l # ls'" "CHR ''{'' \<notin> set l" "t = l @ sp @ rest"
    "hole_spelling h sp" "length ls' = Suc (length holes)" "list_all (\<lambda>l. CHR ''{'' \<notin> set l) ls'"
    "list_all2 hole_spelling holes hs" "rest = render_format ls' hs"
    unfolding fmt_def by blast
  show "fmt t ls (h # holes)"
    unfolding fmt_def by (intro conjI exI[of _ "sp # hs"]) (simp_all add: *)
qed

lemma brace_split:
  assumes "l @ CHR ''{'' # r = l' @ CHR ''{'' # r'" "CHR ''{'' \<notin> set l" "CHR ''{'' \<notin> set l'"
  shows "l = l' \<and> r = r'"
proof -
  have stop: "takeWhile (\<lambda>c. c \<noteq> CHR ''{'') (m @ CHR ''{'' # q) = m" if "CHR ''{'' \<notin> set m" for m q
    using that by (subst takeWhile_append2) auto
  have "l = l'" using stop[OF assms(2), of r] stop[OF assms(3), of r'] assms(1) by simp
  then show ?thesis using assms(1) by simp
qed

text \<open>The first literal ends at the first brace.\<close>

lemma fmt_first_hole:
  assumes t: "t = l0 @ CHR ''{'' # r" and l0: "CHR ''{'' \<notin> set l0"
  shows "fmt t ls (h # holes) \<longleftrightarrow>
    (\<exists>ls' sp rest. ls = l0 # ls' \<and> CHR ''{'' # r = sp @ rest \<and> hole_spelling h sp \<and> fmt rest ls' holes)"
    (is "_ = ?rhs")
proof
  assume "fmt t ls (h # holes)"
  then obtain l sp rest ls' where *: "ls = l # ls'" "CHR ''{'' \<notin> set l" "t = l @ sp @ rest"
    "hole_spelling h sp" "fmt rest ls' holes" unfolding fmt_hole by blast
  obtain q where q: "sp = CHR ''{'' # q" using hole_spelling_brace[OF *(4)] by blast
  have "l @ CHR ''{'' # (q @ rest) = l0 @ CHR ''{'' # r" using * t q by simp
  from brace_split[OF this *(2) l0] show ?rhs
    using * q by (intro exI[of _ ls'] exI[of _ sp] exI[of _ rest]) simp
next
  assume ?rhs
  then show "fmt t ls (h # holes)" unfolding fmt_hole t using l0 by metis
qed

lemma formatLoop_fmt:
  "\<lbrakk>start \<le> i; i \<le> length s; CHR ''{'' \<notin> set (substr s start (i - start))\<rbrakk> \<Longrightarrow>
    formatLoop s start i parts = Inr parts' \<longleftrightarrow>
    (\<exists>ls holes. fmt (drop start s) ls holes \<and>
       parts' = \<lparr>fp_literals = fp_literals parts @ ls, fp_holes = fp_holes parts @ holes\<rparr>)"
proof (induction "length s - i" arbitrary: start i parts rule: less_induct)
  case less
  let ?l = "substr s start (i - start)"
  have d: "drop start s = ?l @ drop i s"
    using less.prems drop_split[of start i s] by (simp add: substr_def)
  show ?case
  proof (cases "i < length s")
    case False
    then have "drop start s = ?l" using d by simp
    moreover have "\<not> fmt ?l ls (h # holes)" for ls h holes
      using less.prems(3) by (auto simp: fmt_hole dest!: hole_spelling_brace)
    then have "fmt ?l ls holes \<longleftrightarrow> ls = [?l] \<and> holes = []" for ls holes
      using less.prems(3) by (cases holes) (auto simp: fmt_last)
    ultimately show ?thesis using False by (auto simp: formatLoop.simps[of s start i])
  next
    case i: True
    show ?thesis
    proof (cases "s ! i = CHR ''{''")
      case False
      have "substr s start (Suc i - start) = ?l @ [s ! i]"
        using i less.prems(1) by (simp add: substr_def Suc_diff_le take_Suc_conv_app_nth)
      then show ?thesis
        using less.hyps[of "Suc i" start parts] less.prems i False formatLoop.simps[of s start i parts]
        by simp
    next
      case brace: True
      have tail: "drop i s = CHR ''{'' # drop (Suc i) s" using i brace by (simp add: nth_drop_Cons)
      have heads: "fmt (drop start s) ls holes \<longleftrightarrow>
          (\<exists>h holes' ls' sp rest. holes = h # holes' \<and> ls = ?l # ls' \<and> drop i s = sp @ rest \<and>
             hole_spelling h sp \<and> fmt rest ls' holes')" for ls holes
      proof (cases holes)
        case Nil
        then show ?thesis using d tail by (simp add: fmt_last)
      next
        case (Cons h holes')
        then show ?thesis
          using fmt_first_hole[of "drop start s" ?l "drop (Suc i) s"] d tail less.prems(3) by auto
      qed
      show ?thesis
      proof (cases "parseHole s i")
        case (Inl e)
        have "\<not> (drop i s = sp @ rest \<and> hole_spelling h sp)" for h sp rest
          using parseHole_complete[of i s sp rest h] Inl by auto
        then show ?thesis using Inl i brace formatLoop.simps[of s start i parts] heads by auto
      next
        case (Inr r)
        obtain h after where r: "r = (h, after)" by (cases r)
        note p = Inr[unfolded r]
        obtain sp where sp: "hole_spelling h sp" "drop i s = sp @ drop after s" "after \<le> length s"
          using parseHole_sound[OF i brace p] by blast
        have uniq: "h' = h \<and> rest = drop after s"
          if "drop i s = sp' @ rest" "hole_spelling h' sp'" for h' sp' rest
        proof -
          have *: "h' = h" "after = i + length sp'"
            using parseHole_complete[OF that] p by auto
          have "rest = drop (length sp') (drop i s)" using that by simp
          with * show ?thesis by (simp add: add.commute)
        qed
        have "i < after" by (rule parseHole_ge[OF p])
        then have "formatLoop s after after (addHole ?l h parts) = Inr parts' \<longleftrightarrow>
            (\<exists>ls holes. fmt (drop after s) ls holes \<and>
              parts' = \<lparr>fp_literals = fp_literals parts @ ?l # ls, fp_holes = fp_holes parts @ h # holes\<rparr>)"
          using less.hyps[of after after "addHole ?l h parts"] sp(3) i by (simp add: addHole_def substr_def)
        moreover have "formatLoop s start i parts = formatLoop s after after (addHole ?l h parts)"
          using p i brace formatLoop.simps[of s start i parts] by simp
        moreover have "fmt (drop start s) ls holes \<longleftrightarrow>
            (\<exists>ls' holes'. ls = ?l # ls' \<and> holes = h # holes' \<and> fmt (drop after s) ls' holes')" for ls holes
          unfolding heads using sp(1,2) uniq by blast
        ultimately show ?thesis by auto
      qed
    qed
  qed
qed

lemma parseFormatString_fmt: "parseFormatString s = Inr parts \<longleftrightarrow> format_grammar s parts"
  using formatLoop_fmt[of 0 0 s "\<lparr>fp_literals = [], fp_holes = []\<rparr>" parts]
  by (cases parts) (auto simp: parseFormatString_def format_grammar_fmt substr_def)

section \<open>Properties\<close>

text \<open>C16: decoding undoes escaping: any bytes, written as a literal with the five escapes, decode
  to themselves, whatever they are.\<close>

theorem decode_encode:
  "decodeStringLiteralContent (dquote # concat (map escape_of s) @ [dquote]) = Inr s"
  using decode_quoted(1)[OF unescape_encoded[of s]] by (simp add: quoted_def)



text \<open>C18: \<open>parseFormatString\<close> accepts exactly the format grammar and splits it the only way there
  is: its result is \<open>parts\<close> if and only if the text is \<open>parts\<close>'s literals, none with an open
  brace, interleaved with one spelling for each of \<open>parts\<close>'s holes.\<close>

theorem parseFormatString_grammar:
  "parseFormatString s = Inr parts \<longleftrightarrow>
     length (fp_literals parts) = Suc (length (fp_holes parts)) \<and>
     list_all (\<lambda>l. CHR ''{'' \<notin> set l) (fp_literals parts) \<and>
     (\<exists>hs. list_all2 hole_spelling (fp_holes parts) hs \<and> s = render_format (fp_literals parts) hs)"
  by (simp only: parseFormatString_fmt format_grammar_def)

end
