(* ===== verification/SemTypesProps.thy ===== *)
theory SemTypesProps
  imports SemTypes LexerProps
begin

text \<open>
  What the type helpers compute: offsets are mixed-radix numbers, below the element count and
  different for different indices as long as the count fits 64 bits; the literal bound of an
  integer type; the value of a literal; the spelling of a type.
\<close>

section \<open>Offsets\<close>

text \<open>The reference, over natural numbers: the first index counts whole sub-arrays.\<close>

fun mixed_radix :: "nat list \<Rightarrow> nat list \<Rightarrow> nat" where
  "mixed_radix (d # ds) (i # is) = i * prod_list ds + mixed_radix ds is"
| "mixed_radix ds is = 0"

lemma mixed_radix_less:
  "list_all2 (<) is ds \<Longrightarrow> mixed_radix ds is < prod_list ds"
proof (induction "is" ds rule: list_all2_induct)
  case (Cons i "is" d ds)
  then have "mixed_radix (d # ds) (i # is) < (i + 1) * prod_list ds" by simp
  also have "\<dots> \<le> d * prod_list ds" by (rule mult_le_mono1) (use Cons in simp)
  finally show ?case by simp
qed simp

lemma mixed_radix_inj:
  "\<lbrakk>list_all2 (<) is ds; list_all2 (<) js ds; mixed_radix ds is = mixed_radix ds js\<rbrakk> \<Longrightarrow> is = js"
proof (induction "is" ds arbitrary: js rule: list_all2_induct)
  case (Cons i "is" d ds)
  obtain j js' where js: "js = j # js'" "j < d" "list_all2 (<) js' ds"
    using Cons.prems(1) by (auto simp: list_all2_Cons2)
  let ?p = "prod_list ds" and ?a = "mixed_radix ds is" and ?b = "mixed_radix ds js'"
  have lt: "?a < ?p" "?b < ?p" using mixed_radix_less Cons.hyps js by blast+
  have eq: "i * ?p + ?a = j * ?p + ?b" using Cons.prems js by simp
  then have "(i * ?p + ?a) div ?p = (j * ?p + ?b) div ?p" by simp
  then have "i = j" using lt by simp
  with eq Cons.IH js show ?case by simp
qed simp

lemma foldl_mult_word: "foldl (*) (a :: 64 word) ds = a * of_nat (prod_list (map unat ds))"
  by (induction ds arbitrary: a) (simp_all add: mult.assoc)

lemma strideAfter_Suc [simp]: "strideAfter (d # ds) (Suc k) = strideAfter ds k"
  by (simp add: strideAfter_def)

lemma foldl_offset_Cons:
  "foldl (\<lambda>offset k. offset + (i # is) ! k * strideAfter (d # ds) k) a (map Suc ks) =
     foldl (\<lambda>offset k. offset + is ! k * strideAfter ds k) (a :: 64 word) ks"
  by (induction ks arbitrary: a) simp_all

lemma foldl_offset_start:
  "foldl (\<lambda>offset k. offset + f k) (a :: 64 word) ks = a + foldl (\<lambda>offset k. offset + f k) 0 ks"
proof (induction ks arbitrary: a)
  case (Cons k ks)
  show ?case using Cons[of "a + f k"] Cons[of "f k"] by (simp add: add.assoc)
qed simp

lemma flatOffset_Cons: "flatOffset (d # ds) (i # is) = i * foldl (*) 1 ds + flatOffset ds is"
proof -
  have "[0..<length (i # is)] = 0 # map Suc [0..<length is]" by (simp add: map_Suc_upt upt_conv_Cons del: upt_Suc)
  then have "flatOffset (d # ds) (i # is) =
      foldl (\<lambda>offset k. offset + is ! k * strideAfter ds k) (i * strideAfter (d # ds) 0) [0..<length is]"
    unfolding flatOffset_def by (simp add: foldl_offset_Cons)
  then show ?thesis
    by (subst (asm) foldl_offset_start) (simp add: flatOffset_def strideAfter_def)
qed

lemma flatOffset_mixed_radix:
  "length is \<le> length ds \<Longrightarrow>
     flatOffset ds is = of_nat (mixed_radix (map unat ds) (map unat is))"
proof (induction ds "is" rule: list_induct2')
  case (4 d ds i "is")
  then show ?case by (simp add: flatOffset_Cons foldl_mult_word)
qed (simp_all add: flatOffset_def)

definition elementCount :: "Type \<Rightarrow> nat" where
  "elementCount t = prod_list (map unat (t_arrayDimensions t))"

lemma flatElementCountRanked_elementCount:
  "Type_isFixedArray t \<Longrightarrow> elementCount t < 2 ^ 64 \<Longrightarrow> unat (flatElementCountRanked t) = elementCount t"
  by (simp add: flatElementCountRanked_def foldl_mult_word elementCount_def unat_of_nat)

lemma indicesInBounds_less:
  "length is = length ds \<Longrightarrow> indicesInBounds ds is \<longleftrightarrow> list_all2 (<) (map unat is) (map unat ds)"
  by (auto simp: indicesInBounds_def list_all2_conv_all_nth list_all_length word_less_nat_alt)

lemma constIndices_unat:
  assumes "constIndicesToFlatOffset t is = Some off" "elementCount t < 2 ^ 64"
  shows "list_all2 (<) (map unat is) (map unat (t_arrayDimensions t))"
    "unat off = mixed_radix (map unat (t_arrayDimensions t)) (map unat is)"
    "unat off < elementCount t"
proof -
  from assms(1) have l: "length is = length (t_arrayDimensions t)"
    and b: "indicesInBounds (t_arrayDimensions t) is"
    and off: "off = flatOffset (t_arrayDimensions t) is"
    by (auto simp: constIndicesToFlatOffset_def split: if_splits)
  show lt: "list_all2 (<) (map unat is) (map unat (t_arrayDimensions t))"
    using b indicesInBounds_less[OF l] by simp
  from mixed_radix_less[OF this] have m: "mixed_radix (map unat (t_arrayDimensions t)) (map unat is) < elementCount t"
    by (simp add: elementCount_def)
  show u: "unat off = mixed_radix (map unat (t_arrayDimensions t)) (map unat is)"
    using m assms(2) l by (simp add: off flatOffset_mixed_radix unat_of_nat)
  show "unat off < elementCount t" using m u by simp
qed

section \<open>Integer types\<close>

lemma Type_isInteger_kind:
  "Type_isInteger t \<Longrightarrow> t_kind t \<in> {I8, I16, I32, I64, U8, U16, U32, U64} \<and> t_pointerDepth t = 0 \<and>
     t_arrayDimensions t = []"
  by (auto simp: Type_isInteger_def Type_isFixedArray_def Type_isPointer_def split: if_splits)

lemma bitWidth_integer: "Type_isInteger t \<Longrightarrow> bitWidth t \<in> {8, 16, 32, 64}"
  using Type_isInteger_kind[of t] by (auto simp: bitWidth_def Type_isFixedArray_def)

lemma unat_pow_word: "k < 64 \<Longrightarrow> unat (2 ^ k :: 64 word) = 2 ^ k"
proof -
  assume k: "k < 64"
  have "unat (2 ^ k :: 64 word) = unat (of_nat (2 ^ k) :: 64 word)" by simp
  also have "\<dots> = 2 ^ k" unfolding unat_of_nat by (rule mod_less) (use power_strict_increasing[OF k, of "2 :: nat"] in simp)
  finally show ?thesis .
qed

lemma unat_mask_word: "k < 64 \<Longrightarrow> unat (push_bit k 1 - 1 :: 64 word) = 2 ^ k - 1"
proof -
  assume k: "k < 64"
  have "(2 ^ k :: 64 word) \<noteq> 0" using unat_pow_word[OF k] by (metis power_not_zero unat_0 zero_neq_numeral)
  then show ?thesis using unat_pow_word[OF k] unat_minus_one[of "2 ^ k :: 64 word"]
    by (simp add: push_bit_eq_mult)
qed

lemma unat_minus_1_64: "unat (- 1 :: 64 word) = 2 ^ 64 - 1"
  unfolding unsigned_minus_1_eq_mask by (simp add: mask_eq_exp_minus_1)

text \<open>The largest literal of a type, as a number.\<close>

definition maxLiteral :: "Type \<Rightarrow> nat" where
  "maxLiteral t = (if isSigned t then 2 ^ (bitWidth t - 1) - 1 else 2 ^ bitWidth t - 1)"

lemma unat_maxIntegerValue: "Type_isInteger t \<Longrightarrow> unat (maxIntegerValue t) = maxLiteral t"
  using Type_isInteger_kind[of t]
  by (auto simp: maxIntegerValue_def maxLiteral_def bitWidth_def isSigned_def kindIsSigned_def
      Type_isFixedArray_def Let_def unat_mask_word unat_minus_1_64)

lemma maxIntegerValue_mask: "Type_isInteger t \<Longrightarrow> maxIntegerValue t = mask (if isSigned t then bitWidth t - 1 else bitWidth t)"
  using Type_isInteger_kind[of t]
  by (auto simp: maxIntegerValue_def bitWidth_def isSigned_def kindIsSigned_def
      Type_isFixedArray_def Let_def mask_eq_exp_minus_1 push_bit_eq_mult)

section \<open>Literals\<close>

lemma is_digit_dec: "is_digit 10 c \<longleftrightarrow> isDecimalDigit c"
  by (auto simp: is_digit_def digit_val_def isDecimalDigit_def Let_def code_def less_eq_char_def
      split: if_splits)

lemma is_digit_hex: "is_digit 16 c \<longleftrightarrow> isHexDigit c"
  by (auto simp: is_digit_def digit_val_def isHexDigit_def Let_def code_def less_eq_char_def
      split: if_splits)

text \<open>The number an integer literal spells.\<close>

definition literal_value :: "string \<Rightarrow> nat" where
  "literal_value raw =
     (if length raw \<ge> 2 \<and> (raw ! 1 = CHR ''x'' \<or> raw ! 1 = CHR ''X'') then digits_value 16 (drop 2 raw)
      else digits_value 10 raw)"

lemma from_chars_all:
  assumes "list_all (is_digit base) s" "s \<noteq> []"
  shows "from_chars base bound s =
    (if digits_value base s \<ge> bound then FC_result_out_of_range else FC_ok (digits_value base s) (length s))"
proof -
  have tw: "takeWhile (is_digit base) s = s" using assms(1) by (simp add: takeWhile_eq_all_conv list_all_iff)
  show ?thesis unfolding from_chars_def Let_def tw using assms(2) by simp
qed

lemma parseUnsignedInteger_lexeme:
  assumes "int_lexeme s"
  shows "parseUnsignedInteger s =
    (if literal_value s < 2 ^ 64 then Some (of_nat (literal_value s)) else None)"
proof (cases "digits s")
  case d: True
  have nx: "\<not> (length s \<ge> 2 \<and> (s ! 1 = CHR ''x'' \<or> s ! 1 = CHR ''X''))"
  proof
    assume x: "length s \<ge> 2 \<and> (s ! 1 = CHR ''x'' \<or> s ! 1 = CHR ''X'')"
    then have "isDecimalDigit (s ! 1)" using d by (simp add: digits_def list_all_length)
    with x show False by (auto simp: isDecimalDigit_def less_eq_char_def)
  qed
  then have n0: "\<not> (length s \<ge> 2 \<and> s ! 0 = CHR ''0'' \<and> (s ! 1 = CHR ''x'' \<or> s ! 1 = CHR ''X''))" by blast
  moreover have "list_all (is_digit 10) s" "s \<noteq> []" using d by (simp_all add: digits_def is_digit_dec[abs_def])
  ultimately show ?thesis
    unfolding parseUnsignedInteger_def literal_value_def Let_def if_not_P[OF nx] if_not_P[OF n0]
    by (simp add: from_chars_all not_less)
next
  case False
  then obtain x h where s: "s = CHR ''0'' # x # h" "x = CHR ''x'' \<or> x = CHR ''X''" "h \<noteq> []" "list_all isHexDigit h"
    using assms unfolding int_lexeme_def by blast
  then have "list_all (is_digit 16) h" by (simp add: is_digit_hex[abs_def])
  then show ?thesis using s
    by (auto simp: parseUnsignedInteger_def literal_value_def from_chars_all not_less)
qed

lemma takeWhile_digits:
  assumes "list_all isDecimalDigit d" "r = [] \<or> \<not> isDecimalDigit (hd r)"
  shows "takeWhile (is_digit 10) (d @ r) = d"
proof -
  have "takeWhile (is_digit 10) r = []" using assms(2) by (cases r) (auto simp: is_digit_dec)
  moreover have "\<forall>c \<in> set d. is_digit 10 c" using assms(1) by (simp add: list_all_iff is_digit_dec)
  ultimately show ?thesis by (simp add: takeWhile_append2)
qed

lemma scanExponent_part:
  assumes "e = [] \<or> exponent_part e"
  shows "snd (scanExponent e) = length e"
  using assms
proof
  assume "exponent_part e"
  then obtain c sg g where e: "e = c # sg @ g" "c = CHR ''e'' \<or> c = CHR ''E''"
    "sg = [] \<or> sg = ''+'' \<or> sg = ''-''" "digits g"
    unfolding exponent_part_def by blast
  have tw: "takeWhile (is_digit 10) g = g" and ne: "g \<noteq> []"
    using e(4) takeWhile_digits[of g "[]"] by (auto simp: digits_def)
  have "hd g \<noteq> CHR ''+'' \<and> hd g \<noteq> CHR ''-''"
    using e(4) ne by (cases g) (auto simp: digits_def isDecimalDigit_def less_eq_char_def)
  then show ?thesis using e(1,2,3) tw ne
    by (auto simp: scanExponent_def Let_def takeWhile_eq_all_conv[THEN iffD2])
qed (simp add: scanExponent_def)

lemma float_parts_start:
  assumes "f = [] \<or> fraction_part f" "e = [] \<or> exponent_part e"
  shows "f @ e = [] \<or> \<not> isDecimalDigit (hd (f @ e))" "e = [] \<or> \<not> isDecimalDigit (hd e)"
    "e = [] \<or> hd e \<noteq> CHR ''.''"
  using assms by (auto simp: fraction_part_def exponent_part_def isDecimalDigit_def less_eq_char_def)

lemma scanDecimal_lexeme:
  assumes "float_lexeme s"
  shows "\<exists>d. scanDecimal s = Some d \<and> dec_read d = length s"
proof -
  obtain d f e where s: "s = d @ f @ e" "digits d" "f = [] \<or> fraction_part f" "e = [] \<or> exponent_part e"
    using assms unfolding float_lexeme_def by blast
  note st = float_parts_start[OF s(3,4)]
  have tw: "takeWhile (is_digit 10) s = d"
    using s takeWhile_digits[OF _ st(1), of d] by (simp add: digits_def)
  have ex: "snd (scanExponent e) = length e" by (rule scanExponent_part[OF s(4)])
  have ne: "d \<noteq> []" using s(2) by (simp add: digits_def)
  show ?thesis
  proof (cases "f = []")
    case True
    then have "e = [] \<or> hd e \<noteq> CHR ''.''" using st by simp
    then show ?thesis using tw ne s ex True by (auto simp: scanDecimal_def Let_def case_prod_unfold)
  next
    case False
    then obtain g where g: "f = CHR ''.'' # g" "list_all isDecimalDigit g"
      using s(3) by (auto simp: fraction_part_def digits_def)
    have "takeWhile (is_digit 10) (g @ e) = g" by (rule takeWhile_digits[OF g(2) st(2)])
    then show ?thesis using tw ne s ex g by (auto simp: scanDecimal_def Let_def case_prod_unfold)
  qed
qed

section \<open>Properties\<close>





text \<open>C26: literals mean what they spell: the value of an integer literal the lexer accepts is its
  decimal or hexadecimal value when that fits 64 bits and is absent otherwise, and a float literal the
  lexer accepts is converted as a whole.\<close>

theorem literal_values:
  "(int_lexeme s \<longrightarrow> parseUnsignedInteger s =
      (if literal_value s < 2 ^ 64 then Some (of_nat (literal_value s)) else None)) \<and>
   (float_lexeme s \<longrightarrow> (\<exists>d. scanDecimal s = Some d \<and> dec_read d = length s))"
  using parseUnsignedInteger_lexeme scanDecimal_lexeme by blast

lemma literal_values_witness:
  "parseUnsignedInteger ''0xff'' = (if literal_value ''0xff'' < 2 ^ 64 then Some (of_nat (literal_value ''0xff'')) else None) \<and>
   (\<exists>d. scanDecimal ''1.5e3'' = Some d \<and> dec_read d = length ''1.5e3'')"
proof -
  have "int_lexeme ''0xff''" by (auto simp: int_lexeme_def isHexDigit_def less_eq_char_def)
  moreover have "exponent_part ''e3''" unfolding exponent_part_def
    by (intro exI[of _ "CHR ''e''"] exI[of _ "[]"] exI[of _ "''3''"])
      (simp add: digits_def isDecimalDigit_def less_eq_char_def)
  then have "float_lexeme ''1.5e3''"
    unfolding float_lexeme_def
    by (intro exI[of _ "''1''"] exI[of _ "''.5''"] exI[of _ "''e3''"])
      (simp add: digits_def fraction_part_def isDecimalDigit_def less_eq_char_def)
  ultimately show ?thesis using literal_values[of "''0xff''"] literal_values[of "''1.5e3''"] by blast
qed

text \<open>Diagnostics spell a type as the source does: the semantic spelling of a declared type is the
  spelling of its syntax.\<close>

lemma typeName_syntax: "typeName (typeFromSyntax syntax) = formatTypeSyntax syntax"
  by (simp add: typeName_def typeFromSyntax_def mk_type_def formatTypeSyntax_def wrapDimensions_def)

end
