(* ===== verification/Runtime.thy ===== *)
theory Runtime
  imports Numbers
begin

text \<open>
  \<open>runtime/nex_runtime.c\<close>: the C functions that compiled programs call. Bytes are characters; a
  pointer with a length is a string. The two system calls are a parameter: \<open>write(1, data, n)\<close> and
  \<open>read(0, &c, 1)\<close> on a state \<open>'os\<close> of the system. The floating point printers are left out.
\<close>

section \<open>State\<close>

record 'os syscalls =
  sys_write :: "string \<Rightarrow> 'os \<Rightarrow> int \<times> 'os"
  sys_read :: "'os \<Rightarrow> (int \<times> char) \<times> 'os"

text \<open>The static variables; of the line buffer the bytes before the terminating zero.\<close>

record 'os runtime =
  rt_last_ok :: bool
  rt_readln_buffer :: string
  rt_os :: 'os

definition runtime_start :: "'os \<Rightarrow> 'os runtime" where
  "runtime_start os = \<lparr>rt_last_ok = True, rt_readln_buffer = [], rt_os = os\<rparr>"

section \<open>Output\<close>

function nex_runtime_print_str :: "'os syscalls \<Rightarrow> string \<Rightarrow> 'os runtime \<Rightarrow> 'os runtime" where
  "nex_runtime_print_str sys data rt =
     (if data = [] then rt\<lparr>rt_last_ok := True\<rparr>
      else case sys_write sys data (rt_os rt) of (wrote, os) \<Rightarrow>
        if wrote \<le> 0 then rt\<lparr>rt_os := os, rt_last_ok := False\<rparr>
        else nex_runtime_print_str sys (drop (nat wrote) data) (rt\<lparr>rt_os := os\<rparr>))"
  by pat_completeness auto
termination by (relation "measure (\<lambda>(sys, data, rt). length data)") auto

declare nex_runtime_print_str.simps [simp del]

definition nex_runtime_println_str :: "'os syscalls \<Rightarrow> string \<Rightarrow> 'os runtime \<Rightarrow> 'os runtime" where
  "nex_runtime_println_str sys data rt =
     (let rt1 = nex_runtime_print_str sys data rt
      in if \<not> rt_last_ok rt1 then rt1
         else case sys_write sys [CHR 0x0A] (rt_os rt1) of (wrote, os) \<Rightarrow>
           rt1\<lparr>rt_os := os, rt_last_ok := (wrote = 1)\<rparr>)"

section \<open>Input\<close>

definition readln_capacity :: nat where
  "readln_capacity = 4096"

text \<open>The loop need not end: \<open>None\<close> stands for an input of carriage returns without end.\<close>

partial_function (option) readln_loop :: "'os syscalls \<Rightarrow> 'os runtime \<Rightarrow> 'os runtime option" where
  "readln_loop sys rt =
     (if length (rt_readln_buffer rt) + 1 < readln_capacity then
        (case sys_read sys (rt_os rt) of ((got, c), os) \<Rightarrow>
           let rt1 = rt\<lparr>rt_os := os\<rparr> in
           if got = 0 then Some (rt1\<lparr>rt_last_ok := (rt_readln_buffer rt1 \<noteq> [])\<rparr>)
           else if got < 0 then Some (rt1\<lparr>rt_last_ok := False, rt_readln_buffer := []\<rparr>)
           else if c = CHR 0x0A then Some rt1
           else if c = CHR 0x0D then readln_loop sys rt1
           else readln_loop sys (rt1\<lparr>rt_readln_buffer := rt_readln_buffer rt1 @ [c]\<rparr>))
      else Some rt)"

definition nex_runtime_readln_data :: "'os syscalls \<Rightarrow> 'os runtime \<Rightarrow> (string \<times> 'os runtime) option" where
  "nex_runtime_readln_data sys rt =
     map_option (\<lambda>rt1.
       let rt2 = (if rt_readln_buffer rt1 \<noteq> [] then rt1\<lparr>rt_last_ok := True\<rparr> else rt1)
       in (rt_readln_buffer rt2, rt2)) (readln_loop sys (rt\<lparr>rt_readln_buffer := []\<rparr>))"

definition nex_runtime_readln_len :: "'os runtime \<Rightarrow> 64 word" where
  "nex_runtime_readln_len rt = of_nat (length (rt_readln_buffer rt))"

definition nex_runtime_last_ok_flag :: "'os runtime \<Rightarrow> bool" where
  "nex_runtime_last_ok_flag rt = rt_last_ok rt"

section \<open>Reading numbers\<close>

definition ascii_is_space :: "char \<Rightarrow> bool" where
  "ascii_is_space c \<longleftrightarrow> c = CHR '' '' \<or> c = CHR 0x09 \<or> c = CHR 0x0A \<or> c = CHR 0x0D"

definition ascii_is_digit :: "char \<Rightarrow> bool" where
  "ascii_is_digit c \<longleftrightarrow> CHR ''0'' \<le> c \<and> c \<le> CHR ''9''"

fun skip_spaces :: "string \<Rightarrow> string" where
  "skip_spaces [] = []"
| "skip_spaces (c # s) = (if ascii_is_space c then skip_spaces s else c # s)"

text \<open>The loop over the digits: value, whether there was one, and the rest; \<open>None\<close> on overflow.\<close>

fun scan_digits :: "64 word \<Rightarrow> bool \<Rightarrow> string \<Rightarrow> (64 word \<times> bool \<times> string) option" where
  "scan_digits v saw_digit [] = Some (v, saw_digit, [])"
| "scan_digits v saw_digit (c # s) =
     (if ascii_is_digit c then
        let digit = of_nat (code c - code (CHR ''0''))
        in if v > (- 1 - digit) div 10 then None else scan_digits (v * 10 + digit) True s
      else Some (v, saw_digit, c # s))"

definition parse_u64_ascii :: "string \<Rightarrow> 64 word option" where
  "parse_u64_ascii data =
     (let s = skip_spaces data
      in if s = [] then None
         else case scan_digits 0 False s of
           None \<Rightarrow> None
         | Some (v, saw_digit, r) \<Rightarrow> if \<not> saw_digit \<or> skip_spaces r \<noteq> [] then None else Some v)"

definition sign_of :: "string \<Rightarrow> bool \<times> string" where
  "sign_of s =
     (case s of [] \<Rightarrow> (False, [])
      | c # r \<Rightarrow> if c = CHR ''-'' \<or> c = CHR ''+'' then (c = CHR ''-'', r) else (False, s))"

definition nex_runtime_parse_i32 :: "string \<Rightarrow> 'os runtime \<Rightarrow> 32 word \<times> 'os runtime" where
  "nex_runtime_parse_i32 data rt =
     (let fail = (0, rt\<lparr>rt_last_ok := False\<rparr>)
      in case sign_of (skip_spaces data) of (negative, s) \<Rightarrow>
        case scan_digits 0 False s of
          None \<Rightarrow> fail
        | Some (v, saw_digit, r) \<Rightarrow>
            if \<not> saw_digit \<or> skip_spaces r \<noteq> [] then fail
            else if negative then
              (if v > 2147483648 then fail else (ucast (- v), rt\<lparr>rt_last_ok := True\<rparr>))
            else if v > 2147483647 then fail
            else (ucast v, rt\<lparr>rt_last_ok := True\<rparr>))"

definition nex_runtime_parse_u64 :: "string \<Rightarrow> 'os runtime \<Rightarrow> 64 word \<times> 'os runtime" where
  "nex_runtime_parse_u64 data rt =
     (case parse_u64_ascii data of
        None \<Rightarrow> (0, rt\<lparr>rt_last_ok := False\<rparr>)
      | Some v \<Rightarrow> (v, rt\<lparr>rt_last_ok := True\<rparr>))"

definition nex_runtime_parse_bool :: "string \<Rightarrow> 'os runtime \<Rightarrow> bool \<times> 'os runtime" where
  "nex_runtime_parse_bool data rt =
     (if data = ''true'' then (True, rt\<lparr>rt_last_ok := True\<rparr>)
      else if data = ''false'' then (False, rt\<lparr>rt_last_ok := True\<rparr>)
      else if data = ''1'' then (True, rt\<lparr>rt_last_ok := True\<rparr>)
      else if data = ''0'' then (False, rt\<lparr>rt_last_ok := True\<rparr>)
      else (False, rt\<lparr>rt_last_ok := False\<rparr>))"

section \<open>Printing numbers\<close>

text \<open>The loop that fills \<open>buf\<close> with the digits of a number, the last one first.\<close>

function base_digits :: "64 word \<Rightarrow> string \<Rightarrow> 64 word \<Rightarrow> string \<Rightarrow> string" where
  "base_digits base digits v buf =
     (if v = 0 \<or> base < 2 then buf
      else base_digits base digits (v div base) (buf @ [digits ! unat (v mod base)]))"
  by pat_completeness auto
termination
proof (relation "measure (\<lambda>(base, digits, v, buf). unat v)")
  fix base v :: "64 word" assume a: "\<not> (v = 0 \<or> base < 2)"
  then have "0 < unat v" "1 < unat base" by (simp_all add: unat_gt_0 word_less_nat_alt)
  then show "((base, digits, v div base, buf @ [digits ! unat (v mod base)]), base, digits, v, buf)
      \<in> measure (\<lambda>(base, digits, v, buf). unat v)" for digits buf
    by (simp add: unat_div)
qed simp

declare base_digits.simps [simp del]

definition decimal_text :: "64 word \<Rightarrow> string" where
  "decimal_text u = (if u = 0 then ''0'' else rev (base_digits 10 ''0123456789'' u []))"

definition print_u64_decimal :: "'os syscalls \<Rightarrow> 64 word \<Rightarrow> 'os runtime \<Rightarrow> 'os runtime" where
  "print_u64_decimal sys u = nex_runtime_print_str sys (decimal_text u)"

definition nex_runtime_print_u64 :: "'os syscalls \<Rightarrow> 64 word \<Rightarrow> 'os runtime \<Rightarrow> 'os runtime" where
  "nex_runtime_print_u64 sys v = print_u64_decimal sys v"

definition base_text :: "64 word \<Rightarrow> string \<Rightarrow> 64 word \<Rightarrow> string" where
  "base_text base digits v = (if v = 0 then ''0'' else rev (base_digits base digits v []))"

definition print_u64_base :: "'os syscalls \<Rightarrow> 64 word \<Rightarrow> 64 word \<Rightarrow> string \<Rightarrow> 'os runtime \<Rightarrow> 'os runtime" where
  "print_u64_base sys v base digits = nex_runtime_print_str sys (base_text base digits v)"

definition nex_runtime_print_u64_hex_lower :: "'os syscalls \<Rightarrow> 64 word \<Rightarrow> 'os runtime \<Rightarrow> 'os runtime" where
  "nex_runtime_print_u64_hex_lower sys v = print_u64_base sys v 16 ''0123456789abcdef''"

definition nex_runtime_print_u64_hex_upper :: "'os syscalls \<Rightarrow> 64 word \<Rightarrow> 'os runtime \<Rightarrow> 'os runtime" where
  "nex_runtime_print_u64_hex_upper sys v = print_u64_base sys v 16 ''0123456789ABCDEF''"

definition nex_runtime_print_u64_binary :: "'os syscalls \<Rightarrow> 64 word \<Rightarrow> 'os runtime \<Rightarrow> 'os runtime" where
  "nex_runtime_print_u64_binary sys v = print_u64_base sys v 2 ''01''"

definition nex_runtime_print_i64 :: "'os syscalls \<Rightarrow> 64 word \<Rightarrow> 'os runtime \<Rightarrow> 'os runtime" where
  "nex_runtime_print_i64 sys v rt =
     (if 0 \<le> sint v then print_u64_decimal sys v rt
      else print_u64_decimal sys (not v + 1) (nex_runtime_print_str sys ''-'' rt))"

definition nex_runtime_print_bool :: "'os syscalls \<Rightarrow> bool \<Rightarrow> 'os runtime \<Rightarrow> 'os runtime" where
  "nex_runtime_print_bool sys v = nex_runtime_print_str sys (if v then ''true'' else ''false'')"

text \<open>Parts of the fixed point printer that need no floating point.\<close>

fun pow10_u64 :: "nat \<Rightarrow> 64 word" where
  "pow10_u64 0 = 1"
| "pow10_u64 (Suc precision) = pow10_u64 precision * 10"

text \<open>The digits are stored from the last place to the first.\<close>

fun zero_padded :: "nat \<Rightarrow> 64 word \<Rightarrow> string \<Rightarrow> string" where
  "zero_padded 0 v buf = buf"
| "zero_padded (Suc w) v buf = zero_padded w (v div 10) (''0123456789'' ! unat (v mod 10) # buf)"

definition print_zero_padded_u64 :: "'os syscalls \<Rightarrow> 64 word \<Rightarrow> nat \<Rightarrow> 'os runtime \<Rightarrow> 'os runtime" where
  "print_zero_padded_u64 sys v width = nex_runtime_print_str sys (zero_padded width v [])"

end
