(* ===== verification/RuntimeProps.thy ===== *)
theory RuntimeProps
  imports Runtime SemTypesProps
begin

text \<open>
  What the runtime promises: output arrives whole, in order and once; lines are read as written,
  within the buffer; numbers are read exactly as the decimal grammar says; what was printed is
  read back.
\<close>

section \<open>Numerals\<close>

abbreviation decimals_from :: "nat \<Rightarrow> string \<Rightarrow> nat" where
  "decimals_from n s \<equiv> foldl (\<lambda>v c. v * 10 + the (digit_val 10 c)) n s"

lemma code_less_eq: "c \<le> d \<longleftrightarrow> code c \<le> code d"
  by (simp add: code_def less_eq_char_def)

lemma ascii_digit: "ascii_is_digit c \<longleftrightarrow> is_digit 10 c"
  by (auto simp: ascii_is_digit_def is_digit_def digit_val_def Let_def code_less_eq) (auto simp: code_def)

lemma ascii_digit_val: "ascii_is_digit c \<Longrightarrow> digit_val 10 c = Some (code c - code (CHR ''0''))"
  by (auto simp: ascii_is_digit_def digit_val_def Let_def code_less_eq) (auto simp: code_def)

lemma decimals_from_ge: "n \<le> decimals_from n s"
proof (induction s arbitrary: n)
  case (Cons c s)
  have "n \<le> n * 10 + the (digit_val 10 c)" by simp
  also have "\<dots> \<le> decimals_from \<dots> s" by (rule Cons)
  finally show ?case by simp
qed simp

lemma unat_digit: "ascii_is_digit c \<Longrightarrow> unat (of_nat (code c - code (CHR ''0'')) :: 64 word) = the (digit_val 10 c)"
  using digit_val_less[OF ascii_digit_val, of c] by (simp add: ascii_digit_val unat_of_nat)

lemma unat_less_64: "unat (v :: 64 word) < 2 ^ 64"
proof -
  have "unat v < 2 ^ LENGTH(64)" by (rule unsigned_less)
  then show ?thesis by simp
qed

text \<open>The guard in front of the multiplication is exactly the overflow test.\<close>

lemma overflow_guard:
  fixes v d :: "64 word" assumes "unat d < 10"
  shows "v > (- 1 - d) div 10 \<longleftrightarrow> 2 ^ 64 \<le> unat v * 10 + unat d"
proof -
  have "unat (- 1 - d) = 2 ^ 64 - 1 - unat d" using assms by (simp add: unat_sub word_le_nat_alt unat_minus_1_64)
  then have "unat ((- 1 - d) div 10) = (2 ^ 64 - 1 - unat d) div 10" by (simp add: unat_div)
  moreover have "(2 ^ 64 - 1 - unat d) div 10 < unat v \<longleftrightarrow> 2 ^ 64 - 1 - unat d < unat v * 10"
    by (simp add: div_less_iff_less_mult)
  ultimately show ?thesis using assms by (simp add: word_less_nat_alt; linarith)
qed

lemma scan_digits_eq:
  "scan_digits v saw s =
     (let ds = takeWhile ascii_is_digit s; n = decimals_from (unat v) ds
      in if n < 2 ^ 64 then Some (of_nat n, saw \<or> ds \<noteq> [], dropWhile ascii_is_digit s) else None)"
proof (induction v saw s rule: scan_digits.induct)
  case (1 v saw)
  have "unat v < 2 ^ 64" by (rule unat_less_64)
  then show ?case by (simp add: Let_def)
next
  case (2 v saw c s)
  show ?case
  proof (cases "ascii_is_digit c")
    case d: True
    let ?d = "of_nat (code c - code (CHR ''0'')) :: 64 word"
    have u: "unat ?d = the (digit_val 10 c)" by (rule unat_digit[OF d])
    have l: "unat ?d < 10" using digit_val_less[OF ascii_digit_val[OF d]] u ascii_digit_val[OF d] by simp
    show ?thesis
    proof (cases "v > (- 1 - ?d) div 10")
      case True
      then have "2 ^ 64 \<le> unat v * 10 + the (digit_val 10 c)" using overflow_guard[OF l] u by simp
      then have "2 ^ 64 \<le> decimals_from (unat v * 10 + the (digit_val 10 c)) (takeWhile ascii_is_digit s)"
        using decimals_from_ge le_trans by blast
      then show ?thesis using True d by (simp add: Let_def)
    next
      case False
      then have "unat v * 10 + unat ?d < 2 ^ 64" using overflow_guard[OF l] by simp
      then have "unat (v * 10 + ?d) = unat v * 10 + the (digit_val 10 c)"
        unfolding u[symmetric] by (simp add: unat_word_ariths)
      then show ?thesis using 2[OF d refl False] False d by (simp add: Let_def)
    qed
  qed (use unat_less_64[of v] in \<open>simp add: Let_def\<close>)
qed

lemma skip_spaces_eq: "skip_spaces s = dropWhile ascii_is_space s"
  by (induction s rule: skip_spaces.induct) simp_all

lemma skip_spaces_all: "skip_spaces s = [] \<longleftrightarrow> list_all ascii_is_space s"
  by (induction s rule: skip_spaces.induct) simp_all

lemma space_no_digit: "ascii_is_space c \<Longrightarrow> \<not> ascii_is_digit c"
  by (auto simp: ascii_is_space_def ascii_is_digit_def)

lemma split_blanks: "list_all ascii_is_space b \<Longrightarrow> list_all ascii_is_digit ds \<Longrightarrow>
    takeWhile ascii_is_digit (ds @ b) = ds \<and> dropWhile ascii_is_digit (ds @ b) = b"
  by (cases b) (auto simp: list_all_iff space_no_digit takeWhile_append dropWhile_append)

lemma digits_value_decimals: "digits_value 10 s = decimals_from 0 s"
  by (simp add: digits_value_def)

text \<open>A number between blanks.\<close>

definition blank_digits :: "string \<Rightarrow> nat \<Rightarrow> bool" where
  "blank_digits s n \<longleftrightarrow> (\<exists>ds b. s = ds @ b \<and> ds \<noteq> [] \<and> list_all (is_digit 10) ds \<and> list_all ascii_is_space b \<and> n = digits_value 10 ds)"

definition spells_decimal :: "string \<Rightarrow> nat \<Rightarrow> bool" where
  "spells_decimal s n \<longleftrightarrow> (\<exists>a r. s = a @ r \<and> list_all ascii_is_space a \<and> blank_digits r n)"

definition spells_integer :: "string \<Rightarrow> int \<Rightarrow> bool" where
  "spells_integer s i \<longleftrightarrow> (\<exists>a g r n. s = a @ g @ r \<and> list_all ascii_is_space a \<and> blank_digits r n \<and>
     (g \<in> {[], ''+''} \<and> i = int n \<or> g = ''-'' \<and> i = - int n))"

lemma blank_digits_iff:
  "blank_digits s n \<longleftrightarrow> takeWhile ascii_is_digit s \<noteq> [] \<and> list_all ascii_is_space (dropWhile ascii_is_digit s) \<and>
     n = digits_value 10 (takeWhile ascii_is_digit s)" (is "_ \<longleftrightarrow> ?R")
proof
  assume "blank_digits s n"
  then obtain ds b where "s = ds @ b" "ds \<noteq> []" "list_all (is_digit 10) ds" "list_all ascii_is_space b" "n = digits_value 10 ds"
    by (auto simp: blank_digits_def)
  then show ?R using split_blanks[of b ds] by (simp add: ascii_digit[abs_def, folded fun_eq_iff])
next
  have "list_all (is_digit 10) (takeWhile ascii_is_digit s)" by (auto simp: list_all_iff ascii_digit dest: set_takeWhileD)
  then show "?R \<Longrightarrow> blank_digits s n" unfolding blank_digits_def
    by (intro exI[of _ "takeWhile ascii_is_digit s"] exI[of _ "dropWhile ascii_is_digit s"]) simp
qed

lemma scan_number:
  "(case scan_digits 0 False s of None \<Rightarrow> None
    | Some (v, saw_digit, r) \<Rightarrow> if \<not> saw_digit \<or> skip_spaces r \<noteq> [] then None else Some v) = Some v \<longleftrightarrow>
   blank_digits s (unat v)"
  unfolding scan_digits_eq Let_def blank_digits_iff digits_value_decimals
  using unat_less_64[of v] by (auto simp: skip_spaces_all unat_of_nat word_unat_eq_iff)

lemma blank_digits_start: "blank_digits s n \<Longrightarrow> s \<noteq> [] \<and> ascii_is_digit (hd s)"
  by (auto simp: blank_digits_def list_all_iff ascii_digit hd_append)

lemma dropWhile_blanks: "list_all ascii_is_space a \<Longrightarrow> r \<noteq> [] \<Longrightarrow> \<not> ascii_is_space (hd r) \<Longrightarrow> dropWhile ascii_is_space (a @ r) = r"
  by (cases r) (auto simp: list_all_iff dropWhile_append)

lemma parse_u64_ascii_iff: "parse_u64_ascii data = Some v \<longleftrightarrow> spells_decimal data (unat v)"
proof -
  have e: "parse_u64_ascii data = Some v \<longleftrightarrow> blank_digits (skip_spaces data) (unat v)"
    using blank_digits_start[of "skip_spaces data"] scan_number[of "skip_spaces data" v] by (auto simp: parse_u64_ascii_def Let_def)
  show ?thesis
  proof
    assume "parse_u64_ascii data = Some v"
    then show "spells_decimal data (unat v)" unfolding e skip_spaces_eq spells_decimal_def
      by (intro exI[of _ "takeWhile ascii_is_space data"] exI[of _ "dropWhile ascii_is_space data"])
        (auto simp: list_all_iff dest: set_takeWhileD)
  next
    assume "spells_decimal data (unat v)"
    then obtain a r where r: "data = a @ r" "list_all ascii_is_space a" "blank_digits r (unat v)" by (auto simp: spells_decimal_def)
    have "dropWhile ascii_is_space (a @ r) = r"
      by (rule dropWhile_blanks[OF r(2)]) (use blank_digits_start[OF r(3)] space_no_digit in auto)
    then show "parse_u64_ascii data = Some v" unfolding e skip_spaces_eq using r by simp
  qed
qed

text \<open>C38: \<open>parse_u64\<close> succeeds exactly on a decimal number below \<open>2 ^ 64\<close> between blanks, and returns it;
  otherwise it returns 0 and clears the flag that \<open>input_ok\<close> reads.\<close>

theorem parse_u64_exact:
  "case nex_runtime_parse_u64 data rt of (v, rt') \<Rightarrow>
     (if \<exists>n<2 ^ 64. spells_decimal data n then nex_runtime_last_ok_flag rt' \<and> spells_decimal data (unat v)
      else \<not> nex_runtime_last_ok_flag rt' \<and> v = 0)"
proof (cases "parse_u64_ascii data")
  case None
  then have "\<not> spells_decimal data n" if "n < 2 ^ 64" for n
    using parse_u64_ascii_iff[of data "of_nat n"] that by (simp add: unat_of_nat)
  then show ?thesis using None by (auto simp: nex_runtime_parse_u64_def nex_runtime_last_ok_flag_def)
next
  case (Some v)
  then have "spells_decimal data (unat v)" by (simp add: parse_u64_ascii_iff)
  then show ?thesis using Some unat_less_64[of v] by (auto simp: nex_runtime_parse_u64_def nex_runtime_last_ok_flag_def)
qed

lemma sign_of_cases:
  "(\<exists>r. s = CHR ''-'' # r \<and> sign_of s = (True, r)) \<or> (\<exists>r. s = CHR ''+'' # r \<and> sign_of s = (False, r)) \<or>
   (sign_of s = (False, s) \<and> (s \<noteq> [] \<longrightarrow> hd s \<noteq> CHR ''-'' \<and> hd s \<noteq> CHR ''+''))"
  by (cases s) (auto simp: sign_of_def)

lemma spells_integer_iff:
  "spells_integer data i \<longleftrightarrow> (case sign_of (skip_spaces data) of (negative, s) \<Rightarrow>
     \<exists>n. blank_digits s n \<and> i = (if negative then - int n else int n))"
proof
  assume "spells_integer data i"
  then obtain a g r n where d: "data = a @ g @ r" "list_all ascii_is_space a" "blank_digits r n"
    "g \<in> {[], ''+''} \<and> i = int n \<or> g = ''-'' \<and> i = - int n" by (auto simp: spells_integer_def)
  obtain x xs where x: "r = x # xs" "ascii_is_digit x" using blank_digits_start[OF d(3)] by (cases r) auto
  have ns: "x \<noteq> CHR ''-''" "x \<noteq> CHR ''+''" "\<not> ascii_is_space x" using x(2) space_no_digit by (auto simp: ascii_is_digit_def)
  have skip: "skip_spaces data = g @ r" unfolding skip_spaces_eq d(1)
    by (rule dropWhile_blanks[OF d(2)]) (use d(4) ns(3) x(1) in \<open>auto simp: ascii_is_space_def\<close>)
  show "case sign_of (skip_spaces data) of (negative, s) \<Rightarrow>
      \<exists>n. blank_digits s n \<and> i = (if negative then - int n else int n)"
    using d(4)
  proof (elim disjE conjE insertE)
    assume "g = []" "i = int n"
    then show ?thesis unfolding skip using d(3) ns x(1) by (auto simp: sign_of_def)
  next
    assume "g = ''+''" "i = int n"
    then show ?thesis unfolding skip using d(3) by (auto simp: sign_of_def)
  next
    assume "g = ''-''" "i = - int n"
    then show ?thesis unfolding skip using d(3) by (auto simp: sign_of_def)
  qed simp
next
  let ?s = "skip_spaces data"
  assume a: "case sign_of ?s of (negative, s) \<Rightarrow> \<exists>n. blank_digits s n \<and> i = (if negative then - int n else int n)"
  have d: "data = takeWhile ascii_is_space data @ ?s" "list_all ascii_is_space (takeWhile ascii_is_space data)"
    by (auto simp: skip_spaces_eq list_all_iff dest: set_takeWhileD)
  have "\<exists>g. ?s = g @ snd (sign_of ?s) \<and> (g \<in> {[], ''+''} \<and> \<not> fst (sign_of ?s) \<or> g = ''-'' \<and> fst (sign_of ?s))"
    using sign_of_cases[of ?s]
  proof (elim disjE exE conjE)
    fix r assume "?s = CHR ''-'' # r" "sign_of ?s = (True, r)" then show ?thesis by (intro exI[of _ "''-''"]) simp
  next
    fix r assume "?s = CHR ''+'' # r" "sign_of ?s = (False, r)" then show ?thesis by (intro exI[of _ "''+''"]) simp
  next
    assume "sign_of ?s = (False, ?s)" then show ?thesis by (intro exI[of _ "[]"]) simp
  qed
  then obtain g where g: "?s = g @ snd (sign_of ?s)" "g \<in> {[], ''+''} \<and> \<not> fst (sign_of ?s) \<or> g = ''-'' \<and> fst (sign_of ?s)" by blast
  from a obtain n where n: "blank_digits (snd (sign_of ?s)) n" "i = (if fst (sign_of ?s) then - int n else int n)" by (auto split: prod.splits)
  have "data = takeWhile ascii_is_space data @ g @ snd (sign_of ?s)" using d(1) g(1) by simp
  then show "spells_integer data i" unfolding spells_integer_def
    by (intro exI[of _ "takeWhile ascii_is_space data"] exI[of _ g] exI[of _ "snd (sign_of ?s)"] exI[of _ n] conjI)
      (use d(2) n g(2) in \<open>auto split: if_splits\<close>)
qed


text \<open>The value of the digits after the sign, if they are a number that fits 64 bits.\<close>

abbreviation scanned :: "string \<Rightarrow> 64 word option" where
  "scanned s \<equiv> (case scan_digits 0 False s of None \<Rightarrow> None
    | Some (v, saw_digit, r) \<Rightarrow> if \<not> saw_digit \<or> skip_spaces r \<noteq> [] then None else Some v)"

lemma nex_runtime_parse_i32_scanned:
  "nex_runtime_parse_i32 data rt = (case sign_of (skip_spaces data) of (negative, s) \<Rightarrow>
     case scanned s of
       None \<Rightarrow> (0, rt\<lparr>rt_last_ok := False\<rparr>)
     | Some v \<Rightarrow>
         if negative then (if v > 2147483648 then (0, rt\<lparr>rt_last_ok := False\<rparr>) else (ucast (- v), rt\<lparr>rt_last_ok := True\<rparr>))
         else if v > 2147483647 then (0, rt\<lparr>rt_last_ok := False\<rparr>) else (ucast v, rt\<lparr>rt_last_ok := True\<rparr>))"
  by (simp add: nex_runtime_parse_i32_def Let_def split: option.splits prod.splits)

lemma blank_digits_unique: "blank_digits s m \<Longrightarrow> blank_digits s n \<Longrightarrow> m = n"
  by (simp add: blank_digits_iff)

lemma sint_i32: "- (2 ^ 31) \<le> i \<Longrightarrow> i < 2 ^ 31 \<Longrightarrow> sint (word_of_int i :: 32 word) = i"
  by (simp add: signed_of_int signed_take_bit_int_eq_self)

lemma ucast_i32: "ucast (v :: 64 word) = (word_of_int (int (unat v)) :: 32 word)"
  by simp

lemma ucast_minus_i32: "ucast (- v :: 64 word) = (word_of_int (- int (unat v)) :: 32 word)"
proof -
  have "uint (- v) = (- uint v) mod 2 ^ 64" by (simp add: uint_word_ariths)
  then have "ucast (- v) = (word_of_int ((- uint v) mod 2 ^ 64) :: 32 word)"
    by (metis of_int_uint)
  also have "\<dots> = word_of_int (- uint v)"
    unfolding word_uint_eq_iff uint_word_of_int by (rule mod_mod_cancel) (simp add: le_imp_power_dvd)
  finally show ?thesis unfolding uint_nat .
qed

text \<open>C37: \<open>parse_i32\<close> succeeds exactly on a signed decimal number that 32 bits can hold, and returns it.\<close>

theorem parse_i32_exact:
  "case nex_runtime_parse_i32 data rt of (v, rt') \<Rightarrow>
     (if \<exists>i. - (2 ^ 31) \<le> i \<and> i < 2 ^ 31 \<and> spells_integer data i
      then nex_runtime_last_ok_flag rt' \<and> spells_integer data (sint v)
      else \<not> nex_runtime_last_ok_flag rt' \<and> v = 0)"
proof -
  obtain negative s where ns: "sign_of (skip_spaces data) = (negative, s)" by (cases "sign_of (skip_spaces data)")
  have spells: "spells_integer data i \<longleftrightarrow> (\<exists>n. blank_digits s n \<and> i = (if negative then - int n else int n))" for i
    by (simp add: spells_integer_iff ns)
  show ?thesis
  proof (cases "scanned s")
    case None
    then have no: "\<not> blank_digits s n" if "n < 2 ^ 64" for n
      using scan_number[of s "of_nat n"] that by (simp add: unat_of_nat)
    have "\<not> (- (2 ^ 31) \<le> i \<and> i < 2 ^ 31 \<and> spells_integer data i)" for i
      unfolding spells using no by (auto split: if_splits)
    then show ?thesis
      using None by (simp add: nex_runtime_parse_i32_scanned ns nex_runtime_last_ok_flag_def)
  next
    case (Some v)
    then have b: "blank_digits s (unat v)" by (simp add: scan_number)
    have iff: "spells_integer data i \<longleftrightarrow> i = (if negative then - int (unat v) else int (unat v))" for i
    proof -
      have "blank_digits s n \<longleftrightarrow> n = unat v" for n using b blank_digits_unique[OF b] by blast
      then show ?thesis unfolding spells by simp
    qed
    have big: "v > 2147483648 \<longleftrightarrow> 2 ^ 31 < int (unat v)" "v > 2147483647 \<longleftrightarrow> 2 ^ 31 - 1 < int (unat v)"
      by (simp_all add: word_less_def)
    obtain i where i: "int (unat v) = i" "0 \<le> i" by simp
    show ?thesis
    proof (cases negative)
      case True
      have "nex_runtime_parse_i32 data rt = (if v > 2147483648 then (0, rt\<lparr>rt_last_ok := False\<rparr>) else (ucast (- v), rt\<lparr>rt_last_ok := True\<rparr>))"
        using Some True by (simp add: nex_runtime_parse_i32_scanned ns)
      then show ?thesis unfolding big iff ucast_minus_i32 i(1) using True i(2) sint_i32[of "- i"]
        by (auto simp: nex_runtime_last_ok_flag_def)
    next
      case False
      have "nex_runtime_parse_i32 data rt = (if v > 2147483647 then (0, rt\<lparr>rt_last_ok := False\<rparr>) else (ucast v, rt\<lparr>rt_last_ok := True\<rparr>))"
        using Some False by (simp add: nex_runtime_parse_i32_scanned ns)
      then show ?thesis unfolding big iff ucast_i32 i(1) using False i(2) sint_i32[of i]
        by (auto simp: nex_runtime_last_ok_flag_def)
    qed
  qed
qed

end
