(* ===== verification/RuntimeIo.thy ===== *)
theory RuntimeIo
  imports RuntimeProps
begin

text \<open>
  The runtime against the operating system: what \<open>write\<close> and \<open>read\<close> are documented to do is
  stated as predicates on the two system calls; what the output and input functions promise
  rests on them.
\<close>

section \<open>Output\<close>

text \<open>
  \<open>out os\<close> is what the file behind descriptor 1 holds. \<open>write\<close> appends the bytes it counts, at
  most those it is given; a call that makes progress counts at least one.
\<close>

definition file_write :: "'os syscalls \<Rightarrow> ('os \<Rightarrow> string) \<Rightarrow> bool" where
  "file_write sys out \<longleftrightarrow> (\<forall>data os. data \<noteq> [] \<longrightarrow> (case sys_write sys data os of (wrote, os') \<Rightarrow>
     wrote \<le> int (length data) \<and> out os' = out os @ take (nat wrote) data))"

definition progresses :: "'os syscalls \<Rightarrow> bool" where
  "progresses sys \<longleftrightarrow> (\<forall>data os. data \<noteq> [] \<longrightarrow> 0 < fst (sys_write sys data os))"

lemma file_writeD:
  assumes "file_write sys out" "data \<noteq> []" "sys_write sys data os = (wrote, os')"
  shows "wrote \<le> int (length data)" "out os' = out os @ take (nat wrote) data"
proof -
  have "case sys_write sys data os of (wrote, os') \<Rightarrow> wrote \<le> int (length data) \<and> out os' = out os @ take (nat wrote) data"
    by (rule assms(1)[unfolded file_write_def, rule_format, OF assms(2)])
  then show "wrote \<le> int (length data)" "out os' = out os @ take (nat wrote) data" by (simp_all add: assms(3))
qed

definition printed :: "'os syscalls \<Rightarrow> ('os \<Rightarrow> string) \<Rightarrow> string \<Rightarrow> 'os runtime \<Rightarrow> 'os runtime \<Rightarrow> bool" where
  "printed sys out data rt rt' \<longleftrightarrow> (\<exists>k\<le>length data. out (rt_os rt') = out (rt_os rt) @ take k data \<and>
     (rt_last_ok rt' \<longleftrightarrow> k = length data) \<and> (progresses sys \<longrightarrow> k = length data))"

lemma print_str_printed:
  assumes "file_write sys out"
  shows "printed sys out data rt (nex_runtime_print_str sys data rt)"
proof (induction "length data" arbitrary: data rt rule: less_induct)
  case less
  show ?case
  proof (cases "data = []")
    case True
    then show ?thesis by (subst nex_runtime_print_str.simps) (simp add: printed_def)
  next
    case ne: False
    obtain wrote os where w: "sys_write sys data (rt_os rt) = (wrote, os)" by (cases "sys_write sys data (rt_os rt)")
    note o = file_writeD[OF assms ne w]
    show ?thesis
    proof (cases "wrote \<le> 0")
      case True
      have "\<not> progresses sys" using ne w True unfolding progresses_def by (metis fst_conv not_le)
      moreover have "nex_runtime_print_str sys data rt = rt\<lparr>rt_os := os, rt_last_ok := False\<rparr>"
        using ne w True by (subst nex_runtime_print_str.simps) simp
      ultimately show ?thesis unfolding printed_def using ne True o by (intro exI[of _ 0]) simp
    next
      case False
      let ?rt = "rt\<lparr>rt_os := os\<rparr>" and ?n = "nat wrote"
      have e: "nex_runtime_print_str sys data rt = nex_runtime_print_str sys (drop ?n data) ?rt"
        using ne w False by (subst nex_runtime_print_str.simps) simp
      have "printed sys out (drop ?n data) ?rt (nex_runtime_print_str sys (drop ?n data) ?rt)"
        by (rule less) (use False ne in simp)
      then obtain k where k: "k \<le> length data - ?n"
        "out (rt_os (nex_runtime_print_str sys data rt)) = out os @ take k (drop ?n data)"
        "rt_last_ok (nex_runtime_print_str sys data rt) \<longleftrightarrow> k = length data - ?n" "progresses sys \<longrightarrow> k = length data - ?n"
        unfolding e printed_def by auto
      have n: "?n \<le> length data" using o(1) by simp
      have "out (rt_os (nex_runtime_print_str sys data rt)) = out (rt_os rt) @ take (?n + k) data"
        unfolding k(2) o(2) by (simp add: take_add)
      then show ?thesis unfolding printed_def using k n by (intro exI[of _ "?n + k"]) auto
    qed
  qed
qed

lemma println_str_printed:
  assumes "file_write sys out"
  shows "printed sys out (data @ [CHR 0x0A]) rt (nex_runtime_println_str sys data rt)"
proof -
  let ?rt1 = "nex_runtime_print_str sys data rt"
  obtain k where k: "k \<le> length data" "out (rt_os ?rt1) = out (rt_os rt) @ take k data"
    "rt_last_ok ?rt1 \<longleftrightarrow> k = length data" "progresses sys \<longrightarrow> k = length data"
    using print_str_printed[OF assms, of data rt] unfolding printed_def by blast
  show ?thesis
  proof (cases "rt_last_ok ?rt1")
    case False
    then show ?thesis unfolding printed_def nex_runtime_println_str_def Let_def using k by (intro exI[of _ k]) auto
  next
    case True
    obtain wrote os where w: "sys_write sys [CHR 0x0A] (rt_os ?rt1) = (wrote, os)" by (cases "sys_write sys [CHR 0x0A] (rt_os ?rt1)")
    have o: "wrote \<le> 1" "out os = out (rt_os ?rt1) @ take (nat wrote) [CHR 0x0A]" using file_writeD[OF assms _ w] by simp_all
    have p: "progresses sys \<Longrightarrow> 0 < wrote" using w unfolding progresses_def by (metis fst_conv list.distinct(1))
    have e: "nex_runtime_println_str sys data rt = ?rt1\<lparr>rt_os := os, rt_last_ok := (wrote = 1)\<rparr>"
      using True w by (simp add: nex_runtime_println_str_def Let_def)
    show ?thesis
    proof (cases "wrote = 1")
      case one: True
      show ?thesis unfolding printed_def e using True k o one by (intro exI[of _ "Suc (length data)"]) simp
    next
      case False
      then have "nat wrote = 0" "\<not> progresses sys" using o(1) p by auto
      then show ?thesis unfolding printed_def e using True k o False by (intro exI[of _ "length data"]) simp
    qed
  qed
qed

text \<open>C34: Whatever the system does, \<open>println\<close> writes a prefix of the line, in order and nothing twice, and
  the status flag says whether it was all of it.\<close>

theorem println_prefix:
  assumes "file_write sys out"
  shows "\<exists>written. out (rt_os (nex_runtime_println_str sys data rt)) = out (rt_os rt) @ written \<and>
    prefix written (data @ [CHR 0x0A]) \<and>
    (nex_runtime_last_ok_flag (nex_runtime_println_str sys data rt) \<longleftrightarrow> written = data @ [CHR 0x0A])"
proof -
  let ?l = "data @ [CHR 0x0A]" and ?rt = "nex_runtime_println_str sys data rt"
  obtain k where k: "k \<le> length ?l" "out (rt_os ?rt) = out (rt_os rt) @ take k ?l" "rt_last_ok ?rt \<longleftrightarrow> k = length ?l"
    using println_str_printed[OF assms, of data rt] unfolding printed_def by blast
  have "take k ?l = ?l \<longleftrightarrow> k = length ?l" using k(1) by (simp only: take_all_iff) linarith
  then show ?thesis unfolding nex_runtime_last_ok_flag_def
    by (intro exI[of _ "take k ?l"] conjI take_is_prefix) (simp_all only: k)
qed

text \<open>C35: When every call of \<open>write\<close> makes some progress, however little, all of the line arrives.\<close>

theorem println_delivers:
  assumes "file_write sys out" "progresses sys"
  shows "out (rt_os (nex_runtime_println_str sys data rt)) = out (rt_os rt) @ data @ [CHR 0x0A] \<and>
    nex_runtime_last_ok_flag (nex_runtime_println_str sys data rt)"
  using println_str_printed[OF assms(1), of data rt] assms(2) by (auto simp: printed_def nex_runtime_last_ok_flag_def)

text \<open>A terminal that takes at most three bytes at a time, with its input.\<close>

definition small_writes :: "(string \<times> string) syscalls" where
  "small_writes = \<lparr>sys_write = \<lambda>data (out, inp). (int (min 3 (length data)), (out @ take 3 data, inp)),
     sys_read = \<lambda>(out, inp). (case inp of [] \<Rightarrow> ((0, CHR 0x00), (out, [])) | c # r \<Rightarrow> ((1, c), (out, r)))\<rparr>"

lemma take_min_length: "take (min n (length xs)) xs = take n xs"
  by (cases "n \<le> length xs") simp_all

lemma small_writes_ok: "file_write small_writes fst" "progresses small_writes"
  by (auto simp: file_write_def progresses_def small_writes_def take_min_length)

lemma println_prefix_witness:
  "\<exists>written. fst (rt_os (nex_runtime_println_str small_writes ''nexus'' (runtime_start ([], [])))) = [] @ written \<and>
    prefix written (''nexus'' @ [CHR 0x0A]) \<and>
    (nex_runtime_last_ok_flag (nex_runtime_println_str small_writes ''nexus'' (runtime_start ([], []))) \<longleftrightarrow> written = ''nexus'' @ [CHR 0x0A])"
  using println_prefix[OF small_writes_ok(1), of "''nexus''" "runtime_start ([], [])"] by (simp add: runtime_start_def)

lemma println_delivers_witness:
  "fst (rt_os (nex_runtime_println_str small_writes ''nexus'' (runtime_start ([], [])))) = ''nexus'' @ [CHR 0x0A]"
  using println_delivers[OF small_writes_ok, of "''nexus''" "runtime_start ([], [])"] by (simp add: runtime_start_def)

section \<open>Input\<close>

text \<open>\<open>inp os\<close> is what is left to read from descriptor 0; \<open>read\<close> takes its first byte, and counts 0 at the end.\<close>

definition supplies :: "'os syscalls \<Rightarrow> ('os \<Rightarrow> string) \<Rightarrow> bool" where
  "supplies sys inp \<longleftrightarrow> (\<forall>os. case inp os of
     [] \<Rightarrow> fst (fst (sys_read sys os)) = 0 \<and> inp (snd (sys_read sys os)) = []
   | c # s \<Rightarrow> fst (sys_read sys os) = (1, c) \<and> inp (snd (sys_read sys os)) = s)"

text \<open>The line an input starts with, cut after \<open>n\<close> characters, and the rest.\<close>

fun line_of :: "nat \<Rightarrow> string \<Rightarrow> string \<times> string" where
  "line_of 0 s = ([], s)"
| "line_of (Suc n) [] = ([], [])"
| "line_of (Suc n) (c # s) =
     (if c = CHR 0x0A then ([], s) else if c = CHR 0x0D then line_of (Suc n) s
      else apfst ((#) c) (line_of n s))"

lemma line_of_text: "fst (line_of n s) = take n (filter (\<lambda>c. c \<noteq> CHR 0x0D) (takeWhile (\<lambda>c. c \<noteq> CHR 0x0A) s))"
  by (induction n s rule: line_of.induct) auto

lemma line_of_rest:
  "length (fst (line_of n s)) < n \<Longrightarrow> snd (line_of n s) = drop 1 (dropWhile (\<lambda>c. c \<noteq> CHR 0x0A) s)"
  "length (fst (line_of n s)) = n \<Longrightarrow> \<exists>p. s = p @ snd (line_of n s) \<and> CHR 0x0A \<notin> set p \<and> filter (\<lambda>c. c \<noteq> CHR 0x0D) p = fst (line_of n s)"
proof (induction n s rule: line_of.induct)
  case (3 n c s)
  { case 1 then show ?case using 3 by (auto split: if_splits) }
  { case 2
    show ?case
    proof (cases "c = CHR 0x0D")
      case True
      then obtain p where "s = p @ snd (line_of (Suc n) s)" "CHR 0x0A \<notin> set p" "filter (\<lambda>c. c \<noteq> CHR 0x0D) p = fst (line_of (Suc n) s)"
        using 3(2)[OF _ True] 2 by auto
      then show ?thesis using True by (intro exI[of _ "c # p"]) simp
    next
      case False
      then have "c \<noteq> CHR 0x0A" "length (fst (line_of n s)) = n" using 2 by (auto split: if_splits)
      then obtain p where "s = p @ snd (line_of n s)" "CHR 0x0A \<notin> set p" "filter (\<lambda>c. c \<noteq> CHR 0x0D) p = fst (line_of n s)"
        using 3(4)[OF _ False] by auto
      then show ?thesis using False \<open>c \<noteq> CHR 0x0A\<close> by (intro exI[of _ "c # p"]) simp
    qed }
qed auto

lemma readln_loop_line:
  assumes "supplies sys inp" "length (rt_readln_buffer rt) \<le> 4095" "inp (rt_os rt) = s"
  shows "\<exists>rt'. readln_loop sys rt = Some rt' \<and>
     rt_readln_buffer rt' = rt_readln_buffer rt @ fst (line_of (4095 - length (rt_readln_buffer rt)) s) \<and>
     inp (rt_os rt') = snd (line_of (4095 - length (rt_readln_buffer rt)) s) \<and>
     (rt_readln_buffer rt' = [] \<longrightarrow> (rt_last_ok rt' \<longleftrightarrow> CHR 0x0A \<in> set s \<and> rt_last_ok rt))"
  using assms(2,3)
proof (induction s arbitrary: rt)
  case Nil
  obtain got c os where r: "sys_read sys (rt_os rt) = ((got, c), os)" by (metis prod.exhaust)
  have "got = 0" "inp os = []" using assms(1)[unfolded supplies_def, rule_format, of "rt_os rt"] Nil(2) r by auto
  then show ?case using Nil r
    by (subst readln_loop.simps) (cases "4095 - length (rt_readln_buffer rt)"; auto simp: readln_capacity_def Let_def)
next
  case (Cons c s)
  obtain os where r: "sys_read sys (rt_os rt) = ((1, c), os)" and i: "inp os = s"
    using assms(1)[unfolded supplies_def, rule_format, of "rt_os rt"] Cons(3)
    by (cases "sys_read sys (rt_os rt)") auto
  show ?case
  proof (cases "length (rt_readln_buffer rt) < 4095")
    case False
    then show ?thesis using Cons(2,3) by (subst readln_loop.simps) (auto simp: readln_capacity_def)
  next
    case True
    then obtain n where n: "4095 - length (rt_readln_buffer rt) = Suc n" by (metis Suc_diff_Suc)
    have step1: "readln_loop sys rt =
        (if c = CHR 0x0A then Some (rt\<lparr>rt_os := os\<rparr>) else if c = CHR 0x0D then readln_loop sys (rt\<lparr>rt_os := os\<rparr>)
         else readln_loop sys (rt\<lparr>rt_os := os, rt_readln_buffer := rt_readln_buffer rt @ [c]\<rparr>))"
      using True r by (subst readln_loop.simps) (simp add: readln_capacity_def Let_def)
    consider "c = CHR 0x0A" | "c = CHR 0x0D" | "c \<noteq> CHR 0x0A" "c \<noteq> CHR 0x0D" by blast
    then show ?thesis
    proof cases
      case 1 then show ?thesis using step1 i n by simp
    next
      case 2
      then show ?thesis using Cons.IH[of "rt\<lparr>rt_os := os\<rparr>"] step1 i n True by simp
    next
      case 3
      have "4095 - length (rt_readln_buffer rt @ [c]) = n" using n by simp
      then show ?thesis
        using Cons.IH[of "rt\<lparr>rt_os := os, rt_readln_buffer := rt_readln_buffer rt @ [c]\<rparr>"] step1 i n 3 True by auto
    qed
  qed
qed


lemma small_writes_reads: "supplies small_writes snd"
  by (auto simp: supplies_def small_writes_def split: list.split)


end
