(* ===== verification/RuntimeNumbers.thy ===== *)
theory RuntimeNumbers
  imports RuntimeIo
begin

text \<open>
  The number printers: the digits that are written spell the number, fit the buffers of the C
  functions, and the number readers of the runtime read them back.
\<close>

section \<open>Digits\<close>

definition digit_table :: "64 word \<Rightarrow> string \<Rightarrow> bool" where
  "digit_table base tab \<longleftrightarrow> 2 \<le> unat base \<and> (\<forall>i < unat base. digit_val (unat base) (tab ! i) = Some i)"

lemma base_digits_once:
  "v \<noteq> 0 \<Longrightarrow> \<not> base < 2 \<Longrightarrow> base_digits base tab v buf = base_digits base tab (v div base) (buf @ [tab ! unat (v mod base)])"
  by (subst base_digits.simps) simp

lemma base_digits_stop: "v = 0 \<or> base < 2 \<Longrightarrow> base_digits base tab v buf = buf"
  by (subst base_digits.simps) (simp split del: if_split)

lemma div_base_less: "v \<noteq> 0 \<Longrightarrow> \<not> base < 2 \<Longrightarrow> unat (v div base) < unat (v :: 64 word)"
  by (simp add: unat_div unat_gt_0 word_less_nat_alt)

lemma base_digits_append: "base_digits base tab v buf = buf @ base_digits base tab v []"
proof (induction "unat v" arbitrary: v buf rule: less_induct)
  case less
  show ?case
  proof (cases "v = 0 \<or> base < 2")
    case False
    then have n: "v \<noteq> 0" "\<not> base < 2" by auto
    show ?thesis unfolding base_digits_once[OF n, of tab buf] base_digits_once[OF n, of tab "[]"]
      by (subst (1 2) less[OF div_base_less[OF n]]) simp
  qed (simp add: base_digits_stop)
qed

lemma base_digits_rev:
  assumes "v \<noteq> 0" "2 \<le> unat base"
  shows "rev (base_digits base tab v []) = rev (base_digits base tab (v div base) []) @ [tab ! unat (v mod base)]"
proof -
  have "\<not> base < 2" using assms(2) by (simp add: word_less_nat_alt)
  then have "base_digits base tab v [] = base_digits base tab (v div base) [tab ! unat (v mod base)]"
    using assms(1) by (subst base_digits.simps) simp
  then show ?thesis by (simp add: base_digits_append[of base tab "v div base" "[_]"])
qed

lemma base_digits_spell:
  assumes "digit_table base tab"
  shows "list_all (is_digit (unat base)) (rev (base_digits base tab v [])) \<and>
    digits_value (unat base) (rev (base_digits base tab v [])) = unat v \<and>
    (\<forall>k. unat v < unat base ^ k \<longrightarrow> length (base_digits base tab v []) \<le> k) \<and>
    (v \<noteq> 0 \<longrightarrow> base_digits base tab v [] \<noteq> [])"
proof (induction "unat v" arbitrary: v rule: less_induct)
  case less
  have b: "2 \<le> unat base" using assms by (simp add: digit_table_def)
  show ?case
  proof (cases "v = 0")
    case True
    then show ?thesis by (simp add: base_digits.simps digits_value_def)
  next
    case False
    let ?t = "base_digits base tab (v div base) []"
    have "unat (v div base) < unat v" using b False by (simp add: unat_div unat_gt_0)
    note ih = less[OF this]
    have "unat (v mod base) < unat base" using b by (simp add: unat_mod)
    then have d: "digit_val (unat base) (tab ! unat (v mod base)) = Some (unat (v mod base))"
      using assms by (simp add: digit_table_def)
    note r = base_digits_rev[OF False b, of tab]
    have len: "length (base_digits base tab v []) = Suc (length ?t)"
      using arg_cong[OF r, of length] by simp
    have "digits_value (unat base) (rev (base_digits base tab v [])) = unat v"
      unfolding r digits_value_snoc using ih d by (simp add: unat_div unat_mod)
    moreover have "length (base_digits base tab v []) \<le> k" if k: "unat v < unat base ^ k" for k
    proof (cases k)
      case 0
      then show ?thesis using k False by (simp add: unat_eq_0)
    next
      case (Suc j)
      have "unat (v div base) < unat base ^ j"
        using k b Suc by (simp add: unat_div div_less_iff_less_mult mult.commute)
      then show ?thesis using ih len Suc by simp
    qed
    ultimately show ?thesis using ih d r len by (auto simp: is_digit_def)
  qed
qed

lemma digit_tables:
  "digit_table 10 ''0123456789''" "digit_table 16 ''0123456789abcdef''" "digit_table 16 ''0123456789ABCDEF''" "digit_table 2 ''01''"
  unfolding digit_table_def by (simp_all, (code_simp)+)

text \<open>What a printed number is: digits of the base without leading zeros, with the value of the number.\<close>

definition numeral_of :: "nat \<Rightarrow> 64 word \<Rightarrow> string \<Rightarrow> bool" where
  "numeral_of base v t \<longleftrightarrow> t \<noteq> [] \<and> list_all (is_digit base) t \<and> digits_value base t = unat v"

lemma base_text_numeral:
  assumes "digit_table base tab" "unat v < unat base ^ k" "0 < k"
  shows "numeral_of (unat base) v (base_text base tab v) \<and> length (base_text base tab v) \<le> k"
proof (cases "v = 0")
  case True
  have "2 \<le> unat base" using assms(1) by (simp add: digit_table_def)
  then have "digit_val (unat base) (CHR ''0'') = Some 0" by (simp add: digit_val_def Let_def)
  then show ?thesis using True assms(3)
    by (simp add: base_text_def numeral_of_def is_digit_def digits_value_def)
next
  case False
  then show ?thesis using base_digits_spell[OF assms(1), of v] assms(2)
    by (simp add: base_text_def numeral_of_def)
qed

lemma decimal_text_base: "decimal_text u = base_text 10 ''0123456789'' u"
  by (simp add: decimal_text_def base_text_def)

lemma decimal_text_numeral: "numeral_of 10 u (decimal_text u)" "length (decimal_text u) \<le> 20"
  using base_text_numeral[OF digit_tables(1), of u 20] unat_less_64[of u] by (simp_all add: decimal_text_base)

text \<open>C40: The digits that are printed in base 10, 16 or 2 spell the number, and they fit the
  buffers of 32 and 64 characters that the C functions fill.\<close>

theorem printed_digits_fit:
  "numeral_of 10 v (decimal_text v) \<and> length (decimal_text v) \<le> 20 \<and>
   numeral_of 16 v (base_text 16 ''0123456789abcdef'' v) \<and> length (base_text 16 ''0123456789abcdef'' v) \<le> 16 \<and>
   numeral_of 16 v (base_text 16 ''0123456789ABCDEF'' v) \<and> length (base_text 16 ''0123456789ABCDEF'' v) \<le> 16 \<and>
   numeral_of 2 v (base_text 2 ''01'' v) \<and> length (base_text 2 ''01'' v) \<le> 64"
  using decimal_text_numeral[of v] base_text_numeral[OF digit_tables(2), of v 16] base_text_numeral[OF digit_tables(3), of v 16]
    base_text_numeral[OF digit_tables(4), of v 64] unat_less_64[of v]
  by simp

section \<open>Round trips\<close>

lemma numeral_blank_digits: "numeral_of 10 v t \<Longrightarrow> blank_digits t (unat v)"
  unfolding blank_digits_def numeral_of_def by (intro exI[of _ t] exI[of _ "[]"]) simp

lemma parse_decimal_text: "parse_u64_ascii (decimal_text u) = Some u"
  unfolding parse_u64_ascii_iff spells_decimal_def
  by (intro exI[of _ "[]"] exI[of _ "decimal_text u"]) (simp add: numeral_blank_digits decimal_text_numeral)

lemma spells_integer_unique: "spells_integer s i \<Longrightarrow> spells_integer s j \<Longrightarrow> i = j"
  by (auto simp: spells_integer_iff split: prod.splits dest: blank_digits_unique)

lemma parse_i32_spelled:
  assumes "spells_integer t (sint w)"
  shows "fst (nex_runtime_parse_i32 t rt) = w" "nex_runtime_last_ok_flag (snd (nex_runtime_parse_i32 t rt))"
proof -
  have r: "- (2 ^ 31) \<le> sint w" "sint w < 2 ^ 31" using sint_greater_eq[of w] sint_less[of w] by simp_all
  obtain v rt' where p: "nex_runtime_parse_i32 t rt = (v, rt')" by (cases "nex_runtime_parse_i32 t rt")
  have a: "nex_runtime_last_ok_flag rt'" "spells_integer t (sint v)"
    using parse_i32_exact[of t rt] assms r unfolding p by (auto split: if_splits)
  have "v = w" by (rule signed_word_eqI) (rule spells_integer_unique[OF a(2) assms])
  then show "fst (nex_runtime_parse_i32 t rt) = w" "nex_runtime_last_ok_flag (snd (nex_runtime_parse_i32 t rt))"
    using a(1) p by simp_all
qed

definition integer_text :: "64 word \<Rightarrow> string" where
  "integer_text v = (if 0 \<le> sint v then decimal_text v else CHR ''-'' # decimal_text (not v + 1))"

lemma numeral_spells:
  assumes "numeral_of 10 v t"
  shows "spells_integer t (int (unat v))" "spells_integer (CHR ''-'' # t) (- int (unat v))"
proof -
  show "spells_integer t (int (unat v))" unfolding spells_integer_def
    by (rule exI[of _ "[]"], rule exI[of _ "[]"], rule exI[of _ t], rule exI[of _ "unat v"])
      (simp add: numeral_blank_digits[OF assms])
  show "spells_integer (CHR ''-'' # t) (- int (unat v))" unfolding spells_integer_def
    by (rule exI[of _ "[]"], rule exI[of _ "''-''"], rule exI[of _ t], rule exI[of _ "unat v"])
      (simp add: numeral_blank_digits[OF assms])
qed

lemma integer_text_spells:
  fixes w :: "32 word"
  shows "spells_integer (integer_text (scast w)) (sint w)"
proof -
  obtain i where i: "sint w = i" "- (2 ^ 31) \<le> i" "i < 2 ^ 31" using sint_greater_eq[of w] sint_less[of w] by simp
  have v: "scast w = (word_of_int i :: 64 word)" using i(1) by (metis of_int_sint)
  have sv: "sint (word_of_int i :: 64 word) = i" using i(2,3) by (simp add: signed_of_int signed_take_bit_int_eq_self)
  show ?thesis
  proof (cases "0 \<le> i")
    case True
    then have u: "int (unat (word_of_int i :: 64 word)) = i" using i(3) by (simp add: unat_eq_nat_uint uint_word_of_int)
    have "integer_text (scast w) = decimal_text (word_of_int i)" using True by (simp add: integer_text_def v sv)
    then show ?thesis using numeral_spells(1)[OF decimal_text_numeral(1), of "word_of_int i"] unfolding u i(1) by (simp only:)
  next
    case False
    let ?u = "word_of_int (- i) :: 64 word"
    have n: "not (word_of_int i :: 64 word) + 1 = ?u" by (simp add: not_eq_complement)
    have "uint ?u = (- i) mod 2 ^ 64" unfolding uint_word_of_int by simp
    also have "\<dots> = - i" using False i(2) by (intro mod_pos_pos_trivial) simp_all
    finally have u: "int (unat ?u) = - i" by simp
    have "integer_text (scast w) = CHR ''-'' # decimal_text ?u" unfolding integer_text_def v sv n using False by (simp only: if_False)
    then show ?thesis using numeral_spells(2)[OF decimal_text_numeral(1), of ?u] unfolding u i(1) by (simp only: minus_minus)
  qed
qed

lemma prints_all: "file_write sys out \<Longrightarrow> progresses sys \<Longrightarrow> out (rt_os (nex_runtime_print_str sys data rt)) = out (rt_os rt) @ data"
  using print_str_printed[of sys out data rt] by (auto simp: printed_def)



end
