(* ===== verification/MlirText.thy ===== *)
theory MlirText
  imports Ir Numbers
begin

text \<open>
  \<open>src/mlir/textual.cpp\<close> as it is built without the MLIR libraries: the class
  \<open>TextualFunctionDumper\<close> that writes MLIR text by hand. A method is a function of the state of
  the dumper; an exception discards the state, so the text written before it is not modelled.
  The table of constants is never null where the class is used, and its null checks are left out.
  \<open>dumpOperation\<close> and \<open>dumpFallthroughRegionBlock\<close> call each other, and replay the initializers of
  constants and the step block of a loop: they run on fuel.
\<close>

section \<open>Literals and names\<close>

text \<open>\<open>std::stoll\<close> with base 0.\<close>

definition stoll0 :: "string \<Rightarrow> (int \<times> nat) result" where
  "stoll0 s =
     (let blanks = length (takeWhile c_isspace s);
          s1 = drop blanks s;
          negative = (s1 \<noteq> [] \<and> hd s1 = CHR ''-'');
          signs = (if s1 \<noteq> [] \<and> (hd s1 = CHR ''-'' \<or> hd s1 = CHR ''+'') then 1 else 0);
          s2 = drop signs s1;
          (base, skip) = detect_base s2;
          ds = takeWhile (is_digit base) (drop skip s2);
          v = (if negative then - int (digits_value base ds) else int (digits_value base ds))
      in if ds = [] then Throw (InvalidArgument ''stoll'')
         else if v < - (2 ^ 63) \<or> v \<ge> 2 ^ 63 then Throw (OutOfRange ''stoll'')
         else Ok (v, blanks + signs + skip + length ds))"

definition parseIntegerLiteral :: "string \<Rightarrow> int result" where
  "parseIntegerLiteral s = bindR (stoll0 s) (\<lambda>(v, parsed).
     if parsed \<noteq> length s then Throw (LogicError ''integer literal was not fully parsed during MLIR lowering'') else Ok v)"

definition signed_string :: "int \<Rightarrow> string" where
  "signed_string i = (if i < 0 then CHR ''-'' # to_string (nat (- i)) else to_string (nat i))"

definition mlir_requiredValue :: "string \<Rightarrow> ValueRef option \<Rightarrow> ValueRef result" where
  "mlir_requiredValue context v =
     (case v of None \<Rightarrow> Throw (LogicError (context @ '' expected a typed IR value'')) | Some v \<Rightarrow> Ok v)"

definition textualType :: "IrType \<Rightarrow> string result" where
  "textualType t =
     (case it_kind t of
        Bool \<Rightarrow> Ok ''i1''
      | I32 \<Rightarrow> Ok ''i32''
      | F32 \<Rightarrow> Ok ''f32''
      | F64 \<Rightarrow> Ok ''f64''
      | Void \<Rightarrow> Ok []
      | _ \<Rightarrow> Throw (LogicError ''textual MLIR lowering only supports bool, i32, f32, f64, and void in this slice''))"

fun joinDimensions :: "64 word list \<Rightarrow> string" where
  "joinDimensions [] = []"
| "joinDimensions [d] = to_string (unat d)"
| "joinDimensions (d # ds) = to_string (unat d) @ ''x'' @ joinDimensions ds"

definition textualMemrefSlotType :: "IrType \<Rightarrow> string result" where
  "textualMemrefSlotType storage =
     (if IrType_isFixedArray storage
      then bindR (textualType (IrType_elementScalarType storage)) (\<lambda>t.
        Ok (''memref<'' @ joinDimensions (it_arrayDimensions storage) @ ''x'' @ t @ ''>''))
      else bindR (textualType storage) (\<lambda>t. Ok (''memref<'' @ t @ ''>'')))"

definition textualFuncBoundaryType :: "IrType \<Rightarrow> string result" where
  "textualFuncBoundaryType t = (if IrType_isFixedArray t then textualMemrefSlotType t else textualType t)"

definition textualConstantName :: "OperationData \<Rightarrow> string result" where
  "textualConstantName d =
     bindR (mlir_requiredValue ''integer literal'' (od_result d)) (\<lambda>result.
     bindR (parseIntegerLiteral (od_text d)) (\<lambda>v.
     bindR (textualType (vr_type result)) (\<lambda>t. Ok (''%c'' @ signed_string v @ ''_'' @ t))))"

definition textualBinaryOp :: "TokenKind \<Rightarrow> string result" where
  "textualBinaryOp k =
     (case k of
        Plus \<Rightarrow> Ok ''arith.addi'' | Minus \<Rightarrow> Ok ''arith.subi'' | Star \<Rightarrow> Ok ''arith.muli''
      | Slash \<Rightarrow> Ok ''arith.divsi'' | Percent \<Rightarrow> Ok ''arith.remsi'' | Amp \<Rightarrow> Ok ''arith.andi''
      | Pipe \<Rightarrow> Ok ''arith.ori'' | Caret \<Rightarrow> Ok ''arith.xori'' | LessLess \<Rightarrow> Ok ''arith.shli''
      | GreaterGreater \<Rightarrow> Ok ''arith.shrsi''
      | _ \<Rightarrow> Throw (LogicError ''textual MLIR lowering only supports integer arithmetic operators for now''))"

definition textualFloatBinaryOp :: "TokenKind \<Rightarrow> string result" where
  "textualFloatBinaryOp k =
     (case k of
        Plus \<Rightarrow> Ok ''arith.addf'' | Minus \<Rightarrow> Ok ''arith.subf'' | Star \<Rightarrow> Ok ''arith.mulf''
      | Slash \<Rightarrow> Ok ''arith.divf''
      | _ \<Rightarrow> Throw (LogicError ''token is not a floating-point arithmetic operator''))"

definition textualComparisonPredicate :: "TokenKind \<Rightarrow> string result" where
  "textualComparisonPredicate k =
     (case k of
        EqualEqual \<Rightarrow> Ok ''eq'' | BangEqual \<Rightarrow> Ok ''ne'' | Less \<Rightarrow> Ok ''slt''
      | LessEqual \<Rightarrow> Ok ''sle'' | Greater \<Rightarrow> Ok ''sgt'' | GreaterEqual \<Rightarrow> Ok ''sge''
      | _ \<Rightarrow> Throw (LogicError ''token is not an integer comparison operator''))"

definition textualFloatComparisonPredicate :: "TokenKind \<Rightarrow> string result" where
  "textualFloatComparisonPredicate k =
     (case k of
        EqualEqual \<Rightarrow> Ok ''oeq'' | BangEqual \<Rightarrow> Ok ''une'' | Less \<Rightarrow> Ok ''olt''
      | LessEqual \<Rightarrow> Ok ''ole'' | Greater \<Rightarrow> Ok ''ogt'' | GreaterEqual \<Rightarrow> Ok ''oge''
      | _ \<Rightarrow> Throw (LogicError ''token is not a floating-point comparison operator''))"

definition is_comparison :: "TokenKind \<Rightarrow> bool" where
  "is_comparison k \<longleftrightarrow> k \<in> {EqualEqual, BangEqual, Less, LessEqual, Greater, GreaterEqual}"

section \<open>The state of a dumper\<close>

record ActiveLoopText =
  al_exitSlotName :: string
  al_stepBlock :: "Block option"

text \<open>\<open>activeLoops_\<close> is kept innermost first.\<close>

record TextualFunctionDumper =
  td_out :: string
  td_activeLoops :: "ActiveLoopText list"
  td_values :: "nat \<Rightarrow> string option"
  td_localValues :: "nat \<Rightarrow> string option"
  td_localSlots :: "nat \<Rightarrow> string option"
  td_regionDepth :: nat
  td_nextValueId :: nat

definition TextualFunctionDumper_new :: TextualFunctionDumper where
  "TextualFunctionDumper_new = \<lparr>td_out = [], td_activeLoops = [], td_values = (\<lambda>_. None),
     td_localValues = (\<lambda>_. None), td_localSlots = (\<lambda>_. None), td_regionDepth = 0, td_nextValueId = 0\<rparr>"

text \<open>What the dumper borrows: the function, and the constants of the module by name.\<close>

record text_env =
  te_function :: IrFunction
  te_constants :: "string \<Rightarrow> IrConst option"

type_synonym 'a textual = "TextualFunctionDumper \<Rightarrow> ('a \<times> TextualFunctionDumper) result"

definition returnT :: "'a \<Rightarrow> 'a textual" where
  "returnT x st = Ok (x, st)"

definition bindT :: "'a textual \<Rightarrow> ('a \<Rightarrow> 'b textual) \<Rightarrow> 'b textual" where
  "bindT m f st = bindR (m st) (\<lambda>(x, st'). f x st')"

definition liftT :: "'a result \<Rightarrow> 'a textual" where
  "liftT r st = bindR r (\<lambda>x. Ok (x, st))"

definition throwT :: "string \<Rightarrow> 'a textual" where
  "throwT message st = Throw (LogicError message)"

definition getsT :: "(TextualFunctionDumper \<Rightarrow> 'a) \<Rightarrow> 'a textual" where
  "getsT f st = Ok (f st, st)"

definition modifyT :: "(TextualFunctionDumper \<Rightarrow> TextualFunctionDumper) \<Rightarrow> unit textual" where
  "modifyT f st = Ok ((), f st)"

fun forT :: "('a \<Rightarrow> unit textual) \<Rightarrow> 'a list \<Rightarrow> unit textual" where
  "forT f [] = returnT ()"
| "forT f (x # xs) = bindT (f x) (\<lambda>_. forT f xs)"

fun mapT :: "('a \<Rightarrow> 'b textual) \<Rightarrow> 'a list \<Rightarrow> 'b list textual" where
  "mapT f [] = returnT []"
| "mapT f (x # xs) = bindT (f x) (\<lambda>y. bindT (mapT f xs) (\<lambda>ys. returnT (y # ys)))"

definition text_indent :: "TextualFunctionDumper \<Rightarrow> string" where
  "text_indent st = replicate (4 + td_regionDepth st * 2) (CHR '' '')"

definition regionIndent :: "TextualFunctionDumper \<Rightarrow> string" where
  "regionIndent st = text_indent st"

definition childRegionIndent :: "TextualFunctionDumper \<Rightarrow> string" where
  "childRegionIndent st = replicate (4 + (td_regionDepth st + 1) * 2) (CHR '' '')"

definition writeT :: "string \<Rightarrow> unit textual" where
  "writeT s = modifyT (\<lambda>st. st\<lparr>td_out := td_out st @ s\<rparr>)"

text \<open>\<open>out_ << indent() << s\<close> and the line end.\<close>

definition lineT :: "string \<Rightarrow> unit textual" where
  "lineT s = modifyT (\<lambda>st. st\<lparr>td_out := td_out st @ text_indent st @ s @ [CHR 0x0A]\<rparr>)"

definition regionLineT :: "string \<Rightarrow> unit textual" where
  "regionLineT s = modifyT (\<lambda>st. st\<lparr>td_out := td_out st @ regionIndent st @ s @ [CHR 0x0A]\<rparr>)"

definition textual_bindValue :: "ValueRef \<Rightarrow> string \<Rightarrow> unit textual" where
  "textual_bindValue ref name st =
     (if td_values st (vr_id ref) \<noteq> None
      then Throw (LogicError ''typed IR value was defined more than once during textual MLIR lowering'')
      else Ok ((), st\<lparr>td_values := (td_values st)(vr_id ref \<mapsto> name)\<rparr>))"

definition textual_lookupValue :: "ValueRef \<Rightarrow> string textual" where
  "textual_lookupValue ref st =
     (case td_values st (vr_id ref) of
        None \<Rightarrow> Throw (LogicError ''textual MLIR lowering used a typed IR value before it was defined'')
      | Some name \<Rightarrow> Ok (name, st))"

definition nextValueName :: "string textual" where
  "nextValueName st = Ok (''%'' @ to_string (td_nextValueId st), st\<lparr>td_nextValueId := td_nextValueId st + 1\<rparr>)"

definition deeper :: "unit textual" where
  "deeper = modifyT (\<lambda>st. st\<lparr>td_regionDepth := td_regionDepth st + 1\<rparr>)"

definition shallower :: "unit textual" where
  "shallower = modifyT (\<lambda>st. st\<lparr>td_regionDepth := td_regionDepth st - 1\<rparr>)"

definition requireT :: "string \<Rightarrow> ValueRef option \<Rightarrow> ValueRef textual" where
  "requireT context v = liftT (mlir_requiredValue context v)"

text \<open>\<open>lookupValue(requiredValue(v, context))\<close>.\<close>

definition requiredNameT :: "string \<Rightarrow> ValueRef option \<Rightarrow> string textual" where
  "requiredNameT context v = bindT (requireT context v) textual_lookupValue"

section \<open>Operations that own no block\<close>

definition dumpIntegerLiteral :: "OperationData \<Rightarrow> unit textual" where
  "dumpIntegerLiteral d =
     bindT (requireT ''integer literal'' (od_result d)) (\<lambda>result.
     if it_kind (vr_type result) \<noteq> I32 then throwT ''textual MLIR integer literal lowering only supports i32''
     else bindT (liftT (textualConstantName d)) (\<lambda>name.
       bindT (liftT (parseIntegerLiteral (od_text d))) (\<lambda>v.
       bindT (liftT (textualType (vr_type result))) (\<lambda>t.
       bindT (lineT (name @ '' = arith.constant '' @ signed_string v @ '' : '' @ t)) (\<lambda>_.
       textual_bindValue result name)))))"

definition dumpFloatLiteral :: "OperationData \<Rightarrow> unit textual" where
  "dumpFloatLiteral d =
     bindT (requireT ''float literal'' (od_result d)) (\<lambda>result.
     bindT nextValueName (\<lambda>name.
     bindT (liftT (textualType (vr_type result))) (\<lambda>t.
     bindT (lineT (name @ '' = arith.constant '' @ od_text d @ '' : '' @ t)) (\<lambda>_.
     textual_bindValue result name))))"

definition dumpBoolLiteral :: "OperationData \<Rightarrow> unit textual" where
  "dumpBoolLiteral d =
     bindT (requireT ''bool literal'' (od_result d)) (\<lambda>result.
     let name = (if od_boolValue d then ''%true'' else ''%false'') in
     bindT (lineT (name @ '' = arith.constant '' @ (if od_boolValue d then ''true'' else ''false''))) (\<lambda>_.
     textual_bindValue result name))"

definition dumpLoadLocal :: "OperationData \<Rightarrow> unit textual" where
  "dumpLoadLocal d =
     bindT (requireT ''local load'' (od_result d)) (\<lambda>result.
     bindT (getsT (\<lambda>st. td_localValues st (lr_id (od_local d)))) (\<lambda>direct.
     case direct of Some name \<Rightarrow> textual_bindValue result name
     | None \<Rightarrow>
         bindT (getsT (\<lambda>st. td_localSlots st (lr_id (od_local d)))) (\<lambda>slot.
         case slot of None \<Rightarrow> throwT ''textual MLIR lowering loaded an unknown local slot''
         | Some slot \<Rightarrow>
             if IrType_isFixedArray (vr_type result) then textual_bindValue result slot
             else bindT nextValueName (\<lambda>name.
               bindT (liftT (textualType (vr_type result))) (\<lambda>t.
               bindT (lineT (name @ '' = memref.load '' @ slot @ ''[] : memref<'' @ t @ ''>'')) (\<lambda>_.
               textual_bindValue result name))))))"

text \<open>The elements of an array literal are stored one by one into a fresh slot.\<close>

definition storeElement :: "(ValueRef \<Rightarrow> string textual) \<Rightarrow> string \<Rightarrow> IrType \<Rightarrow> nat \<times> ValueRef \<Rightarrow> unit textual" where
  "storeElement look slot t = (\<lambda>(i, element).
     bindT nextValueName (\<lambda>idxn.
     bindT (lineT (idxn @ '' = arith.constant '' @ to_string i @ '' : index'')) (\<lambda>_.
     bindT (look element) (\<lambda>v.
     bindT (liftT (textualMemrefSlotType t)) (\<lambda>ty.
     lineT (''memref.store '' @ v @ '', '' @ slot @ ''['' @ idxn @ ''] : '' @ ty))))))"

definition storeElements :: "(ValueRef \<Rightarrow> string textual) \<Rightarrow> IrType \<Rightarrow> ValueRef list \<Rightarrow> string textual" where
  "storeElements look t elements =
     bindT nextValueName (\<lambda>slot.
     bindT (liftT (textualMemrefSlotType t)) (\<lambda>ty.
     bindT (lineT (slot @ '' = memref.alloca() : '' @ ty)) (\<lambda>_.
     bindT (forT (storeElement look slot t) (enumerate 0 elements)) (\<lambda>_. returnT slot))))"

definition dumpArrayLiteral :: "OperationData \<Rightarrow> unit textual" where
  "dumpArrayLiteral d =
     bindT (requireT ''array literal'' (od_result d)) (\<lambda>result.
     if length (it_arrayDimensions (vr_type result)) \<noteq> 1
     then throwT ''textual MLIR dump: nested array literals require the real MLIR path''
     else bindT (storeElements textual_lookupValue (vr_type result) (od_arguments d)) (\<lambda>slot.
       textual_bindValue result slot))"

definition dumpIndexLoad :: "OperationData \<Rightarrow> unit textual" where
  "dumpIndexLoad d =
     bindT (requireT ''index load'' (od_result d)) (\<lambda>result.
     bindT (requireT ''indexed load base'' (od_left d)) (\<lambda>base.
     bindT (requireT ''indexed load index'' (od_right d)) (\<lambda>index.
     if length (it_arrayDimensions (vr_type base)) \<noteq> 1
     then throwT ''textual MLIR dump: ranked index loads require the real MLIR path''
     else bindT nextValueName (\<lambda>name.
       bindT (textual_lookupValue base) (\<lambda>b.
       bindT (textual_lookupValue index) (\<lambda>i.
       bindT (liftT (textualMemrefSlotType (vr_type base))) (\<lambda>ty.
       bindT (lineT (name @ '' = memref.load '' @ b @ ''['' @ i @ ''] : '' @ ty)) (\<lambda>_.
       textual_bindValue result name))))))))"

definition dumpIndexStore :: "OperationData \<Rightarrow> unit textual" where
  "dumpIndexStore d =
     bindT (requireT ''indexed store value'' (od_value d)) (\<lambda>stored.
     bindT (requireT ''indexed store base'' (od_left d)) (\<lambda>base.
     bindT (requireT ''indexed store index'' (od_right d)) (\<lambda>index.
     bindT (textual_lookupValue stored) (\<lambda>v.
     bindT (textual_lookupValue base) (\<lambda>b.
     bindT (textual_lookupValue index) (\<lambda>i.
     bindT (liftT (textualMemrefSlotType (vr_type base))) (\<lambda>ty.
     lineT (''memref.store '' @ v @ '', '' @ b @ ''['' @ i @ ''] : '' @ ty))))))))"

definition irLocalStorageType :: "IrFunction \<Rightarrow> LocalRef \<Rightarrow> IrType result" where
  "irLocalStorageType fn ref =
     (case find (\<lambda>loc. lr_id (lo_ref loc) = lr_id ref) (fn_locals fn) of
        None \<Rightarrow> Throw (LogicError ''textual MLIR lowering could not resolve local slot type'')
      | Some loc \<Rightarrow> Ok (lo_type loc))"

text \<open>\<open>emplace\<close> on the table of slots.\<close>

definition declareSlot :: "LocalRef \<Rightarrow> string \<Rightarrow> unit textual" where
  "declareSlot ref slotName st =
     (if td_localSlots st (lr_id ref) \<noteq> None
      then Throw (LogicError ''textual MLIR lowering declared a local slot twice'')
      else Ok ((), st\<lparr>td_localSlots := (td_localSlots st)(lr_id ref \<mapsto> slotName)\<rparr>))"

text \<open>The coordinates of an element in row-major order, in \<open>unsigned long long\<close> arithmetic.\<close>

definition word_product :: "64 word list \<Rightarrow> 64 word" where
  "word_product ds = foldl (*) 1 ds"

fun slotCoordinates :: "64 word \<Rightarrow> 64 word list \<Rightarrow> 64 word list" where
  "slotCoordinates rem [] = []"
| "slotCoordinates rem (d # ds) =
     (let stride = word_product ds in rem div stride # slotCoordinates (rem mod stride) ds)"

definition dumpCoordinate :: "64 word \<Rightarrow> string textual" where
  "dumpCoordinate coord =
     bindT nextValueName (\<lambda>idxn.
     bindT (lineT (idxn @ '' = arith.constant '' @ signed_string (sint coord) @ '' : index'')) (\<lambda>_. returnT idxn))"

fun joinNames :: "string list \<Rightarrow> string" where
  "joinNames [] = []"
| "joinNames [n] = n"
| "joinNames (n # ns) = n @ '', '' @ joinNames ns"

definition copyElement :: "ValueRef \<Rightarrow> string \<Rightarrow> nat \<Rightarrow> unit textual" where
  "copyElement source slot flat =
     bindT (mapT dumpCoordinate (slotCoordinates (of_nat flat) (it_arrayDimensions (vr_type source)))) (\<lambda>idxs.
     bindT nextValueName (\<lambda>elem.
     bindT (textual_lookupValue source) (\<lambda>v.
     bindT (liftT (textualMemrefSlotType (vr_type source))) (\<lambda>ty.
     bindT (lineT (elem @ '' = memref.load '' @ v @ ''['' @ joinNames idxs @ ''] : '' @ ty)) (\<lambda>_.
     lineT (''memref.store '' @ elem @ '', '' @ slot @ ''['' @ joinNames idxs @ ''] : '' @ ty))))))"

definition copyElements :: "ValueRef \<Rightarrow> string \<Rightarrow> unit textual" where
  "copyElements source slot =
     forT (copyElement source slot) [0..<unat (word_product (it_arrayDimensions (vr_type source)))]"

definition storeScalar :: "ValueRef \<Rightarrow> string \<Rightarrow> unit textual" where
  "storeScalar source slot =
     bindT (textual_lookupValue source) (\<lambda>v.
     bindT (liftT (textualType (vr_type source))) (\<lambda>t.
     lineT (''memref.store '' @ v @ '', '' @ slot @ ''[] : memref<'' @ t @ ''>'')))"

definition dumpDeclareLocal :: "text_env \<Rightarrow> OperationData \<Rightarrow> unit textual" where
  "dumpDeclareLocal env d =
     bindT nextValueName (\<lambda>slotName.
     case od_value d of
       None \<Rightarrow>
         bindT (liftT (irLocalStorageType (te_function env) (od_local d))) (\<lambda>storage.
         bindT (liftT (textualMemrefSlotType storage)) (\<lambda>ty.
         bindT (lineT (slotName @ '' = memref.alloca() : '' @ ty)) (\<lambda>_.
         declareSlot (od_local d) slotName)))
     | Some init \<Rightarrow>
         bindT (liftT (textualMemrefSlotType (vr_type init))) (\<lambda>ty.
         bindT (lineT (slotName @ '' = memref.alloca() : '' @ ty)) (\<lambda>_.
         bindT (declareSlot (od_local d) slotName) (\<lambda>_.
         if IrType_isFixedArray (vr_type init) then copyElements init slotName else storeScalar init slotName))))"

definition dumpStoreLocal :: "OperationData \<Rightarrow> unit textual" where
  "dumpStoreLocal d =
     bindT (requireT ''local store value'' (od_value d)) (\<lambda>stored.
     bindT (getsT (\<lambda>st. td_localSlots st (lr_id (od_local d)))) (\<lambda>slot.
     case slot of None \<Rightarrow> throwT ''textual MLIR lowering stored to an unknown local slot''
     | Some slot \<Rightarrow>
         if IrType_isFixedArray (vr_type stored) then copyElements stored slot else storeScalar stored slot))"

definition dumpUnary :: "OperationData \<Rightarrow> unit textual" where
  "dumpUnary d =
     bindT (requireT ''unary operation'' (od_result d)) (\<lambda>result.
     bindT (requireT ''unary operand'' (od_value d)) (\<lambda>operandRef.
     bindT (textual_lookupValue operandRef) (\<lambda>operand.
     bindT nextValueName (\<lambda>name.
     bindT (if od_op d = Minus then
              if IrType_isFloat (vr_type operandRef) then
                bindT (liftT (textualType (vr_type result))) (\<lambda>t. lineT (name @ '' = arith.negf '' @ operand @ '' : '' @ t))
              else if it_kind (vr_type operandRef) = I32 then
                bindT (lineT ''%c0_i32 = arith.constant 0 : i32'') (\<lambda>_.
                lineT (name @ '' = arith.subi %c0_i32, '' @ operand @ '' : i32''))
              else throwT ''textual MLIR lowering only supports unary - for i32 and floats''
            else if od_op d = Tilde then
              if it_kind (vr_type operandRef) \<noteq> I32 then throwT ''textual MLIR lowering only supports unary ~ for i32''
              else bindT (lineT ''%cm1_i32 = arith.constant -1 : i32'') (\<lambda>_.
                lineT (name @ '' = arith.xori '' @ operand @ '', %cm1_i32 : i32''))
            else if od_op d \<noteq> Bang then throwT ''unsupported textual MLIR unary operator''
            else if it_kind (vr_type operandRef) = Bool then
              bindT (lineT ''%false = arith.constant false'') (\<lambda>_.
              lineT (name @ '' = arith.cmpi eq, '' @ operand @ '', %false : i1''))
            else if it_kind (vr_type operandRef) = I32 then
              bindT (lineT ''%c0_i32 = arith.constant 0 : i32'') (\<lambda>_.
              lineT (name @ '' = arith.cmpi eq, '' @ operand @ '', %c0_i32 : i32''))
            else throwT ''textual MLIR lowering only supports ! for bool and i32 for now'') (\<lambda>_.
     textual_bindValue result name)))))"

text \<open>The right-hand side of a binary operation on values with the given names.\<close>

definition binaryText :: "TokenKind \<Rightarrow> ValueRef \<Rightarrow> string \<Rightarrow> string \<Rightarrow> ValueRef \<Rightarrow> string result" where
  "binaryText op leftRef l r result =
     (if IrType_isFloat (vr_type leftRef) then
        if is_comparison op then
          bindR (textualFloatComparisonPredicate op) (\<lambda>p.
          bindR (textualType (vr_type leftRef)) (\<lambda>t. Ok (''arith.cmpf '' @ p @ '', '' @ l @ '', '' @ r @ '' : '' @ t)))
        else
          bindR (textualFloatBinaryOp op) (\<lambda>p.
          bindR (textualType (vr_type result)) (\<lambda>t. Ok (p @ '' '' @ l @ '', '' @ r @ '' : '' @ t)))
      else
        if is_comparison op then
          bindR (textualComparisonPredicate op) (\<lambda>p.
          bindR (textualType (vr_type leftRef)) (\<lambda>t. Ok (''arith.cmpi '' @ p @ '', '' @ l @ '', '' @ r @ '' : '' @ t)))
        else
          bindR (textualBinaryOp op) (\<lambda>p.
          bindR (textualType (vr_type result)) (\<lambda>t. Ok (p @ '' '' @ l @ '', '' @ r @ '' : '' @ t))))"

definition textual_dumpBinary :: "OperationData \<Rightarrow> unit textual" where
  "textual_dumpBinary d =
     bindT (requireT ''binary operation'' (od_result d)) (\<lambda>result.
     bindT (requireT ''binary left operand'' (od_left d)) (\<lambda>leftRef.
     bindT (textual_lookupValue leftRef) (\<lambda>l.
     bindT (requiredNameT ''binary right operand'' (od_right d)) (\<lambda>r.
     bindT nextValueName (\<lambda>name.
     if \<not> IrType_isFloat (vr_type leftRef) \<and> (od_op d = AmpAmp \<or> od_op d = PipePipe)
     then throwT ''textual MLIR: && and || must use ShortCircuit* IR operations''
     else bindT (liftT (binaryText (od_op d) leftRef l r result)) (\<lambda>s.
       bindT (lineT (name @ '' = '' @ s)) (\<lambda>_. textual_bindValue result name)))))))"

definition textual_dumpCall :: "OperationData \<Rightarrow> unit textual" where
  "textual_dumpCall d =
     (if od_isBuiltin d then
        throwT (''backend limitation: built-in call '' @ [CHR 0x27] @ od_text d @ [CHR 0x27] @
          '' is not lowered yet; runtime support is required before compiling print/println programs'')
      else case od_result d of
        None \<Rightarrow> throwT ''textual MLIR lowering only supports value-returning calls so far''
      | Some result \<Rightarrow>
          bindT nextValueName (\<lambda>name.
          bindT (mapT textual_lookupValue (od_arguments d)) (\<lambda>args.
          bindT (mapT (\<lambda>a. liftT (textualFuncBoundaryType (vr_type a))) (od_arguments d)) (\<lambda>types.
          bindT (liftT (textualFuncBoundaryType (vr_type result))) (\<lambda>t.
          bindT (lineT (name @ '' = call @'' @ od_text d @ ''('' @ joinNames args @ '') : ('' @ joinNames types @ '') -> '' @ t)) (\<lambda>_.
          textual_bindValue result name))))))"

section \<open>Constants\<close>

text \<open>Every use of a constant replays its initializer; \<open>vals\<close> names the values of that block.\<close>

definition constLookup :: "(nat \<Rightarrow> string option) \<Rightarrow> ValueRef \<Rightarrow> string textual" where
  "constLookup vals ref =
     (case vals (vr_id ref) of None \<Rightarrow> throwT ''textual const lowering used a value before definition''
      | Some name \<Rightarrow> returnT name)"

definition constBind :: "(nat \<Rightarrow> string option) \<Rightarrow> ValueRef \<Rightarrow> string \<Rightarrow> nat \<Rightarrow> string option" where
  "constBind vals ref name = (if vals (vr_id ref) = None then vals(vr_id ref \<mapsto> name) else vals)"

definition constUnary :: "OperationData \<Rightarrow> (nat \<Rightarrow> string option) \<Rightarrow> (nat \<Rightarrow> string option) textual" where
  "constUnary d vals =
     bindT (requireT ''const unary'' (od_result d)) (\<lambda>res.
     bindT (requireT ''const unary operand'' (od_value d)) (\<lambda>operandRef.
     bindT (constLookup vals operandRef) (\<lambda>operand.
     bindT nextValueName (\<lambda>name.
     bindT (if od_op d = Minus \<and> IrType_isFloat (vr_type operandRef) then
              bindT (liftT (textualType (vr_type res))) (\<lambda>t. lineT (name @ '' = arith.negf '' @ operand @ '' : '' @ t))
            else if od_op d = Minus \<and> it_kind (vr_type operandRef) = I32 then
              bindT (lineT ''%c0_i32 = arith.constant 0 : i32'') (\<lambda>_.
              lineT (name @ '' = arith.subi %c0_i32, '' @ operand @ '' : i32''))
            else if od_op d = Tilde \<and> it_kind (vr_type operandRef) = I32 then
              bindT (lineT ''%cm1_i32 = arith.constant -1 : i32'') (\<lambda>_.
              lineT (name @ '' = arith.xori '' @ operand @ '', %cm1_i32 : i32''))
            else if od_op d = Bang then
              let zero = (if it_kind (vr_type operandRef) = Bool then ''%false'' else ''%c0_i32'') in
              bindT (if it_kind (vr_type operandRef) = Bool then lineT ''%false = arith.constant false''
                     else lineT ''%c0_i32 = arith.constant 0 : i32'') (\<lambda>_.
              bindT (liftT (textualType (vr_type operandRef))) (\<lambda>t.
              lineT (name @ '' = arith.cmpi eq, '' @ operand @ '', '' @ zero @ '' : '' @ t)))
            else throwT ''textual const lowering hit an unsupported unary operation'') (\<lambda>_.
     returnT (constBind vals res name))))))"

definition constBinary :: "OperationData \<Rightarrow> (nat \<Rightarrow> string option) \<Rightarrow> (nat \<Rightarrow> string option) textual" where
  "constBinary d vals =
     bindT (requireT ''const binary'' (od_result d)) (\<lambda>res.
     bindT (requireT ''const binary left'' (od_left d)) (\<lambda>leftRef.
     bindT (constLookup vals leftRef) (\<lambda>l.
     bindT (requireT ''const binary right'' (od_right d)) (\<lambda>rightRef.
     bindT (constLookup vals rightRef) (\<lambda>r.
     bindT nextValueName (\<lambda>name.
     bindT (liftT (binaryText (od_op d) leftRef l r res)) (\<lambda>s.
     bindT (lineT (name @ '' = '' @ s)) (\<lambda>_. returnT (constBind vals res name)))))))))"

definition constOperation ::
  "text_env \<Rightarrow> (IrConst \<Rightarrow> string textual) \<Rightarrow> Operation \<Rightarrow> (nat \<Rightarrow> string option) \<Rightarrow> (nat \<Rightarrow> string option) textual" where
  "constOperation env replay op vals =
     (let d = op_data op in
      case od_kind d of
        Op_IntegerLiteral \<Rightarrow>
          bindT (requireT ''const int literal'' (od_result d)) (\<lambda>lit.
          if it_kind (vr_type lit) \<noteq> I32 then throwT ''textual const lowering only supports i32 integer literals''
          else bindT nextValueName (\<lambda>name.
            bindT (liftT (parseIntegerLiteral (od_text d))) (\<lambda>v.
            bindT (lineT (name @ '' = arith.constant '' @ signed_string v @ '' : i32'')) (\<lambda>_.
            returnT (constBind vals lit name)))))
      | Op_FloatLiteral \<Rightarrow>
          bindT (requireT ''const float literal'' (od_result d)) (\<lambda>lit.
          bindT nextValueName (\<lambda>name.
          bindT (liftT (textualType (vr_type lit))) (\<lambda>t.
          bindT (lineT (name @ '' = arith.constant '' @ od_text d @ '' : '' @ t)) (\<lambda>_.
          returnT (constBind vals lit name)))))
      | Op_BoolLiteral \<Rightarrow>
          bindT (requireT ''const bool literal'' (od_result d)) (\<lambda>lit.
          let name = (if od_boolValue d then ''%true'' else ''%false'') in
          bindT (lineT (name @ '' = arith.constant '' @ (if od_boolValue d then ''true'' else ''false''))) (\<lambda>_.
          returnT (constBind vals lit name)))
      | Op_Unary \<Rightarrow> constUnary d vals
      | Op_Binary \<Rightarrow> constBinary d vals
      | Op_ArrayLiteral \<Rightarrow>
          bindT (requireT ''const array literal'' (od_result d)) (\<lambda>res.
          bindT (storeElements (constLookup vals) (vr_type res) (od_arguments d)) (\<lambda>slot.
          returnT (constBind vals res slot)))
      | Op_LoadConst \<Rightarrow>
          bindT (requireT ''nested const load'' (od_result d)) (\<lambda>res.
          case te_constants env (od_text d) of
            None \<Rightarrow> throwT ''textual const lowering loaded an unknown const''
          | Some nested \<Rightarrow> bindT (replay nested) (\<lambda>name. returnT (constBind vals res name)))
      | _ \<Rightarrow> throwT ''textual const lowering hit an unsupported initializer operation'')"

fun constOperations ::
  "text_env \<Rightarrow> (IrConst \<Rightarrow> string textual) \<Rightarrow> Operation list \<Rightarrow> (nat \<Rightarrow> string option) \<Rightarrow> (nat \<Rightarrow> string option) textual" where
  "constOperations env replay [] vals = returnT vals"
| "constOperations env replay (op # ops) vals =
     bindT (constOperation env replay op vals) (constOperations env replay ops)"

definition outOfFuelT :: "'a textual" where
  "outOfFuelT st = OutOfFuel"

fun emitConstInitializerOperations :: "nat \<Rightarrow> text_env \<Rightarrow> IrConst \<Rightarrow> string textual" where
  "emitConstInitializerOperations 0 env c = outOfFuelT"
| "emitConstInitializerOperations (Suc n) env c =
     bindT (constOperations env (emitConstInitializerOperations n env) (bl_operations (ic_initializer c)) (\<lambda>_. None)) (\<lambda>vals.
     bindT (requireT ''const initializer'' (tm_value (bl_terminator (ic_initializer c)))) (constLookup vals))"

definition dumpLoadConst :: "nat \<Rightarrow> text_env \<Rightarrow> OperationData \<Rightarrow> unit textual" where
  "dumpLoadConst n env d =
     bindT (requireT ''const load'' (od_result d)) (\<lambda>result.
     case te_constants env (od_text d) of
       None \<Rightarrow> throwT ''textual MLIR lowering loaded an unknown module constant''
     | Some c \<Rightarrow> bindT (emitConstInitializerOperations n env c) (textual_bindValue result))"

section \<open>Operations that own blocks\<close>

text \<open>
  \<open>op\<close> dumps an operation and says whether it returned from the function; \<open>region\<close> dumps a
  block that must fall through.
\<close>

fun dumpOperations :: "(Operation \<Rightarrow> bool textual) \<Rightarrow> Operation list \<Rightarrow> bool textual" where
  "dumpOperations op [] = returnT False"
| "dumpOperations op (x # xs) = bindT (op x) (\<lambda>returned. if returned then returnT True else dumpOperations op xs)"

definition emitTextualConditionLikeToI1 :: "ValueRef \<Rightarrow> string textual" where
  "emitTextualConditionLikeToI1 ref =
     (if it_kind (vr_type ref) = Bool then textual_lookupValue ref
      else if it_kind (vr_type ref) = I32 then
        bindT (textual_lookupValue ref) (\<lambda>v.
        bindT nextValueName (\<lambda>name.
        bindT (lineT ''%c0_i32 = arith.constant 0 : i32'') (\<lambda>_.
        bindT (lineT (name @ '' = arith.cmpi ne, '' @ v @ '', %c0_i32 : i32'')) (\<lambda>_. returnT name))))
      else throwT ''textual MLIR short-circuit conditions only support bool and i32 today'')"

definition dumpYieldingReturnBlock :: "(Operation \<Rightarrow> bool textual) \<Rightarrow> Block \<Rightarrow> unit textual" where
  "dumpYieldingReturnBlock op block =
     bindT deeper (\<lambda>_.
     bindT (dumpOperations op (bl_operations block)) (\<lambda>returned.
     if returned then throwT ''nested if/else returns are not lowered yet''
     else case tm_kind (bl_terminator block) of
       Term_Return \<Rightarrow> bindT (regionLineT ''scf.yield'') (\<lambda>_. shallower)
     | Term_ReturnValue \<Rightarrow>
         bindT (requireT ''if/else return'' (tm_value (bl_terminator block))) (\<lambda>value.
         bindT (textual_lookupValue value) (\<lambda>v.
         bindT (liftT (textualType (vr_type value))) (\<lambda>t.
         bindT (regionLineT (''scf.yield '' @ v @ '' : '' @ t)) (\<lambda>_. shallower))))
     | _ \<Rightarrow> throwT ''if/else branch must end in a return for this MLIR slice''))"

definition dumpShortCircuitValueOp :: "(Operation \<Rightarrow> bool textual) \<Rightarrow> Operation \<Rightarrow> unit textual" where
  "dumpShortCircuitValueOp op x =
     bindT (requireT ''short-circuit logical'' (od_result (op_data x))) (\<lambda>result.
     case (op_thenBlock x, op_elseBlock x) of
       (Some thenBlock, Some elseBlock) \<Rightarrow>
         bindT (requireT ''short-circuit left operand'' (od_left (op_data x))) (\<lambda>l.
         bindT (emitTextualConditionLikeToI1 l) (\<lambda>cond.
         bindT nextValueName (\<lambda>out.
         bindT (lineT (out @ '' = scf.if '' @ cond @ '' -> (i1) {'')) (\<lambda>_.
         bindT (dumpYieldingReturnBlock op thenBlock) (\<lambda>_.
         bindT (lineT ''} else {'') (\<lambda>_.
         bindT (dumpYieldingReturnBlock op elseBlock) (\<lambda>_.
         bindT (lineT ''}'') (\<lambda>_. textual_bindValue result out))))))))
     | _ \<Rightarrow> throwT ''short-circuit IR missing arm'')"

text \<open>A null \<open>thenBlock\<close> is followed without a check.\<close>

definition dumpFallthroughIf :: "(string \<Rightarrow> Block \<Rightarrow> unit textual) \<Rightarrow> Operation \<Rightarrow> bool textual" where
  "dumpFallthroughIf region x =
     bindT (requiredNameT ''if condition'' (od_condition (op_data x))) (\<lambda>cond.
     bindT (lineT (''scf.if '' @ cond @ '' {'')) (\<lambda>_.
     case op_thenBlock x of
       None \<Rightarrow> (\<lambda>st. Throw NullPointer)
     | Some thenBlock \<Rightarrow>
         bindT (region ''if then branch'' thenBlock) (\<lambda>_.
         bindT (getsT text_indent) (\<lambda>ind.
         bindT (writeT (ind @ ''}'')) (\<lambda>_.
         bindT (case op_elseBlock x of
             None \<Rightarrow> returnT ()
           | Some elseBlock \<Rightarrow>
               bindT (writeT ('' else {'' @ [CHR 0x0A])) (\<lambda>_.
               bindT (region ''if else branch'' elseBlock) (\<lambda>_.
               bindT (getsT text_indent) (\<lambda>ind. writeT (ind @ ''}''))))) (\<lambda>_.
         bindT (writeT [CHR 0x0A]) (\<lambda>_. returnT False)))))))"

definition textual_dumpIf :: "(Operation \<Rightarrow> bool textual) \<Rightarrow> (string \<Rightarrow> Block \<Rightarrow> unit textual) \<Rightarrow> Operation \<Rightarrow> bool textual" where
  "textual_dumpIf op region x =
     (case (op_thenBlock x, op_elseBlock x) of
        (Some thenBlock, Some elseBlock) \<Rightarrow>
          let thenTerminator = bl_terminator thenBlock; elseTerminator = bl_terminator elseBlock in
          if tm_kind thenTerminator = Term_None \<and> tm_kind elseTerminator = Term_None then dumpFallthroughIf region x
          else if tm_kind thenTerminator \<noteq> tm_kind elseTerminator
          then throwT ''textual MLIR lowering requires matching if/else terminators''
          else let returnsValue = (tm_kind thenTerminator = Term_ReturnValue) in
            if \<not> returnsValue \<and> tm_kind thenTerminator \<noteq> Term_Return
            then throwT ''textual MLIR lowering only supports returning if/else branches for now''
            else
              bindT (if returnsValue then
                  bindT (requireT ''then return'' (tm_value thenTerminator)) (\<lambda>thenValue.
                  bindT nextValueName (\<lambda>resultName.
                  bindT (requiredNameT ''if condition'' (od_condition (op_data x))) (\<lambda>cond.
                  bindT (liftT (textualFuncBoundaryType (vr_type thenValue))) (\<lambda>t.
                  bindT (lineT (resultName @ '' = scf.if '' @ cond @ '' -> ('' @ t @ '') {'')) (\<lambda>_. returnT resultName)))))
                else
                  bindT (requiredNameT ''if condition'' (od_condition (op_data x))) (\<lambda>cond.
                  bindT (lineT (''scf.if '' @ cond @ '' {'')) (\<lambda>_. returnT []))) (\<lambda>resultName.
              bindT (dumpYieldingReturnBlock op thenBlock) (\<lambda>_.
              bindT (lineT ''} else {'') (\<lambda>_.
              bindT (dumpYieldingReturnBlock op elseBlock) (\<lambda>_.
              bindT (lineT ''}'') (\<lambda>_.
              bindT (if returnsValue then
                  bindT (requireT ''then return'' (tm_value thenTerminator)) (\<lambda>thenValue.
                  bindT (liftT (textualFuncBoundaryType (vr_type thenValue))) (\<lambda>t.
                  lineT (''return '' @ resultName @ '' : '' @ t)))
                else lineT ''return'') (\<lambda>_. returnT True))))))
      | _ \<Rightarrow> dumpFallthroughIf region x)"

definition textual_dumpConditionBlock :: "(Operation \<Rightarrow> bool textual) \<Rightarrow> Block \<Rightarrow> string option \<Rightarrow> unit textual" where
  "textual_dumpConditionBlock op block breakExitSlot =
     bindT deeper (\<lambda>_.
     bindT (dumpOperations op (bl_operations block)) (\<lambda>returned.
     if returned then throwT ''while condition cannot return from the function''
     else if tm_kind (bl_terminator block) \<noteq> Term_ConditionValue
     then throwT ''while condition block must end with ConditionValue''
     else
       bindT (requiredNameT ''while condition'' (tm_value (bl_terminator block))) (\<lambda>cond.
       bindT (case breakExitSlot of
           None \<Rightarrow> returnT cond
         | Some slot \<Rightarrow>
             bindT nextValueName (\<lambda>loaded.
             bindT (regionLineT (loaded @ '' = memref.load '' @ slot @ ''[] : memref<i1>'')) (\<lambda>_.
             bindT nextValueName (\<lambda>ctrue.
             bindT (regionLineT (ctrue @ '' = arith.constant true'')) (\<lambda>_.
             bindT nextValueName (\<lambda>flipped.
             bindT (regionLineT (flipped @ '' = arith.xori '' @ loaded @ '', '' @ ctrue @ '' : i1'')) (\<lambda>_.
             bindT nextValueName (\<lambda>combined.
             bindT (regionLineT (combined @ '' = arith.andi '' @ cond @ '', '' @ flipped @ '' : i1'')) (\<lambda>_.
             returnT combined))))))))) (\<lambda>cond.
       bindT (regionLineT (''scf.condition('' @ cond @ '')'')) (\<lambda>_. shallower)))))"

definition textual_dumpWhile :: "(Operation \<Rightarrow> bool textual) \<Rightarrow> (string \<Rightarrow> Block \<Rightarrow> unit textual) \<Rightarrow> Operation \<Rightarrow> unit textual" where
  "textual_dumpWhile op region x =
     (case (op_conditionBlock x, op_bodyBlock x) of
        (Some conditionBlock, Some bodyBlock) \<Rightarrow>
          bindT nextValueName (\<lambda>exitSlot.
          bindT (lineT (exitSlot @ '' = memref.alloca() : memref<i1>'')) (\<lambda>_.
          bindT nextValueName (\<lambda>cfalse.
          bindT (lineT (cfalse @ '' = arith.constant false'')) (\<lambda>_.
          bindT (lineT (''memref.store '' @ cfalse @ '', '' @ exitSlot @ ''[] : memref<i1>'')) (\<lambda>_.
          bindT (modifyT (\<lambda>st. st\<lparr>td_activeLoops :=
            \<lparr>al_exitSlotName = exitSlot, al_stepBlock = op_stepBlock x\<rparr> # td_activeLoops st\<rparr>)) (\<lambda>_.
          bindT (lineT ''scf.while : () -> () {'') (\<lambda>_.
          bindT (textual_dumpConditionBlock op conditionBlock (Some exitSlot)) (\<lambda>_.
          bindT (lineT ''} do {'') (\<lambda>_.
          bindT (region ''while body'' bodyBlock) (\<lambda>_.
          bindT (case op_stepBlock x of None \<Rightarrow> returnT () | Some stepBlock \<Rightarrow> region ''for step'' stepBlock) (\<lambda>_.
          bindT (getsT childRegionIndent) (\<lambda>ind.
          bindT (writeT (ind @ ''scf.yield'' @ [CHR 0x0A])) (\<lambda>_.
          bindT (lineT ''}'') (\<lambda>_.
          modifyT (\<lambda>st. st\<lparr>td_activeLoops := tl (td_activeLoops st)\<rparr>)))))))))))))))
      | _ \<Rightarrow> throwT ''while operation is missing its condition or body block'')"

text \<open>The operations of a region up to the first jump; the region of the step block is replayed by \<open>continue\<close>.\<close>

definition dumpBreak :: "string \<Rightarrow> unit textual" where
  "dumpBreak context =
     bindT (getsT td_activeLoops) (\<lambda>loops.
     case loops of
       [] \<Rightarrow> throwT (context @ '' contains `break` outside any loop'')
     | loop # _ \<Rightarrow>
         bindT nextValueName (\<lambda>ctrue.
         bindT (regionLineT (ctrue @ '' = arith.constant true'')) (\<lambda>_.
         bindT (regionLineT (''memref.store '' @ ctrue @ '', '' @ al_exitSlotName loop @ ''[] : memref<i1>'')) (\<lambda>_.
         bindT (regionLineT ''scf.yield'') (\<lambda>_. shallower)))))"

definition dumpContinue :: "(string \<Rightarrow> Block \<Rightarrow> unit textual) \<Rightarrow> string \<Rightarrow> unit textual" where
  "dumpContinue region context =
     bindT (getsT td_activeLoops) (\<lambda>loops.
     case loops of
       [] \<Rightarrow> throwT (context @ '' contains `continue` outside any loop'')
     | loop # _ \<Rightarrow>
         bindT (case al_stepBlock loop of None \<Rightarrow> returnT () | Some stepBlock \<Rightarrow> region ''for step on continue'' stepBlock) (\<lambda>_.
         bindT (regionLineT ''scf.yield'') (\<lambda>_. shallower)))"

fun dumpRegionOperations ::
  "(Operation \<Rightarrow> bool textual) \<Rightarrow> (string \<Rightarrow> Block \<Rightarrow> unit textual) \<Rightarrow> string \<Rightarrow> TerminatorKind \<Rightarrow> Operation list \<Rightarrow> unit textual" where
  "dumpRegionOperations op region context kind [] =
     bindT shallower (\<lambda>_.
     if kind \<noteq> Term_None then throwT (context @ '' must fall through in this textual MLIR slice'') else returnT ())"
| "dumpRegionOperations op region context kind (x # xs) =
     (if od_kind (op_data x) = Op_Break then dumpBreak context
      else if od_kind (op_data x) = Op_Continue then dumpContinue region context
      else bindT (op x) (\<lambda>returned.
        if returned then throwT (context @ '' cannot contain a function return in this textual MLIR slice'')
        else dumpRegionOperations op region context kind xs))"

definition regionStep ::
  "(Operation \<Rightarrow> bool textual) \<Rightarrow> (string \<Rightarrow> Block \<Rightarrow> unit textual) \<Rightarrow> string \<Rightarrow> Block \<Rightarrow> unit textual" where
  "regionStep op region context block =
     bindT deeper (\<lambda>_.
     dumpRegionOperations op region context (tm_kind (bl_terminator block)) (bl_operations block))"

definition thenFalse :: "unit textual \<Rightarrow> bool textual" where
  "thenFalse m = bindT m (\<lambda>_. returnT False)"

definition textual_operationStep ::
  "nat \<Rightarrow> text_env \<Rightarrow> (Operation \<Rightarrow> bool textual) \<Rightarrow> (string \<Rightarrow> Block \<Rightarrow> unit textual) \<Rightarrow> Operation \<Rightarrow> bool textual" where
  "textual_operationStep n env op region x =
     (let d = op_data x in
      case od_kind d of
        Op_IntegerLiteral \<Rightarrow> thenFalse (dumpIntegerLiteral d)
      | Op_FloatLiteral \<Rightarrow> thenFalse (dumpFloatLiteral d)
      | Op_BoolLiteral \<Rightarrow> thenFalse (dumpBoolLiteral d)
      | Op_StringLiteral \<Rightarrow> throwT (''backend limitation: string literals are not lowered yet; runtime string support '' @
          ''is required before compiling programs that use strings or print/println'')
      | Op_LoadLocal \<Rightarrow> thenFalse (dumpLoadLocal d)
      | Op_LoadConst \<Rightarrow> thenFalse (dumpLoadConst n env d)
      | Op_DeclareLocal \<Rightarrow> thenFalse (dumpDeclareLocal env d)
      | Op_StoreLocal \<Rightarrow> thenFalse (dumpStoreLocal d)
      | Op_ArrayLiteral \<Rightarrow> thenFalse (dumpArrayLiteral d)
      | Op_IndexLoad \<Rightarrow> thenFalse (dumpIndexLoad d)
      | Op_IndexStore \<Rightarrow> thenFalse (dumpIndexStore d)
      | Op_AddressOfLocal \<Rightarrow> throwT ''pointer MLIR dumping requires real MLIR support in this slice''
      | Op_PointerLoad \<Rightarrow> throwT ''pointer MLIR dumping requires real MLIR support in this slice''
      | Op_PointerStore \<Rightarrow> throwT ''pointer MLIR dumping requires real MLIR support in this slice''
      | Op_Unary \<Rightarrow> thenFalse (dumpUnary d)
      | Op_Binary \<Rightarrow> thenFalse (textual_dumpBinary d)
      | Op_ShortCircuitAnd \<Rightarrow> thenFalse (dumpShortCircuitValueOp op x)
      | Op_ShortCircuitOr \<Rightarrow> thenFalse (dumpShortCircuitValueOp op x)
      | Op_Call \<Rightarrow> thenFalse (textual_dumpCall d)
      | Op_If \<Rightarrow> textual_dumpIf op region x
      | Op_While \<Rightarrow> thenFalse (textual_dumpWhile op region x)
      | Op_Break \<Rightarrow> throwT ''`break`/`continue` must be dumped inside a loop region in this textual MLIR slice''
      | Op_Continue \<Rightarrow> throwT ''`break`/`continue` must be dumped inside a loop region in this textual MLIR slice''
      | Op_Invalid \<Rightarrow> throwT ''textual MLIR lowering encountered an unsupported operation'')"

fun textual_dumpOperation :: "nat \<Rightarrow> text_env \<Rightarrow> Operation \<Rightarrow> bool textual"
and dumpFallthroughRegionBlock :: "nat \<Rightarrow> text_env \<Rightarrow> string \<Rightarrow> Block \<Rightarrow> unit textual" where
  "textual_dumpOperation 0 env x = outOfFuelT"
| "textual_dumpOperation (Suc n) env x =
     textual_operationStep n env (textual_dumpOperation n env) (dumpFallthroughRegionBlock n env) x"
| "dumpFallthroughRegionBlock 0 env context block = outOfFuelT"
| "dumpFallthroughRegionBlock (Suc n) env context block =
     regionStep (textual_dumpOperation n env) (dumpFallthroughRegionBlock n env) context block"

section \<open>Functions and modules\<close>

definition textual_dumpTerminator :: "Terminator \<Rightarrow> bool textual" where
  "textual_dumpTerminator t =
     (case tm_kind t of
        Term_Return \<Rightarrow> bindT (lineT ''return'') (\<lambda>_. returnT True)
      | Term_ReturnValue \<Rightarrow>
          bindT (requireT ''return terminator'' (tm_value t)) (\<lambda>value.
          bindT (textual_lookupValue value) (\<lambda>v.
          bindT (liftT (textualType (vr_type value))) (\<lambda>ty.
          bindT (lineT (''return '' @ v @ '' : '' @ ty)) (\<lambda>_. returnT True))))
      | Term_None \<Rightarrow> returnT False
      | _ \<Rightarrow> throwT ''textual MLIR lowering expected a function return terminator'')"

definition textual_dumpBlock :: "nat \<Rightarrow> text_env \<Rightarrow> Block \<Rightarrow> bool textual" where
  "textual_dumpBlock n env block =
     bindT (dumpOperations (textual_dumpOperation n env) (bl_operations block)) (\<lambda>returned.
     if returned then returnT True else textual_dumpTerminator (bl_terminator block))"

definition dumpParameter :: "nat \<times> Parameter \<Rightarrow> unit textual" where
  "dumpParameter = (\<lambda>(i, parameter).
     let argumentName = ''%arg'' @ to_string i in
     bindT (writeT (if i \<noteq> 0 then '', '' else [])) (\<lambda>_.
     bindT (modifyT (\<lambda>st. st\<lparr>td_localValues := constBind (td_localValues st)
       \<lparr>vr_id = lr_id (pa_local parameter), vr_type = pa_type parameter\<rparr> argumentName\<rparr>)) (\<lambda>_.
     bindT (liftT (textualFuncBoundaryType (pa_type parameter))) (\<lambda>t.
     writeT (argumentName @ '': '' @ t)))))"

definition textual_dumpFunction :: "nat \<Rightarrow> text_env \<Rightarrow> unit textual" where
  "textual_dumpFunction n env =
     (let fn = te_function env in
      bindT (writeT (''  func.func @'' @ fn_name fn @ ''('')) (\<lambda>_.
      bindT (forT dumpParameter (enumerate 0 (fn_parameters fn))) (\<lambda>_.
      bindT (writeT '')'') (\<lambda>_.
      bindT (if IrType_isVoid (fn_returnType fn) then returnT ()
             else bindT (liftT (textualFuncBoundaryType (fn_returnType fn))) (\<lambda>t. writeT ('' -> '' @ t))) (\<lambda>_.
      bindT (writeT ('' {'' @ [CHR 0x0A])) (\<lambda>_.
      bindT (textual_dumpBlock n env (fn_body fn)) (\<lambda>returned.
      bindT (if \<not> returned \<and> IrType_isVoid (fn_returnType fn) then lineT ''return'' else returnT ()) (\<lambda>_.
      writeT (''  }'' @ [CHR 0x0A])))))))))"

text \<open>\<open>emplace\<close> keeps the first constant of a name.\<close>

definition module_constants :: "Module \<Rightarrow> string \<Rightarrow> IrConst option" where
  "module_constants m = map_of (map (\<lambda>c. (ic_name c, c)) (md_constants m))"

fun dumpFunctions :: "nat \<Rightarrow> (string \<Rightarrow> IrConst option) \<Rightarrow> IrFunction list \<Rightarrow> string result" where
  "dumpFunctions n constants [] = Ok []"
| "dumpFunctions n constants (fn # fns) =
     bindR (textual_dumpFunction n \<lparr>te_function = fn, te_constants = constants\<rparr> TextualFunctionDumper_new) (\<lambda>(_, st).
     bindR (dumpFunctions n constants fns) (\<lambda>s. Ok (td_out st @ s)))"

definition dumpTextualMlir :: "nat \<Rightarrow> Module \<Rightarrow> string result" where
  "dumpTextualMlir n m =
     bindR (dumpFunctions n (module_constants m) (md_functions m)) (\<lambda>s.
     Ok (''module {'' @ [CHR 0x0A] @ s @ ''}'' @ [CHR 0x0A]))"

text \<open>\<open>src/llvm/textual.cpp\<close> in the same build.\<close>

definition dumpTextualLlvmIr :: "Module \<Rightarrow> string result" where
  "dumpTextualLlvmIr m = Throw (LogicError ''LLVM dumping requires MLIR/LLVM development packages'')"

end
