(* ===== verification/Driver.thy ===== *)
theory Driver
  imports Pipeline IrBuilder IrDump MlirText AstDump
begin

text \<open>
  \<open>src/tools/nexc/main.cpp\<close>: the command line, the phases and the exit codes of \<open>nexc\<close>, and the
  native link on Linux and macOS. The operating system is a parameter: a record of the calls the driver
  makes, on a state \<open>'w\<close> that survives exceptions. So are the back ends, whose implementation
  depends on the build.
\<close>

section \<open>Command line\<close>

datatype Mode =
    Mode_DumpTokens | Mode_DumpAst | Mode_DumpAstDot | Mode_DumpIr | Mode_DumpMlir | Mode_DumpLlvm
  | Mode_CompileExecutable | Mode_Check

record Options =
  opt_mode :: Mode
  opt_inputPaths :: "string list"
  opt_outputPath :: string

definition usage :: string where
  "usage = ''usage:'' @ [CHR 0x0A] @
     ''  nexc (--dump-tokens | --dump-ast | --dump-ast-dot | --dump-ir | --dump-mlir | --dump-llvm | --check) <file.nexs>'' @ [CHR 0x0A] @
     ''  nexc <file.nexs>... -o <output>'' @ [CHR 0x0A]"

definition mode_of :: "string \<Rightarrow> Mode option" where
  "mode_of s =
     (if s = ''--dump-tokens'' then Some Mode_DumpTokens
      else if s = ''--dump-ast'' then Some Mode_DumpAst
      else if s = ''--dump-ast-dot'' then Some Mode_DumpAstDot
      else if s = ''--dump-ir'' then Some Mode_DumpIr
      else if s = ''--dump-mlir'' then Some Mode_DumpMlir
      else if s = ''--dump-llvm'' then Some Mode_DumpLlvm
      else if s = ''--check'' then Some Mode_Check
      else None)"

text \<open>\<open>argv\<close> starts with the name of the program; its length is \<open>argc\<close>.\<close>

definition parseArgs :: "string list \<Rightarrow> Options result" where
  "parseArgs argv =
     (let argc = length argv in
      if argc = 3 then
        case mode_of (argv ! 1) of
          None \<Rightarrow> Throw (InvalidArgument (''unknown compiler mode: '' @ argv ! 1))
        | Some m \<Rightarrow> Ok \<lparr>opt_mode = m, opt_inputPaths = [argv ! 2], opt_outputPath = []\<rparr>
      else if argc \<ge> 4 \<and> argv ! (argc - 2) = ''-o'' then
        let inputs = map (\<lambda>i. argv ! i) [1..<argc - 2]
        in if inputs = [] then Throw (InvalidArgument ''compile mode requires at least one input file'')
           else Ok \<lparr>opt_mode = Mode_CompileExecutable, opt_inputPaths = inputs, opt_outputPath = argv ! (argc - 1)\<rparr>
      else Throw (InvalidArgument ''invalid command line''))"

section \<open>The system\<close>

text \<open>How a child process ends, as \<open>fork\<close> and \<open>waitpid\<close> tell the parent; a failed \<open>execvp\<close> is \<open>Exited 127\<close>.\<close>

datatype child_status = ForkFailed string | WaitFailed string | Exited nat | Signaled nat | OtherStatus

text \<open>
  \<open>host_mkstemps\<close> takes the pattern and the length of its suffix; its result is the reason of a
  failure or the path it created. \<open>host_open\<close> and \<open>host_write\<close> say whether the stream is still good.
\<close>

record 'w host =
  host_read :: "string \<Rightarrow> 'w \<Rightarrow> string option"
  host_temp_dir :: "'w \<Rightarrow> string"
  host_mkstemps :: "string \<Rightarrow> nat \<Rightarrow> 'w \<Rightarrow> (string + string) \<times> 'w"
  host_open :: "string \<Rightarrow> 'w \<Rightarrow> bool \<times> 'w"
  host_write :: "string \<Rightarrow> string \<Rightarrow> 'w \<Rightarrow> bool \<times> 'w"
  host_remove :: "string \<Rightarrow> 'w \<Rightarrow> 'w"
  host_exists :: "string \<Rightarrow> 'w \<Rightarrow> bool"
  host_getenv :: "string \<Rightarrow> 'w \<Rightarrow> string option"
  host_executable :: "'w \<Rightarrow> string + string"
  host_spawn :: "string list \<Rightarrow> 'w \<Rightarrow> child_status \<times> 'w"

text \<open>What the build configures: the back ends, and the tools of the native link, if there is one.\<close>

record darwin_config =
  dc_clang :: string
  dc_target_triple :: string
  dc_deployment_target :: string

record link_config =
  lc_llc :: string
  lc_ld_lld :: string
  lc_dynamic_linker :: string
  lc_scrt1 :: string
  lc_crti :: string
  lc_libdir :: string
  lc_crtn :: string
  lc_runtime_relative :: "string option"
  lc_darwin :: "darwin_config option"

record build =
  bu_mlir :: "Module \<Rightarrow> string result"
  bu_llvm :: "Module \<Rightarrow> string result"
  bu_link :: "link_config option"

text \<open>The build without the MLIR libraries.\<close>

definition fallback_build :: "nat \<Rightarrow> link_config option \<Rightarrow> build" where
  "fallback_build n link = \<lparr>bu_mlir = dumpTextualMlir n, bu_llvm = dumpTextualLlvmIr, bu_link = link\<rparr>"

text \<open>Operations that change the system and may throw; the change stays when they do.\<close>

type_synonym ('w, 'a) io = "'w \<Rightarrow> 'a result \<times> 'w"

definition returnIO :: "'a \<Rightarrow> ('w, 'a) io" where
  "returnIO x w = (Ok x, w)"

definition throwIO :: "cpp_exception \<Rightarrow> ('w, 'a) io" where
  "throwIO e w = (Throw e, w)"

definition pureIO :: "'a result \<Rightarrow> ('w, 'a) io" where
  "pureIO r w = (r, w)"

definition bindIO :: "('w, 'a) io \<Rightarrow> ('a \<Rightarrow> ('w, 'b) io) \<Rightarrow> ('w, 'b) io" where
  "bindIO m f w = (case m w of (Ok x, w') \<Rightarrow> f x w' | (Throw e, w') \<Rightarrow> (Throw e, w') | (OutOfFuel, w') \<Rightarrow> (OutOfFuel, w'))"

text \<open>A destructor that runs however the block ends.\<close>

definition finallyIO :: "('w \<Rightarrow> 'w) \<Rightarrow> ('w, 'a) io \<Rightarrow> ('w, 'a) io" where
  "finallyIO cleanup m w = (case m w of (r, w') \<Rightarrow> (r, cleanup w'))"

section \<open>Reading the input\<close>

definition readFile :: "'w host \<Rightarrow> string \<Rightarrow> 'w \<Rightarrow> string result" where
  "readFile h path w =
     (case host_read h path w of
        None \<Rightarrow> Throw (RuntimeError (''failed to open input file: '' @ path))
      | Some bytes \<Rightarrow> Ok bytes)"

text \<open>The label and the text; \<open>i > 0\<close> puts the separators.\<close>

fun mergeLoop :: "'w host \<Rightarrow> 'w \<Rightarrow> nat \<Rightarrow> string list \<Rightarrow> string \<times> string \<Rightarrow> (string \<times> string) result" where
  "mergeLoop h w i [] merged = Ok merged"
| "mergeLoop h w i (path # paths) (label, text) =
     bindR (readFile h path w) (\<lambda>bytes.
     mergeLoop h w (i + 1) paths
       ((if i > 0 then label @ ''+'' else label) @ path, (if i > 0 then text @ [CHR 0x0A] else text) @ bytes))"

definition mergeSourceFiles :: "'w host \<Rightarrow> string list \<Rightarrow> 'w \<Rightarrow> (string \<times> string) result" where
  "mergeSourceFiles h paths w = mergeLoop h w 0 paths ([], [])"

section \<open>The native link\<close>

definition path_append :: "string \<Rightarrow> string \<Rightarrow> string" where
  "path_append a b = (if a = [] \<or> last a = CHR ''/'' then a @ b else a @ ''/'' @ b)"

text \<open>\<open>parent_path\<close> of the absolute path of a file.\<close>

definition parent_path :: "string \<Rightarrow> string" where
  "parent_path p = rev (drop 1 (dropWhile (\<lambda>c. c \<noteq> CHR ''/'') (rev p)))"

definition writeTemporaryLlvmIr :: "build \<Rightarrow> 'w host \<Rightarrow> Module \<Rightarrow> ('w, string) io" where
  "writeTemporaryLlvmIr bu h m w =
     (case host_mkstemps h (path_append (host_temp_dir h w) ''nexc-llvm-XXXXXX.ll'') 3 w of
        (Inl reason, w1) \<Rightarrow> (Throw (RuntimeError (''failed to create temporary LLVM IR file: '' @ reason)), w1)
      | (Inr path, w1) \<Rightarrow>
          (case host_open h path w1 of
             (False, w2) \<Rightarrow> (Throw (RuntimeError ''failed to open temporary LLVM IR file for writing''), w2)
           | (True, w2) \<Rightarrow>
               (case bu_llvm bu m of
                  Ok text \<Rightarrow>
                    (case host_write h path text w2 of
                       (True, w3) \<Rightarrow> (Ok path, w3)
                     | (False, w3) \<Rightarrow> (Throw (RuntimeError ''failed to write temporary LLVM IR file''), w3))
                | Throw e \<Rightarrow> (Throw e, w2)
                | OutOfFuel \<Rightarrow> (OutOfFuel, w2))))"

definition resolveRuntimeLibrary :: "link_config \<Rightarrow> 'w host \<Rightarrow> 'w \<Rightarrow> string result" where
  "resolveRuntimeLibrary lc h w =
     (let bundled =
        (case lc_runtime_relative lc of
           None \<Rightarrow> Throw (RuntimeError ''failed to find nex runtime library; set NEXC_RUNTIME_LIBRARY to libnexrt.a'')
         | Some relative \<Rightarrow>
             (case host_executable h w of
                Inl reason \<Rightarrow> Throw (RuntimeError (''failed to locate nexc executable: '' @ reason))
              | Inr exe \<Rightarrow>
                  let path = path_append (parent_path exe) relative
                  in if host_exists h path w then Ok path
                     else Throw (RuntimeError ''failed to find nex runtime library; set NEXC_RUNTIME_LIBRARY to libnexrt.a'')))
      in case host_getenv h ''NEXC_RUNTIME_LIBRARY'' w of
           Some path \<Rightarrow> if path \<noteq> [] then Ok path else bundled
         | None \<Rightarrow> bundled)"

definition runChildProcess :: "'w host \<Rightarrow> string list \<Rightarrow> ('w, nat) io" where
  "runChildProcess h argv w =
     (case host_spawn h argv w of
        (ForkFailed reason, w') \<Rightarrow> (Throw (RuntimeError (''failed to fork subprocess: '' @ reason)), w')
      | (WaitFailed reason, w') \<Rightarrow> (Throw (RuntimeError (''failed to wait for subprocess: '' @ reason)), w')
      | (Exited n, w') \<Rightarrow> (Ok n, w')
      | (Signaled n, w') \<Rightarrow> (Ok (128 + n), w')
      | (OtherStatus, w') \<Rightarrow> (Ok 1, w'))"

definition writeTemporaryObjectFilePath :: "'w host \<Rightarrow> ('w, string) io" where
  "writeTemporaryObjectFilePath h w =
     (case host_mkstemps h (path_append (host_temp_dir h w) ''nexc-obj-XXXXXX.o'') 2 w of
        (Inl reason, w1) \<Rightarrow> (Throw (RuntimeError (''failed to create temporary object path: '' @ reason)), w1)
      | (Inr path, w1) \<Rightarrow> (Ok path, host_remove h path w1))"

definition llc_argv :: "link_config \<Rightarrow> string \<Rightarrow> string \<Rightarrow> string list" where
  "llc_argv lc ir obj =
     [lc_llc lc, ''-filetype=obj'', ''-relocation-model=pic''] @
     (case lc_darwin lc of
        None \<Rightarrow> []
      | Some dc \<Rightarrow> if dc_target_triple dc \<noteq> [] then [''-mtriple='' @ dc_target_triple dc] else []) @
     [ir, ''-o'', obj]"

definition link_argv :: "link_config \<Rightarrow> string \<Rightarrow> string \<Rightarrow> string \<Rightarrow> string list" where
  "link_argv lc obj rt out =
     (case lc_darwin lc of
        None \<Rightarrow>
          [lc_ld_lld lc, ''-pie'', ''-dynamic-linker'', lc_dynamic_linker lc, lc_scrt1 lc, lc_crti lc, obj, rt,
           ''-L'', lc_libdir lc, ''-lc'', lc_crtn lc, ''-o'', out]
      | Some dc \<Rightarrow>
          [dc_clang dc] @
          (if dc_deployment_target dc \<noteq> [] then [''-mmacosx-version-min='' @ dc_deployment_target dc] else []) @
          [obj, rt, ''-o'', out])"

text \<open>How messages name the linker, and where it is.\<close>

definition link_tool :: "link_config \<Rightarrow> string \<times> string" where
  "link_tool lc =
     (case lc_darwin lc of
        None \<Rightarrow> (''ld.lld'', lc_ld_lld lc)
      | Some dc \<Rightarrow> (''clang (Darwin link driver)'', dc_clang dc))"

text \<open>The two tools; the temporary files exist here and are removed however it ends.\<close>

definition assembleAndLink :: "link_config \<Rightarrow> 'w host \<Rightarrow> string \<Rightarrow> string \<Rightarrow> string \<Rightarrow> string \<Rightarrow> ('w, unit) io" where
  "assembleAndLink lc h ir obj rt out =
     bindIO (runChildProcess h (llc_argv lc ir obj)) (\<lambda>llcExit.
     if llcExit = 127 then throwIO (RuntimeError (''failed to execute llc at '' @ lc_llc lc))
     else if llcExit \<noteq> 0 then throwIO (RuntimeError ''llc failed while compiling LLVM IR to an object file'')
     else bindIO (runChildProcess h (link_argv lc obj rt out)) (\<lambda>linkExit.
       if linkExit = 127 then throwIO (RuntimeError (''failed to execute '' @ fst (link_tool lc) @ '' at '' @ snd (link_tool lc)))
       else if linkExit \<noteq> 0 then throwIO (RuntimeError (fst (link_tool lc) @ '' failed while linking executable''))
       else returnIO ()))"

definition compileExecutable :: "build \<Rightarrow> 'w host \<Rightarrow> Module \<Rightarrow> string \<Rightarrow> ('w, unit) io" where
  "compileExecutable bu h m outputPath =
     (case bu_link bu of
        None \<Rightarrow> throwIO (RuntimeError (''native compilation was disabled at CMake configure time: on Linux install '' @
          ''llc and ld.lld; on macOS install LLVM (llc) and use a clang-based toolchain '' @
          ''for the C compiler, then re-run cmake''))
      | Some lc \<Rightarrow>
          bindIO (writeTemporaryLlvmIr bu h m) (\<lambda>llvmIrPath.
          bindIO (writeTemporaryObjectFilePath h) (\<lambda>objectPath.
          bindIO (\<lambda>w. (resolveRuntimeLibrary lc h w, w)) (\<lambda>runtimeLibraryPath.
          bindIO (\<lambda>w. (Ok (host_exists h runtimeLibraryPath w), w)) (\<lambda>found.
          if \<not> found then throwIO (RuntimeError (''nex runtime library does not exist: '' @ runtimeLibraryPath))
          else finallyIO (\<lambda>w. host_remove h llvmIrPath (host_remove h objectPath w))
            (assembleAndLink lc h llvmIrPath objectPath runtimeLibraryPath outputPath))))))"

section \<open>Main\<close>

text \<open>
  \<open>Crashed\<close>: the run follows a null pointer or reads out of bounds, which C++ leaves undefined.
  \<open>Diverges\<close>: the fuel of a back end was not enough. Of a run that ends with an exception the
  text on standard output is not modelled.
\<close>

datatype outcome = Exit nat "string option" string | Crashed | Diverges

definition crash_if_none :: "'a option \<Rightarrow> 'a result" where
  "crash_if_none v = (case v of None \<Rightarrow> Throw NullPointer | Some x \<Rightarrow> Ok x)"

definition lowers :: "Mode \<Rightarrow> bool" where
  "lowers mode \<longleftrightarrow> mode \<in> {Mode_DumpIr, Mode_DumpMlir, Mode_DumpLlvm, Mode_CompileExecutable}"

text \<open>Lowering in the modes that need it: what is printed, after the effects of the native link.\<close>

definition lowerUnit :: "build \<Rightarrow> 'w host \<Rightarrow> Options \<Rightarrow> TranslationUnit \<Rightarrow> ('w, string) io" where
  "lowerUnit bu h options unit =
     bindIO (pureIO (buildTypedIr unit)) (\<lambda>m.
     if opt_mode options = Mode_DumpIr then pureIO (dumpModule m)
     else if opt_mode options = Mode_DumpMlir then pureIO (bu_mlir bu m)
     else if opt_mode options = Mode_DumpLlvm then pureIO (bu_llvm bu m)
     else bindIO (compileExecutable bu h m (opt_outputPath options)) (\<lambda>_. returnIO []))"

text \<open>The phases on one source: the text on standard output and the diagnostics.\<close>

definition runPhases :: "build \<Rightarrow> 'w host \<Rightarrow> Options \<Rightarrow> SourceFile \<Rightarrow> ('w, string \<times> DiagnosticBag) io" where
  "runPhases bu h options src =
     (case tokenize src DiagnosticBag_new of (tokens, bag) \<Rightarrow>
        if opt_mode options = Mode_DumpTokens then returnIO (concat (map (dumpToken src) tokens), bag)
        else
          bindIO (pureIO (parseTranslationUnit src tokens bag)) (\<lambda>(unit, bag).
          if opt_mode options = Mode_DumpAst then
            bindIO (pureIO (crash_if_none (dumpAst unit))) (\<lambda>text. returnIO (text, bag))
          else if opt_mode options = Mode_DumpAstDot then
            bindIO (pureIO (crash_if_none (dumpAstDot unit))) (\<lambda>text. returnIO (text, bag))
          else
            bindIO (pureIO (if hasErrors bag then Ok bag else crash_if_none (analyze unit bag))) (\<lambda>bag.
            if lowers (opt_mode options) \<and> \<not> hasErrors bag
            then bindIO (lowerUnit bu h options unit) (\<lambda>text. returnIO (text, bag))
            else returnIO ([], bag))))"

definition runMain :: "build \<Rightarrow> 'w host \<Rightarrow> string list \<Rightarrow> ('w, outcome) io" where
  "runMain bu h argv =
     bindIO (pureIO (parseArgs argv)) (\<lambda>options.
     bindIO (\<lambda>w. (mergeSourceFiles h (opt_inputPaths options) w, w)) (\<lambda>(mergedLabel, mergedText).
     let source = SourceFile_new mergedLabel mergedText in
     bindIO (runPhases bu h options source) (\<lambda>(text, diagnostics).
     bindIO (pureIO (crash_if_none (printDiagnostics source diagnostics))) (\<lambda>messages.
     returnIO (Exit (if hasErrors diagnostics then 1 else 0) (Some text) messages)))))"

text \<open>The handlers of \<open>main\<close>.\<close>

definition report :: "string \<Rightarrow> string" where
  "report what = ''nexc: '' @ what @ [CHR 0x0A]"

definition handle :: "outcome result \<Rightarrow> outcome" where
  "handle r =
     (case r of
        Ok outcome \<Rightarrow> outcome
      | Throw (InvalidArgument what) \<Rightarrow> Exit 2 None (report what @ usage)
      | Throw (OutOfRange what) \<Rightarrow> Exit 1 None (report what)
      | Throw (LogicError what) \<Rightarrow> Exit 1 None (report what)
      | Throw (RuntimeError what) \<Rightarrow> Exit 1 None (report what)
      | Throw NullPointer \<Rightarrow> Crashed
      | OutOfFuel \<Rightarrow> Diverges)"

definition nexc_main :: "build \<Rightarrow> 'w host \<Rightarrow> string list \<Rightarrow> 'w \<Rightarrow> outcome \<times> 'w" where
  "nexc_main bu h argv w = (case runMain bu h argv w of (r, w') \<Rightarrow> (handle r, w'))"

end
