(* ===== verification/MlirTextProps.thy ===== *)
theory MlirTextProps
  imports MlirText SemTypesProps
begin

text \<open>
  The hand-written MLIR text: every operation leaves the dumper in the region and the loops it
  found it in and only adds text; the dumper returns on every module whose constants are not
  circular; constants that are make it run forever.
\<close>

section \<open>What a run of the dumper does\<close>

text \<open>
  \<open>doesT b Q f m\<close>: from loops and region depth that satisfy \<open>Q\<close>, a run of \<open>m\<close> that ends normally
  maps them with \<open>f\<close>, only adds text and only uses new names. \<open>b\<close> says whether it may run out of fuel.
\<close>

abbreviation nesting :: "TextualFunctionDumper \<Rightarrow> ActiveLoopText list \<times> nat" where
  "nesting st \<equiv> (td_activeLoops st, td_regionDepth st)"

definition extends_text :: "TextualFunctionDumper \<Rightarrow> TextualFunctionDumper \<Rightarrow> bool" where
  "extends_text st st' \<longleftrightarrow> prefix (td_out st) (td_out st') \<and> td_nextValueId st \<le> td_nextValueId st'"

definition doesT :: "bool \<Rightarrow> (ActiveLoopText list \<times> nat \<Rightarrow> bool) \<Rightarrow>
    (ActiveLoopText list \<times> nat \<Rightarrow> ActiveLoopText list \<times> nat) \<Rightarrow> 'a textual \<Rightarrow> bool" where
  "doesT b Q f m \<longleftrightarrow> (\<forall>st. Q (nesting st) \<longrightarrow> (case m st of
     Ok (x, st') \<Rightarrow> nesting st' = f (nesting st) \<and> extends_text st st' | Throw e \<Rightarrow> True | OutOfFuel \<Rightarrow> b))"

definition still :: "ActiveLoopText list \<times> nat \<Rightarrow> ActiveLoopText list \<times> nat" where
  "still c = c"

lemma still_eq: "still = (\<lambda>c. c)"
  by (rule ext) (simp add: still_def)

named_theorems doing

lemma extends_text_refl [simp]: "extends_text st st"
  by (simp add: extends_text_def)

lemma extends_text_trans: "extends_text a b \<Longrightarrow> extends_text b c \<Longrightarrow> extends_text a c"
  by (auto simp: extends_text_def)

lemma doesT_Ok: "doesT b Q f m \<Longrightarrow> Q (nesting st) \<Longrightarrow> m st = Ok (x, st') \<Longrightarrow> nesting st' = f (nesting st) \<and> extends_text st st'"
  unfolding doesT_def by (drule spec[of _ st]) simp

lemma doesT_OutOfFuel: "doesT b Q f m \<Longrightarrow> Q (nesting st) \<Longrightarrow> m st = OutOfFuel \<Longrightarrow> b"
  unfolding doesT_def by (drule spec[of _ st]) simp

lemma doesTI:
  assumes "\<And>st x st'. Q (nesting st) \<Longrightarrow> m st = Ok (x, st') \<Longrightarrow> nesting st' = f (nesting st) \<and> extends_text st st'"
    "\<And>st. Q (nesting st) \<Longrightarrow> m st = OutOfFuel \<Longrightarrow> b"
  shows "doesT b Q f m"
  unfolding doesT_def using assms by (auto split: result.splits)

lemma doesT_bind2:
  assumes m: "doesT b Q f m" and k: "\<And>x. doesT b Q' g (k x)" and q: "\<And>c. Q c \<Longrightarrow> Q' (f c)"
  shows "doesT b Q (\<lambda>c. g (f c)) (bindT m k)"
proof (rule doesTI)
  fix st y st2 assume Q: "Q (nesting st)" and r: "bindT m k st = Ok (y, st2)"
  then obtain x st1 where m1: "m st = Ok (x, st1)" and k1: "k x st1 = Ok (y, st2)"
    by (auto simp: bindT_def bindR_eq_Ok)
  note s1 = doesT_Ok[OF m Q m1]
  then have "Q' (nesting st1)" using q[OF Q] by simp
  from doesT_Ok[OF k this k1] s1 show "nesting st2 = g (f (nesting st)) \<and> extends_text st st2"
    using extends_text_trans by auto
next
  fix st assume Q: "Q (nesting st)" and r: "bindT m k st = OutOfFuel"
  show b
  proof (cases "m st")
    case OutOfFuel
    then show ?thesis using doesT_OutOfFuel[OF m Q] by simp
  next
    case (Ok p)
    obtain x st1 where m1: "m st = Ok (x, st1)" using Ok by (cases p) simp
    then have "Q' (nesting st1)" using q[OF Q] doesT_Ok[OF m Q m1] by simp
    moreover have "k x st1 = OutOfFuel" using r m1 by (simp add: bindT_def)
    ultimately show ?thesis using doesT_OutOfFuel[OF k] by blast
  qed (use r in \<open>simp add: bindT_def\<close>)
qed

lemma doesT_bind [doing]: "doesT b Q still m \<Longrightarrow> (\<And>x. doesT b Q f (g x)) \<Longrightarrow> doesT b Q f (bindT m g)"
  using doesT_bind2[of b Q still m Q f g] by (simp add: still_def)

lemma doesT_return [doing]: "doesT b Q still (returnT x)"
  by (simp add: doesT_def returnT_def still_def)

lemma doesT_lift [doing]: "r \<noteq> OutOfFuel \<Longrightarrow> doesT b Q still (liftT r)"
  by (cases r) (simp_all add: doesT_def liftT_def still_def)

lemma doesT_throw [doing]: "doesT b Q f (throwT s)" "doesT b Q f (\<lambda>st. Throw e)"
  by (simp_all add: doesT_def throwT_def)

lemma doesT_gets [doing]: "doesT b Q still (getsT f)"
  by (simp add: doesT_def getsT_def still_def)

lemma doesT_modify: "(\<And>st. nesting (u st) = f (nesting st) \<and> extends_text st (u st)) \<Longrightarrow> doesT b Q f (modifyT u)"
  by (simp add: doesT_def modifyT_def)

lemma doesT_out [doing]: "doesT b Q still (writeT s)" "doesT b Q still (lineT s)" "doesT b Q still (regionLineT s)"
  unfolding writeT_def lineT_def regionLineT_def by (rule doesT_modify; simp add: extends_text_def still_def)+

lemma doesT_names [doing]:
  "doesT b Q still (textual_bindValue r s)" "doesT b Q still (textual_lookupValue r)" "doesT b Q still nextValueName"
  "doesT b Q still (declareSlot l s)"
  by (auto simp: doesT_def textual_bindValue_def textual_lookupValue_def nextValueName_def declareSlot_def extends_text_def still_def
      split: option.split)

lemma doesT_if [doing]: "(c \<Longrightarrow> doesT b Q f m) \<Longrightarrow> (\<not> c \<Longrightarrow> doesT b Q f n) \<Longrightarrow> doesT b Q f (if c then m else n)"
  by simp

lemma doesT_option [doing]: "(c = None \<Longrightarrow> doesT b Q f m) \<Longrightarrow> (\<And>y. c = Some y \<Longrightarrow> doesT b Q f (g y)) \<Longrightarrow>
    doesT b Q f (case c of None \<Rightarrow> m | Some y \<Rightarrow> g y)"
  by (cases c) simp_all

lemma doesT_let [doing]: "doesT b Q f (g x) \<Longrightarrow> doesT b Q f (Let x g)"
  by simp

lemma doesT_for [doing]: "(\<And>x. x \<in> set xs \<Longrightarrow> doesT b Q still (g x)) \<Longrightarrow> doesT b Q still (forT g xs)"
  by (induction xs) (auto intro: doing)

lemma doesT_map [doing]: "(\<And>x. x \<in> set xs \<Longrightarrow> doesT b Q still (g x)) \<Longrightarrow> doesT b Q still (mapT g xs)"
  by (induction xs) (auto intro!: doesT_bind doesT_return)

section \<open>Results that never run out of fuel\<close>

lemma stoll0_fuel [simp]: "stoll0 s \<noteq> OutOfFuel"
  by (simp add: stoll0_def Let_def case_prod_unfold)

lemma bindR_no_fuel: "bindR m f = OutOfFuel \<longleftrightarrow> m = OutOfFuel \<or> (\<exists>x. m = Ok x \<and> f x = OutOfFuel)"
  by (cases m) simp_all

lemma literal_fuel [simp]: "parseIntegerLiteral s \<noteq> OutOfFuel" "mlir_requiredValue c v \<noteq> OutOfFuel"
  by (auto simp: parseIntegerLiteral_def mlir_requiredValue_def bindR_no_fuel case_prod_unfold split: option.split)

lemma types_fuel [simp]: "textualType t \<noteq> OutOfFuel" "textualMemrefSlotType t \<noteq> OutOfFuel" "textualFuncBoundaryType t \<noteq> OutOfFuel"
proof -
  show t: "textualType t \<noteq> OutOfFuel" for t by (simp add: textualType_def split: BuiltinTypeKind.split)
  show "textualMemrefSlotType t \<noteq> OutOfFuel" "textualFuncBoundaryType t \<noteq> OutOfFuel"
    by (auto simp: textualMemrefSlotType_def textualFuncBoundaryType_def t bindR_no_fuel)
qed

lemma ops_fuel [simp]: "textualBinaryOp k \<noteq> OutOfFuel" "textualFloatBinaryOp k \<noteq> OutOfFuel"
  "textualComparisonPredicate k \<noteq> OutOfFuel" "textualFloatComparisonPredicate k \<noteq> OutOfFuel"
  by (simp_all add: textualBinaryOp_def textualFloatBinaryOp_def textualComparisonPredicate_def
      textualFloatComparisonPredicate_def split: TokenKind.split)

lemma texts_fuel [simp]: "textualConstantName d \<noteq> OutOfFuel" "binaryText op l a b r \<noteq> OutOfFuel" "irLocalStorageType fn ref \<noteq> OutOfFuel"
  by (auto simp: textualConstantName_def binaryText_def irLocalStorageType_def bindR_no_fuel split: option.split)

lemma doesT_require [doing]: "doesT b Q still (requireT c v)" "doesT b Q still (requiredNameT c v)"
  unfolding requiredNameT_def requireT_def by (intro doing; simp)+

section \<open>Operations that own no block\<close>

lemma doesT_literals [doing]:
  "doesT b Q still (dumpIntegerLiteral d)" "doesT b Q still (dumpFloatLiteral d)" "doesT b Q still (dumpBoolLiteral d)"
  unfolding dumpIntegerLiteral_def dumpFloatLiteral_def dumpBoolLiteral_def by (intro doing; simp)+

lemma doesT_loadLocal [doing]: "doesT b Q still (dumpLoadLocal d)"
  unfolding dumpLoadLocal_def by (intro doing; simp)

lemma doesT_storeElement [doing]: "(\<And>r. doesT b Q still (look r)) \<Longrightarrow> doesT b Q still (storeElement look slot t p)"
  unfolding storeElement_def case_prod_unfold by (intro doing; simp)

lemma doesT_storeElements [doing]: "(\<And>r. doesT b Q still (look r)) \<Longrightarrow> doesT b Q still (storeElements look t es)"
  unfolding storeElements_def by (intro doing; simp)

lemma doesT_arrays [doing]: "doesT b Q still (dumpArrayLiteral d)" "doesT b Q still (dumpIndexLoad d)" "doesT b Q still (dumpIndexStore d)"
  unfolding dumpArrayLiteral_def dumpIndexLoad_def dumpIndexStore_def by (intro doing; simp)+

lemma doesT_copy [doing]: "doesT b Q still (dumpCoordinate c)" "doesT b Q still (copyElement r s n)" "doesT b Q still (copyElements r s)"
    "doesT b Q still (storeScalar r s)"
  unfolding dumpCoordinate_def copyElement_def copyElements_def storeScalar_def by (intro doing; simp)+

lemma doesT_locals [doing]: "doesT b Q still (dumpDeclareLocal env d)" "doesT b Q still (dumpStoreLocal d)"
  unfolding dumpDeclareLocal_def dumpStoreLocal_def by (intro doing; simp)+

lemma doesT_arithmetic [doing]: "doesT b Q still (dumpUnary d)" "doesT b Q still (textual_dumpBinary d)"
  unfolding dumpUnary_def textual_dumpBinary_def by (intro doing; simp)+

lemma doesT_call [doing]: "doesT b Q still (textual_dumpCall d)"
  unfolding textual_dumpCall_def by (intro doing; simp)

section \<open>Constants\<close>

lemma doesT_constLookup [doing]: "doesT b Q still (constLookup vals r)"
  unfolding constLookup_def by (intro doing; simp)

lemma doesT_constArithmetic [doing]: "doesT b Q still (constUnary d vals)" "doesT b Q still (constBinary d vals)"
  unfolding constUnary_def constBinary_def by (intro doing; simp)+

lemma doesT_constOperation:
  assumes "\<And>c. od_kind (op_data op) = Op_LoadConst \<Longrightarrow> te_constants env (od_text (op_data op)) = Some c \<Longrightarrow> doesT b Q still (replay c)"
  shows "doesT b Q still (constOperation env replay op vals)"
  unfolding constOperation_def Let_def
  by (cases "od_kind (op_data op)") (simp_all only: OperationKind.case, (intro doing assms; simp)+)

lemma doesT_constOperations:
  assumes "\<And>op c. op \<in> set ops \<Longrightarrow> od_kind (op_data op) = Op_LoadConst \<Longrightarrow>
      te_constants env (od_text (op_data op)) = Some c \<Longrightarrow> doesT b Q still (replay c)"
  shows "doesT b Q still (constOperations env replay ops vals)"
  using assms by (induction ops arbitrary: vals) (auto intro!: doing doesT_constOperation)

text \<open>The constants of a module are not circular: a rank decreases from a constant to those its initializer loads.\<close>

definition acyclic_constants :: "(string \<Rightarrow> IrConst option) \<Rightarrow> (string \<Rightarrow> nat) \<Rightarrow> nat \<Rightarrow> bool" where
  "acyclic_constants constants rank K \<longleftrightarrow> (\<forall>name c. constants name = Some c \<longrightarrow> rank name < K \<and>
     (\<forall>op \<in> set (bl_operations (ic_initializer c)). od_kind (op_data op) = Op_LoadConst \<longrightarrow>
        constants (od_text (op_data op)) \<noteq> None \<longrightarrow> rank (od_text (op_data op)) < rank name))"

lemma doesT_emitConst:
  assumes "\<not> b \<Longrightarrow> acyclic_constants (te_constants env) rank K \<and> rank name < n" "te_constants env name = Some c"
  shows "doesT b Q still (emitConstInitializerOperations n env c)"
  using assms
proof (induction n arbitrary: name c)
  case 0
  then show ?case by (auto simp: doesT_def outOfFuelT_def)
next
  case (Suc n)
  have "doesT b Q still (emitConstInitializerOperations n env c')"
    if op: "op \<in> set (bl_operations (ic_initializer c))" "od_kind (op_data op) = Op_LoadConst" "te_constants env (od_text (op_data op)) = Some c'"
    for op c'
    by (rule Suc.IH[OF _ op(3)]) (use Suc.prems op in \<open>fastforce simp: acyclic_constants_def\<close>)
  then show ?case unfolding emitConstInitializerOperations.simps by (intro doing doesT_constOperations)
qed

lemma doesT_loadConst:
  assumes "\<not> b \<Longrightarrow> acyclic_constants (te_constants env) rank K \<and> K \<le> n"
  shows "doesT b Q still (dumpLoadConst n env d)"
proof -
  have "doesT b Q still (emitConstInitializerOperations n env c)" if "te_constants env name = Some c" for name c
    by (rule doesT_emitConst[OF _ that]) (use assms that in \<open>fastforce simp: acyclic_constants_def\<close>)
  then show ?thesis unfolding dumpLoadConst_def by (intro doing)
qed

section \<open>Regions\<close>

text \<open>A predicate on an operation and everything inside it.\<close>

fun op_all :: "(Operation \<Rightarrow> bool) \<Rightarrow> Operation \<Rightarrow> bool" and block_all :: "(Operation \<Rightarrow> bool) \<Rightarrow> Block \<Rightarrow> bool" where
  "op_all P (Operation d c t e b s) \<longleftrightarrow> P (Operation d c t e b s) \<and>
     (\<forall>k \<in> set_option c \<union> set_option t \<union> set_option e \<union> set_option b \<union> set_option s. block_all P k)"
| "block_all P (Block sp ops t) \<longleftrightarrow> (\<forall>x \<in> set ops. op_all P x)"

definition op_blocks :: "Operation \<Rightarrow> Block set" where
  "op_blocks x = set_option (op_conditionBlock x) \<union> set_option (op_thenBlock x) \<union> set_option (op_elseBlock x) \<union>
     set_option (op_bodyBlock x) \<union> set_option (op_stepBlock x)"

lemma op_all_blocks: "op_all P x \<longleftrightarrow> P x \<and> (\<forall>k \<in> op_blocks x. block_all P k)"
  by (cases x) (simp add: op_blocks_def)

lemma block_all_ops: "block_all P k \<longleftrightarrow> (\<forall>x \<in> set (bl_operations k). op_all P x)"
  by (cases k) simp

lemma size_op_blocks: "k \<in> op_blocks x \<Longrightarrow> size k < size x"
  by (cases x) (auto simp: op_blocks_def)

lemma size_block_ops: "x \<in> set (bl_operations k) \<Longrightarrow> size x < size k"
proof (cases k)
  case (Block sp ops t)
  assume "x \<in> set (bl_operations k)"
  then have "size x \<le> size_list size ops" using Block by (intro size_list_estimation'[where x = x]) simp_all
  then show ?thesis using Block by simp
qed

text \<open>
  \<open>continue\<close> replays the step block of its loop. A step block without a jump and of bounded size
  needs a bounded amount of fuel, wherever it is replayed.
\<close>

definition no_continue :: "Operation \<Rightarrow> bool" where
  "no_continue x \<longleftrightarrow> od_kind (op_data x) \<noteq> Op_Continue"

definition bounded_step :: "nat \<Rightarrow> Block option \<Rightarrow> bool" where
  "bounded_step S step \<longleftrightarrow> (\<forall>k \<in> set_option step. block_all no_continue k \<and> size k \<le> S)"

definition bounded_steps :: "nat \<Rightarrow> Operation \<Rightarrow> bool" where
  "bounded_steps S x \<longleftrightarrow> bounded_step S (op_stepBlock x)"

definition loops_ok :: "nat \<Rightarrow> ActiveLoopText list \<times> nat \<Rightarrow> bool" where
  "loops_ok S c \<longleftrightarrow> (\<forall>l \<in> set (fst c). bounded_step S (al_stepBlock l))"

definition down :: "ActiveLoopText list \<times> nat \<Rightarrow> ActiveLoopText list \<times> nat" where
  "down c = (fst c, snd c + 1)"

definition up :: "ActiveLoopText list \<times> nat \<Rightarrow> ActiveLoopText list \<times> nat" where
  "up c = (fst c, snd c - 1)"

lemma doesT_up [doing]: "doesT b Q up shallower"
  unfolding shallower_def by (rule doesT_modify) (simp add: up_def extends_text_def)

text \<open>Conditions that regions do not touch.\<close>

definition region_closed :: "(ActiveLoopText list \<times> nat \<Rightarrow> bool) \<Rightarrow> bool" where
  "region_closed Q \<longleftrightarrow> (\<forall>c. Q c \<longrightarrow> Q (down c) \<and> Q (up c))"

lemma region_closedD: "region_closed Q \<Longrightarrow> Q c \<Longrightarrow> Q (down c)" "region_closed Q \<Longrightarrow> Q c \<Longrightarrow> Q (up c)"
  unfolding region_closed_def by blast+

text \<open>A region is entered and left again.\<close>

lemma doesT_region:
  assumes "doesT b Q up m" "region_closed Q"
  shows "doesT b Q still (bindT deeper (\<lambda>_. m))"
proof -
  have d: "doesT b Q down deeper" unfolding deeper_def by (rule doesT_modify) (simp add: down_def extends_text_def)
  have e: "(\<lambda>c. up (down c)) = still" by (rule ext) (simp add: up_def down_def still_def)
  show ?thesis
    using doesT_bind2[OF d assms(1)] region_closedD(1)[OF assms(2)] unfolding e by blast
qed

lemma doesT_then_up: "doesT b Q still m \<Longrightarrow> region_closed Q \<Longrightarrow> doesT b Q up (bindT shallower (\<lambda>_. m))"
  using doesT_bind2[OF doesT_up, of b Q still "\<lambda>_. m" Q] by (simp add: still_def region_closedD)

lemma doesT_terminator [doing]:
  "doesT b Q f m1 \<Longrightarrow> doesT b Q f m2 \<Longrightarrow> doesT b Q f m3 \<Longrightarrow> doesT b Q f m4 \<Longrightarrow> doesT b Q f m5 \<Longrightarrow>
    doesT b Q f (case k of Term_None \<Rightarrow> m1 | Term_Return \<Rightarrow> m2 | Term_ReturnValue \<Rightarrow> m3 | Term_ConditionValue \<Rightarrow> m4 | Term_InitValue \<Rightarrow> m5)"
  by (cases k) simp_all

lemma loops_ok_closed: "region_closed (loops_ok S)" "region_closed (\<lambda>_. True)"
  by (simp_all add: region_closed_def loops_ok_def down_def up_def)

lemma doesT_dumpOperations:
  assumes "\<And>x. x \<in> set xs \<Longrightarrow> doesT b Q still (op x)"
  shows "doesT b Q still (dumpOperations op xs)"
  using assms
proof (induction xs)
  case (Cons x xs)
  then show ?case unfolding dumpOperations.simps by (intro doing) simp_all
qed (simp add: doesT_return)

lemma doesT_yielding:
  assumes "\<And>x. x \<in> set (bl_operations k) \<Longrightarrow> doesT b Q still (op x)" "region_closed Q"
  shows "doesT b Q still (dumpYieldingReturnBlock op k)"
  unfolding dumpYieldingReturnBlock_def
  by (intro doesT_region doing doesT_dumpOperations assms) simp_all

lemma doesT_shortCircuit:
  assumes "\<And>k y. k \<in> op_blocks x \<Longrightarrow> y \<in> set (bl_operations k) \<Longrightarrow> doesT b Q still (op y)" "region_closed Q"
  shows "doesT b Q still (dumpShortCircuitValueOp op x)"
proof -
  have "doesT b Q still (dumpYieldingReturnBlock op k)" if "k \<in> op_blocks x" for k
    by (rule doesT_yielding[OF assms(1)[OF that] assms(2)])
  then have arms: "op_thenBlock x = Some k \<Longrightarrow> doesT b Q still (dumpYieldingReturnBlock op k)"
    "op_elseBlock x = Some k \<Longrightarrow> doesT b Q still (dumpYieldingReturnBlock op k)" for k by (simp_all add: op_blocks_def)
  have "doesT b Q still (emitTextualConditionLikeToI1 r)" for r
    unfolding emitTextualConditionLikeToI1_def by (intro doing)
  then show ?thesis unfolding dumpShortCircuitValueOp_def case_prod_unfold fst_conv snd_conv
    by (intro doing) (simp_all add: arms)
qed

lemma doesT_fallthroughIf:
  assumes "\<And>k c. k \<in> op_blocks x \<Longrightarrow> doesT b Q still (region c k)"
  shows "doesT b Q still (dumpFallthroughIf region x)"
  unfolding dumpFallthroughIf_def by (intro doing) (simp_all add: assms op_blocks_def)

lemma doesT_dumpIf:
  assumes "\<And>k y. k \<in> op_blocks x \<Longrightarrow> y \<in> set (bl_operations k) \<Longrightarrow> doesT b Q still (op y)" "region_closed Q"
    "\<And>k c. k \<in> op_blocks x \<Longrightarrow> doesT b Q still (region c k)"
  shows "doesT b Q still (textual_dumpIf op region x)"
proof -
  have "doesT b Q still (dumpYieldingReturnBlock op k)" if "k \<in> op_blocks x" for k
    by (rule doesT_yielding[OF assms(1)[OF that] assms(2)])
  then have arms: "op_thenBlock x = Some k \<Longrightarrow> doesT b Q still (dumpYieldingReturnBlock op k)"
    "op_elseBlock x = Some k \<Longrightarrow> doesT b Q still (dumpYieldingReturnBlock op k)" for k by (simp_all add: op_blocks_def)
  show ?thesis unfolding textual_dumpIf_def case_prod_unfold fst_conv snd_conv
    by (intro doing doesT_fallthroughIf assms(3)) (simp_all add: arms)
qed

lemma doesT_conditionBlock:
  assumes "\<And>y. y \<in> set (bl_operations k) \<Longrightarrow> doesT b Q still (op y)" "region_closed Q"
  shows "doesT b Q still (textual_dumpConditionBlock op k slot)"
  unfolding textual_dumpConditionBlock_def
  by (intro doesT_region doing doesT_dumpOperations assms) simp_all

definition pop_loop :: "ActiveLoopText list \<times> nat \<Rightarrow> ActiveLoopText list \<times> nat" where
  "pop_loop c = (tl (fst c), snd c)"

definition push_loop :: "ActiveLoopText \<Rightarrow> ActiveLoopText list \<times> nat \<Rightarrow> ActiveLoopText list \<times> nat" where
  "push_loop l c = (l # fst c, snd c)"

lemma doesT_loop:
  assumes "doesT b Q pop_loop m" "\<And>c. Q c \<Longrightarrow> Q (push_loop l c)"
  shows "doesT b Q still (bindT (modifyT (\<lambda>st. st\<lparr>td_activeLoops := l # td_activeLoops st\<rparr>)) (\<lambda>_. m))"
proof -
  have d: "doesT b Q (push_loop l) (modifyT (\<lambda>st. st\<lparr>td_activeLoops := l # td_activeLoops st\<rparr>))"
    by (rule doesT_modify) (simp add: push_loop_def extends_text_def)
  have e: "(\<lambda>c. pop_loop (push_loop l c)) = still" by (rule ext) (simp add: pop_loop_def push_loop_def still_def)
  show ?thesis using doesT_bind2[OF d assms(1)] assms(2) unfolding e by blast
qed

lemma doesT_while:
  assumes "\<And>k y. k \<in> op_blocks x \<Longrightarrow> y \<in> set (bl_operations k) \<Longrightarrow> doesT b Q still (op y)" "region_closed Q"
    "\<And>k c. k \<in> op_blocks x \<Longrightarrow> doesT b Q still (region c k)"
    "\<And>c s. Q c \<Longrightarrow> Q (push_loop \<lparr>al_exitSlotName = s, al_stepBlock = op_stepBlock x\<rparr> c)"
  shows "doesT b Q still (textual_dumpWhile op region x)"
proof -
  have pop: "doesT b Q pop_loop (modifyT (\<lambda>st. st\<lparr>td_activeLoops := tl (td_activeLoops st)\<rparr>))"
    by (rule doesT_modify) (simp add: pop_loop_def extends_text_def)
  have cond: "op_conditionBlock x = Some k \<Longrightarrow> doesT b Q still (textual_dumpConditionBlock op k s)" for k s
    by (rule doesT_conditionBlock[OF assms(1) assms(2)]) (simp_all add: op_blocks_def)
  show ?thesis unfolding textual_dumpWhile_def case_prod_unfold fst_conv snd_conv
    by (intro doesT_loop doing pop assms(3,4)) (simp_all add: cond op_blocks_def)
qed

lemma doesT_break: "region_closed Q \<Longrightarrow> doesT b Q up (dumpBreak context)"
  unfolding dumpBreak_def by (rule doesT_bind[OF doesT_gets], rename_tac loops, case_tac loops; simp; intro doing)

text \<open>\<open>continue\<close> finds the step block in the state.\<close>

lemma doesT_continue:
  assumes "\<And>k l c n. Q (c, n) \<Longrightarrow> l \<in> set c \<Longrightarrow> al_stepBlock l = Some k \<Longrightarrow> doesT b Q still (region ''for step on continue'' k)"
  shows "doesT b Q up (dumpContinue region context)"
proof (rule doesTI)
  let ?m = "\<lambda>loop. bindT (case al_stepBlock loop of None \<Rightarrow> returnT () | Some stepBlock \<Rightarrow> region ''for step on continue'' stepBlock) (\<lambda>_.
         bindT (regionLineT ''scf.yield'') (\<lambda>_. shallower))"
  fix st
  assume Q: "Q (nesting st)"
  have eq: "dumpContinue region context st = ?m loop st" if "td_activeLoops st = loop # loops" for loop loops
    using that by (simp add: dumpContinue_def bindT_def getsT_def)
  have nil: "dumpContinue region context st = Throw (LogicError (context @ '' contains `continue` outside any loop''))" if "td_activeLoops st = []"
    using that by (simp add: dumpContinue_def bindT_def getsT_def throwT_def)
  have d: "doesT b Q up (?m loop)" if "td_activeLoops st = loop # loops" for loop loops
    by (intro doing) (use assms[of "td_activeLoops st" "td_regionDepth st" loop] Q that in auto)
  { fix u st' assume r: "dumpContinue region context st = Ok (u, st')"
    show "nesting st' = up (nesting st) \<and> extends_text st st'"
    proof (cases "td_activeLoops st")
      case Nil then show ?thesis using nil r by simp
    next
      case (Cons loop loops)
      then show ?thesis using doesT_Ok[OF d[OF Cons] Q] eq[OF Cons] r by simp
    qed }
  assume r: "dumpContinue region context st = OutOfFuel"
  show b
  proof (cases "td_activeLoops st")
    case Nil then show ?thesis using nil r by simp
  next
    case (Cons loop loops)
    then show ?thesis using doesT_OutOfFuel[OF d[OF Cons] Q] eq[OF Cons] r by simp
  qed
qed

lemma doesT_regionOperations:
  assumes "\<And>y. y \<in> set ys \<Longrightarrow> od_kind (op_data y) \<noteq> Op_Continue \<Longrightarrow> doesT b Q still (op y)" "region_closed Q"
    "\<exists>y \<in> set ys. \<not> no_continue y \<Longrightarrow> doesT b Q up (dumpContinue region context)"
  shows "doesT b Q up (dumpRegionOperations op region context kind ys)"
  using assms(1,3)
proof (induction ys)
  case Nil
  show ?case unfolding dumpRegionOperations.simps by (intro doesT_then_up doing assms(2))
next
  case (Cons y ys)
  have "doesT b Q up (dumpRegionOperations op region context kind ys)" using Cons by simp
  then show ?case unfolding dumpRegionOperations.simps
    by (intro doing doesT_break assms(2)) (use Cons.prems in \<open>auto simp: no_continue_def\<close>)
qed

lemma doesT_regionStep:
  assumes "\<And>y. y \<in> set (bl_operations k) \<Longrightarrow> doesT b Q still (op y)" "region_closed Q"
    "\<exists>y \<in> set (bl_operations k). \<not> no_continue y \<Longrightarrow> doesT b Q up (dumpContinue region context)"
  shows "doesT b Q still (regionStep op region context k)"
  unfolding regionStep_def by (intro doesT_region doesT_regionOperations assms)

lemma doesT_thenFalse [doing]: "doesT b Q still m \<Longrightarrow> doesT b Q still (thenFalse m)"
  unfolding thenFalse_def by (intro doing)

lemma doesT_operationStep:
  assumes "\<not> b \<Longrightarrow> acyclic_constants (te_constants env) rank K \<and> K \<le> n"
    "\<And>k y. k \<in> op_blocks x \<Longrightarrow> y \<in> set (bl_operations k) \<Longrightarrow> doesT b Q still (op y)" "region_closed Q"
    "\<And>k c. k \<in> op_blocks x \<Longrightarrow> doesT b Q still (region c k)"
    "\<And>c s. Q c \<Longrightarrow> Q (push_loop \<lparr>al_exitSlotName = s, al_stepBlock = op_stepBlock x\<rparr> c)"
  shows "doesT b Q still (textual_operationStep n env op region x)"
proof -
  have parts: "doesT b Q still (dumpLoadConst n env (op_data x))" "doesT b Q still (dumpShortCircuitValueOp op x)"
    "doesT b Q still (textual_dumpIf op region x)" "doesT b Q still (textual_dumpWhile op region x)"
    by (rule doesT_loadConst[OF assms(1)], assumption) (rule doesT_shortCircuit[OF assms(2,3)] doesT_dumpIf[OF assms(2-4)] doesT_while[OF assms(2-5)]; assumption)+
  show ?thesis unfolding textual_operationStep_def Let_def
    by (cases "od_kind (op_data x)") (simp_all add: parts doing)
qed

lemma doesT_weaken: "doesT b (\<lambda>_. True) f m \<Longrightarrow> doesT b Q f m"
  by (simp add: doesT_def)

lemma doesT_no_fuel: "b \<Longrightarrow> doesT b Q f outOfFuelT"
  by (simp add: doesT_def outOfFuelT_def)

lemma size_pos: "0 < size (x :: Operation)" "0 < size (k :: Block)" "size x \<noteq> 0" "size k \<noteq> 0"
  by (cases x, simp, cases k, simp)+

text \<open>Without a jump that replays a step block, the depth of the nesting bounds the fuel.\<close>

lemma doesT_continue_free:
  assumes "\<not> b \<Longrightarrow> acyclic_constants (te_constants env) rank K"
  shows "(\<forall>x. op_all no_continue x \<longrightarrow> b \<or> size x + K \<le> n \<longrightarrow> doesT b (\<lambda>_. True) still (textual_dumpOperation n env x)) \<and>
    (\<forall>k ctx. block_all no_continue k \<longrightarrow> b \<or> size k + K \<le> n \<longrightarrow> doesT b (\<lambda>_. True) still (dumpFallthroughRegionBlock n env ctx k))"
proof (induction n)
  case 0
  show ?case by (auto intro: doesT_no_fuel simp: size_pos)
next
  case (Suc n)
  have op: "doesT b (\<lambda>_. True) still (textual_dumpOperation n env y)" if "op_all no_continue y" "b \<or> size y + K \<le> n" for y
    using Suc that by blast
  have region: "doesT b (\<lambda>_. True) still (dumpFallthroughRegionBlock n env ctx k)" if "block_all no_continue k" "b \<or> size k + K \<le> n" for k ctx
    using Suc that by blast
  show ?case
  proof (intro conjI allI impI)
    fix x assume x: "op_all no_continue x" "b \<or> size x + K \<le> Suc n"
    have k: "block_all no_continue k" "b \<or> size k + K \<le> n" if "k \<in> op_blocks x" for k
      using x(1) op_all_blocks[of no_continue x] that x(2) size_op_blocks[OF that] by auto
    have y: "op_all no_continue y" "b \<or> size y + K \<le> n" if "k \<in> op_blocks x" "y \<in> set (bl_operations k)" for k y
      using k[OF that(1)] block_all_ops[of no_continue k] that(2) size_block_ops[OF that(2)] by auto
    have "\<not> b \<Longrightarrow> acyclic_constants (te_constants env) rank K \<and> K \<le> n"
      using assms x(2) size_pos(1)[of x] by auto
    then show "doesT b (\<lambda>_. True) still (textual_dumpOperation (Suc n) env x)"
      unfolding textual_dumpOperation.simps
    proof (rule doesT_operationStep)
      show "doesT b (\<lambda>_. True) still (textual_dumpOperation n env y)" if "k \<in> op_blocks x" "y \<in> set (bl_operations k)" for k y
        by (rule op[OF y[OF that]])
      show "doesT b (\<lambda>_. True) still (dumpFallthroughRegionBlock n env ctx k)" if "k \<in> op_blocks x" for k ctx
        by (rule region[OF k[OF that]])
    qed (simp_all add: loops_ok_closed)
  next
    fix k ctx assume k: "block_all no_continue k" "b \<or> size k + K \<le> Suc n"
    have "op_all no_continue y" "b \<or> size y + K \<le> n" if "y \<in> set (bl_operations k)" for y
      using k block_all_ops[of no_continue k] that size_block_ops[OF that] by auto
    moreover have "no_continue y" if "y \<in> set (bl_operations k)" for y
      using k(1) that block_all_ops[of no_continue k] op_all_blocks[of no_continue y] by auto
    ultimately show "doesT b (\<lambda>_. True) still (dumpFallthroughRegionBlock (Suc n) env ctx k)"
      unfolding dumpFallthroughRegionBlock.simps
      by (intro doesT_regionStep op loops_ok_closed) auto
  qed
qed

text \<open>
  In general the fuel must reach the constants and the step blocks from every depth. With
  \<open>b\<close> nothing is asked of the operation: the run may be cut short, but it does not leave its region.
\<close>

lemma doesT_dump:
  assumes "\<not> b \<Longrightarrow> acyclic_constants (te_constants env) rank K"
  shows "(\<forall>x. b \<or> op_all (bounded_steps S) x \<and> size x + S + K \<le> n \<longrightarrow> doesT b (\<lambda>c. b \<or> loops_ok S c) still (textual_dumpOperation n env x)) \<and>
    (\<forall>k ctx. b \<or> block_all (bounded_steps S) k \<and> size k + S + K \<le> n \<longrightarrow>
       doesT b (\<lambda>c. b \<or> loops_ok S c) still (dumpFallthroughRegionBlock n env ctx k))"
    (is "?P n")
proof (induction n)
  case 0
  then show ?case by (auto intro: doesT_no_fuel simp: size_pos)
next
  case (Suc n)
  let ?Q = "\<lambda>c. b \<or> loops_ok S c"
  have closed: "region_closed ?Q" by (auto simp: region_closed_def loops_ok_def down_def up_def)
  have op: "doesT b ?Q still (textual_dumpOperation n env y)" if "b \<or> op_all (bounded_steps S) y \<and> size y + S + K \<le> n" for y
    using Suc that by blast
  have region: "doesT b ?Q still (dumpFallthroughRegionBlock n env ctx k)" if "b \<or> block_all (bounded_steps S) k \<and> size k + S + K \<le> n" for k ctx
    using Suc that by blast
  show ?case
  proof (intro conjI allI impI)
    fix x assume x: "b \<or> op_all (bounded_steps S) x \<and> size x + S + K \<le> Suc n"
    have k: "b \<or> block_all (bounded_steps S) k \<and> size k + S + K \<le> n" if "k \<in> op_blocks x" for k
      using x op_all_blocks[of "bounded_steps S" x] that size_op_blocks[OF that] by auto
    have y: "b \<or> op_all (bounded_steps S) y \<and> size y + S + K \<le> n" if "k \<in> op_blocks x" "y \<in> set (bl_operations k)" for k y
      using k[OF that(1)] block_all_ops[of "bounded_steps S" k] that(2) size_block_ops[OF that(2)] by auto
    have "\<not> b \<Longrightarrow> acyclic_constants (te_constants env) rank K \<and> K \<le> n"
      using assms x size_pos(1)[of x] by auto
    then show "doesT b ?Q still (textual_dumpOperation (Suc n) env x)"
      unfolding textual_dumpOperation.simps
    proof (rule doesT_operationStep)
      show "doesT b ?Q still (textual_dumpOperation n env y)" if "k \<in> op_blocks x" "y \<in> set (bl_operations k)" for k y
        by (rule op[OF y[OF that]])
      show "doesT b ?Q still (dumpFallthroughRegionBlock n env ctx k)" if "k \<in> op_blocks x" for k ctx
        by (rule region[OF k[OF that]])
      show "?Q (push_loop \<lparr>al_exitSlotName = s, al_stepBlock = op_stepBlock x\<rparr> c)" if "?Q c" for c s
        using that x op_all_blocks[of "bounded_steps S" x] by (auto simp: loops_ok_def push_loop_def bounded_steps_def)
    qed (simp_all add: closed)
  next
    fix k ctx assume k: "b \<or> block_all (bounded_steps S) k \<and> size k + S + K \<le> Suc n"
    have y: "b \<or> op_all (bounded_steps S) y \<and> size y + S + K \<le> n" if "y \<in> set (bl_operations k)" for y
      using k block_all_ops[of "bounded_steps S" k] that size_block_ops[OF that] by auto
    have "doesT b ?Q up (dumpContinue (dumpFallthroughRegionBlock n env) ctx)"
    proof (rule doesT_continue)
      fix step l c d assume l: "?Q (c, d)" "l \<in> set c" "al_stepBlock l = Some step"
      show "doesT b ?Q still (dumpFallthroughRegionBlock n env ''for step on continue'' step)"
      proof (cases b)
        case False
        then have s: "block_all no_continue step" "size step \<le> S" using l by (auto simp: loops_ok_def bounded_step_def)
        have "S + K \<le> n" using k False size_pos(2)[of k] by auto
        then have "b \<or> size step + K \<le> n" using s(2) by simp
        then have "doesT b (\<lambda>_. True) still (dumpFallthroughRegionBlock n env ''for step on continue'' step)"
          using conjunct2[OF doesT_continue_free[where n = n, OF assms]] s(1) by blast
        then show ?thesis by (rule doesT_weaken)
      next
        case True
        then show ?thesis by (intro region) simp
      qed
    qed
    note continue = this
    show "doesT b ?Q still (dumpFallthroughRegionBlock (Suc n) env ctx k)"
      unfolding dumpFallthroughRegionBlock.simps
    proof (rule doesT_regionStep)
      show "doesT b ?Q still (textual_dumpOperation n env y)" if "y \<in> set (bl_operations k)" for y
        by (rule op) (rule y[OF that])
    qed (rule closed continue)+
  qed
qed

text \<open>C30: However a region ends - at its end, at a \<open>break\<close>, at a \<open>continue\<close> that replays the step block - the
  dumper is back at the depth and in the loops it came from; text is only added and the counter of
  generated names never goes back.\<close>

theorem dump_keeps_nesting:
  assumes "textual_dumpOperation n env x st = Ok (returned, st')"
  shows "td_regionDepth st' = td_regionDepth st \<and> td_activeLoops st' = td_activeLoops st \<and>
    prefix (td_out st) (td_out st') \<and> td_nextValueId st \<le> td_nextValueId st'"
proof -
  have "doesT True (\<lambda>c. True \<or> loops_ok 0 c) still (textual_dumpOperation n env x)"
    using doesT_dump[of True env undefined 0 0 n] by simp
  from doesT_Ok[OF this _ assms] show ?thesis by (simp add: still_def extends_text_def)
qed

text \<open>\<open>while (true) { break; }\<close>.\<close>

definition breaking_loop :: Operation where
  "breaking_loop = (let sp = mk_span 0 0; v = \<lparr>vr_id = 0, vr_type = scalar Bool\<rparr> in
     Operation (mk_operation Op_While sp)
       (Some (Block sp [plain_op ((mk_operation Op_BoolLiteral sp)\<lparr>od_result := Some v, od_boolValue := True\<rparr>)]
         \<lparr>tm_kind = Term_ConditionValue, tm_span = sp, tm_value = Some v\<rparr>)) None None
       (Some (Block sp [plain_op (mk_operation Op_Break sp)] Terminator_none)) None)"

lemma dump_keeps_nesting_witness:
  "\<exists>st'. textual_dumpOperation 3 (undefined :: text_env) breaking_loop TextualFunctionDumper_new = Ok (False, st') \<and>
     td_regionDepth st' = 0 \<and> td_activeLoops st' = []"
proof -
  let ?r = "textual_dumpOperation 3 (undefined :: text_env) breaking_loop TextualFunctionDumper_new"
  have "case ?r of Ok (returned, st) \<Rightarrow> \<not> returned | _ \<Rightarrow> False" by code_simp
  then obtain st' where "?r = Ok (False, st')" by (auto split: result.splits)
  then show ?thesis using dump_keeps_nesting[of 3 undefined breaking_loop TextualFunctionDumper_new False st']
    by (simp add: TextualFunctionDumper_new_def)
qed

section \<open>Functions and modules\<close>

lemma doesT_function:
  assumes "acyclic_constants (te_constants env) rank K" "block_all (bounded_steps S) (fn_body (te_function env))"
    "size (fn_body (te_function env)) + S + K \<le> n"
  shows "textual_dumpFunction n env TextualFunctionDumper_new \<noteq> OutOfFuel"
proof -
  let ?Q = "\<lambda>c. False \<or> loops_ok S c"
  have "doesT False ?Q still (textual_dumpOperation n env y)" if "y \<in> set (bl_operations (fn_body (te_function env)))" for y
    using doesT_dump[of False env rank K S n] assms block_all_ops[of "bounded_steps S" "fn_body (te_function env)"] that
      size_block_ops[OF that] by auto
  then have body: "doesT False ?Q still (textual_dumpBlock n env (fn_body (te_function env)))"
    unfolding textual_dumpBlock_def textual_dumpTerminator_def by (intro doing doesT_dumpOperations) simp_all
  have modify: "doesT False ?Q still (modifyT (\<lambda>st. st\<lparr>td_localValues := constBind (td_localValues st) r name\<rparr>))" for r name
    by (rule doesT_modify) (simp add: still_def extends_text_def)
  have "doesT False ?Q still (dumpParameter p)" for p
    unfolding dumpParameter_def case_prod_unfold by (intro doing modify) simp_all
  then have "doesT False ?Q still (textual_dumpFunction n env)"
    unfolding textual_dumpFunction_def by (intro doing body) simp_all
  from doesT_OutOfFuel[OF this, of TextualFunctionDumper_new] show ?thesis
    by (auto simp: loops_ok_def TextualFunctionDumper_new_def)
qed

lemma dumpFunctions_ends:
  assumes "\<And>fn. fn \<in> set fns \<Longrightarrow> textual_dumpFunction n \<lparr>te_function = fn, te_constants = constants\<rparr> TextualFunctionDumper_new \<noteq> OutOfFuel"
  shows "dumpFunctions n constants fns \<noteq> OutOfFuel"
  using assms by (induction fns) (auto simp: bindR_no_fuel case_prod_unfold)

text \<open>The fuel a module needs.\<close>

definition mlir_fuel :: "nat \<Rightarrow> nat \<Rightarrow> Module \<Rightarrow> nat" where
  "mlir_fuel S K m = Max (insert 0 ((\<lambda>fn. size (fn_body fn)) ` set (md_functions m))) + S + K"

section \<open>More fuel\<close>

text \<open>More fuel does not change a run that ended.\<close>

definition fuelT :: "'a textual \<Rightarrow> 'a textual \<Rightarrow> bool" where
  "fuelT m m' \<longleftrightarrow> (\<forall>st. fuel_le (m st) (m' st))"

named_theorems fueled

lemma fuelT_bind [fueled]: "fuelT m m' \<Longrightarrow> (\<And>x. fuelT (f x) (f' x)) \<Longrightarrow> fuelT (bindT m f) (bindT m' f')"
  unfolding fuelT_def bindT_def by (auto intro!: fuel_le_bindR simp: case_prod_unfold)

lemma fuelT_refl: "fuelT m m"
  by (simp add: fuelT_def)

lemma fuelT_outOfFuel: "fuelT outOfFuelT m"
  by (simp add: fuelT_def outOfFuelT_def)

lemma fuelT_cases [fueled]:
  "(c \<Longrightarrow> fuelT m m') \<Longrightarrow> (\<not> c \<Longrightarrow> fuelT n n') \<Longrightarrow> fuelT (if c then m else n) (if c then m' else n')"
  "fuelT m m' \<Longrightarrow> (\<And>y. fuelT (g y) (g' y)) \<Longrightarrow> fuelT (case v of None \<Rightarrow> m | Some y \<Rightarrow> g y) (case v of None \<Rightarrow> m' | Some y \<Rightarrow> g' y)"
  "fuelT (h x) (h' x) \<Longrightarrow> fuelT (Let x h) (Let x h')"
  "fuelT l l' \<Longrightarrow> (\<And>y ys. fuelT (k y ys) (k' y ys)) \<Longrightarrow> fuelT (case xs of [] \<Rightarrow> l | y # ys \<Rightarrow> k y ys) (case xs of [] \<Rightarrow> l' | y # ys \<Rightarrow> k' y ys)"
  by (cases v; cases xs; simp)+

lemma fuelT_constOperation:
  "(\<And>c. fuelT (replay c) (replay' c)) \<Longrightarrow> fuelT (constOperation env replay op vals) (constOperation env replay' op vals)"
  unfolding constOperation_def Let_def
  by (cases "od_kind (op_data op)") (simp_all add: fuelT_refl fueled)

lemma fuelT_constOperations:
  "(\<And>c. fuelT (replay c) (replay' c)) \<Longrightarrow> fuelT (constOperations env replay ops vals) (constOperations env replay' ops vals)"
  by (induction ops arbitrary: vals) (simp_all add: fuelT_refl fueled fuelT_constOperation)

lemma fuelT_emitConst: "fuelT (emitConstInitializerOperations n env c) (emitConstInitializerOperations (Suc n) env c)"
proof (induction n arbitrary: c)
  case (Suc n)
  show ?case
    by (subst emitConstInitializerOperations.simps(2), subst emitConstInitializerOperations.simps(2))
      (intro fueled fuelT_constOperations Suc fuelT_refl)
qed (simp add: fuelT_outOfFuel)

lemma fuelT_operations:
  "(\<And>y. fuelT (op y) (op' y)) \<Longrightarrow> fuelT (dumpOperations op xs) (dumpOperations op' xs)"
  by (induction xs) (simp_all add: fuelT_refl fueled)

lemma fuelT_yielding:
  "(\<And>y. fuelT (op y) (op' y)) \<Longrightarrow> fuelT (dumpYieldingReturnBlock op k) (dumpYieldingReturnBlock op' k)"
  unfolding dumpYieldingReturnBlock_def by (intro fueled fuelT_operations fuelT_refl)

lemma fuelT_shortCircuit:
  assumes "\<And>y. fuelT (op y) (op' y)"
  shows "fuelT (dumpShortCircuitValueOp op x) (dumpShortCircuitValueOp op' x)"
  unfolding dumpShortCircuitValueOp_def case_prod_unfold fst_conv snd_conv
  by (intro fueled fuelT_yielding assms fuelT_refl)

lemma fuelT_blocks:
  assumes "\<And>y. fuelT (op y) (op' y)" "\<And>c k. fuelT (region c k) (region' c k)"
  shows "fuelT (textual_dumpIf op region x) (textual_dumpIf op' region' x)"
    "fuelT (textual_dumpWhile op region x) (textual_dumpWhile op' region' x)"
  unfolding textual_dumpIf_def dumpFallthroughIf_def textual_dumpWhile_def textual_dumpConditionBlock_def
    case_prod_unfold fst_conv snd_conv
  by (intro fueled fuelT_operations fuelT_yielding assms fuelT_refl)+

lemma fuelT_region:
  assumes "\<And>y. fuelT (op y) (op' y)" "\<And>c k. fuelT (region c k) (region' c k)"
  shows "fuelT (regionStep op region ctx k) (regionStep op' region' ctx k)"
proof -
  have "fuelT (dumpContinue region ctx) (dumpContinue region' ctx)"
    unfolding dumpContinue_def by (intro fueled assms fuelT_refl)
  then have "fuelT (dumpRegionOperations op region ctx kind ys) (dumpRegionOperations op' region' ctx kind ys)" for kind ys
    by (induction ys) (simp_all add: fuelT_refl fueled assms)
  then show ?thesis unfolding regionStep_def by (intro fueled fuelT_refl)
qed

lemma fuelT_dump:
  "fuelT (textual_dumpOperation n env x) (textual_dumpOperation (Suc n) env x)"
  "fuelT (dumpFallthroughRegionBlock n env ctx k) (dumpFallthroughRegionBlock (Suc n) env ctx k)"
proof (induction n arbitrary: x ctx k)
  case 0
  { case 1 then show ?case by (simp add: fuelT_outOfFuel)
  next case 2 then show ?case by (simp add: fuelT_outOfFuel) }
next
  case (Suc n)
  { case 1
    have l: "fuelT (dumpLoadConst n env d) (dumpLoadConst (Suc n) env d)" for d
      unfolding dumpLoadConst_def by (intro fueled fuelT_emitConst fuelT_refl)
    have "fuelT (textual_operationStep n env (textual_dumpOperation n env) (dumpFallthroughRegionBlock n env) x)
      (textual_operationStep (Suc n) env (textual_dumpOperation (Suc n) env) (dumpFallthroughRegionBlock (Suc n) env) x)"
      unfolding textual_operationStep_def Let_def thenFalse_def
      by (cases "od_kind (op_data x)") 
        (simp_all add: fuelT_refl fuelT_bind fuelT_shortCircuit fuelT_blocks Suc l del: textual_dumpOperation.simps dumpFallthroughRegionBlock.simps)
    then show ?case by (subst textual_dumpOperation.simps(2), subst textual_dumpOperation.simps(2))
  next
    case 2
    show ?case by (subst dumpFallthroughRegionBlock.simps(2), subst dumpFallthroughRegionBlock.simps(2)) (intro fuelT_region Suc)
  }
qed

lemma fuel_le_function:
  "fuelT (textual_dumpFunction n env) (textual_dumpFunction (Suc n) env)"
  unfolding textual_dumpFunction_def textual_dumpBlock_def Let_def
  by (intro fueled fuelT_operations fuelT_dump fuelT_refl)

lemma fuel_le_functions: "fuel_le (dumpFunctions n constants fns) (dumpFunctions (Suc n) constants fns)"
proof (induction fns)
  case (Cons fn fns)
  then show ?case using fuel_le_function[of n] unfolding fuelT_def
    by (auto intro!: fuel_le_bindR simp: case_prod_unfold)
qed simp

lemma fuel_le_mlir: "n \<le> n' \<Longrightarrow> fuel_le (dumpTextualMlir n m) (dumpTextualMlir n' m)"
proof (induction n' rule: dec_induct)
  case (step n')
  have "fuel_le (dumpTextualMlir n' m) (dumpTextualMlir (Suc n') m)"
    unfolding dumpTextualMlir_def by (intro fuel_le_bindR fuel_le_functions fuel_le_refl)
  then show ?case using step fuel_le_trans by blast
qed simp

text \<open>C29: When no constant is defined through itself and no step clause jumps, the dumper comes to an end,
  and fuel beyond the bound changes nothing.\<close>

theorem dumpTextualMlir_returns:
  assumes "acyclic_constants (module_constants m) rank K"
    "\<And>fn. fn \<in> set (md_functions m) \<Longrightarrow> block_all (bounded_steps S) (fn_body fn)" "mlir_fuel S K m \<le> n"
  shows "dumpTextualMlir n m \<noteq> OutOfFuel \<and> (\<forall>n' \<ge> n. dumpTextualMlir n' m = dumpTextualMlir n m)"
proof -
  have "size (fn_body fn) + S + K \<le> n" if "fn \<in> set (md_functions m)" for fn
  proof -
    have "size (fn_body fn) \<le> Max (insert 0 ((\<lambda>fn. size (fn_body fn)) ` set (md_functions m)))"
      using that by (intro Max_ge) auto
    then show ?thesis using assms(3) by (simp add: mlir_fuel_def)
  qed
  then have "dumpFunctions n (module_constants m) (md_functions m) \<noteq> OutOfFuel"
    by (intro dumpFunctions_ends doesT_function[where rank = rank and K = K and S = S]) (simp_all add: assms(1,2))
  then have "dumpTextualMlir n m \<noteq> OutOfFuel" by (simp add: dumpTextualMlir_def bindR_no_fuel)
  then show ?thesis using fuel_le_mlir[of n _ m] unfolding fuel_le_def by blast
qed

text \<open>\<open>const A: i32 = 1; const B: i32 = A; fn main() -> i32 { return B; }\<close>.\<close>

definition loads :: "string \<Rightarrow> SourceSpan \<Rightarrow> Operation" where
  "loads name sp = plain_op ((mk_operation Op_LoadConst sp)\<lparr>od_result := Some \<lparr>vr_id = 0, vr_type = scalar I32\<rparr>, od_text := name\<rparr>)"

definition first_value :: "TerminatorKind \<Rightarrow> SourceSpan \<Rightarrow> Terminator" where
  "first_value kind sp = \<lparr>tm_kind = kind, tm_span = sp, tm_value = Some \<lparr>vr_id = 0, vr_type = scalar I32\<rparr>\<rparr>"

definition i32_const :: "string \<Rightarrow> SourceSpan \<Rightarrow> SourceSpan \<Rightarrow> Operation \<Rightarrow> IrConst" where
  "i32_const name sp isp op = \<lparr>ic_name = name, ic_type = scalar I32, ic_span = sp,
     ic_initializer = Block isp [op] (first_value Term_InitValue isp), ic_nextValueId = 1\<rparr>"

definition returns_const :: "string \<Rightarrow> SourceSpan \<Rightarrow> SourceSpan \<Rightarrow> SourceSpan \<Rightarrow> SourceSpan \<Rightarrow> IrFunction" where
  "returns_const name sp bsp rsp vsp = \<lparr>fn_name = ''main'', fn_parameters = [], fn_returnType = scalar I32, fn_span = sp, fn_locals = [],
     fn_body = Block bsp [loads name vsp] (first_value Term_ReturnValue rsp), fn_nextValueId = 1\<rparr>"

definition chained_module :: Module where
  "chained_module = (let sp = mk_span 0 0 in \<lparr>md_constants =
     [i32_const ''A'' sp sp (plain_op ((mk_operation Op_IntegerLiteral sp)
        \<lparr>od_result := Some \<lparr>vr_id = 0, vr_type = scalar I32\<rparr>, od_text := ''1''\<rparr>)),
      i32_const ''B'' sp sp (loads ''A'' sp)],
     md_functions = [returns_const ''B'' sp sp sp sp]\<rparr>)"

lemmas chained_defs = Let_def chained_module_def i32_const_def returns_const_def loads_def first_value_def plain_op_def mk_operation_def module_constants_def

lemma chained_acyclic: "acyclic_constants (module_constants chained_module) (\<lambda>name. if name = ''A'' then 0 else 1) 2"
  by (auto simp: acyclic_constants_def chained_defs split: if_splits)

lemma dumpTextualMlir_returns_witness:
  "dumpTextualMlir (mlir_fuel 0 2 chained_module) chained_module \<noteq> OutOfFuel"
  by (rule dumpTextualMlir_returns[OF chained_acyclic, where S = 0, THEN conjunct1])
    (auto simp: chained_defs bounded_steps_def bounded_step_def)

section \<open>Copies of arrays\<close>

text \<open>Declaring or storing an array copies it element by element: the copies visit every index of the array once.\<close>

lemma slotCoordinates_radix:
  assumes "r < prod_list (map unat dims)" "prod_list (map unat dims) < 2 ^ 64"
  shows "mixed_radix (map unat dims) (map unat (slotCoordinates (of_nat r) dims)) = r \<and>
    list_all2 (<) (map unat (slotCoordinates (of_nat r) dims)) (map unat dims)"
  using assms
proof (induction dims arbitrary: r)
  case (Cons d dims)
  let ?p = "prod_list (map unat dims)"
  have pos: "0 < unat d" "0 < ?p" using Cons.prems(1) by (auto intro: Nat.gr0I)
  then have "?p \<le> unat d * ?p" by simp
  then have small: "?p < 2 ^ 64" "r < 2 ^ 64" using Cons.prems unfolding list.map prod_list.Cons by linarith+
  have stride: "word_product dims = of_nat ?p" by (simp add: word_product_def foldl_mult_word)
  have up: "unat (of_nat ?p :: 64 word) = ?p" "unat (of_nat r :: 64 word) = r" using small by (simp_all add: unat_of_nat)
  have q: "unat ((of_nat r :: 64 word) div of_nat ?p) = r div ?p" by (simp add: unat_div up del: unat_of_nat)
  have m: "(of_nat r :: 64 word) mod of_nat ?p = of_nat (r mod ?p)"
  proof -
    have "r mod ?p < 2 ^ 64" using small pos by (meson mod_less_divisor order.strict_trans)
    then have "unat (of_nat (r mod ?p) :: 64 word) = r mod ?p" by (simp add: unat_of_nat)
    then show ?thesis unfolding word_unat_eq_iff unat_mod up by simp
  qed
  have "r mod ?p < ?p" using pos by simp
  note ih = Cons.IH[OF this small(1)]
  have "r div ?p < unat d" using Cons.prems(1) pos by (simp add: less_mult_imp_div_less)
  then show ?case using ih by (simp add: Let_def stride q m)
qed simp



section \<open>Circular constants\<close>

text \<open>The module of \<open>const A: i32 = A; fn main() -> i32 { return A; }\<close>: no amount of fuel is enough.\<close>

definition circular_const :: IrConst where
  "circular_const = i32_const ''A'' (mk_span 0 17) (mk_span 15 16) (loads ''A'' (mk_span 15 16))"

definition circular_module :: Module where
  "circular_module = \<lparr>md_constants = [circular_const],
     md_functions = [returns_const ''A'' (mk_span 18 48) (mk_span 35 48) (mk_span 37 46) (mk_span 44 45)]\<rparr>"

abbreviation circular_env :: text_env where
  "circular_env \<equiv> \<lparr>te_function = hd (md_functions circular_module), te_constants = module_constants circular_module\<rparr>"

lemma circular_lookup: "module_constants circular_module ''A'' = Some circular_const"
  by (simp add: module_constants_def circular_module_def circular_const_def i32_const_def)

lemma circular_replay: "emitConstInitializerOperations n circular_env circular_const st = OutOfFuel"
proof (induction n arbitrary: st)
  case (Suc n)
  have "constOperations circular_env (emitConstInitializerOperations n circular_env)
      (bl_operations (ic_initializer circular_const)) (\<lambda>_. None) st = OutOfFuel"
    using Suc circular_lookup
    by (simp add: circular_const_def i32_const_def loads_def plain_op_def mk_operation_def constOperation_def requireT_def liftT_def
        bindT_def mlir_requiredValue_def)
  then show ?case by (simp add: bindT_def)
qed (simp add: outOfFuelT_def)

lemma circular_never_returns: "dumpTextualMlir n circular_module = OutOfFuel"
proof -
  have "textual_dumpOperation n circular_env (loads ''A'' sp) st = OutOfFuel" for sp st
    using circular_lookup circular_replay
    by (cases n) (simp_all add: outOfFuelT_def textual_operationStep_def loads_def plain_op_def mk_operation_def thenFalse_def dumpLoadConst_def
        requireT_def liftT_def bindT_def mlir_requiredValue_def)
  then show ?thesis
    by (simp add: dumpTextualMlir_def circular_module_def returns_const_def textual_dumpFunction_def textual_dumpBlock_def bindT_def writeT_def modifyT_def
        returnT_def liftT_def Let_def IrType_defs textualFuncBoundaryType_def textualType_def)
qed

section \<open>Names of constants\<close>

text \<open>
  The names of integer constants are made of the value alone: two literals of one function that
  are spelled alike define the same name, which MLIR does not allow.
\<close>

lemma same_literal_defined_twice:
  assumes "dumpIntegerLiteral d st = Ok ((), st1)" "dumpIntegerLiteral d' st1 = Ok ((), st2)" "od_text d' = od_text d"
  shows "\<exists>name rest. td_out st2 = td_out st @ (name @ '' = '' @ rest) @ (name @ '' = '' @ rest)"
proof -
  have run: "\<exists>v. parseIntegerLiteral (od_text d) = Ok v \<and> td_out st' = td_out st @ text_indent st @ ''%c'' @ signed_string v @ ''_i32 = arith.constant '' @
      signed_string v @ '' : i32'' @ [CHR 0x0A] \<and> td_regionDepth st' = td_regionDepth st"
    if "dumpIntegerLiteral d st = Ok ((), st')" for d st st'
    using that
    by (auto simp: dumpIntegerLiteral_def bindT_def bindR_eq_Ok requireT_def liftT_def mlir_requiredValue_def throwT_def lineT_def modifyT_def
        textualConstantName_def textualType_def textual_bindValue_def split: option.splits if_splits)
  obtain v where v: "parseIntegerLiteral (od_text d) = Ok v" "td_regionDepth st1 = td_regionDepth st"
    "td_out st1 = td_out st @ text_indent st @ ''%c'' @ signed_string v @ ''_i32 = arith.constant '' @ signed_string v @ '' : i32'' @ [CHR 0x0A]"
    using run[OF assms(1)] by blast
  obtain w where w: "parseIntegerLiteral (od_text d') = Ok w"
    "td_out st2 = td_out st1 @ text_indent st1 @ ''%c'' @ signed_string w @ ''_i32 = arith.constant '' @ signed_string w @ '' : i32'' @ [CHR 0x0A]"
    using run[OF assms(2)] by blast
  have "w = v" using v(1) w(1) assms(3) by simp
  moreover have "text_indent st1 = text_indent st" using v(2) by (simp add: text_indent_def)
  ultimately show ?thesis using v(3) w(2)
    by (intro exI[of _ "text_indent st @ ''%c'' @ signed_string v @ ''_i32''"] exI[of _ "''arith.constant '' @ signed_string v @ '' : i32'' @ [CHR 0x0A]"])
      simp
qed

end
