(* ===== verification/DriverProps.thy ===== *)
theory DriverProps
  imports Driver MlirTextProps
begin

text \<open>
  What the driver promises: the grammar of the command line and what a malformed one leads to, the
  exit status, and that the native link leaves no temporary file behind once it has started the tools.
\<close>

section \<open>Command line\<close>

lemma split_arguments:
  assumes "4 \<le> length argv"
  obtains a inputs x y where "argv = a # inputs @ [x, y]" "inputs \<noteq> []"
proof -
  obtain a rest where a: "argv = a # rest" "3 \<le> length rest" using assms by (cases argv) auto
  obtain init y where y: "rest = init @ [y]" "2 \<le> length init" using a(2) by (cases rest rule: rev_cases) auto
  obtain inputs x where i: "init = inputs @ [x]" using y(2) by (cases init rule: rev_cases) auto
  then have "inputs \<noteq> []" using y(2) by auto
  then show thesis using that[of a inputs x y] a y i by simp
qed

lemma middle_arguments: "map (\<lambda>i. (a # inputs @ [x, y]) ! i) [1..<Suc (length inputs)] = inputs"
proof -
  have "[1..<Suc (length inputs)] = map Suc [0..<length inputs]" by (simp add: map_Suc_upt)
  then have "map (\<lambda>i. (a # inputs @ [x, y]) ! i) [1..<Suc (length inputs)] = map (\<lambda>i. (inputs @ [x, y]) ! i) [0..<length inputs]"
    by (simp only: map_map) simp
  also have "\<dots> = inputs" by (rule nth_equalityI) (simp_all add: nth_append)
  finally show ?thesis .
qed

text \<open>The grammar of the command line.\<close>

definition command_line :: "string list \<Rightarrow> Options \<Rightarrow> bool" where
  "command_line argv options \<longleftrightarrow>
     (\<exists>name flag mode path. argv = [name, flag, path] \<and> mode_of flag = Some mode \<and>
        options = \<lparr>opt_mode = mode, opt_inputPaths = [path], opt_outputPath = []\<rparr>) \<or>
     (\<exists>name inputs out. argv = name # inputs @ [''-o'', out] \<and> inputs \<noteq> [] \<and>
        options = \<lparr>opt_mode = Mode_CompileExecutable, opt_inputPaths = inputs, opt_outputPath = out\<rparr>)"

lemma parseArgs_iff: "parseArgs argv = Ok options \<longleftrightarrow> command_line argv options"
proof -
  consider (three) a b c where "argv = [a, b, c]" | (more) a inputs x y where "argv = a # inputs @ [x, y]" "inputs \<noteq> []"
    | (few) "length argv < 3"
  proof -
    have "length argv < 3 \<or> length argv = 3 \<or> 4 \<le> length argv" by auto
    then show thesis
    proof (elim disjE)
      assume "length argv = 3"
      then obtain a b c where "argv = [a, b, c]" by (auto simp: numeral_3_eq_3 length_Suc_conv)
      then show thesis by (rule that(1))
    next
      assume "4 \<le> length argv"
      then show thesis by (rule split_arguments) (rule that(2))
    qed (rule that(3))
  qed
  then show ?thesis
  proof cases
    case three
    then show ?thesis by (auto simp: parseArgs_def command_line_def Cons_eq_append_conv split: option.splits)
  next
    case more
    have "length inputs \<noteq> 0" using more(2) by simp
    then show ?thesis using more(2) middle_arguments[of a inputs x y] unfolding more(1)
      by (auto simp: parseArgs_def command_line_def Let_def nth_append)
  next
    case few
    then show ?thesis by (auto simp: parseArgs_def command_line_def Let_def)
  qed
qed

lemma parseArgs_cases: "(\<exists>options. parseArgs argv = Ok options) \<or> (\<exists>what. parseArgs argv = Throw (InvalidArgument what))"
  by (auto simp: parseArgs_def Let_def split: option.split)


section \<open>The native link\<close>

text \<open>Removing a file takes it, and no other, off the system; \<open>files\<close> are those that exist.\<close>

definition removes :: "'w host \<Rightarrow> ('w \<Rightarrow> string set) \<Rightarrow> bool" where
  "removes h files \<longleftrightarrow> (\<forall>p w. files (host_remove h p w) = files w - {p})"

text \<open>C32: Once the runtime library is found, neither temporary file is left behind, whatever llc and the
  linker do and however the link fails; and it succeeds only if both tools exit with 0.\<close>

theorem link_cleans_up:
  assumes "removes h files" "bu_link bu = Some lc" "writeTemporaryLlvmIr bu h m w = (Ok ir, w1)"
    "writeTemporaryObjectFilePath h w1 = (Ok obj, w2)" "resolveRuntimeLibrary lc h w2 = Ok rt" "host_exists h rt w2"
    "compileExecutable bu h m out w = (r, w')"
  shows "ir \<notin> files w' \<and> obj \<notin> files w' \<and>
    (r = Ok () \<longleftrightarrow> (\<exists>w3 w4. host_spawn h (llc_argv lc ir obj) w2 = (Exited 0, w3) \<and> host_spawn h (link_argv lc obj rt out) w3 = (Exited 0, w4)))"
proof -
  obtain w5 where a: "assembleAndLink lc h ir obj rt out w2 = (r, w5)" "w' = host_remove h ir (host_remove h obj w5)"
    using assms(2-7) by (auto simp: compileExecutable_def bindIO_def finallyIO_def split: prod.splits)
  have "r = Ok () \<longleftrightarrow> (\<exists>w3 w4. host_spawn h (llc_argv lc ir obj) w2 = (Exited 0, w3) \<and> host_spawn h (link_argv lc obj rt out) w3 = (Exited 0, w4))"
    using a(1) by (auto simp: assembleAndLink_def bindIO_def runChildProcess_def throwIO_def returnIO_def
      split: prod.splits child_status.splits result.splits if_splits)
  then show ?thesis using a(2) assms(1) by (simp add: removes_def)
qed

text \<open>Before that point nothing cleans up: a missing runtime library leaves the LLVM text behind.\<close>

lemma missing_runtime_leaks:
  assumes "bu_link bu = Some lc" "writeTemporaryLlvmIr bu h m w = (Ok ir, w1)" "writeTemporaryObjectFilePath h w1 = (Ok obj, w2)"
    "resolveRuntimeLibrary lc h w2 = Throw e"
  shows "compileExecutable bu h m out w = (Throw e, w2)"
  using assms by (simp add: compileExecutable_def bindIO_def)

text \<open>A system whose files are a set of names and whose tools always succeed.\<close>

definition sample_host :: "string set host" where
  "sample_host = \<lparr>host_read = \<lambda>p w. Some ''fn main() -> i32 { return 0; }'', host_temp_dir = \<lambda>_. ''/tmp'',
     host_mkstemps = \<lambda>p n w. (Inr p, insert p w), host_open = \<lambda>p w. (True, insert p w), host_write = \<lambda>p s w. (True, w),
     host_remove = \<lambda>p w. w - {p}, host_exists = \<lambda>p w. p = ''/rt.a'', host_getenv = \<lambda>n w. Some ''/rt.a'',
     host_executable = \<lambda>w. Inr ''/bin/nexc'', host_spawn = \<lambda>argv w. (Exited 0, w)\<rparr>"

definition sample_link :: link_config where
  "sample_link = \<lparr>lc_llc = ''/llc'', lc_ld_lld = ''/ld.lld'', lc_dynamic_linker = ''/ld.so'', lc_scrt1 = ''/S.o'', lc_crti = ''/i.o'',
     lc_libdir = ''/lib'', lc_crtn = ''/n.o'', lc_runtime_relative = None, lc_darwin = None\<rparr>"

definition sample_build :: build where
  "sample_build = \<lparr>bu_mlir = \<lambda>m. Ok [], bu_llvm = \<lambda>m. Ok ''ir'', bu_link = Some sample_link\<rparr>"

lemma sample_link_run:
  "writeTemporaryLlvmIr sample_build sample_host m {} = (Ok ''/tmp/nexc-llvm-XXXXXX.ll'', {''/tmp/nexc-llvm-XXXXXX.ll''})"
  "writeTemporaryObjectFilePath sample_host {''/tmp/nexc-llvm-XXXXXX.ll''} = (Ok ''/tmp/nexc-obj-XXXXXX.o'', {''/tmp/nexc-llvm-XXXXXX.ll''})"
  "resolveRuntimeLibrary sample_link sample_host w = Ok ''/rt.a''" "host_exists sample_host ''/rt.a'' w"
  by (simp_all add: writeTemporaryLlvmIr_def writeTemporaryObjectFilePath_def resolveRuntimeLibrary_def sample_build_def sample_host_def
    sample_link_def path_append_def Let_def)

lemma link_cleans_up_witness:
  "case compileExecutable sample_build sample_host \<lparr>md_constants = [], md_functions = []\<rparr> ''out'' {} of (r, files) \<Rightarrow>
     ''/tmp/nexc-llvm-XXXXXX.ll'' \<notin> files \<and> ''/tmp/nexc-obj-XXXXXX.o'' \<notin> files \<and> r = Ok ()"
proof -
  let ?m = "\<lparr>md_constants = [], md_functions = []\<rparr> :: Module"
  have "removes sample_host (\<lambda>w. w)" by (simp add: removes_def sample_host_def)
  moreover have "bu_link sample_build = Some sample_link" by (simp add: sample_build_def)
  moreover obtain r w' where "compileExecutable sample_build sample_host ?m ''out'' {} = (r, w')"
    by (cases "compileExecutable sample_build sample_host ?m ''out'' {}")
  ultimately show ?thesis
    using link_cleans_up[OF _ _ sample_link_run(1,2,3,4)] by (fastforce simp: sample_host_def)
qed

section \<open>Exit status\<close>

lemma runPhases_checked:
  assumes "opt_mode options = Mode_Check \<or> lowers (opt_mode options)"
  shows "runPhases bu h options src =
    bindIO (pureIO (bindR (checkSource src DiagnosticBag_new) crash_if_none)) (\<lambda>(unit, bag).
      if lowers (opt_mode options) \<and> \<not> hasErrors bag
      then bindIO (lowerUnit bu h options unit) (\<lambda>text. returnIO (text, bag)) else returnIO ([], bag))"
proof
  fix w
  have m: "opt_mode options \<noteq> Mode_DumpTokens" "opt_mode options \<noteq> Mode_DumpAst" "opt_mode options \<noteq> Mode_DumpAstDot"
    using assms by (auto simp: lowers_def)
  obtain tokens bag where t: "tokenize src DiagnosticBag_new = (tokens, bag)" by (cases "tokenize src DiagnosticBag_new")
  show "runPhases bu h options src w =
    bindIO (pureIO (bindR (checkSource src DiagnosticBag_new) crash_if_none)) (\<lambda>(unit, bag).
      if lowers (opt_mode options) \<and> \<not> hasErrors bag
      then bindIO (lowerUnit bu h options unit) (\<lambda>text. returnIO (text, bag)) else returnIO ([], bag)) w"
    using m t by (cases "parseTranslationUnit src tokens bag")
      (auto simp: runPhases_def checkSource_def parseSource_def bindIO_def pureIO_def crash_if_none_def returnIO_def split: option.split)
qed

lemma handle_Throw: "handle (Throw e) = Exit status out err \<Longrightarrow> status = 1 \<or> status = 2"
  by (cases e) (simp_all add: handle_def)

lemma handle_no_fuel: "r \<noteq> OutOfFuel \<Longrightarrow> (\<And>x. r = Ok x \<Longrightarrow> x \<noteq> Diverges) \<Longrightarrow> handle r \<noteq> Diverges"
  by (cases r) (auto simp: handle_def split: cpp_exception.split)

text \<open>The end of a run, given what the phases returned.\<close>

lemma runMain_end:
  assumes "parseArgs argv = Ok options" "mergeSourceFiles h (opt_inputPaths options) w = Ok (label, text)"
    "runPhases bu h options (SourceFile_new label text) w = (r, w')"
  shows "nexc_main bu h argv w = (case r of
      Ok (out, bag) \<Rightarrow> (case printDiagnostics (SourceFile_new label text) bag of None \<Rightarrow> Crashed
        | Some messages \<Rightarrow> Exit (if hasErrors bag then 1 else 0) (Some out) messages)
    | Throw e \<Rightarrow> handle (Throw e) | OutOfFuel \<Rightarrow> Diverges, w')"
  using assms by (auto simp: nexc_main_def runMain_def bindIO_def pureIO_def returnIO_def crash_if_none_def handle_def Let_def
    split: result.split prod.split option.split)

lemma checkSource_ends: "checkSource src bag \<noteq> OutOfFuel"
  using parseSource_ext[where src = src and bag = bag] by (cases "parseSource src bag") (auto simp: checkSource_def split: if_splits)

text \<open>C27: \<open>--check\<close> exits with 0 exactly on the files the checker accepts, and the modes that lower exit with 0 only
  on those; the other statuses are 1 and 2. Checking a file always ends and changes nothing on the system.\<close>

theorem exit_status:
  assumes "parseArgs argv = Ok options" "mergeSourceFiles h (opt_inputPaths options) w = Ok (label, text)"
    "opt_mode options = Mode_Check \<or> lowers (opt_mode options)"
  shows "case nexc_main bu h argv w of (outcome, w') \<Rightarrow>
    (\<forall>status out err. outcome = Exit status out err \<longrightarrow> status \<le> 2 \<and>
       (status = 0 \<longrightarrow> accepted (SourceFile_new label text) \<noteq> None) \<and>
       (opt_mode options = Mode_Check \<longrightarrow> accepted (SourceFile_new label text) \<noteq> None \<longrightarrow> status = 0)) \<and>
    (opt_mode options = Mode_Check \<longrightarrow> outcome \<noteq> Diverges \<and> w' = w)"
proof -
  let ?src = "SourceFile_new label text" and ?c = "checkSource (SourceFile_new label text) DiagnosticBag_new"
  note phases = runPhases_checked[OF assms(3), of bu h ?src]
  note finish = runMain_end[OF assms(1,2), of bu]
  have check: "opt_mode options = Mode_Check \<Longrightarrow> \<not> lowers (opt_mode options)" by (simp add: lowers_def)
  consider (thrown) e where "?c = Throw e" | (crash) "?c = Ok None" | (checked) unit bag where "?c = Ok (Some (unit, bag))"
    using checkSource_ends[of ?src DiagnosticBag_new] by (cases ?c) (auto, metis not_None_eq surj_pair)
  then show ?thesis
  proof cases
    case thrown
    then have "nexc_main bu h argv w = (handle (Throw e), w)" using finish[of "Throw e" w] by (simp add: phases bindIO_def pureIO_def)
    then show ?thesis using thrown handle_no_fuel[of "Throw e"] by (auto simp: accepted_def dest: handle_Throw)
  next
    case crash
    then have "nexc_main bu h argv w = (Crashed, w)"
      using finish[of "Throw NullPointer" w] by (simp add: phases bindIO_def pureIO_def crash_if_none_def handle_def)
    then show ?thesis by simp
  next
    case d: checked
    then have acc: "accepted ?src = (if hasErrors bag then None else Some unit)" by (simp add: accepted_def)
    show ?thesis
    proof (cases "lowers (opt_mode options) \<and> \<not> hasErrors bag")
      case True
      obtain r w' where r: "lowerUnit bu h options unit w = (r, w')" by (cases "lowerUnit bu h options unit w")
      then have "runPhases bu h options ?src w = (bindR r (\<lambda>out. Ok (out, bag)), w')"
        using d True by (cases r) (simp_all add: phases bindIO_def pureIO_def crash_if_none_def returnIO_def)
      then show ?thesis using finish[of "bindR r (\<lambda>out. Ok (out, bag))" w'] True acc check
        by (cases r) (auto dest: handle_Throw split: option.split)
    next
      case False
      then have "runPhases bu h options ?src w = (Ok ([], bag), w)"
        using d by (auto simp: phases bindIO_def pureIO_def crash_if_none_def returnIO_def)
      then show ?thesis using finish[of "Ok ([], bag)" w] acc by (auto split: option.split)
    qed
  qed
qed

definition check_options :: Options where
  "check_options = \<lparr>opt_mode = Mode_Check, opt_inputPaths = [''a''], opt_outputPath = []\<rparr>"

lemma exit_status_witness:
  "parseArgs [''nexc'', ''--check'', ''a''] = Ok check_options \<and>
   snd (nexc_main sample_build sample_host [''nexc'', ''--check'', ''a''] {}) = {}"
proof -
  have args: "parseArgs [''nexc'', ''--check'', ''a''] = Ok check_options"
    by (simp add: parseArgs_def mode_of_def check_options_def)
  have merge: "mergeSourceFiles sample_host (opt_inputPaths check_options) {} = Ok (''a'', ''fn main() -> i32 { return 0; }'')"
    by (simp add: mergeSourceFiles_def readFile_def sample_host_def check_options_def)
  have mode: "opt_mode check_options = Mode_Check" by (simp add: check_options_def)
  obtain outcome w' where run: "nexc_main sample_build sample_host [''nexc'', ''--check'', ''a''] {} = (outcome, w')"
    by (cases "nexc_main sample_build sample_host [''nexc'', ''--check'', ''a''] {}")
  have "w' = {}" using exit_status[OF args merge disjI1[OF mode], of sample_build] unfolding run mode prod.case by blast
  then show ?thesis using args run by simp
qed

section \<open>A constant defined by itself\<close>

definition circular_unit :: TranslationUnit where
  "circular_unit = (let i32_at = \<lambda>s. \<lparr>ts_kind = I32, ts_arrayDimensions = [], ts_pointerDepth = 0, ts_span = s\<rparr> in
    [ConstDecl (mk_span 0 17) ''A'' (mk_span 6 7) (i32_at (mk_span 9 12)) (NameExpr (mk_span 15 16) ''A''),
     FunctionDecl (mk_span 18 48) ''main'' (mk_span 21 25) [] (i32_at (mk_span 31 34)) (mk_span 35 48)
       [ReturnStmt (mk_span 37 46) (Some (NameExpr (mk_span 44 45) ''A''))]])"

abbreviation circular_text :: string where
  "circular_text \<equiv> ''const A: i32 = A; fn main() -> i32 { return A; }''"

lemma circular_accepted: "accepted (SourceFile_new path circular_text) = Some circular_unit"
  by code_simp

lemma circular_built: "buildTypedIr circular_unit = Ok circular_module"
  by code_simp

text \<open>C28: The checker accepts a constant that is its own initializer; lowering it to MLIR text never ends, whatever the fuel.\<close>

theorem circular_diverges:
  assumes "host_read h path w = Some circular_text"
  shows "accepted (SourceFile_new path circular_text) \<noteq> None \<and>
    nexc_main (fallback_build n link) h [name, ''--dump-mlir'', path] w = (Diverges, w)"
proof -
  let ?o = "\<lparr>opt_mode = Mode_DumpMlir, opt_inputPaths = [path], opt_outputPath = []\<rparr>"
  have args: "parseArgs [name, ''--dump-mlir'', path] = Ok ?o" by (simp add: parseArgs_iff command_line_def mode_of_def)
  have merge: "mergeSourceFiles h (opt_inputPaths ?o) w = Ok (path, circular_text)"
    by (simp add: mergeSourceFiles_def readFile_def assms)
  have acc: "accepted (SourceFile_new path circular_text) = Some circular_unit" by (rule circular_accepted)
  then obtain bag where c: "checkSource (SourceFile_new path circular_text) DiagnosticBag_new = Ok (Some (circular_unit, bag))" "\<not> hasErrors bag"
    by (auto simp: accepted_def split: result.splits option.splits if_splits)
  have "lowerUnit (fallback_build n link) h ?o circular_unit w = (OutOfFuel, w)"
    by (simp add: lowerUnit_def bindIO_def pureIO_def circular_built fallback_build_def circular_never_returns)
  then have "runPhases (fallback_build n link) h ?o (SourceFile_new path circular_text) w = (OutOfFuel, w)"
    by (subst runPhases_checked) (simp_all add: lowers_def bindIO_def pureIO_def crash_if_none_def c)
  from runMain_end[OF args merge this] acc show ?thesis by simp
qed

lemma circular_diverges_witness:
  "nexc_main (fallback_build 1000 None) (sample_host\<lparr>host_read := \<lambda>p w. Some circular_text\<rparr>) [''nexc'', ''--dump-mlir'', ''a''] {} = (Diverges, {})"
  by (rule conjunct2[OF circular_diverges]) simp

end
