(* ===== verification/Spec2Isabelle.thy ===== *)
theory Spec2Isabelle
  imports IrRefines IrDumpProps StringDecodeProps SemTypesProps RuntimeNumbers DriverProps
begin

text \<open>
  The nexc compiler: front end, semantic analyser, typed intermediate representation, MLIR text,
  driver, and the runtime library of compiled programs.

  \<^bold>\<open>The program.\<close> \<open>nexc\<close> merges its source files into one, turns it into tokens (\<open>src/frontend/lexer.cpp\<close>),
  tokens into a tree (\<open>parser.cpp\<close>, \<open>ast.h\<close>), checks the tree (\<open>semantic.cpp\<close>), lowers it to a
  typed intermediate representation (\<open>src/ir/builder.cpp\<close>, \<open>include/nexc/ir/ir.h\<close>) and prints that as
  text (\<open>src/ir/dump.cpp\<close>) or hands it to the MLIR and LLVM text back ends (\<open>src/mlir/textual.cpp\<close>,
  \<open>src/llvm/textual.cpp\<close>). Every stage reports through one \<open>DiagnosticBag\<close> (\<open>diagnostic.cpp\<close>); the next
  stage runs only without errors. \<open>src/tools/nexc/main.cpp\<close> drives the stages, and for an executable
  runs llc and the linker on the LLVM text; the program is linked with \<open>runtime/nex_runtime.c\<close>.

  \<^bold>\<open>How the model reads.\<close> Structs are records, class hierarchies and enums are datatypes, a null
  \<open>unique_ptr\<close> is \<open>None\<close>, \<open>std::map\<close> and \<open>unordered_map\<close> are maps, \<open>uint64_t\<close> is \<open>64 word\<close> where
  arithmetic can wrap. An exception is a value: \<open>'a result\<close> is \<open>Ok\<close>, \<open>Throw\<close> or \<open>OutOfFuel\<close>; the last
  is proved impossible for every entry point but the MLIR text. Methods of a class with state become functions on a
  record of that state: \<open>Lexer\<close>, \<open>Parser\<close> pass it explicitly, the analyser uses \<open>State_Monad\<close>, the
  IR builder \<open>'a build = builder \<Rightarrow> ('a \<times> builder) result\<close>. Loops that need not be structural carry
  fuel given by the length of the remaining input (\<open>Lexer_fuel\<close>, \<open>Parser_fuel\<close>), which never runs out.
  The MLIR text dumper replays constants and step blocks; \<open>mlir_fuel\<close> bounds what it needs when
  constants are not circular, and more changes nothing; on circular constants the code recurses without
  end, and so does the model for every fuel. The system calls of the runtime and the operations of the
  host that the driver uses are parameters (\<open>syscalls\<close>, \<open>host\<close>), constrained by hypotheses that
  state what their manual pages say.

  \<^bold>\<open>Theories.\<close>
  \<^item> \<open>Prelude\<close>, \<open>Numbers\<close>: results, their rules, decimal numerals.
  \<^item> \<open>Source\<close>, \<open>Tokens\<close>, \<open>Diagnostics\<close>: positions, token kinds, diagnostics. Line and column by binary
    search agree with counting newlines and grow with the offset.
  \<^item> \<open>Lexer\<close>; \<open>LexerProps\<close>, \<open>LexerStream\<close>: the token stream tiles the file; without errors every token
    is a lexeme of its kind, as long as possible.
  \<^item> \<open>StringDecode\<close>, \<open>StringDecodeProps\<close>: string escapes and format strings; what was lexed decodes, and
    format strings are exactly those of the grammar.
  \<^item> \<open>Ast\<close>, \<open>AstDump\<close>: the tree and both dumps of it.
  \<^item> \<open>Parser\<close>; \<open>ParserProps\<close>, \<open>ParserStmtProps\<close>, \<open>Frontend\<close>: the parser ends on every input; without
    errors the tree spells the tokens and expressions are grouped by precedence.
  \<^item> \<open>SemTypes\<close>, \<open>Semantic\<close>, \<open>SemanticExpr\<close>, \<open>SemanticStmt\<close>: the analyser, in the order of
    \<open>semantic.cpp\<close>: types and constants, symbol tables and assignment state, expressions, statements
    and items. \<open>SemTypesProps\<close> has the facts on constants and offsets.
  \<^item> \<open>SemanticFacts\<close>: what every step of the analyser keeps; it ends without following a null child.
  \<^item> \<open>Typing\<close> is a declarative type system; \<open>TypingProps\<close>, \<open>TypingStmts\<close>, \<open>TypingUnit\<close> show that a file
    analysed without errors is well typed. \<open>ReturnPaths\<close> treats control flow.
  \<^item> \<open>Pipeline\<close>: the stages one after the other (\<open>checkSource\<close>, \<open>accepted\<close>).
  \<^item> \<open>Ir\<close>, \<open>IrBuilder\<close>, \<open>IrDump\<close>: the intermediate representation, the lowering, the dump.
    \<open>IrFacts\<close> has the induction and weakest precondition rules for the builder; \<open>IrWellformed\<close> and
    \<open>IrDumpProps\<close> show that modules are well formed and their dump is defined.
  \<^item> \<open>IrTraces\<close> gives a trace semantics to statements and to blocks; \<open>IrTraceExprs\<close> and \<open>IrTraceStmts\<close>
    show that lowering keeps it, \<open>IrRefines\<close> states it for accepted files.
  \<^item> \<open>MlirText\<close>: the hand-written dumper of MLIR text, method by method. \<open>MlirTextProps\<close>: regions are
    closed, array copies visit every index, and how much fuel is enough.
  \<^item> \<open>Driver\<close>, \<open>DriverProps\<close>: command line, phases, exit status, native link and its temporary files.
  \<^item> \<open>Runtime\<close>: output, line input, number parsing and printing. \<open>RuntimeIo\<close>: output arrives in order
    and, if writes progress, whole; lines are read as written. \<open>RuntimeProps\<close>: numbers are accepted exactly
    by their grammar. \<open>RuntimeNumbers\<close>: what is printed is read back.

  \<^bold>\<open>Not modelled.\<close> \<open>FunctionLowerer\<close> and the pass pipeline (the parts of \<open>src/mlir/textual.cpp\<close> and
  \<open>src/llvm/textual.cpp\<close> for builds with MLIR) only call the C++ interface of libraries that are not in
  the repository. \<open>currentExecutablePath\<close> is an answer of the host. The fixed point printer of the
  runtime computes on doubles and is left out. The text a dump wrote before it threw is not modelled.
  Traces leave the values of
  conditions open: what an operation computes is not part of the refinement. Counters for value and
  local ids are unbounded numbers, since a body with 2^64 operations does not fit in memory.
\<close>

end
